(* ===== verification/Prelude.thy ===== *)
theory Prelude
  imports Main
begin

text \<open>
  Shared ground of the development: Go's 64-bit integers and truncated division, Go's
  \<open>(value, error)\<close> results as sums, the string primitives of package \<open>strings\<close> that the
  sources use, and the generic lemmas on lists and association lists that several components
  need.
\<close>

section \<open>Collections of facts\<close>

named_theorems i64_simps \<open>64-bit arithmetic that stays in range\<close>
named_theorems ledger_simps \<open>effects of the balance operations on the counters\<close>
named_theorems status_simps \<open>status tests of the lifecycles\<close>

section \<open>Results\<close>

text \<open>A Go function that returns \<open>(T, error)\<close> is a function into \<open>'e + 'a\<close>: \<open>Inl\<close> the error.\<close>

type_synonym ('a, 'e) result = "'e + 'a"

definition bind_r :: "'e + 'a \<Rightarrow> ('a \<Rightarrow> 'e + 'b) \<Rightarrow> 'e + 'b" where
  "bind_r r f = (case r of Inl e \<Rightarrow> Inl e | Inr x \<Rightarrow> f x)"

lemma bind_r_simps [simp]:
  "bind_r (Inl e) f = Inl e"
  "bind_r (Inr x) f = f x"
  by (simp_all add: bind_r_def)

lemma bind_r_eq_Inr: "bind_r r f = Inr y \<longleftrightarrow> (\<exists>x. r = Inr x \<and> f x = Inr y)"
  by (cases r) auto

lemma bind_r_eq_Inl: "bind_r r f = Inl e \<longleftrightarrow> r = Inl e \<or> (\<exists>x. r = Inr x \<and> f x = Inl e)"
  by (cases r) auto

fun fold_r :: "('a \<Rightarrow> 's \<Rightarrow> 'e + 's) \<Rightarrow> 'a list \<Rightarrow> 's \<Rightarrow> 'e + 's" where
  "fold_r f [] s = Inr s"
| "fold_r f (x # xs) s = (case f x s of Inl e \<Rightarrow> Inl e | Inr s' \<Rightarrow> fold_r f xs s')"

lemma fold_r_invariant:
  assumes "fold_r f xs s = Inr t" and "P s"
    and "\<And>x s s'. x \<in> set xs \<Longrightarrow> P s \<Longrightarrow> f x s = Inr s' \<Longrightarrow> P s'"
  shows "P t"
  using assms
proof (induction xs arbitrary: s)
  case Nil
  then show ?case by simp
next
  case (Cons x xs)
  then obtain s' where "f x s = Inr s'" and rest: "fold_r f xs s' = Inr t"
    by (auto split: sum.splits)
  with Cons.prems have "P s'" by auto
  with rest show ?case using Cons.prems(3) by (intro Cons.IH) auto
qed

section \<open>Go's int64\<close>

text \<open>
  A Go \<open>int64\<close> is an \<open>int\<close> in \<open>[-2^63, 2^63)\<close>; \<open>+\<close>, \<open>-\<close> and \<open>*\<close> wrap in two's complement.
\<close>

definition i64 :: "int \<Rightarrow> int" where
  "i64 x = (x + 9223372036854775808) mod 18446744073709551616 - 9223372036854775808"

definition in64 :: "int \<Rightarrow> bool" where
  "in64 x \<longleftrightarrow> -9223372036854775808 \<le> x \<and> x \<le> 9223372036854775807"

definition add64 :: "int \<Rightarrow> int \<Rightarrow> int" where
  "add64 x y = i64 (x + y)"

definition sub64 :: "int \<Rightarrow> int \<Rightarrow> int" where
  "sub64 x y = i64 (x - y)"

definition neg64 :: "int \<Rightarrow> int" where
  "neg64 x = i64 (- x)"

definition mul64 :: "int \<Rightarrow> int \<Rightarrow> int" where
  "mul64 x y = i64 (x * y)"

lemma i64_id [i64_simps]: "in64 x \<Longrightarrow> i64 x = x"
  by (simp add: i64_def in64_def)

lemma in64_i64 [simp]: "in64 (i64 x)"
  by (simp add: i64_def in64_def pos_mod_bound)

lemma in64_ops [simp]:
  "in64 (add64 x y)" "in64 (sub64 x y)" "in64 (neg64 x)" "in64 (mul64 x y)"
  by (simp_all add: add64_def sub64_def neg64_def mul64_def)

lemma add64_eq [i64_simps]: "in64 (x + y) \<Longrightarrow> add64 x y = x + y"
  by (simp add: add64_def i64_id)

lemma sub64_eq [i64_simps]: "in64 (x - y) \<Longrightarrow> sub64 x y = x - y"
  by (simp add: sub64_def i64_id)

lemma neg64_eq [i64_simps]: "in64 (- x) \<Longrightarrow> neg64 x = - x"
  by (simp add: neg64_def i64_id)

lemma mul64_eq [i64_simps]: "in64 (x * y) \<Longrightarrow> mul64 x y = x * y"
  by (simp add: mul64_def i64_id)

lemma shift_mod: "((x + c) mod m - c) mod m = (x :: int) mod m"
  by (metis add_diff_cancel_right' mod_diff_left_eq)

lemma i64_mod: "i64 x mod 18446744073709551616 = x mod 18446744073709551616"
  unfolding i64_def by (rule shift_mod)

lemma i64_cong: "x mod 18446744073709551616 = y mod 18446744073709551616 \<Longrightarrow> i64 x = i64 y"
  unfolding i64_def by (subst mod_add_cong [of x _ y]) (rule refl | assumption)+

lemma i64_i64_add: "i64 (i64 x + y) = i64 (x + y)"
  by (rule i64_cong, rule mod_add_cong) (simp_all add: i64_mod)

lemma i64_i64_diff: "i64 (i64 x - y) = i64 (x - y)"
  by (rule i64_cong, rule mod_diff_cong) (simp_all add: i64_mod)

lemma i64_add_i64: "i64 (y + i64 x) = i64 (y + x)"
  by (rule i64_cong, rule mod_add_cong) (simp_all add: i64_mod)

lemma i64_diff_i64: "i64 (y - i64 x) = i64 (y - x)"
  by (rule i64_cong, rule mod_diff_cong) (simp_all add: i64_mod)

lemmas i64_absorb = i64_i64_add i64_i64_diff i64_add_i64 i64_diff_i64

text \<open>What one operation adds the opposite one takes away, wrap-around included.\<close>

lemma sub64_add64 [simp]: "in64 x \<Longrightarrow> sub64 (add64 x y) y = x"
  by (simp add: sub64_def add64_def i64_i64_diff i64_id)

lemma add64_sub64 [simp]: "in64 x \<Longrightarrow> add64 (sub64 x y) y = x"
  by (simp add: sub64_def add64_def i64_i64_add i64_id)

lemma add64_assoc_comm: "add64 (add64 x y) z = add64 (add64 x z) y"
  by (simp only: add64_def i64_absorb) (simp add: algebra_simps)

lemma sub64_add64_comm: "sub64 (add64 x y) z = add64 (sub64 x z) y"
  by (simp only: add64_def sub64_def i64_absorb) (simp add: algebra_simps)

text \<open>Go's \<open>/\<close> on integers truncates towards zero.\<close>

definition go_div :: "int \<Rightarrow> int \<Rightarrow> int" where
  "go_div a b = sgn a * sgn b * (\<bar>a\<bar> div \<bar>b\<bar>)"

lemma go_div_nonneg: "0 \<le> a \<Longrightarrow> 0 < b \<Longrightarrow> go_div a b = a div b"
  by (cases "a = 0") (auto simp: go_div_def)

section \<open>Strings\<close>

fun has_prefix :: "string \<Rightarrow> string \<Rightarrow> bool" where
  "has_prefix s [] = True"
| "has_prefix [] (p # ps) = False"
| "has_prefix (c # s) (p # ps) = (c = p \<and> has_prefix s ps)"

fun contains_str :: "string \<Rightarrow> string \<Rightarrow> bool" where
  "contains_str [] p = (p = [])"
| "contains_str (c # s) p = (has_prefix (c # s) p \<or> contains_str s p)"

lemma has_prefix_append [simp]: "has_prefix (p @ s) p"
  by (induction p) auto

lemma has_prefix_iff: "has_prefix s p \<longleftrightarrow> (\<exists>t. s = p @ t)"
  by (induction s p rule: has_prefix.induct) auto

lemma contains_str_prefix: "has_prefix s p \<Longrightarrow> contains_str s p"
  by (cases s) (cases p; simp)+

text \<open>
  \<open>strings.TrimSpace\<close> on ASCII text (the codes and keys of the sources): the white space of
  \<open>unicode.IsSpace\<close> below 128.
\<close>

definition is_space :: "char \<Rightarrow> bool" where
  "is_space c \<longleftrightarrow> c \<in> {CHR 0x09, CHR 0x0A, CHR 0x0B, CHR 0x0C, CHR 0x0D, CHR '' ''}"

definition trim_left :: "string \<Rightarrow> string" where
  "trim_left s = dropWhile is_space s"

definition trim_space :: "string \<Rightarrow> string" where
  "trim_space s = rev (dropWhile is_space (rev (dropWhile is_space s)))"

definition blank :: "string \<Rightarrow> bool" where
  "blank s \<longleftrightarrow> trim_space s = []"

lemma blank_Nil [simp]: "blank []"
  by (simp add: blank_def trim_space_def)

lemma dropWhile_id: "(xs = [] \<or> \<not> P (hd xs)) \<Longrightarrow> dropWhile P xs = xs"
  by (cases xs) auto

lemma trim_space_idem: "trim_space (trim_space s) = trim_space s"
proof -
  let ?t = "rev (dropWhile is_space (rev (dropWhile is_space s)))"
  have last: "?t = [] \<or> \<not> is_space (hd (rev ?t))"
    using hd_dropWhile [of is_space "rev (dropWhile is_space s)"] by auto
  have "?t = [] \<or> \<not> is_space (hd ?t)"
  proof (cases "?t = []")
    case False
    obtain u where u: "dropWhile is_space s = ?t @ u"
      by (metis rev_append rev_rev_ident takeWhile_dropWhile_id)
    with False have "hd ?t = hd (dropWhile is_space s)" "dropWhile is_space s \<noteq> []"
      by (metis hd_append2, metis append_is_Nil_conv)
    then show ?thesis using hd_dropWhile [of is_space s] by auto
  qed simp
  then have "dropWhile is_space ?t = ?t" by (rule dropWhile_id)
  moreover have "dropWhile is_space (rev ?t) = rev ?t"
    by (rule dropWhile_id) (use last in auto)
  ultimately show ?thesis unfolding trim_space_def by simp
qed

text \<open>\<open>strings.ToUpper\<close> on ASCII letters.\<close>

definition upper_char :: "char \<Rightarrow> char" where
  "upper_char c = (let n = of_char c :: nat in if 97 \<le> n \<and> n \<le> 122 then char_of (n - 32) else c)"

definition to_upper :: "string \<Rightarrow> string" where
  "to_upper s = map upper_char s"

lemma to_upper_append [simp]: "to_upper (s @ t) = to_upper s @ to_upper t"
  by (simp add: to_upper_def)

text \<open>Go compares strings bytewise.\<close>

fun str_lt :: "string \<Rightarrow> string \<Rightarrow> bool" where
  "str_lt [] [] = False"
| "str_lt [] (d # t) = True"
| "str_lt (c # s) [] = False"
| "str_lt (c # s) (d # t) = ((of_char c :: nat) < of_char d \<or> c = d \<and> str_lt s t)"

lemma str_lt_irrefl [simp]: "\<not> str_lt s s"
  by (induction s) auto

lemma str_lt_append:
  "length p = length q \<Longrightarrow> str_lt (p @ s) (q @ t) \<longleftrightarrow> str_lt p q \<or> p = q \<and> str_lt s t"
  by (induction p q rule: list_induct2) auto

section \<open>Error codes and NULL\<close>

text \<open>The error codes of arda-errors that a call reports.\<close>

definition code_internal :: string where "code_internal = ''common.error.internal''"
definition code_bad_gateway :: string where "code_bad_gateway = ''common.error.bad_gateway''"
definition code_not_found :: string where "code_not_found = ''common.error.not_found''"
definition code_conflict :: string where "code_conflict = ''common.error.conflict''"
definition code_invalid_input :: string where "code_invalid_input = ''validation.invalid_input''"
definition code_required :: string where "code_required = ''validation.required''"

text \<open>\<open>NULLIF(x, '')\<close>: an empty text is stored as NULL.\<close>

definition null_if_empty :: "string \<Rightarrow> string option" where
  "null_if_empty s = (if s = [] then None else Some s)"

text \<open>\<open>UPDATE ... WHERE\<close>: every row that satisfies the condition is rewritten.\<close>

definition upd :: "('a \<Rightarrow> bool) \<Rightarrow> ('a \<Rightarrow> 'a) \<Rightarrow> 'a list \<Rightarrow> 'a list" where
  "upd p f rows = map (\<lambda>x. if p x then f x else x) rows"

lemma find_upd: "(\<And>x. q (f x) = q x) \<Longrightarrow> find q (upd p f xs) = map_option (\<lambda>x. if p x then f x else x) (find q xs)"
  by (induction xs) (simp_all add: upd_def)

section \<open>Lists\<close>

text \<open>\<open>find_first\<close>: the row a \<open>QueryRow\<close> reads, in table order.\<close>

lemma find_Some_in: "find P xs = Some x \<Longrightarrow> x \<in> set xs \<and> P x"
  by (induction xs) (auto split: if_splits)

lemma find_None_iff2: "find P xs = None \<longleftrightarrow> (\<forall>x\<in>set xs. \<not> P x)"
  by (induction xs) auto

text \<open>Deduplication in first-occurrence order, as the \<open>seen\<close>-map loops of the sources do.\<close>

fun dedup :: "'a list \<Rightarrow> 'a list \<Rightarrow> 'a list" where
  "dedup seen [] = []"
| "dedup seen (x # xs) = (if x \<in> set seen then dedup seen xs else x # dedup (x # seen) xs)"

lemma set_dedup: "set (dedup seen xs) = set xs - set seen"
  by (induction seen xs rule: dedup.induct) auto

lemma distinct_dedup: "distinct (dedup seen xs)"
  by (induction seen xs rule: dedup.induct) (auto simp: set_dedup)

lemma sum_list_filter_le:
  fixes f :: "'a \<Rightarrow> int"
  assumes "\<forall>x\<in>set xs. 0 \<le> f x"
  shows "sum_list (map f (filter P xs)) \<le> sum_list (map f xs)"
  using assms by (induction xs) auto

lemma sum_list_nonneg_int:
  fixes f :: "'a \<Rightarrow> int"
  assumes "\<forall>x\<in>set xs. 0 \<le> f x"
  shows "0 \<le> sum_list (map f xs)"
  using assms by (induction xs) auto

end
