(* ===== verification/Balance.thy ===== *)
theory Balance
  imports Prelude
begin

text \<open>
  The two-phase account balances of finance-service: the counter rows of
  internal/repository/balance_repo.go and the arithmetic of internal/service/balance_math.go.
  A row carries four counters (posted and reserved, debit and credit); a reservation adds to a
  reserved counter, a post moves it to the posted one, a release takes it back. Counters are
  Go \<open>int64\<close> and wrap.
\<close>

section \<open>Counter rows\<close>

record balance_key =
  bk_bal_type :: string
  bk_coa_version :: string
  bk_account :: string
  bk_currency :: string

record balance_row =
  row_key :: balance_key
  posted_debit :: int
  posted_credit :: int
  reserved_debit :: int
  reserved_credit :: int

record opening_side =
  os_direction :: string
  os_amount :: int

definition balance_type_actual :: string where
  "balance_type_actual = ''ACTUAL''"

definition zero_row :: "balance_key \<Rightarrow> balance_row" where
  "zero_row k = \<lparr>row_key = k, posted_debit = 0, posted_credit = 0, reserved_debit = 0, reserved_credit = 0\<rparr>"

definition no_opening :: opening_side where
  "no_opening = \<lparr>os_direction = [], os_amount = 0\<rparr>"

section \<open>Signs\<close>

definition nature_sign :: "string \<Rightarrow> string \<Rightarrow> int" where
  "nature_sign nature direction =
     (let increasing = ((nature = ''C'') = (direction = ''CREDIT'')) in if increasing then 1 else -1)"

definition line_delta :: "string \<Rightarrow> string \<Rightarrow> int \<Rightarrow> int" where
  "line_delta nature direction amount = mul64 (nature_sign nature direction) amount"

definition natural_signed_posted :: "balance_row \<Rightarrow> string \<Rightarrow> int" where
  "natural_signed_posted row nature =
     (let diff = sub64 (posted_debit row) (posted_credit row) in if nature = ''C'' then neg64 diff else diff)"

definition natural_signed_reserved :: "balance_row \<Rightarrow> string \<Rightarrow> int" where
  "natural_signed_reserved row nature =
     (let diff = sub64 (reserved_debit row) (reserved_credit row) in if nature = ''C'' then neg64 diff else diff)"

definition natural_signed_opening :: "opening_side \<Rightarrow> string \<Rightarrow> int" where
  "natural_signed_opening side nature =
     (if os_amount side \<le> 0 then 0
      else let diff = (if os_direction side = ''DEBIT'' then os_amount side else neg64 (os_amount side))
           in if nature = ''C'' then neg64 diff else diff)"

definition effective_available :: "balance_row \<Rightarrow> int \<Rightarrow> string \<Rightarrow> int" where
  "effective_available row opening nature =
     add64 (add64 opening (natural_signed_posted row nature)) (natural_signed_reserved row nature)"

definition actual_value :: "balance_row \<Rightarrow> int \<Rightarrow> string \<Rightarrow> int" where
  "actual_value row opening nature = add64 opening (natural_signed_posted row nature)"

section \<open>Checks\<close>

definition err_available :: "string \<Rightarrow> string" where
  "err_available account = ''BAL_AVAILABLE_IS_NOT_ENOUGH:'' @ account"

definition err_actual :: "string \<Rightarrow> string" where
  "err_actual account = ''BAL_ACTUAL_IS_NOT_ENOUGH:'' @ account"

definition check_reserve :: "balance_row \<Rightarrow> int \<Rightarrow> string \<Rightarrow> string \<Rightarrow> int \<Rightarrow> string option" where
  "check_reserve row opening nature direction amount =
     (if nature = ''B'' then None
      else let delta = line_delta nature direction amount in
        if 0 \<le> delta then None
        else if add64 (effective_available row opening nature) delta < 0
          then Some (err_available (bk_account (row_key row)))
        else None)"

definition check_post_actual :: "balance_row \<Rightarrow> int \<Rightarrow> string \<Rightarrow> string \<Rightarrow> int \<Rightarrow> string option" where
  "check_post_actual row opening nature direction amount =
     (if nature = ''B'' then None
      else let delta = line_delta nature direction amount in
        if 0 \<le> delta then None
        else if add64 (add64 opening (natural_signed_posted row nature)) delta < 0
          then Some (err_actual (bk_account (row_key row)))
        else None)"

definition check_reversal :: "balance_row \<Rightarrow> int \<Rightarrow> string \<Rightarrow> int \<Rightarrow> string option" where
  "check_reversal row opening nature net_delta =
     (if nature = ''B'' \<or> 0 \<le> net_delta then None
      else if add64 (add64 opening (natural_signed_posted row nature)) net_delta < 0
        then Some (err_actual (bk_account (row_key row)))
      else if add64 (effective_available row opening nature) net_delta < 0
        then Some (err_available (bk_account (row_key row)))
      else None)"

section \<open>Counter moves\<close>

definition apply_reserve :: "balance_row \<Rightarrow> string \<Rightarrow> int \<Rightarrow> balance_row" where
  "apply_reserve row direction amount =
     (if direction = ''DEBIT'' then row\<lparr>reserved_debit := add64 (reserved_debit row) amount\<rparr>
      else row\<lparr>reserved_credit := add64 (reserved_credit row) amount\<rparr>)"

definition apply_post :: "balance_row \<Rightarrow> string \<Rightarrow> int \<Rightarrow> balance_row" where
  "apply_post row direction amount =
     (if direction = ''DEBIT''
      then row\<lparr>reserved_debit := sub64 (reserved_debit row) amount,
               posted_debit := add64 (posted_debit row) amount\<rparr>
      else row\<lparr>reserved_credit := sub64 (reserved_credit row) amount,
               posted_credit := add64 (posted_credit row) amount\<rparr>)"

definition apply_release :: "balance_row \<Rightarrow> string \<Rightarrow> int \<Rightarrow> balance_row" where
  "apply_release row direction amount =
     (if direction = ''DEBIT'' then row\<lparr>reserved_debit := sub64 (reserved_debit row) amount\<rparr>
      else row\<lparr>reserved_credit := sub64 (reserved_credit row) amount\<rparr>)"

definition apply_direct_post :: "balance_row \<Rightarrow> string \<Rightarrow> int \<Rightarrow> balance_row" where
  "apply_direct_post row direction amount =
     (if direction = ''DEBIT'' then row\<lparr>posted_debit := add64 (posted_debit row) amount\<rparr>
      else row\<lparr>posted_credit := add64 (posted_credit row) amount\<rparr>)"

lemmas move_defs = apply_reserve_def apply_post_def apply_release_def apply_direct_post_def

lemma row_key_moves [simp]:
  "row_key (apply_reserve row d a) = row_key row" "row_key (apply_post row d a) = row_key row"
  "row_key (apply_release row d a) = row_key row" "row_key (apply_direct_post row d a) = row_key row"
  by (simp_all add: move_defs)

section \<open>The counters as mathematical integers\<close>

text \<open>
  \<open>row_small\<close>: the counters lie in \<open>[0, 2^61)\<close>; then no sum of the checks leaves \<open>int64\<close>. The
  abstract value of an account is \<open>opening + posted + reserved\<close> in the account's natural sign.
\<close>

definition small :: "int \<Rightarrow> bool" where
  "small x \<longleftrightarrow> - 2305843009213693952 < x \<and> x < 2305843009213693952"

definition row_small :: "balance_row \<Rightarrow> bool" where
  "row_small row \<longleftrightarrow>
     (\<forall>x \<in> {posted_debit row, posted_credit row, reserved_debit row, reserved_credit row}. 0 \<le> x \<and> small x)"

definition nat_sign :: "string \<Rightarrow> int" where
  "nat_sign nature = (if nature = ''C'' then -1 else 1)"

definition spec_available :: "balance_row \<Rightarrow> int \<Rightarrow> string \<Rightarrow> int" where
  "spec_available row opening nature =
     opening + nat_sign nature * ((posted_debit row - posted_credit row) + (reserved_debit row - reserved_credit row))"

definition spec_actual :: "balance_row \<Rightarrow> int \<Rightarrow> string \<Rightarrow> int" where
  "spec_actual row opening nature = opening + nat_sign nature * (posted_debit row - posted_credit row)"

definition spec_delta :: "string \<Rightarrow> string \<Rightarrow> int \<Rightarrow> int" where
  "spec_delta nature direction amount =
     nat_sign nature * (if direction = ''CREDIT'' then - amount else amount)"

lemma line_delta_spec [ledger_simps]:
  "small amount \<Longrightarrow> line_delta nature direction amount = spec_delta nature direction amount"
  by (auto simp: line_delta_def nature_sign_def spec_delta_def nat_sign_def small_def in64_def
      Let_def mul64_eq)

lemma effective_available_spec [ledger_simps]:
  "row_small row \<Longrightarrow> small opening \<Longrightarrow> effective_available row opening nature = spec_available row opening nature"
  by (auto simp: effective_available_def natural_signed_posted_def natural_signed_reserved_def
      spec_available_def nat_sign_def row_small_def small_def in64_def Let_def i64_simps)

lemma actual_spec [ledger_simps]:
  "row_small row \<Longrightarrow> small opening \<Longrightarrow>
   add64 opening (natural_signed_posted row nature) = spec_actual row opening nature"
  by (auto simp: natural_signed_posted_def spec_actual_def nat_sign_def row_small_def small_def
      in64_def Let_def i64_simps)

lemma spec_available_bounds:
  "row_small row \<Longrightarrow> small opening \<Longrightarrow> small amount \<Longrightarrow>
   in64 (spec_available row opening nature + spec_delta nature d amount)"
  by (auto simp: spec_available_def spec_delta_def nat_sign_def row_small_def small_def in64_def)

lemma spec_actual_bounds:
  "row_small row \<Longrightarrow> small opening \<Longrightarrow> small amount \<Longrightarrow>
   in64 (spec_actual row opening nature + spec_delta nature d amount)"
  by (auto simp: spec_actual_def spec_delta_def nat_sign_def row_small_def small_def in64_def)

lemma check_reserve_iff:
  assumes "row_small row" "small opening" "small amount"
  shows "check_reserve row opening nature direction amount = None \<longleftrightarrow>
     nature = ''B'' \<or> 0 \<le> spec_delta nature direction amount \<or>
     0 \<le> spec_available row opening nature + spec_delta nature direction amount"
  using assms spec_available_bounds [OF assms, of nature direction]
  by (auto simp: check_reserve_def Let_def ledger_simps add64_eq)

lemma check_post_actual_iff:
  assumes "row_small row" "small opening" "small amount"
  shows "check_post_actual row opening nature direction amount = None \<longleftrightarrow>
     nature = ''B'' \<or> 0 \<le> spec_delta nature direction amount \<or>
     0 \<le> spec_actual row opening nature + spec_delta nature direction amount"
  using assms spec_actual_bounds [OF assms, of nature direction]
  by (auto simp: check_post_actual_def Let_def ledger_simps add64_eq)

lemma check_reversal_iff:
  assumes "row_small row" "small opening" "small net"
  shows "check_reversal row opening nature net = None \<longleftrightarrow>
     nature = ''B'' \<or> 0 \<le> net \<or>
     0 \<le> spec_actual row opening nature + net \<and> 0 \<le> spec_available row opening nature + net"
proof -
  have "in64 (spec_actual row opening nature + net)" "in64 (spec_available row opening nature + net)"
    using assms by (auto simp: spec_actual_def spec_available_def nat_sign_def row_small_def small_def in64_def)
  then show ?thesis
    using assms by (auto simp: check_reversal_def Let_def ledger_simps add64_eq)
qed

text \<open>Effects of the moves on the abstract values, for either direction.\<close>

lemma dir_cases: "direction = ''DEBIT'' \<or> direction = ''CREDIT'' \<Longrightarrow>
    (direction = ''DEBIT'' \<Longrightarrow> P) \<Longrightarrow> (direction = ''CREDIT'' \<Longrightarrow> P) \<Longrightarrow> P"
  by auto

definition direction_ok :: "string \<Rightarrow> bool" where
  "direction_ok d \<longleftrightarrow> d = ''DEBIT'' \<or> d = ''CREDIT''"

lemma spec_available_apply_reserve [ledger_simps]:
  assumes "row_small row" "0 \<le> amount" "small amount" "direction_ok d"
  shows "spec_available (apply_reserve row d amount) opening nature =
    spec_available row opening nature + spec_delta nature d amount"
  using assms
  by (auto simp: direction_ok_def apply_reserve_def spec_available_def spec_delta_def row_small_def small_def
      in64_def i64_simps algebra_simps)

lemma spec_available_apply_post [ledger_simps]:
  assumes "row_small row" "0 \<le> amount" "small amount" "direction_ok d"
  shows "spec_available (apply_post row d amount) opening nature = spec_available row opening nature"
  using assms
  by (auto simp: direction_ok_def apply_post_def spec_available_def row_small_def small_def in64_def
      i64_simps algebra_simps)

lemma spec_actual_apply_post [ledger_simps]:
  assumes "row_small row" "0 \<le> amount" "small amount" "direction_ok d"
  shows "spec_actual (apply_post row d amount) opening nature =
    spec_actual row opening nature + spec_delta nature d amount"
  using assms
  by (auto simp: direction_ok_def apply_post_def spec_actual_def spec_delta_def row_small_def small_def in64_def
      i64_simps algebra_simps)

text \<open>A release undoes its reservation exactly, whatever the counters are.\<close>

lemma release_reserve_inverse:
  "in64 (reserved_debit row) \<Longrightarrow> in64 (reserved_credit row) \<Longrightarrow>
   apply_release (apply_reserve row d amount) d amount = row"
  by (auto simp: apply_release_def apply_reserve_def)

text \<open>Reserving and then posting is the direct post.\<close>

lemma post_reserve_direct:
  "in64 (reserved_debit row) \<Longrightarrow> in64 (reserved_credit row) \<Longrightarrow>
   apply_post (apply_reserve row d amount) d amount = apply_direct_post row d amount"
  by (auto simp: apply_post_def apply_reserve_def apply_direct_post_def)

end
