(* ===== verification/Go_Date.thy ===== *)
theory Go_Date
  imports Prelude
begin

text \<open>
  Calendar dates as the sources use them: package \<open>time\<close> on dates without a clock
  (\<open>time.Date\<close>, \<open>AddDate\<close>, \<open>Parse\<close> and \<open>Format\<close> with the layout \<open>2006-01-02\<close>), the day
  number of the loan calculator and the month arithmetic of libs/go/arda-time. Business dates
  travel as ISO strings that the sources compare as strings; the lemmas at the end say when
  that agrees with the calendar.
\<close>

section \<open>Civil dates\<close>

record civil =
  c_year :: int
  c_month :: int
  c_day :: int

definition leap :: "int \<Rightarrow> bool" where
  "leap y \<longleftrightarrow> y mod 4 = 0 \<and> (y mod 100 \<noteq> 0 \<or> y mod 400 = 0)"

definition days_in_month :: "int \<Rightarrow> int \<Rightarrow> int" where
  "days_in_month y m =
     (if m = 2 then (if leap y then 29 else 28)
      else if m = 4 \<or> m = 6 \<or> m = 9 \<or> m = 11 then 30 else 31)"

definition days_before_month :: "int \<Rightarrow> int \<Rightarrow> int" where
  "days_before_month y m =
     (if m \<le> 1 then 0 else if m = 2 then 31
      else (if leap y then 1 else 0) +
        (if m = 3 then 59 else if m = 4 then 90 else if m = 5 then 120 else if m = 6 then 151
         else if m = 7 then 181 else if m = 8 then 212 else if m = 9 then 243
         else if m = 10 then 273 else if m = 11 then 304 else 334))"

definition days_before_year :: "int \<Rightarrow> int" where
  "days_before_year y = 365 * (y - 1) + (y - 1) div 4 - (y - 1) div 100 + (y - 1) div 400"

definition valid_civil :: "civil \<Rightarrow> bool" where
  "valid_civil c \<longleftrightarrow> 1 \<le> c_month c \<and> c_month c \<le> 12 \<and>
     1 \<le> c_day c \<and> c_day c \<le> days_in_month (c_year c) (c_month c)"

text \<open>\<open>civilDay\<close>: days since 1970-01-01.\<close>

definition civil_day :: "civil \<Rightarrow> int" where
  "civil_day c = days_before_year (c_year c) + days_before_month (c_year c) (c_month c) + c_day c - 719163"

definition civil_le :: "civil \<Rightarrow> civil \<Rightarrow> bool" where
  "civil_le a b \<longleftrightarrow> c_year a < c_year b \<or> c_year a = c_year b \<and>
     (c_month a < c_month b \<or> c_month a = c_month b \<and> c_day a \<le> c_day b)"

definition next_day :: "civil \<Rightarrow> civil" where
  "next_day c =
     (if c_day c < days_in_month (c_year c) (c_month c) then c\<lparr>c_day := c_day c + 1\<rparr>
      else if c_month c < 12 then c\<lparr>c_month := c_month c + 1, c_day := 1\<rparr>
      else c\<lparr>c_year := c_year c + 1, c_month := 1, c_day := 1\<rparr>)"

text \<open>\<open>AddDate(0, n, 0)\<close>: a day past the end of the target month overflows into the next one.\<close>

definition add_months :: "civil \<Rightarrow> int \<Rightarrow> civil" where
  "add_months c n =
     (let k = c_year c * 12 + (c_month c - 1) + n; y = k div 12; m = k mod 12 + 1;
          dim = days_in_month y m
      in if c_day c \<le> dim then c\<lparr>c_year := y, c_month := m\<rparr>
         else if m < 12 then c\<lparr>c_year := y, c_month := m + 1, c_day := c_day c - dim\<rparr>
         else c\<lparr>c_year := y + 1, c_month := 1, c_day := c_day c - dim\<rparr>)"

text \<open>\<open>AddMonthsClamped\<close> on a parsed date: the day stops at the target month's last day.\<close>

definition add_months_clamped :: "civil \<Rightarrow> int \<Rightarrow> civil" where
  "add_months_clamped t months =
     (let target = add_months (t\<lparr>c_day := 1\<rparr>) months;
          last_day = days_in_month (c_year target) (c_month target);
          clamped = (if last_day < c_day t then last_day else c_day t)
      in target\<lparr>c_day := clamped\<rparr>)"

section \<open>The day number\<close>

lemma days_in_month_bounds: "28 \<le> days_in_month y m" "days_in_month y m \<le> 31"
  by (simp_all add: days_in_month_def)

lemma days_before_month_step:
  assumes "1 \<le> m" "m < 12"
  shows "days_before_month y (m + 1) = days_before_month y m + days_in_month y m"
proof -
  have "m = 1 \<or> m = 2 \<or> m = 3 \<or> m = 4 \<or> m = 5 \<or> m = 6 \<or> m = 7 \<or> m = 8 \<or> m = 9 \<or> m = 10 \<or> m = 11"
    using assms by arith
  then show ?thesis
    by (elim disjE) (simp_all add: days_before_month_def days_in_month_def)
qed

lemma days_before_december:
  "days_before_month y 12 + days_in_month y 12 = (if leap y then 366 else 365)"
  by (simp add: days_before_month_def days_in_month_def)

lemma div_step: "0 < n \<Longrightarrow> y div n = (y - 1) div n + (if y mod n = 0 then 1 else 0)" for y n :: int
proof -
  assume n: "0 < n"
  have e: "y = n * (y div n) + y mod n" by simp
  show ?thesis
  proof (cases "y mod n = 0")
    case True
    then have "(y - 1) div n = y div n - 1"
      using n e by (intro int_div_pos_eq [where r = "n - 1"]) (auto simp: algebra_simps)
    with True show ?thesis by simp
  next
    case False
    have b: "0 \<le> y mod n" "y mod n < n" using n by simp_all
    have "(y - 1) div n = y div n"
    proof (rule int_div_pos_eq [where r = "y mod n - 1"])
      show "y - 1 = n * (y div n) + (y mod n - 1)" using e by linarith
      show "0 \<le> y mod n - 1" using b False by linarith
      show "y mod n - 1 < n" using b by linarith
    qed
    with False show ?thesis by simp
  qed
qed

lemma days_before_year_step:
  "days_before_year (y + 1) = days_before_year y + (if leap y then 366 else 365)"
proof -
  have "4 dvd y" if "100 dvd y" using dvd_trans [of 4 100 y] that by simp
  moreover have "100 dvd y" if "400 dvd y" using dvd_trans [of 100 400 y] that by simp
  ultimately have m: "y mod 100 = 0 \<Longrightarrow> y mod 4 = 0" "y mod 400 = 0 \<Longrightarrow> y mod 100 = 0"
    by (simp_all add: mod_eq_0_iff_dvd)
  have e: "days_before_year (y + 1) = 365 * y + y div 4 - y div 100 + y div 400"
    by (simp add: days_before_year_def)
  have d: "y div 4 = (y - 1) div 4 + (if y mod 4 = 0 then 1 else 0)"
    "y div 100 = (y - 1) div 100 + (if y mod 100 = 0 then 1 else 0)"
    "y div 400 = (y - 1) div 400 + (if y mod 400 = 0 then 1 else 0)"
    by (rule div_step; simp)+
  have l: "leap y \<longleftrightarrow> y mod 4 = 0 \<and> (y mod 100 \<noteq> 0 \<or> y mod 400 = 0)"
    by (simp add: leap_def)
  show ?thesis
    unfolding e l unfolding days_before_year_def using d m by (smt (verit))
qed

lemma days_before_year_mono: "a \<le> b \<Longrightarrow> days_before_year a \<le> days_before_year b"
proof (induction "nat (b - a)" arbitrary: b)
  case 0
  then show ?case by simp
next
  case (Suc n)
  then have "days_before_year a \<le> days_before_year (b - 1)" by auto
  also have "\<dots> \<le> days_before_year (b - 1 + 1)"
    using days_before_year_step [of "b - 1"] by (simp split: if_splits)
  finally show ?case by simp
qed

theorem civil_day_next_day:
  "valid_civil c \<Longrightarrow> civil_day (next_day c) = civil_day c + 1 \<and> valid_civil (next_day c)"
proof (cases "c_day c < days_in_month (c_year c) (c_month c)")
  case True
  then show "valid_civil c \<Longrightarrow> ?thesis" by (auto simp: next_day_def civil_day_def valid_civil_def)
next
  case False
  assume v: "valid_civil c"
  with False have d: "c_day c = days_in_month (c_year c) (c_month c)" by (simp add: valid_civil_def)
  show ?thesis
  proof (cases "c_month c < 12")
    case True
    with v d days_before_month_step [of "c_month c" "c_year c"] show ?thesis
      using days_in_month_bounds [of "c_year c" "c_month c + 1"]
      by (auto simp: next_day_def civil_day_def valid_civil_def)
  next
    case False
    with v have m: "c_month c = 12" by (simp add: valid_civil_def)
    have "days_before_month (c_year c + 1) 1 = 0" by (simp add: days_before_month_def)
    then show ?thesis
      using m d days_before_december [of "c_year c"] days_before_year_step [of "c_year c"]
        days_in_month_bounds [of "c_year c + 1" 1]
      by (auto simp: next_day_def civil_day_def valid_civil_def)
  qed
qed

lemma month_bounds:
  assumes "1 \<le> m" "m \<le> 12"
  shows "0 \<le> days_before_month y m \<and>
    days_before_month y m + days_in_month y m \<le> (if leap y then 366 else 365)"
proof -
  have "m = 1 \<or> m = 2 \<or> m = 3 \<or> m = 4 \<or> m = 5 \<or> m = 6 \<or> m = 7 \<or> m = 8 \<or> m = 9 \<or>
      m = 10 \<or> m = 11 \<or> m = 12"
    using assms by arith
  then show ?thesis
    by (elim disjE) (simp_all add: days_before_month_def days_in_month_def)
qed

lemma day_of_year_bounds:
  assumes "valid_civil c"
  shows "1 \<le> days_before_month (c_year c) (c_month c) + c_day c"
    and "days_before_month (c_year c) (c_month c) + c_day c \<le> (if leap (c_year c) then 366 else 365)"
proof -
  have c: "1 \<le> c_month c" "c_month c \<le> 12" "1 \<le> c_day c" "c_day c \<le> days_in_month (c_year c) (c_month c)"
    using assms by (auto simp: valid_civil_def)
  note b = month_bounds [OF c(1,2), of "c_year c"]
  show "1 \<le> days_before_month (c_year c) (c_month c) + c_day c" using b c(3) by linarith
  show "days_before_month (c_year c) (c_month c) + c_day c \<le> (if leap (c_year c) then 366 else 365)"
    using b c(4) by linarith
qed

lemma days_before_month_mono:
  assumes "1 \<le> m" "m < n" "n \<le> 12"
  shows "days_before_month y m + days_in_month y m \<le> days_before_month y n"
  using assms
proof (induction "nat (n - m)" arbitrary: n)
  case 0
  then show ?case by simp
next
  case (Suc k)
  show ?case
  proof (cases "n = m + 1")
    case True
    then show ?thesis using days_before_month_step [of m y] Suc.prems by simp
  next
    case False
    with Suc have "days_before_month y m + days_in_month y m \<le> days_before_month y (n - 1)" by auto
    then show ?thesis
      using days_before_month_step [of "n - 1" y] days_in_month_bounds [of y "n - 1"] Suc.prems False
      by simp
  qed
qed

lemma civil_day_less:
  assumes "valid_civil a" "valid_civil b" "civil_le a b" "a \<noteq> b"
  shows "civil_day a < civil_day b"
proof -
  consider (y) "c_year a < c_year b"
    | (m) "c_year a = c_year b" "c_month a < c_month b"
    | (d) "c_year a = c_year b" "c_month a = c_month b" "c_day a < c_day b"
    using assms(3,4) unfolding civil_le_def by (cases a; cases b) force
  then show ?thesis
  proof cases
    case y
    then have "days_before_year (c_year a + 1) \<le> days_before_year (c_year b)"
      by (intro days_before_year_mono) simp
    then show ?thesis
      using day_of_year_bounds(2) [OF assms(1)] day_of_year_bounds(1) [OF assms(2)]
        days_before_year_step [of "c_year a"]
      unfolding civil_day_def by (auto split: if_splits)
  next
    case m
    have "days_before_month (c_year b) (c_month a) + days_in_month (c_year b) (c_month a)
        \<le> days_before_month (c_year b) (c_month b)"
      using assms m by (intro days_before_month_mono) (auto simp: valid_civil_def)
    then show ?thesis using m assms(1,2) unfolding civil_day_def valid_civil_def by auto
  next
    case d
    then show ?thesis by (simp add: civil_day_def)
  qed
qed

lemma civil_le_linear: "civil_le a b \<or> civil_le b a"
  by (auto simp: civil_le_def)

lemma civil_day_le_iff:
  assumes "valid_civil a" "valid_civil b"
  shows "civil_day a \<le> civil_day b \<longleftrightarrow> civil_le a b"
proof (cases "a = b")
  case True
  then show ?thesis by (simp add: civil_le_def)
next
  case False
  show ?thesis
  proof (cases "civil_le a b")
    case True
    then show ?thesis using civil_day_less [OF assms True False] by simp
  next
    case nle: False
    with civil_le_linear have "civil_le b a" by blast
    from civil_day_less [OF assms(2,1) this] False nle show ?thesis by simp
  qed
qed

lemma civil_day_inj:
  assumes "valid_civil a" "valid_civil b" "civil_day a = civil_day b"
  shows "a = b"
proof (rule ccontr)
  assume ne: "a \<noteq> b"
  show False
  proof (cases "civil_le a b")
    case True
    from civil_day_less [OF assms(1,2) True ne] assms(3) show False by simp
  next
    case False
    with civil_le_linear have "civil_le b a" by blast
    from civil_day_less [OF assms(2,1) this] ne assms(3) show False by simp
  qed
qed

section \<open>ISO dates\<close>

text \<open>
  \<open>time.Parse("2006-01-02", s)\<close>: four digits, two, two, with the dashes between them; the month
  and the day must exist. \<open>Format\<close> with the same layout pads with zeros.
\<close>

definition digit_val :: "char \<Rightarrow> int option" where
  "digit_val c = (let n = of_char c :: nat in if 48 \<le> n \<and> n \<le> 57 then Some (int n - 48) else None)"

definition digit_chr :: "int \<Rightarrow> char" where
  "digit_chr d = char_of (48 + nat d)"

fun digits_val :: "int \<Rightarrow> string \<Rightarrow> int option" where
  "digits_val acc [] = Some acc"
| "digits_val acc (c # cs) =
     (case digit_val c of None \<Rightarrow> None | Some d \<Rightarrow> digits_val (10 * acc + d) cs)"

definition parse_iso :: "string \<Rightarrow> civil option" where
  "parse_iso s =
     (if length s = 10 \<and> s ! 4 = CHR ''-'' \<and> s ! 7 = CHR ''-'' then
        (case (digits_val 0 (take 4 s), digits_val 0 (take 2 (drop 5 s)), digits_val 0 (drop 8 s)) of
           (Some y, Some m, Some d) \<Rightarrow>
             (let c = \<lparr>c_year = y, c_month = m, c_day = d\<rparr> in if valid_civil c then Some c else None)
         | _ \<Rightarrow> None)
      else None)"

text \<open>The year is padded to four digits; a longer or negative year is printed in full.\<close>

fun dec_str :: "nat \<Rightarrow> string" where
  "dec_str n = (if n < 10 then [digit_chr (int n)] else dec_str (n div 10) @ [digit_chr (int (n mod 10))])"

declare dec_str.simps [simp del]

definition pad4 :: "int \<Rightarrow> string" where
  "pad4 y =
     (if y \<le> 9999
      then [digit_chr (y div 1000), digit_chr (y div 100 mod 10), digit_chr (y div 10 mod 10), digit_chr (y mod 10)]
      else dec_str (nat y))"

definition format_iso :: "civil \<Rightarrow> string" where
  "format_iso c =
     (let m = c_month c; d = c_day c in
      (if c_year c < 0 then CHR ''-'' # pad4 (- c_year c) else pad4 (c_year c)) @
      [CHR ''-'', digit_chr (m div 10), digit_chr (m mod 10), CHR ''-'', digit_chr (d div 10), digit_chr (d mod 10)])"

definition iso_civil :: "civil \<Rightarrow> bool" where
  "iso_civil c \<longleftrightarrow> valid_civil c \<and> 0 \<le> c_year c \<and> c_year c \<le> 9999"

lemma digit_val_chr [simp]:
  assumes "0 \<le> d" "d \<le> 9"
  shows "digit_val (digit_chr d) = Some d"
proof -
  have "d = 0 \<or> d = 1 \<or> d = 2 \<or> d = 3 \<or> d = 4 \<or> d = 5 \<or> d = 6 \<or> d = 7 \<or> d = 8 \<or> d = 9"
    using assms by arith
  then show ?thesis by (elim disjE) (simp_all add: digit_val_def digit_chr_def)
qed

lemma digit_chr_val:
  assumes "digit_val c = Some d"
  shows "0 \<le> d \<and> d \<le> 9 \<and> c = digit_chr d"
proof -
  have d: "d = int (of_char c) - 48" "48 \<le> (of_char c :: nat)" "(of_char c :: nat) \<le> 57"
    using assms by (auto simp: digit_val_def Let_def split: if_splits)
  then have "48 + nat d = of_char c" by simp
  then have "digit_chr d = char_of (of_char c :: nat)"
    unfolding digit_chr_def by simp
  with d show ?thesis by simp
qed

lemma list10_conv:
  assumes "length s = 10"
  obtains a b c d e f g h i j where "s = [a, b, c, d, e, f, g, h, i, j]"
proof -
  have "s = [s!0, s!1, s!2, s!3, s!4, s!5, s!6, s!7, s!8, s!9]"
    using assms by (intro nth_equalityI) (auto simp: less_Suc_eq numeral_eq_Suc)
  then show ?thesis by (rule that)
qed

lemma format_iso_simps:
  assumes "0 \<le> c_year c" "c_year c \<le> 9999"
  shows "length (format_iso c) = 10" "format_iso c ! 4 = CHR ''-''" "format_iso c ! 7 = CHR ''-''"
    "take 4 (format_iso c) = [digit_chr (c_year c div 1000), digit_chr (c_year c div 100 mod 10),
       digit_chr (c_year c div 10 mod 10), digit_chr (c_year c mod 10)]"
    "take 2 (drop 5 (format_iso c)) = [digit_chr (c_month c div 10), digit_chr (c_month c mod 10)]"
    "drop 8 (format_iso c) = [digit_chr (c_day c div 10), digit_chr (c_day c mod 10)]"
  using assms by (simp_all add: format_iso_def pad4_def Let_def)

lemma digits2: "0 \<le> n \<Longrightarrow> n \<le> 99 \<Longrightarrow> digits_val 0 [digit_chr (n div 10), digit_chr (n mod 10)] = Some n"
  by simp

lemma digits_val4:
  assumes "0 \<le> a" "a \<le> 9" "0 \<le> b" "b \<le> 9" "0 \<le> c" "c \<le> 9" "0 \<le> d" "d \<le> 9"
  shows "digits_val 0 [digit_chr a, digit_chr b, digit_chr c, digit_chr d] =
    Some (10 * (10 * (10 * a + b) + c) + d)"
  using assms by simp

lemma digits4:
  assumes "0 \<le> n" "n \<le> 9999"
  shows "digits_val 0 [digit_chr (n div 1000), digit_chr (n div 100 mod 10),
    digit_chr (n div 10 mod 10), digit_chr (n mod 10)] = Some n"
proof -
  have e: "10 * (k div 10) + k mod 10 = k" for k :: int by simp
  have q: "n div 100 = n div 10 div 10" "n div 1000 = n div 10 div 10 div 10"
    by (simp_all flip: zdiv_zmult2_eq)
  have m: "0 \<le> k mod 10" "k mod 10 \<le> 9" for k :: int
    using pos_mod_sign [of 10 k] pos_mod_bound [of 10 k] by simp_all
  have "0 \<le> n div 1000" "n div 1000 \<le> 9" using assms by auto
  from digits_val4 [OF this m m m] have
    "digits_val 0 [digit_chr (n div 1000), digit_chr (n div 100 mod 10),
      digit_chr (n div 10 mod 10), digit_chr (n mod 10)] =
     Some (10 * (10 * (10 * (n div 1000) + n div 100 mod 10) + n div 10 mod 10) + n mod 10)" .
  also have "10 * (10 * (10 * (n div 1000) + n div 100 mod 10) + n div 10 mod 10) + n mod 10 = n"
    unfolding q e ..
  finally show ?thesis .
qed

lemma parse_format_iso:
  assumes "iso_civil c"
  shows "parse_iso (format_iso c) = Some c"
proof -
  have b: "1 \<le> c_month c" "c_month c \<le> 12" "1 \<le> c_day c" "c_day c \<le> 31" "0 \<le> c_year c" "c_year c \<le> 9999"
    using assms days_in_month_bounds(2) [of "c_year c" "c_month c"]
    by (auto simp: iso_civil_def valid_civil_def)
  have r: "\<lparr>c_year = c_year c, c_month = c_month c, c_day = c_day c\<rparr> = c" by simp
  show ?thesis
    using b assms digits4 [of "c_year c"] digits2 [of "c_month c"] digits2 [of "c_day c"]
    unfolding parse_iso_def format_iso_simps [OF b(5,6)]
    by (simp add: r iso_civil_def Let_def del: digits_val.simps)
qed

lemma digits_val_bounds:
  "digits_val acc xs = Some v \<Longrightarrow> acc * 10 ^ length xs \<le> v \<and> v < (acc + 1) * 10 ^ length xs"
proof (induction acc xs rule: digits_val.induct)
  case (1 acc)
  then show ?case by simp
next
  case (2 acc c cs)
  then obtain d where d: "digit_val c = Some d" and r: "digits_val (10 * acc + d) cs = Some v"
    by (auto split: option.splits)
  from digit_chr_val [OF d] have b: "0 \<le> d" "d \<le> 9" by auto
  let ?p = "10 ^ length cs :: int"
  have "(10 * acc + d) * ?p \<le> v \<and> v < (10 * acc + d + 1) * ?p" using "2.IH" [OF d r] .
  moreover have lo: "10 * acc * ?p \<le> (10 * acc + d) * ?p"
    by (rule mult_right_mono) (use b in auto)
  moreover have hi: "(10 * acc + d + 1) * ?p \<le> (10 * acc + 10) * ?p"
    by (rule mult_right_mono) (use b in auto)
  moreover have "acc * 10 ^ length (c # cs) = 10 * acc * ?p" "(acc + 1) * 10 ^ length (c # cs) = (10 * acc + 10) * ?p"
    by (simp_all add: algebra_simps)
  ultimately show ?case by linarith
qed

lemma str_lt_digits:
  assumes "length xs = length ys"
    and "digits_val acc xs = Some v" and "digits_val acc ys = Some w"
  shows "(str_lt xs ys \<longleftrightarrow> v < w) \<and> (xs = ys \<longleftrightarrow> v = w)"
  using assms
proof (induction xs ys arbitrary: acc rule: list_induct2)
  case Nil
  then show ?case by simp
next
  case (Cons x xs y ys)
  from Cons.prems obtain d e where d: "digit_val x = Some d" "digits_val (10 * acc + d) xs = Some v"
    and e: "digit_val y = Some e" "digits_val (10 * acc + e) ys = Some w"
    by (auto split: option.splits)
  have oc: "(of_char x :: nat) = 48 + nat d" "(of_char y :: nat) = 48 + nat e" "0 \<le> d" "0 \<le> e"
    using d(1) e(1) by (auto simp: digit_val_def Let_def split: if_splits)
  have far: "a < b" if "m < n" "digits_val (10 * acc + m) us = Some a"
    "digits_val (10 * acc + n) vs = Some b" "length us = length vs" for m n us vs a b
  proof -
    have "(10 * acc + m + 1) * 10 ^ length us \<le> (10 * acc + n) * 10 ^ length us"
      by (rule mult_right_mono) (use that(1) in auto)
    then show ?thesis
      using digits_val_bounds [OF that(2)] digits_val_bounds [OF that(3)] unfolding that(4) by linarith
  qed
  consider "d < e" | "e < d" | "d = e" by linarith
  then show ?case
  proof cases
    case 1
    from far [OF 1 d(2) e(2) Cons.hyps] have "v < w" .
    then show ?thesis using 1 oc by auto
  next
    case 2
    from far [OF 2 e(2) d(2) Cons.hyps(1) [symmetric]] have "w < v" .
    then show ?thesis using 2 oc by auto
  next
    case 3
    then have "x = y" using digit_chr_val [OF d(1)] digit_chr_val [OF e(1)] by simp
    then show ?thesis using Cons.IH [OF d(2)] e(2) 3 by auto
  qed
qed

lemma parse_iso_SomeD:
  assumes "parse_iso s = Some c"
  shows "length s = 10" "s = take 4 s @ CHR ''-'' # take 2 (drop 5 s) @ CHR ''-'' # drop 8 s"
    "digits_val 0 (take 4 s) = Some (c_year c)" "digits_val 0 (take 2 (drop 5 s)) = Some (c_month c)"
    "digits_val 0 (drop 8 s) = Some (c_day c)" "valid_civil c"
proof -
  show l: "length s = 10" using assms by (simp add: parse_iso_def split: if_splits)
  from assms have dash: "s ! 4 = CHR ''-''" "s ! 7 = CHR ''-''"
    by (auto simp: parse_iso_def split: if_splits)
  obtain a b c' d e f g h i j where s: "s = [a, b, c', d, e, f, g, h, i, j]"
    using list10_conv [OF l] .
  show "s = take 4 s @ CHR ''-'' # take 2 (drop 5 s) @ CHR ''-'' # drop 8 s"
    using dash unfolding s by simp
  show "digits_val 0 (take 4 s) = Some (c_year c)" "digits_val 0 (take 2 (drop 5 s)) = Some (c_month c)"
    "digits_val 0 (drop 8 s) = Some (c_day c)" "valid_civil c"
    using assms by (auto simp: parse_iso_def Let_def split: if_splits option.splits)
qed

text \<open>On dates that parse, the string order of the sources is the calendar order.\<close>

lemma iso_order:
  assumes s: "parse_iso s = Some a" and t: "parse_iso t = Some b"
  shows "str_lt s t \<longleftrightarrow> civil_day a < civil_day b"
proof -
  note S = parse_iso_SomeD [OF s] and T = parse_iso_SomeD [OF t]
  have y: "(str_lt (take 4 s) (take 4 t) \<longleftrightarrow> c_year a < c_year b) \<and> (take 4 s = take 4 t \<longleftrightarrow> c_year a = c_year b)"
    by (rule str_lt_digits [OF _ S(3) T(3)]) (simp add: S(1) T(1))
  have m: "(str_lt (take 2 (drop 5 s)) (take 2 (drop 5 t)) \<longleftrightarrow> c_month a < c_month b) \<and>
      (take 2 (drop 5 s) = take 2 (drop 5 t) \<longleftrightarrow> c_month a = c_month b)"
    by (rule str_lt_digits [OF _ S(4) T(4)]) (simp add: S(1) T(1))
  have d: "(str_lt (drop 8 s) (drop 8 t) \<longleftrightarrow> c_day a < c_day b) \<and> (drop 8 s = drop 8 t \<longleftrightarrow> c_day a = c_day b)"
    by (rule str_lt_digits [OF _ S(5) T(5)]) (simp add: S(1) T(1))
  have "str_lt s t \<longleftrightarrow> str_lt (take 4 s @ CHR ''-'' # take 2 (drop 5 s) @ CHR ''-'' # drop 8 s)
      (take 4 t @ CHR ''-'' # take 2 (drop 5 t) @ CHR ''-'' # drop 8 t)"
    by (simp only: S(2) [symmetric] T(2) [symmetric])
  also have "\<dots> \<longleftrightarrow> c_year a < c_year b \<or> c_year a = c_year b \<and>
      (c_month a < c_month b \<or> c_month a = c_month b \<and> c_day a < c_day b)"
    using y m d by (simp add: str_lt_append S(1) T(1))
  also have "\<dots> \<longleftrightarrow> \<not> civil_le b a" by (auto simp: civil_le_def)
  also have "\<dots> \<longleftrightarrow> civil_day a < civil_day b"
    using civil_day_le_iff [OF T(6) S(6)] by auto
  finally show ?thesis .
qed

lemma parse_iso_inj:
  assumes s: "parse_iso s = Some a" and t: "parse_iso t = Some a"
  shows "s = t"
proof -
  note S = parse_iso_SomeD [OF s] and T = parse_iso_SomeD [OF t]
  have "take 4 s = take 4 t" "take 2 (drop 5 s) = take 2 (drop 5 t)" "drop 8 s = drop 8 t"
    using str_lt_digits [OF _ S(3) T(3)] str_lt_digits [OF _ S(4) T(4)] str_lt_digits [OF _ S(5) T(5)] S(1) T(1)
    by auto
  then show ?thesis using S(2) T(2) by metis
qed

lemma parse_iso_year: "parse_iso s = Some c \<Longrightarrow> iso_civil c"
  using parse_iso_SomeD [of s c] digits_val_bounds [of 0 "take 4 s" "c_year c"]
  by (auto simp: iso_civil_def)

lemma format_parse_iso: "parse_iso s = Some c \<Longrightarrow> format_iso c = s"
  by (rule parse_iso_inj [OF parse_format_iso]) (auto intro: parse_iso_year)

text \<open>The day number of an ISO text.\<close>

definition iso_day :: "string \<Rightarrow> int" where
  "iso_day s = (case parse_iso s of None \<Rightarrow> 0 | Some c \<Rightarrow> civil_day c)"

text \<open>\<open>to.Sub(from)\<close> in whole days: a \<open>Duration\<close> saturates a little over 106751 days.\<close>

definition sub_days :: "int \<Rightarrow> int \<Rightarrow> int" where
  "sub_days b a = max (-106751) (min 106751 (b - a))"

lemma sub_days_eq: "\<bar>b - a\<bar> \<le> 106751 \<Longrightarrow> sub_days b a = b - a"
  by (auto simp: sub_days_def)

section \<open>Month arithmetic\<close>

definition parse_day :: "string \<Rightarrow> string + civil" where
  "parse_day date = (case parse_iso date of None \<Rightarrow> Inl ''parse date'' | Some t \<Rightarrow> Inr t)"

definition add_months_day :: "string \<Rightarrow> int \<Rightarrow> string + string" where
  "add_months_day date months =
     (case parse_day date of Inl err \<Rightarrow> Inl err | Inr t \<Rightarrow> Inr (format_iso (add_months_clamped t months)))"

lemma month_index_bounds: "1 \<le> k mod 12 + 1" "k mod 12 + 1 \<le> 12" for k :: int
  using pos_mod_sign [of 12 k] pos_mod_bound [of 12 k] by simp_all

lemma add_months_first:
  "add_months (t\<lparr>c_day := 1\<rparr>) n =
     (let k = c_year t * 12 + (c_month t - 1) + n in \<lparr>c_year = k div 12, c_month = k mod 12 + 1, c_day = 1\<rparr>)"
  using days_in_month_bounds(1) [of "(c_year t * 12 + (c_month t - 1) + n) div 12"]
  by (cases t) (simp add: add_months_def Let_def order_trans [of 1 28])

lemma add_months_clamped_valid: "valid_civil t \<Longrightarrow> valid_civil (add_months_clamped t n)"
  using month_index_bounds [of "c_year t * 12 + (c_month t - 1) + n"]
    days_in_month_bounds(1) [of "(c_year t * 12 + (c_month t - 1) + n) div 12"
      "(c_year t * 12 + (c_month t - 1) + n) mod 12 + 1"]
  by (auto simp: add_months_clamped_def add_months_first valid_civil_def Let_def)

lemma add_months_clamped_fields:
  "c_year (add_months_clamped t n) = (c_year t * 12 + (c_month t - 1) + n) div 12"
  "c_month (add_months_clamped t n) = (c_year t * 12 + (c_month t - 1) + n) mod 12 + 1"
  "c_day (add_months_clamped t n) =
     min (c_day t) (days_in_month (c_year (add_months_clamped t n)) (c_month (add_months_clamped t n)))"
  by (simp_all add: add_months_clamped_def add_months_first Let_def)

text \<open>The month index moves by exactly \<open>n\<close>.\<close>

lemma add_months_clamped_index:
  "c_year (add_months_clamped t n) * 12 + (c_month (add_months_clamped t n) - 1) =
   c_year t * 12 + (c_month t - 1) + n"
  unfolding add_months_clamped_fields(1,2) by simp

section \<open>Properties\<close>

text \<open>Maturity dates: shifting a date by whole months and clamping gives a date of the calendar in exactly the
  month asked for, on the same day or the month's last one; plain AddDate gives the same date exactly when
  the day exists in that month, and otherwise lands in the month after it.\<close>

theorem clamped_maturity:
  assumes "valid_civil t"
  shows "valid_civil (add_months_clamped t n) \<and>
    c_year (add_months_clamped t n) * 12 + c_month (add_months_clamped t n) = c_year t * 12 + c_month t + n \<and>
    c_day (add_months_clamped t n) =
      min (c_day t) (days_in_month (c_year (add_months_clamped t n)) (c_month (add_months_clamped t n))) \<and>
    (add_months t n = add_months_clamped t n \<longleftrightarrow>
      c_day t \<le> days_in_month (c_year (add_months_clamped t n)) (c_month (add_months_clamped t n))) \<and>
    (add_months t n \<noteq> add_months_clamped t n \<longrightarrow>
      c_year (add_months t n) * 12 + c_month (add_months t n) = c_year t * 12 + c_month t + n + 1)"
proof -
  let ?k = "c_year t * 12 + (c_month t - 1) + n"
  let ?y = "?k div 12" and ?m = "?k mod 12 + 1"
  let ?cl = "add_months_clamped t n"
  have ym: "c_year ?cl = ?y" "c_month ?cl = ?m" by (simp_all add: add_months_clamped_fields)
  have idx: "c_year ?cl * 12 + c_month ?cl = c_year t * 12 + c_month t + n"
    using add_months_clamped_index [of t n] by linarith
  have d: "c_day ?cl = min (c_day t) (days_in_month ?y ?m)"
    by (simp only: add_months_clamped_fields(3) ym)
  show ?thesis
  proof (cases "c_day t \<le> days_in_month ?y ?m")
    case True
    then have "add_months t n = ?cl"
      using ym d by (intro civil.equality) (simp_all add: add_months_def Let_def)
    with True idx d ym add_months_clamped_valid [OF assms] show ?thesis by simp
  next
    case False
    have "add_months t n \<noteq> ?cl \<and> c_year (add_months t n) * 12 + c_month (add_months t n) = ?y * 12 + ?m + 1"
    proof (cases "?m < 12")
      case True
      with False have e: "add_months t n = t\<lparr>c_year := ?y, c_month := ?m + 1, c_day := c_day t - days_in_month ?y ?m\<rparr>"
        by (simp add: add_months_def Let_def)
      have "c_month (add_months t n) \<noteq> c_month ?cl" unfolding e ym by simp
      then have "add_months t n \<noteq> ?cl" by metis
      moreover have "c_year (add_months t n) * 12 + c_month (add_months t n) = ?y * 12 + ?m + 1" unfolding e by simp
      ultimately show ?thesis ..
    next
      case mf: False
      then have m: "?m = 12" using month_index_bounds(2) [of ?k] by linarith
      from False mf have e: "add_months t n = t\<lparr>c_year := ?y + 1, c_month := 1, c_day := c_day t - days_in_month ?y ?m\<rparr>"
        by (simp add: add_months_def Let_def)
      have "c_year (add_months t n) \<noteq> c_year ?cl" unfolding e ym by simp
      then have "add_months t n \<noteq> ?cl" by metis
      moreover have "c_year (add_months t n) * 12 + c_month (add_months t n) = ?y * 12 + ?m + 1"
        unfolding e m by simp
      ultimately show ?thesis ..
    qed
    with False idx d ym add_months_clamped_valid [OF assms] show ?thesis by auto
  qed
qed

theorem clamped_maturity_witness:
  "add_months_clamped \<lparr>c_year = 2026, c_month = 1, c_day = 31\<rparr> 1 = \<lparr>c_year = 2026, c_month = 2, c_day = 28\<rparr> \<and>
   add_months \<lparr>c_year = 2026, c_month = 1, c_day = 31\<rparr> 1 = \<lparr>c_year = 2026, c_month = 3, c_day = 3\<rparr> \<and>
   valid_civil (add_months_clamped \<lparr>c_year = 2026, c_month = 1, c_day = 31\<rparr> 1)"
proof -
  have "valid_civil \<lparr>c_year = 2026, c_month = 1, c_day = 31\<rparr>" by code_simp
  from clamped_maturity [OF this, of 1]
  have "valid_civil (add_months_clamped \<lparr>c_year = 2026, c_month = 1, c_day = 31\<rparr> 1)" by blast
  moreover have "add_months_clamped \<lparr>c_year = 2026, c_month = 1, c_day = 31\<rparr> 1 = \<lparr>c_year = 2026, c_month = 2, c_day = 28\<rparr>"
    by code_simp
  moreover have "add_months \<lparr>c_year = 2026, c_month = 1, c_day = 31\<rparr> 1 = \<lparr>c_year = 2026, c_month = 3, c_day = 3\<rparr>"
    by code_simp
  ultimately show ?thesis by blast
qed

end
