(* ===== verification/Journal.thy ===== *)
theory Journal
  imports Balance Go_Date
begin

text \<open>
  The journal of finance-service: the tables that internal/service/posting_service.go reads and
  writes, one tenant's slice of them (every statement filters by \<open>tenant_id\<close>), and the queries
  of internal/repository/posting_repo.go, balance_repo.go and closing_repo.go on them. A
  statement that fails for lack of a connection is not modelled. A \<open>DATE\<close> column is a day
  number; the cast of a request's text to a date is Postgres', a parameter of the model
  (\<open>env_pg_date\<close>).
\<close>

section \<open>Tables\<close>

record journal_line =
  jl_line_no :: int
  jl_direction :: string
  jl_bal_type :: string
  jl_coa_version :: string
  jl_account :: string
  jl_account_name :: string
  jl_amount :: int
  jl_currency :: string
  jl_counterparty :: "string option"
  jl_description :: string

record journal_entry =
  je_id :: nat
  je_date :: int
  je_currency :: string
  je_status :: string
  je_description :: string
  je_domain :: string
  je_doc_type :: string
  je_doc_id :: "string option"
  je_doc_code :: string
  je_case_id :: "string option"
  je_key :: "string option"
  je_created_by :: string
  je_reversed_by :: "nat option"
  je_void_reason :: "string option"
  je_lines :: "journal_line list"

datatype outbox_event =
    Posted_Event nat int int
  | Reversal_Event nat nat

record fin_state =
  fs_entries :: "journal_entry list"
  fs_balances :: "balance_key \<Rightarrow> balance_row option"
  fs_outbox :: "outbox_event list"
  fs_next :: nat

definition empty_fin_state :: fin_state where
  "empty_fin_state = \<lparr>fs_entries = [], fs_balances = (\<lambda>_. None), fs_outbox = [], fs_next = 1\<rparr>"

text \<open>Configuration tables, read but never written by the posting service.\<close>

record accounting_period =
  ap_start :: int
  ap_end :: int
  ap_status :: string

record posting_policy =
  pp_allow_backdate :: bool
  pp_max_backdate_days :: int
  pp_check_closing_lock :: bool
  pp_allow_cancel :: "bool option"

record class_coa_map =
  cm_classification :: string
  cm_coa_version :: string
  cm_coa_acc_code :: string
  cm_debt_group :: string
  cm_currency :: string
  cm_effective :: int
  cm_expiry :: "int option"

record coa_account =
  ca_version :: string
  ca_code :: string
  ca_name :: string
  ca_nature :: string
  ca_postable :: bool
  ca_effective :: int
  ca_expiry :: "int option"

record coa_version =
  cv_code :: string
  cv_active :: bool
  cv_default :: bool
  cv_effective :: int

record opening_row =
  ob_date :: int
  ob_coa_version :: string
  ob_account :: string
  ob_currency :: string
  ob_side :: opening_side

record fin_env =
  env_today :: int
  env_pg_date :: "string \<Rightarrow> int option"
  env_random_key :: string
  env_periods :: "accounting_period list"
  env_policies :: "string \<Rightarrow> posting_policy option"
  env_dimension_keys :: "string list"
  env_class_maps :: "class_coa_map list"
  env_coa_accounts :: "coa_account list"
  env_coa_versions :: "coa_version list"
  env_openings :: "opening_row list"

section \<open>Requests and responses\<close>

record analytics =
  an_classification :: string
  an_debt_group :: string
  an_customer :: string
  an_dimensions :: "string list"

record posting_line =
  pl_line_no :: int
  pl_direction :: string
  pl_amount :: int
  pl_currency :: string
  pl_account :: string
  pl_coa_version :: string
  pl_description :: string
  pl_analytics :: analytics

record posting_request =
  pr_key :: string
  pr_date :: string
  pr_currency :: string
  pr_description :: string
  pr_domain :: string
  pr_doc_type :: string
  pr_doc_id :: string
  pr_doc_code :: string
  pr_case_id :: string
  pr_actor :: string
  pr_lines :: "posting_line list"

record posting_response =
  rs_entry :: nat
  rs_status :: string
  rs_replayed :: bool

record validation_line =
  vl_line_no :: int
  vl_direction :: string
  vl_amount :: int
  vl_currency :: string
  vl_description :: string
  vl_resolved :: bool
  vl_account :: string
  vl_account_name :: string
  vl_coa_version :: string
  vl_customer :: string
  vl_errors :: "string list"

record resolved_account =
  ra_coa_version :: string
  ra_account :: string
  ra_name :: string

section \<open>Queries\<close>

text \<open>The first row of the best rank: \<open>ORDER BY rank DESC LIMIT 1\<close>, ties in table order.\<close>

fun best_by :: "('a \<Rightarrow> int) \<Rightarrow> 'a list \<Rightarrow> 'a option" where
  "best_by f [] = None"
| "best_by f (x # xs) =
     (case best_by f xs of None \<Rightarrow> Some x | Some y \<Rightarrow> if f x < f y then Some y else Some x)"

lemma best_by_None [simp]: "best_by f xs = None \<longleftrightarrow> xs = []"
  by (cases xs) (auto split: option.splits)

lemma best_by_Some: "best_by f xs = Some x \<Longrightarrow> x \<in> set xs \<and> (\<forall>y\<in>set xs. f y \<le> f x)"
  by (induction xs arbitrary: x) (fastforce split: option.splits if_splits)+

definition window_ok :: "int \<Rightarrow> int option \<Rightarrow> int \<Rightarrow> bool" where
  "window_ok effective expiry d \<longleftrightarrow>
     effective \<le> d \<and> (case expiry of None \<Rightarrow> True | Some e \<Rightarrow> d < e)"

text \<open>\<open>onDate\<close> of the account queries: today when the request has none.\<close>

definition on_day :: "fin_env \<Rightarrow> string \<Rightarrow> int option" where
  "on_day env s = (if s = [] then Some (env_today env) else env_pg_date env s)"

definition class_map_rank :: "class_coa_map \<Rightarrow> int" where
  "class_map_rank m = 2 * of_bool (cm_debt_group m \<noteq> []) + of_bool (cm_currency m \<noteq> [])"

definition coa_lookup :: "fin_env \<Rightarrow> string \<Rightarrow> string \<Rightarrow> coa_account option" where
  "coa_lookup env version code =
     find (\<lambda>a. ca_version a = version \<and> ca_code a = code) (env_coa_accounts env)"

definition resolve_account ::
  "fin_env \<Rightarrow> string \<Rightarrow> string \<Rightarrow> string \<Rightarrow> string \<Rightarrow> string + resolved_account" where
  "resolve_account env classification debt_group currency date =
     (case on_day env date of
        None \<Rightarrow> Inl ''invalid date''
      | Some d \<Rightarrow>
          (case best_by class_map_rank
             [m \<leftarrow> env_class_maps env. coa_lookup env (cm_coa_version m) (cm_coa_acc_code m) \<noteq> None \<and>
                cm_classification m = classification \<and> window_ok (cm_effective m) (cm_expiry m) d \<and>
                cm_debt_group m \<in> {debt_group, []} \<and> cm_currency m \<in> {currency, []}] of
             None \<Rightarrow> Inl (''no effective COA mapping for classification '' @ classification @ '' on '' @ date)
           | Some m \<Rightarrow>
               (case coa_lookup env (cm_coa_version m) (cm_coa_acc_code m) of
                  None \<Rightarrow> Inl ''unreachable''
                | Some a \<Rightarrow> Inr \<lparr>ra_coa_version = cm_coa_version m, ra_account = cm_coa_acc_code m,
                                   ra_name = ca_name a\<rparr>)))"

definition default_coa_version :: "fin_env \<Rightarrow> int \<Rightarrow> string option" where
  "default_coa_version env d =
     (let vs = [v \<leftarrow> env_coa_versions env. cv_active v \<and> cv_effective v \<le> d];
          ds = [v \<leftarrow> vs. cv_default v]
      in map_option cv_code (best_by cv_effective (if ds = [] then vs else ds)))"

definition resolve_account_direct ::
  "fin_env \<Rightarrow> string \<Rightarrow> string \<Rightarrow> string \<Rightarrow> string + resolved_account" where
  "resolve_account_direct env account_code coa_version date =
     (case on_day env date of
        None \<Rightarrow> Inl ''invalid date''
      | Some d \<Rightarrow>
          (case (if coa_version = [] then default_coa_version env d else Some coa_version) of
             None \<Rightarrow> Inl (''no active COA version effective on '' @ date)
           | Some version \<Rightarrow>
               (case find (\<lambda>a. ca_version a = version \<and> ca_code a = account_code \<and> ca_postable a \<and>
                        window_ok (ca_effective a) (ca_expiry a) d) (env_coa_accounts env) of
                  None \<Rightarrow> Inl (''ACCOUNT_NOT_FOUND:'' @ account_code @ ''@'' @ version)
                | Some a \<Rightarrow> Inr \<lparr>ra_coa_version = version, ra_account = account_code, ra_name = ca_name a\<rparr>)))"

definition ensure_period_open_day :: "fin_env \<Rightarrow> int \<Rightarrow> string option" where
  "ensure_period_open_day env d =
     (case find (\<lambda>p. ap_start p \<le> d \<and> d \<le> ap_end p) (env_periods env) of
        None \<Rightarrow> Some ''no accounting period open''
      | Some p \<Rightarrow> if ap_status p \<noteq> ''OPEN'' then Some (''PERIOD_CLOSED: period is '' @ ap_status p) else None)"

definition ensure_period_open :: "fin_env \<Rightarrow> string \<Rightarrow> string option" where
  "ensure_period_open env date =
     (case env_pg_date env date of
        None \<Rightarrow> Some ''invalid input syntax for type date''
      | Some d \<Rightarrow> ensure_period_open_day env d)"

definition find_entry :: "fin_state \<Rightarrow> nat \<Rightarrow> journal_entry option" where
  "find_entry s i = find (\<lambda>e. je_id e = i) (fs_entries s)"

definition find_entry_by_key :: "fin_state \<Rightarrow> string \<Rightarrow> string \<Rightarrow> journal_entry option" where
  "find_entry_by_key s key doc_type =
     (if key = [] then None
      else find (\<lambda>e. je_key e = Some key \<and> je_doc_type e = doc_type) (fs_entries s))"

definition update_entry :: "nat \<Rightarrow> (journal_entry \<Rightarrow> journal_entry) \<Rightarrow> fin_state \<Rightarrow> fin_state" where
  "update_entry i f s = s\<lparr>fs_entries := map (\<lambda>e. if je_id e = i then f e else e) (fs_entries s)\<rparr>"

text \<open>\<open>MarkReversed\<close>: matches only a POSTED entry that is not reversed yet.\<close>

definition mark_reversed :: "nat \<Rightarrow> nat \<Rightarrow> fin_state \<Rightarrow> string + fin_state" where
  "mark_reversed original reversal s =
     (if \<exists>e\<in>set (fs_entries s). je_id e = original \<and> je_status e = ''POSTED'' \<and> je_reversed_by e = None
      then Inr (s\<lparr>fs_entries := map (\<lambda>e. if je_id e = original \<and> je_status e = ''POSTED'' \<and> je_reversed_by e = None
                                       then e\<lparr>je_reversed_by := Some reversal, je_status := ''REVERSED''\<rparr> else e)
                            (fs_entries s)\<rparr>)
      else Inl ''entry already reversed or not posted'')"

text \<open>\<open>MaxClosingDate\<close>: the latest posted FIN_CLOSING entry.\<close>

definition max_closing_date :: "fin_state \<Rightarrow> int option" where
  "max_closing_date s =
     map_option je_date (best_by je_date
       [e \<leftarrow> fs_entries s. je_doc_type e = ''FIN_CLOSING'' \<and> je_status e \<in> {''POSTED'', ''REVERSED''}])"

section \<open>Balance rows\<close>

definition line_key :: "journal_line \<Rightarrow> balance_key" where
  "line_key l = \<lparr>bk_bal_type = jl_bal_type l, bk_coa_version = jl_coa_version l,
                 bk_account = jl_account l, bk_currency = jl_currency l\<rparr>"

definition balance_keys :: "journal_line list \<Rightarrow> balance_key list" where
  "balance_keys ls = dedup [] (map line_key ls)"

text \<open>A row as \<open>EnsureAndLockBalances\<close> reads it: a missing one is inserted with zero counters.\<close>

definition row_of :: "(balance_key \<Rightarrow> balance_row option) \<Rightarrow> balance_key \<Rightarrow> balance_row" where
  "row_of bal k = (case bal k of None \<Rightarrow> zero_row k | Some r \<Rightarrow> r)"

definition ensure_rows ::
  "balance_key list \<Rightarrow> (balance_key \<Rightarrow> balance_row option) \<Rightarrow> (balance_key \<Rightarrow> balance_row option)" where
  "ensure_rows keys bal = (\<lambda>k. if k \<in> set keys then Some (row_of bal k) else bal k)"

definition counters_nonneg :: "balance_row \<Rightarrow> bool" where
  "counters_nonneg r \<longleftrightarrow>
     0 \<le> posted_debit r \<and> 0 \<le> posted_credit r \<and> 0 \<le> reserved_debit r \<and> 0 \<le> reserved_credit r"

text \<open>\<open>SaveBalance\<close> for every locked row: the table's CHECK constraints refuse a negative counter.\<close>

definition save_balances ::
  "balance_key list \<Rightarrow> (balance_key \<Rightarrow> balance_row option) \<Rightarrow> string + (balance_key \<Rightarrow> balance_row option)" where
  "save_balances keys bal =
     (if list_all (\<lambda>k. counters_nonneg (row_of bal k)) keys then Inr bal
      else Inl ''violates check constraint on fin_account_balances'')"

fun load_natures :: "fin_env \<Rightarrow> balance_key list \<Rightarrow> (balance_key \<Rightarrow> string) \<Rightarrow> string + (balance_key \<Rightarrow> string)" where
  "load_natures env [] out = Inr out"
| "load_natures env (k # ks) out =
     (case coa_lookup env (bk_coa_version k) (bk_account k) of
        None \<Rightarrow> Inl (''ACCOUNT_NATURE_UNKNOWN:'' @ bk_account k)
      | Some a \<Rightarrow> load_natures env ks (out(k := ca_nature a)))"

definition opening_on :: "fin_env \<Rightarrow> balance_key \<Rightarrow> int \<Rightarrow> opening_side" where
  "opening_on env k d =
     (case best_by ob_date [r \<leftarrow> env_openings env. ob_coa_version r = bk_coa_version k \<and>
          ob_account r = bk_account k \<and> ob_currency r = bk_currency k \<and> ob_date r \<le> d] of
        None \<Rightarrow> no_opening | Some r \<Rightarrow> ob_side r)"

lemma row_of_upd [simp]: "row_of (bal(k \<mapsto> r)) k' = (if k' = k then r else row_of bal k')"
  by (simp add: row_of_def)

lemma row_of_ensure [simp]: "row_of (ensure_rows keys bal) k = row_of bal k"
  by (simp add: row_of_def ensure_rows_def)

lemma save_balances_Inr: "save_balances keys bal = Inr bal' \<Longrightarrow> bal' = bal"
  by (auto simp: save_balances_def split: if_splits)

lemma load_natures_nature:
  assumes "load_natures env ks out = Inr ns" "k \<in> set ks"
  shows "\<exists>a. coa_lookup env (bk_coa_version k) (bk_account k) = Some a \<and> ns k = ca_nature a"
proof -
  have "load_natures env ks out = Inr ns \<Longrightarrow> (k \<in> set ks \<longrightarrow>
      (\<exists>a. coa_lookup env (bk_coa_version k) (bk_account k) = Some a \<and> ns k = ca_nature a)) \<and>
      (k \<notin> set ks \<longrightarrow> ns k = out k)"
  proof (induction ks arbitrary: out)
    case Nil
    then show ?case by simp
  next
    case (Cons k' ks)
    then obtain a where a: "coa_lookup env (bk_coa_version k') (bk_account k') = Some a"
      and r: "load_natures env ks (out(k' := ca_nature a)) = Inr ns"
      by (auto split: option.splits)
    from Cons.IH [OF r] a show ?case by (auto split: if_splits)
  qed
  with assms show ?thesis by auto
qed

end
