(* ===== verification/Posting_Policy.thy ===== *)
theory Posting_Policy
  imports Journal
begin

text \<open>
  The policies around a posting in finance-service: the posting-date policy
  (posting_policy_service.go), the reversal policy (reversal_policy.go), the classification of
  errors into the gRPC enum (posting_error.go), and the posting strategies with the debt-group
  matrix (domain/posting_strategy.go).
\<close>

section \<open>Posting-date policy\<close>

definition err_future :: string where "err_future = ''TRANSACTION_DATE_EXCEEDS_CURRENT_DATE''"
definition err_backdate :: string where "err_backdate = ''BACKDATE_NOT_ALLOWED''"
definition err_beyond :: string where "err_beyond = ''TRANSACTION_DATE_EXCEEDS_BACKDATE''"
definition err_closing :: string where "err_closing = ''POSTING_DATE_BEFORE_CLOSING_LOCK''"

definition trim_date :: "string \<Rightarrow> string" where
  "trim_date s =
     (let blank_char = (\<lambda>c. c = CHR '' '' \<or> c = CHR 0x09)
      in rev (dropWhile blank_char (rev (dropWhile blank_char s))))"

text \<open>\<open>int(today.Sub(parsed).Hours() / 24)\<close>: a \<open>time.Duration\<close> saturates at 2^63 - 1 nanoseconds, 106751 days.\<close>

definition days_back :: "int \<Rightarrow> int \<Rightarrow> int" where
  "days_back today parsed = min 106751 (today - parsed)"

text \<open>
  \<open>checkPostingDate\<close> from the parsed day on: the violation's sentinel (the detail after it is text
  for the operator). \<open>env_today\<close> is the request's calendar day.
\<close>

definition check_posting_day :: "fin_env \<Rightarrow> fin_state \<Rightarrow> string \<Rightarrow> int \<Rightarrow> string option" where
  "check_posting_day env s doc_type parsed =
     (let today = env_today env in
      if today < parsed then Some err_future
      else if parsed = today then None
      else case env_policies env doc_type of
        None \<Rightarrow> None
      | Some policy \<Rightarrow>
          if \<not> pp_allow_backdate policy then Some err_backdate
          else if pp_max_backdate_days policy < days_back today parsed then Some err_beyond
          else if pp_check_closing_lock policy then
            (case max_closing_date s of
               None \<Rightarrow> None
             | Some closing \<Rightarrow> if parsed < closing then Some err_closing else None)
          else None)"

definition check_posting_date :: "fin_env \<Rightarrow> fin_state \<Rightarrow> string \<Rightarrow> string \<Rightarrow> string option" where
  "check_posting_date env s doc_type date =
     (let date = trim_date date in
      if date = [] then None
      else case parse_iso date of
        None \<Rightarrow> None
      | Some c \<Rightarrow> check_posting_day env s doc_type (civil_day c))"

definition posting_policy_sentinels :: "string list" where
  "posting_policy_sentinels = [err_future, err_backdate, err_beyond, err_closing]"

text \<open>The window that the policy allows, as a predicate on the day.\<close>

definition date_window_ok :: "fin_env \<Rightarrow> fin_state \<Rightarrow> string \<Rightarrow> int \<Rightarrow> bool" where
  "date_window_ok env s doc_type d \<longleftrightarrow>
     d \<le> env_today env \<and>
     (d < env_today env \<longrightarrow>
       (case env_policies env doc_type of
          None \<Rightarrow> True
        | Some p \<Rightarrow> pp_allow_backdate p \<and> days_back (env_today env) d \<le> pp_max_backdate_days p \<and>
            (pp_check_closing_lock p \<longrightarrow>
              (case max_closing_date s of None \<Rightarrow> True | Some cl \<Rightarrow> cl \<le> d))))"

lemma check_posting_date_iff:
  assumes "parse_iso (trim_date date) = Some c"
  shows "check_posting_date env s doc_type date = None \<longleftrightarrow> date_window_ok env s doc_type (civil_day c)"
proof -
  have "trim_date date \<noteq> []" using assms parse_iso_SomeD(1) by force
  then show ?thesis
    using assms by (auto simp: check_posting_date_def check_posting_day_def date_window_ok_def Let_def split: option.splits)
qed

lemma check_posting_date_sentinel:
  "check_posting_date env s doc_type date = Some e \<Longrightarrow> e \<in> set posting_policy_sentinels"
  by (auto simp: check_posting_date_def check_posting_day_def posting_policy_sentinels_def Let_def split: option.splits if_splits)

text \<open>A text that the layout does not parse is never refused.\<close>

lemma check_posting_date_unparsed:
  "parse_iso (trim_date date) = None \<Longrightarrow> check_posting_date env s doc_type date = None"
  by (simp add: check_posting_date_def Let_def)

section \<open>Reversal policy\<close>

definition reversal_domain_finance :: string where
  "reversal_domain_finance = ''fin''"

definition default_cancellable_doc_types :: "string list" where
  "default_cancellable_doc_types =
     [''FIN_SINGLE_ENTRY'', ''FIN_DOUBLE_ENTRY'', ''FIN_OFF_BALANCE'', ''FIN_FUND_APPROP'', ''FIN_FUND_USE'']"

definition reversal_allowed :: "string \<Rightarrow> string \<Rightarrow> bool option \<Rightarrow> bool" where
  "reversal_allowed domain doc_type override =
     (if domain \<noteq> reversal_domain_finance \<or> \<not> has_prefix doc_type ''FIN_'' then False
      else case override of
        Some b \<Rightarrow> b
      | None \<Rightarrow> List.member default_cancellable_doc_types doc_type)"

definition ensure_reversal_allowed :: "fin_env \<Rightarrow> string \<Rightarrow> string \<Rightarrow> string option" where
  "ensure_reversal_allowed env domain doc_type =
     (let override =
        (if domain = reversal_domain_finance \<and> has_prefix doc_type ''FIN_'' then
           (case env_policies env doc_type of None \<Rightarrow> None | Some p \<Rightarrow> pp_allow_cancel p)
         else None)
      in if reversal_allowed domain doc_type override then None else Some ''REVERSAL_NOT_ALLOWED'')"

lemma ensure_reversal_allowed_fin:
  "ensure_reversal_allowed env domain doc_type = None \<Longrightarrow>
     domain = ''fin'' \<and> has_prefix doc_type ''FIN_''"
  by (auto simp: ensure_reversal_allowed_def reversal_allowed_def reversal_domain_finance_def Let_def
      split: if_splits)

section \<open>Error classification\<close>

datatype posting_error_code =
    Unspecified | No_Lines | Invalid_Direction | Classification_Required | Unknown_Dimension
  | Unbalanced | Period_Closed | Backdate_Not_Allowed | Date_Exceeds_Current | Date_Exceeds_Backdate
  | Date_Before_Closing_Lock | Reversal_Not_Allowed | Insufficient_Balance | Account_Unresolved
  | Rule_Not_Found | Duplicate_Key_Conflict | Period_Not_Found | Invalid_Amount | Currency_Mismatch
  | Concurrent_Modification

text \<open>
  The \<open>switch\<close> of \<open>ClassifyPostingError\<close>, first match wins. The \<open>errors.Is\<close> alternatives need
  no case of their own: a sentinel's text is part of the message of every error that wraps it.
\<close>

definition posting_error_table :: "(string list \<times> posting_error_code) list" where
  "posting_error_table =
     [([''NO_LINES''], No_Lines),
      ([''INVALID_DIRECTION''], Invalid_Direction),
      ([''CLASSIFICATION_REQUIRED''], Classification_Required),
      ([''UNKNOWN_DIMENSION''], Unknown_Dimension),
      ([''UNBALANCED''], Unbalanced),
      ([''PERIOD_CLOSED''], Period_Closed),
      ([''BACKDATE_NOT_ALLOWED''], Backdate_Not_Allowed),
      ([''TRANSACTION_DATE_EXCEEDS_CURRENT_DATE''], Date_Exceeds_Current),
      ([''TRANSACTION_DATE_EXCEEDS_BACKDATE''], Date_Exceeds_Backdate),
      ([''POSTING_DATE_BEFORE_CLOSING_LOCK''], Date_Before_Closing_Lock),
      ([''REVERSAL_NOT_ALLOWED''], Reversal_Not_Allowed),
      ([''BAL_AVAILABLE_IS_NOT_ENOUGH'', ''BAL_ACTUAL_IS_NOT_ENOUGH'', ''INSUFFICIENT_BALANCE''], Insufficient_Balance),
      ([''ACCOUNT_UNRESOLVED'', ''ACCOUNT_NOT_FOUND''], Account_Unresolved),
      ([''RULE_NOT_FOUND''], Rule_Not_Found),
      ([''DUPLICATE_IDEMPOTENCY_KEY_CONFLICT'', ''IDEMPOTENCY KEY''], Duplicate_Key_Conflict),
      ([''PERIOD_NOT_FOUND''], Period_Not_Found),
      ([''INVALID_AMOUNT''], Invalid_Amount),
      ([''CURRENCY_MISMATCH''], Currency_Mismatch),
      ([''CONCURRENT_MODIFICATION''], Concurrent_Modification)]"

definition classify_posting_error :: "string option \<Rightarrow> posting_error_code" where
  "classify_posting_error err =
     (case err of
        None \<Rightarrow> Unspecified
      | Some text \<Rightarrow>
          let message = to_upper text in
          (case find (\<lambda>(codes, _). list_ex (contains_str message) codes) posting_error_table of
             None \<Rightarrow> Unspecified | Some (_, c) \<Rightarrow> c))"

section \<open>Posting strategies and the debt-group matrix\<close>

datatype posting_strategy = Simple | Bal_Type_Split | Debt_Group_Reclass

definition strategy_text :: "posting_strategy \<Rightarrow> string" where
  "strategy_text st = (case st of Simple \<Rightarrow> ''SIMPLE'' | Bal_Type_Split \<Rightarrow> ''BAL_TYPE_SPLIT''
                         | Debt_Group_Reclass \<Rightarrow> ''DEBT_GROUP_RECLASS'')"

definition parse_posting_strategy :: "string \<Rightarrow> string + posting_strategy" where
  "parse_posting_strategy value =
     (if value = ''SIMPLE'' then Inr Simple
      else if value = ''BAL_TYPE_SPLIT'' then Inr Bal_Type_Split
      else if value = ''DEBT_GROUP_RECLASS'' then Inr Debt_Group_Reclass
      else Inl (''unknown posting strategy: '' @ value))"

lemma strategy_roundtrip: "parse_posting_strategy (strategy_text st) = Inr st"
  by (cases st) (simp_all add: parse_posting_strategy_def strategy_text_def)

record debt_transfer =
  dt_from :: string
  dt_to :: string
  dt_amount :: int

datatype matrix_error = Bad_Transition | Bad_Transfer

text \<open>\<open>NewDebtGroupMatrix\<close>: the set of configured directed pairs, in the order they are added.\<close>

fun new_debt_group_matrix :: "(string \<times> string) list \<Rightarrow> (string \<times> string) list \<Rightarrow> matrix_error + (string \<times> string) list" where
  "new_debt_group_matrix allowed [] = Inr allowed"
| "new_debt_group_matrix allowed ((f, t) # rest) =
     (if f = [] \<or> t = [] \<or> f = t then Inl Bad_Transition
      else if (f, t) \<in> set allowed then Inl Bad_Transition
      else new_debt_group_matrix (allowed @ [(f, t)]) rest)"

text \<open>A Go map read of a missing key is zero.\<close>

definition bal_get :: "(string \<Rightarrow> int option) \<Rightarrow> string \<Rightarrow> int" where
  "bal_get m g = (case m g of None \<Rightarrow> 0 | Some v \<Rightarrow> v)"

definition apply_transfer ::
  "(string \<times> string) list \<Rightarrow> debt_transfer \<Rightarrow> (string \<Rightarrow> int option) \<Rightarrow> matrix_error + (string \<Rightarrow> int option)" where
  "apply_transfer allowed tr result =
     (if (dt_from tr, dt_to tr) \<notin> set allowed \<or> dt_amount tr \<le> 0 \<or> dt_from tr = dt_to tr then Inl Bad_Transfer
      else if bal_get result (dt_from tr) < dt_amount tr \<or>
              sub64 9223372036854775807 (dt_amount tr) < bal_get result (dt_to tr) then Inl Bad_Transfer
      else let r1 = result(dt_from tr \<mapsto> sub64 (bal_get result (dt_from tr)) (dt_amount tr))
           in Inr (r1(dt_to tr \<mapsto> add64 (bal_get r1 (dt_to tr)) (dt_amount tr))))"

text \<open>
  \<open>Apply\<close> on a map given by its entries (a Go map has each key once); the copy into \<open>result\<close> is
  the map itself.
\<close>

definition matrix_apply ::
  "(string \<times> string) list \<Rightarrow> (string \<times> int) list \<Rightarrow> debt_transfer list \<Rightarrow> matrix_error + (string \<Rightarrow> int option)" where
  "matrix_apply allowed balances transfers =
     (if list_ex (\<lambda>(g, b). g = [] \<or> b < 0) balances then Inl Bad_Transfer
      else fold_r (apply_transfer allowed) transfers (map_of balances))"

definition group_total :: "string list \<Rightarrow> (string \<Rightarrow> int option) \<Rightarrow> int" where
  "group_total groups m = sum_list (map (bal_get m) groups)"

definition balances_ok :: "(string \<Rightarrow> int option) \<Rightarrow> bool" where
  "balances_ok m \<longleftrightarrow> (\<forall>g. 0 \<le> bal_get m g \<and> in64 (bal_get m g))"

lemma bal_get_upd [simp]: "bal_get (m(g \<mapsto> v)) h = (if h = g then v else bal_get m h)"
  by (simp add: bal_get_def)

lemma apply_transfer_Inr:
  assumes "apply_transfer allowed tr m = Inr m'" and ok: "balances_ok m" and amt: "in64 (dt_amount tr)"
  shows "dt_from tr \<noteq> dt_to tr \<and> (dt_from tr, dt_to tr) \<in> set allowed \<and>
    (\<forall>g. bal_get m' g = bal_get m g + (if g = dt_to tr then dt_amount tr
       else if g = dt_from tr then - dt_amount tr else 0)) \<and> balances_ok m'"
proof -
  let ?f = "dt_from tr" and ?t = "dt_to tr" and ?a = "dt_amount tr"
  have c: "?f \<noteq> ?t" "(?f, ?t) \<in> set allowed" "0 < ?a" "?a \<le> bal_get m ?f"
    "bal_get m ?t \<le> sub64 9223372036854775807 ?a"
    using assms(1) by (auto simp: apply_transfer_def split: if_splits)
  have m': "m' = m(?f \<mapsto> sub64 (bal_get m ?f) ?a, ?t \<mapsto> add64 (bal_get m ?t) ?a)"
    using assms(1) c(1) by (auto simp: apply_transfer_def Let_def split: if_splits)
  have b: "0 \<le> bal_get m g" "in64 (bal_get m g)" for g using ok by (auto simp: balances_ok_def)
  have "sub64 9223372036854775807 ?a = 9223372036854775807 - ?a"
    using amt c(3) by (intro sub64_eq) (auto simp: in64_def)
  with c(3,5) b [of ?t] have t: "add64 (bal_get m ?t) ?a = bal_get m ?t + ?a" "in64 (bal_get m ?t + ?a)"
    by (auto simp: in64_def intro!: add64_eq)
  have f: "sub64 (bal_get m ?f) ?a = bal_get m ?f - ?a" "in64 (bal_get m ?f - ?a)"
    using c(3,4) b [of ?f] by (auto simp: in64_def intro!: sub64_eq)
  have eff: "\<forall>g. bal_get m' g = bal_get m g + (if g = ?t then ?a else if g = ?f then - ?a else 0)"
    using c(1) by (simp add: m' t(1) f(1))
  moreover have "balances_ok m'"
    unfolding balances_ok_def using b c(1,3,4) t f eff by (auto simp: in64_def)
  ultimately show ?thesis using c by simp
qed

lemma sum_list_point_update:
  fixes h k :: "'a \<Rightarrow> int"
  assumes "distinct gs" "\<forall>g\<in>set gs. k g = h g + (if g = t then a else if g = f then - a else 0)"
    "f \<in> set gs" "t \<in> set gs" "f \<noteq> t"
  shows "sum_list (map k gs) = sum_list (map h gs)"
proof -
  have "sum_list (map k gs) = sum k (set gs)" using assms(1) by (simp add: sum_list_distinct_conv_sum_set)
  also have "\<dots> = (\<Sum>g\<in>set gs. h g + (if g = t then a else 0) + (if g = f then - a else 0))"
    using assms(2,5) by (intro sum.cong) auto
  also have "\<dots> = sum h (set gs)"
    using assms(3,4) by (simp add: sum.distrib)
  also have "\<dots> = sum_list (map h gs)" using assms(1) by (simp add: sum_list_distinct_conv_sum_set)
  finally show ?thesis .
qed

lemma fold_transfers:
  assumes "fold_r (apply_transfer allowed) trs m = Inr m'" "balances_ok m"
    "\<forall>tr\<in>set trs. in64 (dt_amount tr)" "distinct gs"
    "\<forall>(f, t)\<in>set allowed. f \<in> set gs \<and> t \<in> set gs"
  shows "group_total gs m' = group_total gs m \<and> balances_ok m'"
  using assms
proof (induction trs arbitrary: m)
  case Nil
  then show ?case by simp
next
  case (Cons tr trs)
  then obtain m1 where s: "apply_transfer allowed tr m = Inr m1"
    and r: "fold_r (apply_transfer allowed) trs m1 = Inr m'"
    by (auto split: sum.splits)
  from apply_transfer_Inr [OF s] Cons.prems
  have ne: "dt_from tr \<noteq> dt_to tr" and mem: "(dt_from tr, dt_to tr) \<in> set allowed"
    and e: "\<forall>g. bal_get m1 g = bal_get m g + (if g = dt_to tr then dt_amount tr
       else if g = dt_from tr then - dt_amount tr else 0)" and ok: "balances_ok m1" by auto
  have "group_total gs m1 = group_total gs m"
    unfolding group_total_def using e ne mem Cons.prems(4,5)
    by (intro sum_list_point_update [where a = "dt_amount tr" and t = "dt_to tr" and f = "dt_from tr"]) auto
  with Cons.IH [OF r ok] Cons.prems show ?case by auto
qed

end
