(* ===== verification/Posting.thy ===== *)
theory Posting
  imports Posting_Policy
begin

text \<open>
  The posting service of finance-service (internal/service/posting_service.go): resolving and
  validating a request, reserving it (PENDING), posting it (direct, or the PENDING entry of its
  idempotency key), releasing it (VOID) and reversing it. Every database transaction of the code
  is one step on \<^typ>\<open>fin_state\<close>; the row locks it takes make the transactions on one balance row
  or entry sequential. An operation returns the state it leaves together with its result, since a
  failed call may have committed an earlier transaction of its own.
\<close>

section \<open>Resolving a request\<close>

text \<open>A line before its account is resolved: the request's fields, and the errors found so far.\<close>

definition base_line :: "fin_env \<Rightarrow> posting_request \<Rightarrow> posting_line \<Rightarrow> validation_line" where
  "base_line env req l =
     (let cur = (if pl_currency l = [] then pr_currency req else pl_currency l) in
      \<lparr>vl_line_no = pl_line_no l, vl_direction = pl_direction l, vl_amount = pl_amount l,
       vl_currency = (if cur = [] then ''VND'' else cur), vl_description = pl_description l,
       vl_resolved = False, vl_account = [], vl_account_name = [], vl_coa_version = [], vl_customer = [],
       vl_errors =
         (if pl_amount l \<le> 0 then [''INVALID_AMOUNT''] else []) @
         (if pl_direction l \<noteq> ''DEBIT'' \<and> pl_direction l \<noteq> ''CREDIT'' then [''INVALID_DIRECTION''] else []) @
         map (\<lambda>key. ''UNKNOWN_DIMENSION:'' @ key)
           [key \<leftarrow> an_dimensions (pl_analytics l). \<not> List.member (env_dimension_keys env) key]\<rparr>)"

definition resolved_line :: "validation_line \<Rightarrow> string \<Rightarrow> resolved_account \<Rightarrow> validation_line" where
  "resolved_line line customer r =
     line\<lparr>vl_resolved := True, vl_account := ra_account r, vl_account_name := ra_name r,
          vl_coa_version := ra_coa_version r, vl_customer := customer\<rparr>"

definition line_error :: "validation_line \<Rightarrow> string \<Rightarrow> validation_line" where
  "line_error line err = line\<lparr>vl_errors := vl_errors line @ [err]\<rparr>"

definition resolve_line :: "fin_env \<Rightarrow> posting_request \<Rightarrow> posting_line \<Rightarrow> validation_line" where
  "resolve_line env req l =
     (let cur = (if pl_currency l = [] then pr_currency req else pl_currency l);
          a = pl_analytics l; line = base_line env req l
      in if pl_account l \<noteq> [] then
           (case resolve_account_direct env (pl_account l) (pl_coa_version l) (pr_date req) of
              Inl err \<Rightarrow> line_error line err
            | Inr r \<Rightarrow> resolved_line line (an_customer a) r)
         else if an_classification a = [] then line_error line ''CLASSIFICATION_REQUIRED''
         else
           (case resolve_account env (an_classification a) (an_debt_group a) cur (pr_date req) of
              Inl err \<Rightarrow> line_error line ''ACCOUNT_UNRESOLVED''
            | Inr r \<Rightarrow> resolved_line line (an_customer a) r))"

lemma line_fields [simp]:
  "vl_direction (line_error b err) = vl_direction b" "vl_direction (resolved_line b c r) = vl_direction b"
  "vl_amount (line_error b err) = vl_amount b" "vl_amount (resolved_line b c r) = vl_amount b"
  "vl_currency (line_error b err) = vl_currency b" "vl_currency (resolved_line b c r) = vl_currency b"
  "vl_line_no (line_error b err) = vl_line_no b" "vl_line_no (resolved_line b c r) = vl_line_no b"
  "vl_errors (line_error b err) = vl_errors b @ [err]" "vl_errors (resolved_line b c r) = vl_errors b"
  by (simp_all add: line_error_def resolved_line_def)

lemma base_fields [simp]:
  "vl_direction (base_line env req l) = pl_direction l" "vl_amount (base_line env req l) = pl_amount l"
  "vl_line_no (base_line env req l) = pl_line_no l"
  by (simp_all add: base_line_def Let_def)

text \<open>\<open>balanced[currency][direction] += amount\<close> over the lines, wrapping as the code's int64 does.\<close>

definition dir_sum :: "string \<Rightarrow> string \<Rightarrow> validation_line list \<Rightarrow> int" where
  "dir_sum currency direction ls =
     fold (\<lambda>l acc. if vl_currency l = currency \<and> vl_direction l = direction then add64 acc (vl_amount l) else acc) ls 0"

record validation_result =
  vr_valid :: bool
  vr_lines :: "validation_line list"
  vr_global_errors :: "string list"
  vr_coa_version :: string

definition resolve :: "fin_env \<Rightarrow> posting_request \<Rightarrow> validation_result" where
  "resolve env req =
     (let lines = map (resolve_line env req) (pr_lines req);
          e0 = (if ensure_period_open env (pr_date req) \<noteq> None then [''PERIOD_CLOSED''] else []);
          e1 = map (\<lambda>c. ''UNBALANCED:'' @ c)
                 [c \<leftarrow> dedup [] (map vl_currency lines). dir_sum c ''DEBIT'' lines \<noteq> dir_sum c ''CREDIT'' lines];
          e2 = (if lines = [] then [''NO_LINES''] else []);
          global_errors = e0 @ e1 @ e2
      in \<lparr>vr_valid = (global_errors = [] \<and> list_all (\<lambda>l. vl_errors l = []) lines),
          vr_lines = lines,
          vr_global_errors = global_errors,
          vr_coa_version = (case find (\<lambda>l. vl_resolved l \<and> vl_coa_version l \<noteq> []) lines of None \<Rightarrow> [] | Some l \<Rightarrow> vl_coa_version l)\<rparr>)"

fun join_str :: "string \<Rightarrow> string list \<Rightarrow> string" where
  "join_str sep [] = []"
| "join_str sep [x] = x"
| "join_str sep (x # y # xs) = x @ sep @ join_str sep (y # xs)"

definition err_rejected :: "validation_result \<Rightarrow> string" where
  "err_rejected v = ''posting rejected: '' @ join_str ''; '' (vr_global_errors v)"

definition require_tenant :: "string \<Rightarrow> string option" where
  "require_tenant tenant = (if blank tenant then Some ''tenant scope is required'' else None)"

section \<open>Writing an entry\<close>

definition null_text :: "string \<Rightarrow> string option" where
  "null_text s = (if s = [] then None else Some s)"

definition to_journal_line :: "validation_line \<Rightarrow> journal_line" where
  "to_journal_line l =
     \<lparr>jl_line_no = vl_line_no l, jl_direction = vl_direction l, jl_bal_type = balance_type_actual,
      jl_coa_version = vl_coa_version l, jl_account = vl_account l, jl_account_name = vl_account_name l,
      jl_amount = vl_amount l, jl_currency = vl_currency l, jl_counterparty = null_text (vl_customer l),
      jl_description = vl_description l\<rparr>"

text \<open>An entry's lines are kept in the order \<open>ORDER BY line_no\<close>, in which every query reads them.\<close>

definition mk_entry :: "nat \<Rightarrow> int \<Rightarrow> string \<Rightarrow> string \<Rightarrow> posting_request \<Rightarrow> journal_line list \<Rightarrow> journal_entry" where
  "mk_entry i d status key req ls =
     \<lparr>je_id = i, je_date = d, je_currency = pr_currency req, je_status = status,
      je_description = pr_description req, je_domain = pr_domain req, je_doc_type = pr_doc_type req,
      je_doc_id = null_text (pr_doc_id req), je_doc_code = pr_doc_code req, je_case_id = null_text (pr_case_id req),
      je_key = null_text key,
      je_created_by = (if blank (pr_actor req) then pr_doc_code req else pr_actor req),
      je_reversed_by = None, je_void_reason = None, je_lines = sort_key jl_line_no ls\<rparr>"

text \<open>
  The INSERTs of one entry and its lines: the unique index on the idempotency key, and the unique
  line number, the direction and the amount constraints of fin_journal_lines.
\<close>

definition insert_entry :: "journal_entry \<Rightarrow> fin_state \<Rightarrow> string + fin_state" where
  "insert_entry e s =
     (if je_key e \<noteq> None \<and> list_ex (\<lambda>x. je_key x = je_key e) (fs_entries s)
      then Inl ''insert entry: duplicate key value violates unique constraint''
      else if \<not> distinct (map jl_line_no (je_lines e))
      then Inl ''insert line: duplicate line_no''
      else if \<not> list_all (\<lambda>l. 0 < jl_amount l \<and> direction_ok (jl_direction l)) (je_lines e)
      then Inl ''insert line: violates check constraint''
      else Inr (s\<lparr>fs_entries := fs_entries s @ [e], fs_next := Suc (fs_next s)\<rparr>))"

section \<open>Balance movements of a list of lines\<close>

definition move_line ::
  "(balance_row \<Rightarrow> string \<Rightarrow> int \<Rightarrow> balance_row) \<Rightarrow> journal_line \<Rightarrow>
   (balance_key \<Rightarrow> balance_row option) \<Rightarrow> (balance_key \<Rightarrow> balance_row option)" where
  "move_line f l bal = bal(line_key l \<mapsto> f (row_of bal (line_key l)) (jl_direction l) (jl_amount l))"

fun move_lines ::
  "(balance_row \<Rightarrow> string \<Rightarrow> int \<Rightarrow> balance_row) \<Rightarrow> journal_line list \<Rightarrow>
   (balance_key \<Rightarrow> balance_row option) \<Rightarrow> (balance_key \<Rightarrow> balance_row option)" where
  "move_lines f [] bal = bal"
| "move_lines f (l # ls) bal = move_lines f ls (move_line f l bal)"

text \<open>The loop body of \<open>reserveLines\<close> and \<open>moveLinesToPosted\<close>: check the line, then apply it.\<close>

definition checked_move ::
  "(balance_row \<Rightarrow> int \<Rightarrow> string \<Rightarrow> string \<Rightarrow> int \<Rightarrow> string option) \<Rightarrow>
   (balance_row \<Rightarrow> string \<Rightarrow> int \<Rightarrow> balance_row) \<Rightarrow> (balance_key \<Rightarrow> string) \<Rightarrow> (balance_key \<Rightarrow> opening_side) \<Rightarrow>
   journal_line \<Rightarrow> (balance_key \<Rightarrow> balance_row option) \<Rightarrow> string + (balance_key \<Rightarrow> balance_row option)" where
  "checked_move check f natures openings l bal =
     (let k = line_key l; row = row_of bal k; nature = natures k;
          opening = natural_signed_opening (openings k) nature
      in case check row opening nature (jl_direction l) (jl_amount l) of
           Some err \<Rightarrow> Inl err
         | None \<Rightarrow> Inr (move_line f l bal))"

definition run_checked ::
  "(balance_row \<Rightarrow> int \<Rightarrow> string \<Rightarrow> string \<Rightarrow> int \<Rightarrow> string option) \<Rightarrow>
   (balance_row \<Rightarrow> string \<Rightarrow> int \<Rightarrow> balance_row) \<Rightarrow> fin_env \<Rightarrow> journal_line list \<Rightarrow> int \<Rightarrow>
   (balance_key \<Rightarrow> balance_row option) \<Rightarrow> string + (balance_key \<Rightarrow> balance_row option)" where
  "run_checked check f env lines d bal =
     (let keys = balance_keys lines; bal0 = ensure_rows keys bal in
      bind_r (load_natures env keys (\<lambda>_. [])) (\<lambda>natures.
        bind_r (fold_r (checked_move check f natures (\<lambda>k. opening_on env k d)) lines bal0)
          (save_balances keys)))"

definition reserve_lines where
  "reserve_lines = run_checked check_reserve apply_reserve"

definition move_lines_to_posted where
  "move_lines_to_posted = run_checked check_post_actual apply_post"

definition post_lines_to_balances ::
  "journal_line list \<Rightarrow> (balance_key \<Rightarrow> balance_row option) \<Rightarrow> string + (balance_key \<Rightarrow> balance_row option)" where
  "post_lines_to_balances lines bal =
     (let keys = balance_keys lines in
      if keys = [] then Inr bal
      else save_balances keys (move_lines apply_direct_post lines (ensure_rows keys bal)))"

definition release_lines ::
  "journal_line list \<Rightarrow> (balance_key \<Rightarrow> balance_row option) \<Rightarrow> string + (balance_key \<Rightarrow> balance_row option)" where
  "release_lines lines bal =
     (if lines = [] then Inr bal
      else let keys = balance_keys lines in
        save_balances keys (move_lines apply_release lines (ensure_rows keys bal)))"

text \<open>The debit and the credit total of an event's payload.\<close>

definition payload_totals :: "(string \<times> int) list \<Rightarrow> int \<times> int" where
  "payload_totals ls =
     fold (\<lambda>(d, a) (debit, credit). if d = ''DEBIT'' then (add64 debit a, credit) else (debit, add64 credit a)) ls (0, 0)"

definition posted_event :: "nat \<Rightarrow> (string \<times> int) list \<Rightarrow> outbox_event" where
  "posted_event i ls = (let (d, c) = payload_totals ls in Posted_Event i d c)"

section \<open>Posting and releasing a pending entry\<close>

definition response :: "nat \<Rightarrow> string \<Rightarrow> bool \<Rightarrow> posting_response" where
  "response i status replayed = \<lparr>rs_entry = i, rs_status = status, rs_replayed = replayed\<rparr>"

definition post_pending_entry :: "fin_env \<Rightarrow> nat \<Rightarrow> fin_state \<Rightarrow> fin_state \<times> (string + posting_response)" where
  "post_pending_entry env i s =
     (case find_entry s i of
        None \<Rightarrow> (s, Inl ''journal entry not found'')
      | Some e \<Rightarrow>
          if je_status e = ''POSTED'' then (s, Inr (response i ''POSTED'' True))
          else if je_status e = ''VOID'' then
            (s, Inl (''entry is VOID ('' @ (case je_void_reason e of None \<Rightarrow> [] | Some r \<Rightarrow> r) @ '') and cannot be posted''))
          else if je_status e \<noteq> ''PENDING'' then (s, Inl (''entry status '' @ je_status e @ '' cannot be posted''))
          else case ensure_period_open_day env (je_date e) of
            Some err \<Rightarrow> (s, Inl (''PERIOD_CLOSED: '' @ err))
          | None \<Rightarrow>
              if je_lines e = [] then (s, Inl ''entry has no lines'')
              else case move_lines_to_posted env (je_lines e) (je_date e) (fs_balances s) of
                Inl err \<Rightarrow> (s, Inl err)
              | Inr bal \<Rightarrow>
                  ((update_entry i (\<lambda>x. x\<lparr>je_status := ''POSTED''\<rparr>) s)
                     \<lparr>fs_balances := bal,
                      fs_outbox := fs_outbox s @
                        [posted_event i (map (\<lambda>l. (jl_direction l, jl_amount l)) (je_lines e))]\<rparr>,
                   Inr (response i ''POSTED'' False)))"

definition release_pending_entry ::
  "nat \<Rightarrow> string \<Rightarrow> fin_state \<Rightarrow> fin_state \<times> (string + posting_response)" where
  "release_pending_entry i reason s =
     (case find_entry s i of
        None \<Rightarrow> (s, Inl ''journal entry not found'')
      | Some e \<Rightarrow>
          if je_status e = ''VOID'' then (s, Inr (response i ''VOID'' True))
          else if je_status e = ''POSTED'' \<or> je_status e = ''REVERSED'' then
            (s, Inl ''posted entry cannot be released; reverse it instead'')
          else if je_status e \<noteq> ''PENDING'' then (s, Inl (''entry status '' @ je_status e @ '' cannot be released''))
          else case release_lines (je_lines e) (fs_balances s) of
            Inl err \<Rightarrow> (s, Inl err)
          | Inr bal \<Rightarrow>
              ((update_entry i (\<lambda>x. x\<lparr>je_status := ''VOID'', je_void_reason := null_text reason, je_key := None\<rparr>) s)
                 \<lparr>fs_balances := bal\<rparr>,
               Inr (response i ''VOID'' False)))"

definition release_posting ::
  "string \<Rightarrow> nat option \<Rightarrow> string \<Rightarrow> fin_state \<Rightarrow> fin_state \<times> (string + posting_response)" where
  "release_posting tenant entry reason s =
     (case require_tenant tenant of
        Some err \<Rightarrow> (s, Inl err)
      | None \<Rightarrow>
          (case entry of
             None \<Rightarrow> (s, Inl ''journal_entry_id is required'')
           | Some i \<Rightarrow> release_pending_entry i reason s))"

section \<open>Reserve\<close>

definition pending_lines_match :: "journal_line list \<Rightarrow> validation_line list \<Rightarrow> bool" where
  "pending_lines_match stored resolved \<longleftrightarrow>
     length stored = length resolved \<and>
     list_all2 (\<lambda>l r. jl_line_no l = vl_line_no r \<and> jl_direction l = vl_direction r \<and>
        jl_account l = vl_account r \<and> jl_coa_version l = vl_coa_version r \<and>
        jl_amount l = vl_amount r \<and> jl_currency l = vl_currency r) stored resolved"

text \<open>
  What the holder of the key means for a new reserve: \<open>Some (Inl err)\<close> an error, \<open>Some (Inr r)\<close> a
  replay, \<open>None\<close> a fresh reserve, with the state the call leaves.
\<close>

definition handle_existing_for_reserve ::
  "fin_env \<Rightarrow> posting_request \<Rightarrow> journal_entry \<Rightarrow> fin_state \<Rightarrow> fin_state \<times> (string + posting_response) option" where
  "handle_existing_for_reserve env req previous s =
     (if je_status previous = ''PENDING'' then
        (let v = resolve env req in
         if \<not> vr_valid v then (s, Some (Inl (err_rejected v)))
         else if pending_lines_match (je_lines previous) (vr_lines v)
           then (s, Some (Inr (response (je_id previous) ''PENDING'' True)))
         else case release_pending_entry (je_id previous) ''reserve rebuilt: proposal edited'' s of
             (s', Inl err) \<Rightarrow> (s', Some (Inl err))
           | (s', Inr _) \<Rightarrow> (s', None))
      else if je_status previous = ''VOID'' then (s, None)
      else (s, Some (Inr (response (je_id previous) (je_status previous) True))))"

definition create_pending :: "fin_env \<Rightarrow> posting_request \<Rightarrow> fin_state \<Rightarrow> fin_state \<times> (string + posting_response)" where
  "create_pending env req s =
     (let v = resolve env req; lines = map to_journal_line (vr_lines v); i = fs_next s in
      if \<not> vr_valid v then (s, Inl (err_rejected v))
      else case env_pg_date env (pr_date req) of
        None \<Rightarrow> (s, Inl ''insert pending entry: invalid date'')
      | Some d \<Rightarrow>
          (case insert_entry (mk_entry i d ''PENDING'' (pr_key req) req lines) s of
             Inl err \<Rightarrow> (s, Inl err)
           | Inr s1 \<Rightarrow>
               (case reserve_lines env lines d (fs_balances s1) of
                  Inl err \<Rightarrow> (s, Inl err)
                | Inr bal \<Rightarrow> (s1\<lparr>fs_balances := bal\<rparr>, Inr (response i ''PENDING'' False)))))"

definition reserve_posting ::
  "fin_env \<Rightarrow> string \<Rightarrow> posting_request \<Rightarrow> fin_state \<Rightarrow> fin_state \<times> (string + posting_response)" where
  "reserve_posting env tenant req s =
     (case require_tenant tenant of
        Some err \<Rightarrow> (s, Inl err)
      | None \<Rightarrow>
        (case check_posting_date env s (pr_doc_type req) (pr_date req) of
           Some err \<Rightarrow> (s, Inl err)
         | None \<Rightarrow>
           (case find_entry_by_key s (pr_key req) (pr_doc_type req) of
              None \<Rightarrow> create_pending env req s
            | Some previous \<Rightarrow>
                (case handle_existing_for_reserve env req previous s of
                   (s', Some r) \<Rightarrow> (s', r)
                 | (s', None) \<Rightarrow> create_pending env req s'))))"

section \<open>Post\<close>

definition create_posted :: "fin_env \<Rightarrow> string \<Rightarrow> posting_request \<Rightarrow> fin_state \<Rightarrow> fin_state \<times> (string + posting_response)" where
  "create_posted env key req s =
     (let v = resolve env req; lines = map to_journal_line (vr_lines v); i = fs_next s in
      if \<not> vr_valid v then (s, Inl (err_rejected v))
      else case env_pg_date env (pr_date req) of
        None \<Rightarrow> (s, Inl ''insert entry: invalid date'')
      | Some d \<Rightarrow>
          (case insert_entry (mk_entry i d ''POSTED'' key req lines) s of
             Inl err \<Rightarrow> (s, Inl err)
           | Inr s1 \<Rightarrow>
               (case post_lines_to_balances lines (fs_balances s1) of
                  Inl err \<Rightarrow> (s, Inl err)
                | Inr bal \<Rightarrow>
                    (s1\<lparr>fs_balances := bal,
                        fs_outbox := fs_outbox s1 @
                          [posted_event i (map (\<lambda>l. (pl_direction l, pl_amount l)) (pr_lines req))]\<rparr>,
                     Inr (response i ''POSTED'' False)))))"

definition post_transaction ::
  "fin_env \<Rightarrow> string \<Rightarrow> posting_request \<Rightarrow> fin_state \<Rightarrow> fin_state \<times> (string + posting_response)" where
  "post_transaction env tenant req s =
     (case require_tenant tenant of
        Some err \<Rightarrow> (s, Inl err)
      | None \<Rightarrow>
        (case check_posting_date env s (pr_doc_type req) (pr_date req) of
           Some err \<Rightarrow> (s, Inl err)
         | None \<Rightarrow>
           (let key = (if blank (pr_key req) then ''direct-'' @ env_random_key env else pr_key req) in
            case find_entry_by_key s (pr_key req) (pr_doc_type req) of
              None \<Rightarrow> create_posted env key req s
            | Some previous \<Rightarrow>
                if je_status previous = ''PENDING'' then post_pending_entry env (je_id previous) s
                else if je_status previous = ''VOID'' then
                  (s, Inl (''idempotency key '' @ pr_key req @ '' was released (VOID); issue a new posting''))
                else (s, Inr (response (je_id previous) (je_status previous) True)))))"

section \<open>Reverse\<close>

record reverse_request =
  rv_entry :: nat
  rv_date :: string
  rv_doc_type :: string
  rv_reason :: string
  rv_key :: string
  rv_actor :: string

definition flip_direction :: "string \<Rightarrow> string" where
  "flip_direction d = (if d = ''CREDIT'' then ''DEBIT'' else ''CREDIT'')"

definition get_entry_for_reversal :: "fin_state \<Rightarrow> nat \<Rightarrow> string + journal_entry" where
  "get_entry_for_reversal s i =
     (case find_entry s i of
        None \<Rightarrow> Inl ''journal entry not found''
      | Some e \<Rightarrow>
          if je_reversed_by e \<noteq> None then Inl ''entry already reversed''
          else if je_status e \<noteq> ''POSTED'' then Inl (''entry status '' @ je_status e @ '' cannot be reversed'')
          else Inr e)"

text \<open>
  The mirror line: the entry's currency, the flipped direction, line numbers from 1. \<open>reversalKeys\<close>
  and the balance moves use the original lines' own keys.
\<close>

definition mirror_line :: "string \<Rightarrow> nat \<Rightarrow> journal_line \<Rightarrow> journal_line" where
  "mirror_line currency i l =
     l\<lparr>jl_line_no := int i + 1, jl_direction := flip_direction (jl_direction l), jl_currency := currency,
       jl_description := ''REVERSAL''\<rparr>"

definition flip_line :: "journal_line \<Rightarrow> journal_line" where
  "flip_line l = l\<lparr>jl_direction := flip_direction (jl_direction l)\<rparr>"

definition net_delta :: "(balance_key \<Rightarrow> string) \<Rightarrow> journal_line list \<Rightarrow> balance_key \<Rightarrow> int" where
  "net_delta natures ls k =
     fold (\<lambda>l acc. if line_key l = k
             then add64 acc (line_delta (natures k) (flip_direction (jl_direction l)) (jl_amount l)) else acc) ls 0"

fun check_reversals ::
  "fin_env \<Rightarrow> int \<Rightarrow> (balance_key \<Rightarrow> string) \<Rightarrow> journal_line list \<Rightarrow> (balance_key \<Rightarrow> balance_row option) \<Rightarrow>
   balance_key list \<Rightarrow> string option" where
  "check_reversals env d natures ls bal [] = None"
| "check_reversals env d natures ls bal (k # ks) =
     (let nature = natures k in
      case check_reversal (row_of bal k) (natural_signed_opening (opening_on env k d) nature) nature
             (net_delta natures ls k) of
        Some err \<Rightarrow> Some err
      | None \<Rightarrow> check_reversals env d natures ls bal ks)"

definition reverse_lines ::
  "fin_env \<Rightarrow> journal_line list \<Rightarrow> int \<Rightarrow> (balance_key \<Rightarrow> balance_row option) \<Rightarrow>
   string + (balance_key \<Rightarrow> balance_row option)" where
  "reverse_lines env ls d bal =
     (let keys = balance_keys ls; bal0 = ensure_rows keys bal in
      bind_r (load_natures env keys (\<lambda>_. [])) (\<lambda>natures.
        case check_reversals env d natures ls bal0 keys of
          Some err \<Rightarrow> Inl err
        | None \<Rightarrow> save_balances keys (move_lines apply_direct_post (map flip_line ls) bal0)))"

definition reversal_entry :: "nat \<Rightarrow> int \<Rightarrow> string \<Rightarrow> reverse_request \<Rightarrow> journal_entry \<Rightarrow> journal_entry" where
  "reversal_entry i d doc_type req orig =
     \<lparr>je_id = i, je_date = d, je_currency = je_currency orig, je_status = ''POSTED'',
      je_description = ''REVERSAL: '' @ rv_reason req, je_domain = je_domain orig, je_doc_type = doc_type,
      je_doc_id = je_doc_id orig, je_doc_code = [], je_case_id = None, je_key = null_text (rv_key req),
      je_created_by = rv_actor req, je_reversed_by = None, je_void_reason = None,
      je_lines = map2 (mirror_line (je_currency orig)) [0..<length (je_lines orig)] (je_lines orig)\<rparr>"

text \<open>The database transaction of a reversal, on its accounting date \<open>day\<close>.\<close>

definition write_reversal ::
  "fin_env \<Rightarrow> int \<Rightarrow> string \<Rightarrow> reverse_request \<Rightarrow> journal_entry \<Rightarrow> fin_state \<Rightarrow>
   fin_state \<times> (string + posting_response)" where
  "write_reversal env day doc_type req orig s =
     (case insert_entry (reversal_entry (fs_next s) day doc_type req orig) s of
        Inl err \<Rightarrow> (s, Inl err)
      | Inr s1 \<Rightarrow>
        (case reverse_lines env (je_lines orig) day (fs_balances s1) of
           Inl err \<Rightarrow> (s, Inl err)
         | Inr bal \<Rightarrow>
           (case mark_reversed (rv_entry req) (fs_next s) (s1\<lparr>fs_balances := bal\<rparr>) of
              Inl err \<Rightarrow> (s, Inl err)
            | Inr s2 \<Rightarrow>
              (s2\<lparr>fs_outbox := fs_outbox s2 @ [Reversal_Event (fs_next s) (rv_entry req)]\<rparr>,
               Inr (response (fs_next s) ''POSTED'' False)))))"

text \<open>The date of a reversal and the checks on it; an empty request date is the original's.\<close>

definition reversal_day :: "fin_env \<Rightarrow> reverse_request \<Rightarrow> journal_entry \<Rightarrow> int option" where
  "reversal_day env req orig = (if rv_date req = [] then Some (je_date orig) else env_pg_date env (rv_date req))"

definition reversal_date_error :: "fin_env \<Rightarrow> reverse_request \<Rightarrow> journal_entry \<Rightarrow> fin_state \<Rightarrow> string option" where
  "reversal_date_error env req orig s =
     (let policy_doc_type = (if rv_doc_type req = [] then ''FIN_TXN_CANCEL'' else rv_doc_type req)
      in if rv_date req = [] then check_posting_day env s policy_doc_type (je_date orig)
         else check_posting_date env s policy_doc_type (rv_date req))"

definition reverse_transaction ::
  "fin_env \<Rightarrow> string \<Rightarrow> reverse_request \<Rightarrow> fin_state \<Rightarrow> fin_state \<times> (string + posting_response)" where
  "reverse_transaction env tenant req s =
     (case require_tenant tenant of
        Some err \<Rightarrow> (s, Inl err)
      | None \<Rightarrow>
        (case get_entry_for_reversal s (rv_entry req) of
           Inl err \<Rightarrow> (s, Inl err)
         | Inr orig \<Rightarrow>
           (case ensure_reversal_allowed env (je_domain orig) (je_doc_type orig) of
              Some err \<Rightarrow> (s, Inl err)
            | None \<Rightarrow>
              (case reversal_date_error env req orig s of
                 Some err \<Rightarrow> (s, Inl err)
               | None \<Rightarrow>
                 (case reversal_day env req orig of
                    None \<Rightarrow> (s, Inl ''PERIOD_CLOSED: invalid input syntax for type date'')
                  | Some day \<Rightarrow>
                    (case ensure_period_open_day env day of
                       Some err \<Rightarrow> (s, Inl (''PERIOD_CLOSED: '' @ err))
                     | None \<Rightarrow>
                       write_reversal env day
                         (if rv_doc_type req = [] then je_doc_type orig else rv_doc_type req) req orig s))))))"

end
