(* ===== verification/Ledger.thy ===== *)
theory Ledger
  imports Posting
begin

text \<open>
  What the balance rows of finance-service mean: at any point they are the totals of the journal
  (\<open>posted\<close> the POSTED and REVERSED entries, \<open>reserved\<close> the PENDING ones). Here are the locale of
  the counter moves, interpreted on the four moves of balance_math.go, the totals, and the
  invariant of the tables; Posting_Safety proves that every operation keeps it.
\<close>

section \<open>A counter move\<close>

definition posted_side :: "bool \<Rightarrow> balance_row \<Rightarrow> int" where
  "posted_side d r = (if d then posted_debit r else posted_credit r)"

definition reserved_side :: "bool \<Rightarrow> balance_row \<Rightarrow> int" where
  "reserved_side d r = (if d then reserved_debit r else reserved_credit r)"

definition row64 :: "balance_row \<Rightarrow> bool" where
  "row64 r \<longleftrightarrow> (\<forall>d. in64 (posted_side d r) \<and> in64 (reserved_side d r))"

definition bal64 :: "(balance_key \<Rightarrow> balance_row option) \<Rightarrow> bool" where
  "bal64 bal \<longleftrightarrow> (\<forall>k. row64 (row_of bal k))"

text \<open>The amounts that a list of lines puts on the debit (\<open>True\<close>) or credit side of a row.\<close>

definition line_amount :: "balance_key \<Rightarrow> bool \<Rightarrow> journal_line \<Rightarrow> int" where
  "line_amount k d l = (if line_key l = k \<and> (jl_direction l = ''DEBIT'') = d then jl_amount l else 0)"

definition sum_lines :: "balance_key \<Rightarrow> bool \<Rightarrow> journal_line list \<Rightarrow> int" where
  "sum_lines k d ls = sum_list (map (line_amount k d) ls)"

lemma sum_lines_simps [simp]:
  "sum_lines k d [] = 0"
  "sum_lines k d (l # ls) = line_amount k d l + sum_lines k d ls"
  by (simp_all add: sum_lines_def)

lemma i64_add_cancel: "i64 (i64 (a + b) + c) = i64 (a + (b + c))"
  by (simp add: i64_i64_add add.assoc)

locale counter_move =
  fixes f :: "balance_row \<Rightarrow> string \<Rightarrow> int \<Rightarrow> balance_row"
    and p r :: int
  assumes posted_step: "row64 row \<Longrightarrow>
      posted_side d (f row dir x) = i64 (posted_side d row + p * (if (dir = ''DEBIT'') = d then x else 0))"
    and reserved_step: "row64 row \<Longrightarrow>
      reserved_side d (f row dir x) = i64 (reserved_side d row + r * (if (dir = ''DEBIT'') = d then x else 0))"
begin

lemma row64_step: "row64 row \<Longrightarrow> row64 (f row dir x)"
  by (auto simp: row64_def posted_step reserved_step)

lemma bal64_line: "bal64 bal \<Longrightarrow> bal64 (move_line f l bal)"
  by (auto simp: bal64_def move_line_def row64_step)

lemma bal64_lines: "bal64 bal \<Longrightarrow> bal64 (move_lines f ls bal)"
  by (induction ls arbitrary: bal) (simp_all add: bal64_line)

lemma posted_line:
  assumes "bal64 bal"
  shows "posted_side d (row_of (move_line f l bal) k) = i64 (posted_side d (row_of bal k) + p * line_amount k d l)"
proof -
  have "row64 (row_of bal k)" using assms by (simp add: bal64_def)
  then show ?thesis by (auto simp: move_line_def line_amount_def posted_step i64_id row64_def)
qed

lemma reserved_line:
  assumes "bal64 bal"
  shows "reserved_side d (row_of (move_line f l bal) k) = i64 (reserved_side d (row_of bal k) + r * line_amount k d l)"
proof -
  have "row64 (row_of bal k)" using assms by (simp add: bal64_def)
  then show ?thesis by (auto simp: move_line_def line_amount_def reserved_step i64_id row64_def)
qed

lemma posted_lines:
  "bal64 bal \<Longrightarrow>
   posted_side d (row_of (move_lines f ls bal) k) = i64 (posted_side d (row_of bal k) + p * sum_lines k d ls)"
proof (induction ls arbitrary: bal)
  case Nil
  then show ?case by (simp add: i64_id bal64_def row64_def)
next
  case (Cons l ls)
  then show ?case
    by (simp add: bal64_line posted_line i64_add_cancel distrib_left del: row_of_upd)
qed

lemma reserved_lines:
  "bal64 bal \<Longrightarrow>
   reserved_side d (row_of (move_lines f ls bal) k) = i64 (reserved_side d (row_of bal k) + r * sum_lines k d ls)"
proof (induction ls arbitrary: bal)
  case Nil
  then show ?case by (simp add: i64_id bal64_def row64_def)
next
  case (Cons l ls)
  then show ?case
    by (simp add: bal64_line reserved_line i64_add_cancel distrib_left del: row_of_upd)
qed

end

lemmas side_defs = posted_side_def reserved_side_def row64_def

lemma row64_all: "row64 r \<longleftrightarrow>
   in64 (posted_debit r) \<and> in64 (posted_credit r) \<and> in64 (reserved_debit r) \<and> in64 (reserved_credit r)"
  by (auto simp: row64_def posted_side_def reserved_side_def)

interpretation reserve: counter_move apply_reserve 0 1
  by unfold_locales (auto simp: posted_side_def reserved_side_def row64_all apply_reserve_def add64_def i64_id)

interpretation post: counter_move apply_post 1 "-1"
  by unfold_locales (auto simp: posted_side_def reserved_side_def row64_all apply_post_def add64_def sub64_def i64_id)

interpretation release: counter_move apply_release 0 "-1"
  by unfold_locales (auto simp: posted_side_def reserved_side_def row64_all apply_release_def sub64_def i64_id)

interpretation direct: counter_move apply_direct_post 1 0
  by unfold_locales (auto simp: posted_side_def reserved_side_def row64_all apply_direct_post_def add64_def i64_id)

section \<open>Journal totals\<close>

definition entry_amount :: "string set \<Rightarrow> balance_key \<Rightarrow> bool \<Rightarrow> journal_entry \<Rightarrow> int" where
  "entry_amount S k d e = (if je_status e \<in> S then sum_lines k d (je_lines e) else 0)"

definition total :: "string set \<Rightarrow> balance_key \<Rightarrow> bool \<Rightarrow> journal_entry list \<Rightarrow> int" where
  "total S k d es = sum_list (map (entry_amount S k d) es)"

abbreviation "posted_states \<equiv> {''POSTED'', ''REVERSED''}"
abbreviation "pending_states \<equiv> {''PENDING''}"

lemma total_append [simp]: "total S k d (es @ [e]) = total S k d es + entry_amount S k d e"
  by (simp add: total_def)

lemma sum_list_replace:
  fixes w :: "journal_entry \<Rightarrow> int"
  assumes "distinct (map je_id es)" "e \<in> set es" "je_id e = i"
  shows "sum_list (map w (map (\<lambda>x. if je_id x = i then g x else x) es)) = sum_list (map w es) - w e + w (g e)"
  using assms
proof (induction es)
  case Nil
  then show ?case by simp
next
  case (Cons a es)
  show ?case
  proof (cases "a = e")
    case True
    with Cons.prems have "map (\<lambda>x. if je_id x = i then g x else x) es = es"
      by (intro map_idI) (auto simp: image_iff)
    with True Cons.prems show ?thesis by (simp add: comp_def)
  next
    case False
    with Cons.prems have "je_id a \<noteq> i" "e \<in> set es" by (auto simp: image_iff)
    with Cons False show ?thesis by (simp add: comp_def)
  qed
qed

lemma total_replace:
  assumes "distinct (map je_id es)" "e \<in> set es" "je_id e = i"
  shows "total S k d (map (\<lambda>x. if je_id x = i then g x else x) es) =
    total S k d es - entry_amount S k d e + entry_amount S k d (g e)"
  unfolding total_def by (rule sum_list_replace [OF assms])

section \<open>The invariant\<close>

definition lines_ok :: "journal_line list \<Rightarrow> bool" where
  "lines_ok ls \<longleftrightarrow> list_all (\<lambda>l. 0 < jl_amount l \<and> direction_ok (jl_direction l)) ls"

text \<open>Debits and credits of each currency agree (as the wrapped sums that \<open>resolve\<close> compares).\<close>

definition currency_sum :: "string \<Rightarrow> bool \<Rightarrow> journal_line list \<Rightarrow> int" where
  "currency_sum c d ls =
     sum_list (map (\<lambda>l. if jl_currency l = c \<and> (jl_direction l = ''DEBIT'') = d then jl_amount l else 0) ls)"

definition balanced :: "journal_line list \<Rightarrow> bool" where
  "balanced ls \<longleftrightarrow> (\<forall>c. i64 (currency_sum c True ls) = i64 (currency_sum c False ls))"

definition entry_ok :: "nat \<Rightarrow> journal_entry \<Rightarrow> bool" where
  "entry_ok n e \<longleftrightarrow>
     je_id e < n \<and> lines_ok (je_lines e) \<and> balanced (je_lines e) \<and>
     je_status e \<in> {''PENDING'', ''POSTED'', ''VOID'', ''REVERSED''} \<and>
     (je_status e = ''VOID'' \<longrightarrow> je_key e = None) \<and>
     (je_status e = ''REVERSED'' \<longleftrightarrow> je_reversed_by e \<noteq> None)"

definition keys_unique :: "journal_entry list \<Rightarrow> bool" where
  "keys_unique es \<longleftrightarrow>
     (\<forall>x\<in>set es. \<forall>y\<in>set es. je_key x = je_key y \<and> je_key x \<noteq> None \<longrightarrow> je_id x = je_id y)"

definition entries_ok :: "nat \<Rightarrow> journal_entry list \<Rightarrow> bool" where
  "entries_ok n es \<longleftrightarrow> distinct (map je_id es) \<and> (\<forall>e\<in>set es. entry_ok n e) \<and> keys_unique es"

definition counters_match ::
  "journal_entry list \<Rightarrow> (balance_key \<Rightarrow> balance_row option) \<Rightarrow> bool" where
  "counters_match es bal \<longleftrightarrow>
     (\<forall>k d. posted_side d (row_of bal k) = i64 (total posted_states k d es) \<and>
            reserved_side d (row_of bal k) = i64 (total pending_states k d es))"

definition rows_nonneg :: "(balance_key \<Rightarrow> balance_row option) \<Rightarrow> bool" where
  "rows_nonneg bal \<longleftrightarrow> (\<forall>k. counters_nonneg (row_of bal k))"

text \<open>
  The lines of an entry may be in other currencies than its header, each currency balanced for itself. A
  reversal then writes its mirror lines in the header's currency but moves the rows of the lines' own
  (\<open>mixed_currency_reversal\<close>), so rows and journal agree as long as no such entry is reversed.
\<close>

definition one_currency :: "journal_entry \<Rightarrow> bool" where
  "one_currency e \<longleftrightarrow> list_all (\<lambda>l. jl_currency l = je_currency e) (je_lines e)"

definition reversals_plain :: "journal_entry list \<Rightarrow> bool" where
  "reversals_plain es \<longleftrightarrow> list_all (\<lambda>e. je_status e = ''REVERSED'' \<longrightarrow> one_currency e) es"

text \<open>
  Over any rows of a currency that include those the journal names, debits and credits agree.
\<close>

definition journal_keys :: "journal_entry list \<Rightarrow> balance_key set" where
  "journal_keys es = line_key ` (\<Union>e\<in>set es. set (je_lines e))"

definition side_total :: "(balance_key \<Rightarrow> balance_row option) \<Rightarrow> bool \<Rightarrow> balance_key list \<Rightarrow> int" where
  "side_total bal d ks = sum_list (map (\<lambda>k. posted_side d (row_of bal k)) ks)"

definition covers :: "balance_key list \<Rightarrow> string \<Rightarrow> journal_entry list \<Rightarrow> bool" where
  "covers ks c es \<longleftrightarrow>
     distinct ks \<and> (\<forall>k\<in>set ks. bk_currency k = c) \<and> (\<forall>k\<in>journal_keys es. bk_currency k = c \<longrightarrow> k \<in> set ks)"

definition rows_balanced :: "journal_entry list \<Rightarrow> (balance_key \<Rightarrow> balance_row option) \<Rightarrow> bool" where
  "rows_balanced es bal \<longleftrightarrow>
     (\<forall>c ks. covers ks c es \<longrightarrow> i64 (side_total bal True ks) = i64 (side_total bal False ks))"

definition ledger_inv :: "fin_state \<Rightarrow> bool" where
  "ledger_inv s \<longleftrightarrow>
     entries_ok (fs_next s) (fs_entries s) \<and> bal64 (fs_balances s) \<and> rows_nonneg (fs_balances s) \<and>
     rows_balanced (fs_entries s) (fs_balances s) \<and>
     (reversals_plain (fs_entries s) \<longrightarrow> counters_match (fs_entries s) (fs_balances s))"

lemma ledger_inv_empty: "ledger_inv empty_fin_state"
  by (simp add: ledger_inv_def entries_ok_def keys_unique_def counters_match_def rows_nonneg_def
      rows_balanced_def side_total_def bal64_def row64_def in64_def empty_fin_state_def row_of_def
      zero_row_def counters_nonneg_def posted_side_def reserved_side_def total_def i64_def)

lemma counters_match_bal64: "counters_match es bal \<Longrightarrow> bal64 bal"
  by (simp add: counters_match_def bal64_def row64_def)

lemma entry_unique:
  "distinct (map je_id es) \<Longrightarrow> x \<in> set es \<Longrightarrow> y \<in> set es \<Longrightarrow> je_id x = je_id y \<Longrightarrow> x = y"
  by (metis (no_types, lifting) distinct_map inj_onD)

lemma find_entry_in: "find_entry s i = Some e \<Longrightarrow> e \<in> set (fs_entries s) \<and> je_id e = i"
  unfolding find_entry_def by (auto dest: find_Some_in)

lemma find_entry_eq:
  assumes "distinct (map je_id (fs_entries s))" "e \<in> set (fs_entries s)" "je_id e = i"
  shows "find_entry s i = Some e"
proof -
  have "find (\<lambda>x. je_id x = i) (fs_entries s) \<noteq> None"
    using assms by (auto simp: find_None_iff2)
  then obtain x where x: "find (\<lambda>x. je_id x = i) (fs_entries s) = Some x" by auto
  then have "x \<in> set (fs_entries s)" "je_id x = i" by (auto dest: find_Some_in)
  with entry_unique [OF assms(1)] assms have "x = e" by auto
  with x show ?thesis by (simp add: find_entry_def)
qed

section \<open>Changes of the entry list\<close>

lemma entry_ok_mono: "entry_ok n e \<Longrightarrow> n \<le> m \<Longrightarrow> entry_ok m e"
  by (auto simp: entry_ok_def)

lemma entries_ok_append:
  assumes "entries_ok n es" "entry_ok (Suc n) e" "je_id e = n"
    and "je_key e = None \<or> (\<forall>x\<in>set es. je_key x \<noteq> je_key e)"
  shows "entries_ok (Suc n) (es @ [e])"
proof -
  have "\<forall>x\<in>set es. entry_ok (Suc n) x" "\<forall>x\<in>set es. je_id x < n"
    using assms(1) by (auto simp: entries_ok_def entry_ok_def)
  moreover have "keys_unique (es @ [e])"
    unfolding keys_unique_def
  proof (intro ballI impI)
    fix x y
    assume "x \<in> set (es @ [e])" "y \<in> set (es @ [e])" and k: "je_key x = je_key y \<and> je_key x \<noteq> None"
    then consider "x \<in> set es" "y \<in> set es" | "x = e" "y = e" | "x \<in> set es" "y = e" | "x = e" "y \<in> set es"
      by auto
    then show "je_id x = je_id y"
    proof cases
      case 1
      with assms(1) k show ?thesis unfolding entries_ok_def keys_unique_def by blast
    next
      case 2
      then show ?thesis by simp
    next
      case 3
      with assms(4) k show ?thesis by auto
    next
      case 4
      with assms(4) k show ?thesis by auto
    qed
  qed
  ultimately show ?thesis using assms by (auto simp: entries_ok_def)
qed

lemma keys_unique_map:
  assumes "keys_unique es"
    and "\<And>x. x \<in> set es \<Longrightarrow> je_id (h x) = je_id x"
    and "\<And>x. x \<in> set es \<Longrightarrow> je_key (h x) = je_key x \<or> je_key (h x) = None"
  shows "keys_unique (map h es)"
  unfolding keys_unique_def
proof (intro ballI impI)
  fix x y
  assume "x \<in> set (map h es)" "y \<in> set (map h es)" and k: "je_key x = je_key y \<and> je_key x \<noteq> None"
  then obtain a b where ab: "a \<in> set es" "b \<in> set es" "x = h a" "y = h b" by auto
  with k have "je_key (h a) = je_key a" "je_key (h b) = je_key b"
    using assms(3) [of a] assms(3) [of b] by auto
  with k ab have "je_key a = je_key b \<and> je_key a \<noteq> None" by metis
  with assms(1) ab have "je_id a = je_id b" unfolding keys_unique_def by blast
  with ab assms(2) show "je_id x = je_id y" by simp
qed

lemma entries_ok_replace:
  assumes ok: "entries_ok n es" and e: "e \<in> set es" "je_id e = i"
    and g: "entry_ok n (g e)" "je_id (g e) = i" "je_key (g e) = je_key e \<or> je_key (g e) = None"
  shows "entries_ok n (map (\<lambda>x. if je_id x = i then g x else x) es)"
proof -
  have uniq: "x = e" if "x \<in> set es" "je_id x = i" for x
    using entry_unique [of es x e] ok e that by (auto simp: entries_ok_def)
  have ids: "map je_id (map (\<lambda>x. if je_id x = i then g x else x) es) = map je_id es"
    using uniq g(2) by auto
  have "keys_unique (map (\<lambda>x. if je_id x = i then g x else x) es)"
  proof (rule keys_unique_map)
    show "keys_unique es" using ok by (simp add: entries_ok_def)
    fix x assume "x \<in> set es"
    then have "je_id x = i \<Longrightarrow> x = e" by (rule uniq)
    then show "je_id (if je_id x = i then g x else x) = je_id x"
      "je_key (if je_id x = i then g x else x) = je_key x \<or> je_key (if je_id x = i then g x else x) = None"
      using g e by auto
  qed
  moreover have "\<forall>x\<in>set (map (\<lambda>x. if je_id x = i then g x else x) es). entry_ok n x"
    using ok uniq g(1) unfolding entries_ok_def by (auto split: if_splits)
  ultimately show ?thesis
    using ok ids unfolding entries_ok_def by metis
qed

lemma counters_match_append:
  assumes "counters_match es bal"
    and "\<And>k d. posted_side d (row_of bal' k) =
               i64 (posted_side d (row_of bal k) + entry_amount posted_states k d e)"
    and "\<And>k d. reserved_side d (row_of bal' k) =
               i64 (reserved_side d (row_of bal k) + entry_amount pending_states k d e)"
  shows "counters_match (es @ [e]) bal'"
  using assms by (simp add: counters_match_def i64_i64_add)

lemma counters_match_replace:
  assumes "counters_match es bal" "distinct (map je_id es)" "e \<in> set es" "je_id e = i"
    and "\<And>k d. posted_side d (row_of bal' k) = i64 (posted_side d (row_of bal k) +
               (entry_amount posted_states k d (g e) - entry_amount posted_states k d e))"
    and "\<And>k d. reserved_side d (row_of bal' k) = i64 (reserved_side d (row_of bal k) +
               (entry_amount pending_states k d (g e) - entry_amount pending_states k d e))"
  shows "counters_match (map (\<lambda>x. if je_id x = i then g x else x) es) bal'"
proof -
  have *: "a - b + c = a + (c - b)" for a b c :: int by simp
  show ?thesis
    using assms by (simp add: counters_match_def i64_i64_add total_replace *)
qed

section \<open>Totals over rows\<close>

lemma i64_sum_list: "i64 (sum_list (map (\<lambda>k. i64 (f k)) ks)) = i64 (sum_list (map f ks))"
proof (induction ks)
  case Nil
  then show ?case by simp
next
  case (Cons k ks)
  have "i64 (i64 (f k) + sum_list (map (\<lambda>k. i64 (f k)) ks)) =
        i64 (f k + i64 (sum_list (map (\<lambda>k. i64 (f k)) ks)))"
    by (simp add: i64_absorb)
  also have "\<dots> = i64 (f k + sum_list (map f ks))" by (simp add: Cons.IH i64_absorb)
  finally show ?case by simp
qed

lemma sum_none: "x \<notin> set ks \<Longrightarrow> sum_list (map (\<lambda>k. if x = k then v else (0::int)) ks) = 0"
  by (induction ks) auto

lemma sum_one: "distinct ks \<Longrightarrow> x \<in> set ks \<Longrightarrow> sum_list (map (\<lambda>k. if x = k then v else (0::int)) ks) = v"
  by (induction ks) (auto simp: sum_none)

lemma sum_list_add: "sum_list (map (\<lambda>k. f k + g k) ks) = sum_list (map f ks) + (sum_list (map g ks) :: int)"
  by (induction ks) auto

lemma sum_keys_lines:
  assumes "distinct ks" "\<forall>k\<in>set ks. bk_currency k = c"
    and "\<forall>l\<in>set ls. jl_currency l = c \<longrightarrow> line_key l \<in> set ks"
  shows "sum_list (map (\<lambda>k. sum_lines k d ls) ks) = currency_sum c d ls"
  using assms(3)
proof (induction ls)
  case Nil
  then show ?case by (simp add: currency_sum_def)
next
  case (Cons l ls)
  let ?v = "if (jl_direction l = ''DEBIT'') = d then jl_amount l else 0"
  have "line_amount k d l = (if line_key l = k then ?v else 0)" for k by (simp add: line_amount_def)
  then have "sum_list (map (\<lambda>k. line_amount k d l) ks) = sum_list (map (\<lambda>k. if line_key l = k then ?v else 0) ks)"
    by simp
  also have "\<dots> = (if jl_currency l = c then ?v else 0)"
  proof (cases "jl_currency l = c")
    case True
    with Cons.prems assms(1) show ?thesis by (auto simp: sum_one)
  next
    case False
    with assms(2) have "line_key l \<notin> set ks" by (auto simp: line_key_def)
    with False show ?thesis using sum_none [of "line_key l" ks ?v] by simp
  qed
  finally show ?case using Cons by (simp add: sum_list_add currency_sum_def)
qed

lemma i64_sum_cong:
  "(\<And>e. e \<in> set es \<Longrightarrow> i64 (f e) = i64 (g e)) \<Longrightarrow> i64 (sum_list (map f es)) = i64 (sum_list (map g es))"
  by (subst (1 2) i64_sum_list [symmetric]) (simp cong: map_cong)

text \<open>The debits (\<open>True\<close>) or credits of all lines, whatever their currency.\<close>

definition whole_sum :: "bool \<Rightarrow> journal_line list \<Rightarrow> int" where
  "whole_sum d ls = sum_list (map (\<lambda>l. if (jl_direction l = ''DEBIT'') = d then jl_amount l else 0) ls)"

lemma whole_sum_currencies:
  assumes "distinct cs"
  shows "jl_currency ` set ls \<subseteq> set cs \<Longrightarrow> sum_list (map (\<lambda>c. currency_sum c d ls) cs) = whole_sum d ls"
proof (induction ls)
  case Nil
  then show ?case by (simp add: currency_sum_def whole_sum_def)
next
  case (Cons l ls)
  let ?v = "if (jl_direction l = ''DEBIT'') = d then jl_amount l else 0"
  have "currency_sum c d (l # ls) = (if jl_currency l = c then ?v else 0) + currency_sum c d ls" for c
    by (simp add: currency_sum_def)
  then show ?case
    using Cons assms by (simp add: sum_list_add sum_one whole_sum_def)
qed

lemma balanced_whole:
  assumes "balanced ls"
  shows "i64 (whole_sum True ls) = i64 (whole_sum False ls)"
proof -
  let ?cs = "dedup [] (map jl_currency ls)"
  have "i64 (sum_list (map (\<lambda>c. currency_sum c True ls) ?cs)) = i64 (sum_list (map (\<lambda>c. currency_sum c False ls) ?cs))"
    by (rule i64_sum_cong) (use assms in \<open>simp add: balanced_def\<close>)
  then show ?thesis
    by (simp add: whole_sum_currencies distinct_dedup set_dedup)
qed

lemma journal_keys_simps [simp]:
  "journal_keys (es @ [e]) = journal_keys es \<union> line_key ` set (je_lines e)"
  "(\<And>e. je_lines (h e) = je_lines e) \<Longrightarrow> journal_keys (map h es) = journal_keys es"
  by (auto simp: journal_keys_def)

lemma covers_mono: "covers ks c es' \<Longrightarrow> journal_keys es \<subseteq> journal_keys es' \<Longrightarrow> covers ks c es"
  by (auto simp: covers_def)

lemma side_total_moved:
  assumes "\<And>k. posted_side d (row_of bal' k) = i64 (posted_side d (row_of bal k) + sum_lines k d ls)"
    and "covers ks c es" "line_key ` set ls \<subseteq> journal_keys es"
  shows "i64 (side_total bal' d ks) = i64 (side_total bal d ks + currency_sum c d ls)"
proof -
  have "line_key l \<in> set ks" if "l \<in> set ls" "jl_currency l = c" for l
    using assms(2,3) that by (force simp: covers_def line_key_def)
  then have sum: "sum_list (map (\<lambda>k. sum_lines k d ls) ks) = currency_sum c d ls"
    using assms(2) by (intro sum_keys_lines) (auto simp: covers_def)
  show ?thesis
    unfolding side_total_def assms(1) i64_sum_list sum_list_add sum ..
qed

text \<open>Moving the rows by balanced lines that the journal names keeps debits and credits equal.\<close>

lemma rows_balanced_moved:
  assumes "rows_balanced es bal" "balanced ls"
    and "\<And>k d. posted_side d (row_of bal' k) = i64 (posted_side d (row_of bal k) + sum_lines k d ls)"
    and "journal_keys es \<subseteq> journal_keys es'" "line_key ` set ls \<subseteq> journal_keys es'"
  shows "rows_balanced es' bal'"
  unfolding rows_balanced_def
proof (intro allI impI)
  fix c ks assume ks: "covers ks c es'"
  have "i64 (side_total bal True ks) = i64 (side_total bal False ks)"
    using assms(1) covers_mono [OF ks assms(4)] by (simp add: rows_balanced_def)
  moreover have "i64 (currency_sum c True ls) = i64 (currency_sum c False ls)"
    using assms(2) by (simp add: balanced_def)
  ultimately have "i64 (side_total bal True ks + currency_sum c True ls) = i64 (side_total bal False ks + currency_sum c False ls)"
    by (metis i64_i64_add add.commute)
  then show "i64 (side_total bal' True ks) = i64 (side_total bal' False ks)"
    by (simp add: side_total_moved [OF assms(3) ks assms(5)])
qed

lemma balanced_Nil [simp]: "balanced []"
  by (simp add: balanced_def currency_sum_def)

section \<open>Changes of the tables\<close>

lemma bal64_I:
  "(\<And>k d. posted_side d (row_of bal' k) = i64 (p k d)) \<Longrightarrow> (\<And>k d. reserved_side d (row_of bal' k) = i64 (r k d)) \<Longrightarrow> bal64 bal'"
  by (simp add: bal64_def row64_def)

lemma ledger_inv_append:
  assumes inv: "ledger_inv s" and e: "entry_ok (Suc (fs_next s)) e" "je_id e = fs_next s"
      "je_key e = None \<or> (\<forall>x\<in>set (fs_entries s). je_key x \<noteq> je_key e)"
    and p: "\<And>k d. posted_side d (row_of (fs_balances t) k) =
      i64 (posted_side d (row_of (fs_balances s) k) + entry_amount posted_states k d e)"
    and r: "\<And>k d. reserved_side d (row_of (fs_balances t) k) =
      i64 (reserved_side d (row_of (fs_balances s) k) + entry_amount pending_states k d e)"
    and t: "rows_nonneg (fs_balances t)" "fs_entries t = fs_entries s @ [e]" "fs_next t = Suc (fs_next s)"
  shows "ledger_inv t"
proof -
  have "entries_ok (fs_next t) (fs_entries t)"
    unfolding t(2,3) by (rule entries_ok_append) (use inv e in \<open>simp_all add: ledger_inv_def\<close>)
  moreover have "bal64 (fs_balances t)" by (rule bal64_I [OF p r])
  moreover have "rows_balanced (fs_entries t) (fs_balances t)"
  proof (rule rows_balanced_moved)
    show "rows_balanced (fs_entries s) (fs_balances s)" using inv by (simp add: ledger_inv_def)
    show "posted_side d (row_of (fs_balances t) k) = i64 (posted_side d (row_of (fs_balances s) k) +
        sum_lines k d (if je_status e \<in> posted_states then je_lines e else []))" for k d
      unfolding p by (simp add: entry_amount_def)
  qed (use e(1) in \<open>auto simp: t(2) entry_ok_def\<close>)
  moreover have "counters_match (fs_entries t) (fs_balances t)" if "reversals_plain (fs_entries t)"
    unfolding t(2) by (rule counters_match_append [OF _ p r]) (use inv that in \<open>simp add: ledger_inv_def t(2) reversals_plain_def\<close>)
  ultimately show ?thesis using t(1) by (simp add: ledger_inv_def)
qed

lemma reversals_plain_replace:
  assumes "reversals_plain (map (\<lambda>x. if je_id x = i then g x else x) es)"
    and "\<And>x. x \<in> set es \<Longrightarrow> je_id x = i \<Longrightarrow> je_status x \<noteq> ''REVERSED''"
  shows "reversals_plain es"
  using assms by (auto simp: reversals_plain_def list_all_iff)

lemma ledger_inv_replace:
  assumes inv: "ledger_inv s" and e: "e \<in> set (fs_entries s)" "je_id e = i" "je_status e = ''PENDING''"
    and g: "entry_ok (fs_next s) (g e)" "je_id (g e) = i" "je_key (g e) = je_key e \<or> je_key (g e) = None"
      "\<And>x. je_lines (g x) = je_lines x"
    and p: "\<And>k d. posted_side d (row_of (fs_balances t) k) =
      i64 (posted_side d (row_of (fs_balances s) k) + entry_amount posted_states k d (g e))"
    and r: "\<And>k d. reserved_side d (row_of (fs_balances t) k) = i64 (reserved_side d (row_of (fs_balances s) k) +
      (entry_amount pending_states k d (g e) - entry_amount pending_states k d e))"
    and t: "rows_nonneg (fs_balances t)" "fs_entries t = map (\<lambda>x. if je_id x = i then g x else x) (fs_entries s)"
      "fs_next t = fs_next s"
  shows "ledger_inv t"
proof -
  have ok: "entries_ok (fs_next s) (fs_entries s)" using inv by (simp add: ledger_inv_def)
  then have ids: "distinct (map je_id (fs_entries s))" by (simp add: entries_ok_def)
  have keys: "journal_keys (fs_entries t) = journal_keys (fs_entries s)" unfolding t(2) using g(4) by simp
  have "entries_ok (fs_next t) (fs_entries t)"
    unfolding t(2,3) by (rule entries_ok_replace [where e = e]) (use ok e g in simp_all)
  moreover have "bal64 (fs_balances t)" by (rule bal64_I [OF p r])
  moreover have "rows_balanced (fs_entries t) (fs_balances t)"
  proof (rule rows_balanced_moved)
    show "rows_balanced (fs_entries s) (fs_balances s)" using inv by (simp add: ledger_inv_def)
    show "posted_side d (row_of (fs_balances t) k) = i64 (posted_side d (row_of (fs_balances s) k) +
        sum_lines k d (if je_status (g e) \<in> posted_states then je_lines (g e) else []))" for k d
      unfolding p by (simp add: entry_amount_def)
    have "line_key ` set (je_lines e) \<subseteq> journal_keys (fs_entries s)" using e(1) by (auto simp: journal_keys_def)
    then show "line_key ` set (if je_status (g e) \<in> posted_states then je_lines (g e) else []) \<subseteq> journal_keys (fs_entries t)"
      unfolding keys g(4) by auto
  qed (use g(1) in \<open>auto simp: keys entry_ok_def\<close>)
  moreover have "counters_match (fs_entries t) (fs_balances t)" if "reversals_plain (fs_entries t)"
  proof -
    have "x = e" if "x \<in> set (fs_entries s)" "je_id x = i" for x
      using entry_unique [OF ids that(1) e(1)] that(2) e(2) by simp
    then have "reversals_plain (fs_entries s)"
      using e(3) by (intro reversals_plain_replace [OF that [unfolded t(2)]]) force
    then have "counters_match (fs_entries s) (fs_balances s)" using inv by (simp add: ledger_inv_def)
    then show ?thesis
      unfolding t(2) by (rule counters_match_replace [OF _ ids e(1,2)]) (simp_all add: p r e(3) entry_amount_def)
  qed
  ultimately show ?thesis using t(1) by (simp add: ledger_inv_def)
qed

end
