(* ===== verification/Posting_Safety.thy ===== *)
theory Posting_Safety
  imports Ledger "HOL-Library.Multiset"
begin

text \<open>
  The posting operations keep the ledger invariant, and what follows from it for every state that
  a sequence of calls can reach: balances that are the journal's totals as long as no entry of mixed
  currencies is reversed, a balanced trial balance, one entry per idempotency key, holds that are released or posted exactly once.
\<close>

section \<open>Balance loops\<close>

lemma balance_keys_set [simp]: "set (balance_keys ls) = line_key ` set ls"
  by (simp add: balance_keys_def set_dedup)

lemma bal64_ensure [simp]: "bal64 (ensure_rows keys bal) = bal64 bal"
  by (simp add: bal64_def)

lemma row_of_move_lines_other:
  "k \<notin> line_key ` set ls \<Longrightarrow> row_of (move_lines f ls bal) k = row_of bal k"
  by (induction ls arbitrary: bal) (auto simp: move_line_def)

lemma fold_checked_move:
  "fold_r (checked_move chk f natures openings) ls bal = Inr bal' \<Longrightarrow> bal' = move_lines f ls bal"
  by (induction ls arbitrary: bal) (auto simp: checked_move_def Let_def split: option.splits sum.splits)

definition moved ::
  "(balance_row \<Rightarrow> string \<Rightarrow> int \<Rightarrow> balance_row) \<Rightarrow> journal_line list \<Rightarrow>
   (balance_key \<Rightarrow> balance_row option) \<Rightarrow> (balance_key \<Rightarrow> balance_row option) \<Rightarrow> bool" where
  "moved f ls bal bal' \<longleftrightarrow>
     (\<exists>keys. bal' = move_lines f ls (ensure_rows keys bal)) \<and>
     (\<forall>k\<in>line_key ` set ls. counters_nonneg (row_of bal' k))"

lemma save_balances_iff:
  "save_balances keys bal = Inr bal' \<longleftrightarrow> bal' = bal \<and> (\<forall>k\<in>set keys. counters_nonneg (row_of bal k))"
  by (auto simp: save_balances_def list_all_iff)

lemma run_checked_moved:
  assumes "run_checked chk f env ls d bal = Inr bal'"
  shows "moved f ls bal bal'"
  using assms
  by (auto simp: run_checked_def Let_def bind_r_eq_Inr save_balances_iff moved_def dest!: fold_checked_move)

lemma post_lines_moved:
  assumes "post_lines_to_balances ls bal = Inr bal'"
  shows "moved apply_direct_post ls bal bal'"
proof (cases "ls = []")
  case True
  then have "bal' = move_lines apply_direct_post ls (ensure_rows [] bal)"
    using assms by (simp add: post_lines_to_balances_def Let_def balance_keys_def ensure_rows_def)
  with True show ?thesis by (auto simp: moved_def)
next
  case False
  then have "balance_keys ls \<noteq> []" using balance_keys_set [of ls] by force
  with assms show ?thesis
    by (auto simp: post_lines_to_balances_def Let_def save_balances_iff moved_def)
qed

lemma release_lines_moved:
  assumes "release_lines ls bal = Inr bal'"
  shows "moved apply_release ls bal bal'"
proof (cases "ls = []")
  case True
  then have "bal' = move_lines apply_release ls (ensure_rows [] bal)"
    using assms by (simp add: release_lines_def Let_def ensure_rows_def)
  with True show ?thesis by (auto simp: moved_def)
next
  case False
  with assms show ?thesis by (auto simp: release_lines_def Let_def save_balances_iff moved_def)
qed

lemma line_key_flip [simp]: "line_key (flip_line l) = line_key l"
  by (simp add: line_key_def flip_line_def)

lemma reverse_lines_moved:
  assumes "reverse_lines env ls d bal = Inr bal'"
  shows "moved apply_direct_post (map flip_line ls) bal bal'"
  using assms
  by (auto simp: reverse_lines_def Let_def bind_r_eq_Inr save_balances_iff moved_def image_image
      split: option.splits)

lemma moved_nonneg:
  assumes "moved f ls bal bal'" "rows_nonneg bal"
  shows "rows_nonneg bal'"
  unfolding rows_nonneg_def
proof
  fix k
  show "counters_nonneg (row_of bal' k)"
  proof (cases "k \<in> line_key ` set ls")
    case True
    with assms(1) show ?thesis by (auto simp: moved_def)
  next
    case False
    from assms(1) obtain keys where "bal' = move_lines f ls (ensure_rows keys bal)"
      by (auto simp: moved_def)
    then have "row_of bal' k = row_of bal k"
      using row_of_move_lines_other [OF False, of f "ensure_rows keys bal"] by simp
    with assms(2) show ?thesis by (simp add: rows_nonneg_def)
  qed
qed

lemma moved_reserve:
  assumes "moved apply_reserve ls bal bal'" "bal64 bal"
  shows "posted_side d (row_of bal' k) = i64 (posted_side d (row_of bal k))"
    "reserved_side d (row_of bal' k) = i64 (reserved_side d (row_of bal k) + sum_lines k d ls)"
  using assms by (auto simp: moved_def reserve.posted_lines reserve.reserved_lines)

lemma moved_post:
  assumes "moved apply_post ls bal bal'" "bal64 bal"
  shows "posted_side d (row_of bal' k) = i64 (posted_side d (row_of bal k) + sum_lines k d ls)"
    "reserved_side d (row_of bal' k) = i64 (reserved_side d (row_of bal k) - sum_lines k d ls)"
  using assms by (auto simp: moved_def post.posted_lines post.reserved_lines)

lemma moved_release:
  assumes "moved apply_release ls bal bal'" "bal64 bal"
  shows "posted_side d (row_of bal' k) = i64 (posted_side d (row_of bal k))"
    "reserved_side d (row_of bal' k) = i64 (reserved_side d (row_of bal k) - sum_lines k d ls)"
  using assms by (auto simp: moved_def release.posted_lines release.reserved_lines)

lemma moved_direct:
  assumes "moved apply_direct_post ls bal bal'" "bal64 bal"
  shows "posted_side d (row_of bal' k) = i64 (posted_side d (row_of bal k) + sum_lines k d ls)"
    "reserved_side d (row_of bal' k) = i64 (reserved_side d (row_of bal k))"
  using assms by (auto simp: moved_def direct.posted_lines direct.reserved_lines)

section \<open>Validated lines\<close>

lemma resolve_line_cases:
  obtains err where "resolve_line env req l = line_error (base_line env req l) err"
  | r where "resolve_line env req l = resolved_line (base_line env req l) (an_customer (pl_analytics l)) r"
  unfolding resolve_line_def Let_def by (metis (no_types, lifting) old.sum.exhaust sum.case)

lemma resolve_line_fields:
  "vl_direction (resolve_line env req l) = pl_direction l"
  "vl_amount (resolve_line env req l) = pl_amount l"
  "vl_line_no (resolve_line env req l) = pl_line_no l"
  by (rule resolve_line_cases [of env req l]; simp)+

lemma resolve_line_currency:
  "vl_currency (resolve_line env req l) =
    (if pl_currency l \<noteq> [] then pl_currency l else if pr_currency req \<noteq> [] then pr_currency req else ''VND'')"
  by (rule resolve_line_cases [of env req l]; simp add: base_line_def Let_def)

lemma resolve_line_errors:
  "vl_errors (resolve_line env req l) = [] \<Longrightarrow> 0 < pl_amount l \<and> direction_ok (pl_direction l)"
  by (rule resolve_line_cases [of env req l])
    (auto simp: base_line_def Let_def direction_ok_def split: if_splits)

lemma dir_sum_acc:
  "in64 a \<Longrightarrow>
   fold (\<lambda>l acc. if vl_currency l = c \<and> vl_direction l = dir then add64 acc (vl_amount l) else acc) ls a =
   i64 (a + sum_list (map (\<lambda>l. if vl_currency l = c \<and> vl_direction l = dir then vl_amount l else 0) ls))"
  by (induction ls arbitrary: a) (auto simp: i64_id add64_def i64_i64_add add.assoc)

lemma dir_sum_eq:
  "dir_sum c dir ls =
    i64 (sum_list (map (\<lambda>l. if vl_currency l = c \<and> vl_direction l = dir then vl_amount l else 0) ls))"
  unfolding dir_sum_def by (subst dir_sum_acc) (simp_all add: in64_def)

lemma currency_sum_absent:
  "c \<notin> jl_currency ` set ls \<Longrightarrow> currency_sum c d ls = 0"
  unfolding currency_sum_def by (induction ls) auto

lemma to_journal_line_fields [simp]:
  "jl_direction (to_journal_line l) = vl_direction l" "jl_amount (to_journal_line l) = vl_amount l"
  "jl_currency (to_journal_line l) = vl_currency l" "jl_line_no (to_journal_line l) = vl_line_no l"
  "jl_account (to_journal_line l) = vl_account l" "jl_coa_version (to_journal_line l) = vl_coa_version l"
  by (simp_all add: to_journal_line_def)

lemma currency_sum_journal:
  assumes "\<forall>l\<in>set vs. direction_ok (vl_direction l)"
  shows "i64 (currency_sum c True (map to_journal_line vs)) = dir_sum c ''DEBIT'' vs"
    "i64 (currency_sum c False (map to_journal_line vs)) = dir_sum c ''CREDIT'' vs"
proof -
  have "currency_sum c False (map to_journal_line vs) =
      sum_list (map (\<lambda>l. if vl_currency l = c \<and> vl_direction l = ''CREDIT'' then vl_amount l else 0) vs)"
    unfolding currency_sum_def map_map
    by (rule arg_cong [of _ _ sum_list], rule map_cong [OF refl])
      (use assms in \<open>auto simp: direction_ok_def\<close>)
  then show "i64 (currency_sum c False (map to_journal_line vs)) = dir_sum c ''CREDIT'' vs"
    by (simp add: dir_sum_eq)
  show "i64 (currency_sum c True (map to_journal_line vs)) = dir_sum c ''DEBIT'' vs"
    by (simp add: dir_sum_eq currency_sum_def comp_def cong: if_cong)
qed

lemma resolve_lines: "vr_lines (resolve env req) = map (resolve_line env req) (pr_lines req)"
  by (simp add: resolve_def Let_def)

lemma resolve_valid:
  assumes "vr_valid (resolve env req)"
  shows "lines_ok (map to_journal_line (vr_lines (resolve env req)))"
    "balanced (map to_journal_line (vr_lines (resolve env req)))"
    "vr_lines (resolve env req) \<noteq> []"
    "ensure_period_open env (pr_date req) = None"
proof -
  let ?vs = "map (resolve_line env req) (pr_lines req)"
  have errs: "\<forall>l\<in>set ?vs. vl_errors l = []" and ne: "?vs \<noteq> []"
    and bal: "\<forall>c\<in>vl_currency ` set ?vs. dir_sum c ''DEBIT'' ?vs = dir_sum c ''CREDIT'' ?vs"
    and period: "ensure_period_open env (pr_date req) = None"
    using assms
    by (auto simp: resolve_def Let_def list_all_iff filter_empty_conv set_dedup split: if_splits)
  have fields: "\<forall>l\<in>set ?vs. 0 < vl_amount l \<and> direction_ok (vl_direction l)"
    using errs resolve_line_errors by (fastforce simp: resolve_line_fields)
  then show "lines_ok (map to_journal_line (vr_lines (resolve env req)))"
    by (simp add: lines_ok_def list_all_iff resolve_lines)
  have "i64 (currency_sum c True (map to_journal_line ?vs)) = i64 (currency_sum c False (map to_journal_line ?vs))" for c
  proof (cases "c \<in> vl_currency ` set ?vs")
    case True
    then show ?thesis using currency_sum_journal [of ?vs c] fields bal by auto
  next
    case False
    then have "c \<notin> jl_currency ` set (map to_journal_line ?vs)" by (auto simp: image_iff)
    then show ?thesis by (simp add: currency_sum_absent)
  qed
  then show "balanced (map to_journal_line (vr_lines (resolve env req)))"
    by (simp add: balanced_def resolve_lines)
  show "vr_lines (resolve env req) \<noteq> []" using ne by (simp add: resolve_lines)
  show "ensure_period_open env (pr_date req) = None" by (rule period)
qed

section \<open>Every operation keeps the invariant\<close>

lemma insert_entry_Inr:
  assumes "insert_entry e s = Inr s1"
  shows "s1 = s\<lparr>fs_entries := fs_entries s @ [e], fs_next := Suc (fs_next s)\<rparr>"
    "je_key e = None \<or> (\<forall>x\<in>set (fs_entries s). je_key x \<noteq> je_key e)"
    "distinct (map jl_line_no (je_lines e))"
  using assms by (auto simp: insert_entry_def list_ex_iff split: if_splits)

lemma sum_list_sort:
  fixes w :: "journal_line \<Rightarrow> int"
  shows "sum_list (map w (sort_key f ls)) = sum_list (map w ls)"
proof -
  have "mset (map w (sort_key f ls)) = mset (map w ls)" by simp
  then show ?thesis by (metis sum_mset_sum_list)
qed

lemma sort_lines [simp]:
  "sum_lines k d (sort_key f ls) = sum_lines k d ls"
  "currency_sum c d (sort_key f ls) = currency_sum c d ls"
  "lines_ok (sort_key f ls) = lines_ok ls" "balanced (sort_key f ls) = balanced ls"
  by (simp_all add: sum_lines_def currency_sum_def sum_list_sort lines_ok_def list_all_iff balanced_def)

lemma mk_entry_ok:
  assumes "vr_valid (resolve env req)" "status \<in> {''PENDING'', ''POSTED''}"
  shows "entry_ok (Suc i) (mk_entry i d status key req (map to_journal_line (vr_lines (resolve env req))))"
  using resolve_valid [OF assms(1)] assms(2)
  by (auto simp: entry_ok_def mk_entry_def)

lemma mk_entry_fields [simp]:
  "je_id (mk_entry i d status key req ls) = i" "je_status (mk_entry i d status key req ls) = status"
  "je_lines (mk_entry i d status key req ls) = sort_key jl_line_no ls" "je_key (mk_entry i d status key req ls) = null_text key"
  "je_date (mk_entry i d status key req ls) = d" "je_reversed_by (mk_entry i d status key req ls) = None"
  by (simp_all add: mk_entry_def)

lemma create_posted_inv:
  assumes inv: "ledger_inv s"
  shows "ledger_inv (fst (create_posted env key req s))"
proof (cases "\<exists>r. snd (create_posted env key req s) = Inr r")
  case False
  then have "fst (create_posted env key req s) = s"
    by (auto simp: create_posted_def Let_def split: option.splits sum.splits if_splits)
  with inv show ?thesis by simp
next
  case True
  let ?ls = "map to_journal_line (vr_lines (resolve env req))"
  from True obtain d s1 bal where valid: "vr_valid (resolve env req)"
    and ins: "insert_entry (mk_entry (fs_next s) d ''POSTED'' key req ?ls) s = Inr s1"
    and bal: "post_lines_to_balances ?ls (fs_balances s1) = Inr bal"
    and res: "fst (create_posted env key req s) = s1\<lparr>fs_balances := bal,
       fs_outbox := fs_outbox s1 @ [posted_event (fs_next s) (map (\<lambda>l. (pl_direction l, pl_amount l)) (pr_lines req))]\<rparr>"
    by (auto simp: create_posted_def Let_def split: option.splits sum.splits if_splits)
  let ?e = "mk_entry (fs_next s) d ''POSTED'' key req ?ls"
  note s1 = insert_entry_Inr [OF ins]
  have mv: "moved apply_direct_post ?ls (fs_balances s) bal"
    using post_lines_moved [OF bal] s1(1) by simp
  have b64: "bal64 (fs_balances s)" using inv by (simp add: ledger_inv_def)
  show ?thesis
    unfolding res
    by (rule ledger_inv_append [OF inv, of ?e])
      (use mk_entry_ok [OF valid] s1 moved_nonneg [OF mv] inv in
        \<open>simp_all add: moved_direct [OF mv b64] entry_amount_def ledger_inv_def\<close>)
qed

lemma create_pending_inv:
  assumes inv: "ledger_inv s"
  shows "ledger_inv (fst (create_pending env req s))"
proof (cases "\<exists>r. snd (create_pending env req s) = Inr r")
  case False
  then have "fst (create_pending env req s) = s"
    by (auto simp: create_pending_def Let_def split: option.splits sum.splits if_splits)
  with inv show ?thesis by simp
next
  case True
  let ?ls = "map to_journal_line (vr_lines (resolve env req))"
  from True obtain d s1 bal where valid: "vr_valid (resolve env req)"
    and ins: "insert_entry (mk_entry (fs_next s) d ''PENDING'' (pr_key req) req ?ls) s = Inr s1"
    and bal: "reserve_lines env ?ls d (fs_balances s1) = Inr bal"
    and res: "fst (create_pending env req s) = s1\<lparr>fs_balances := bal\<rparr>"
    by (auto simp: create_pending_def Let_def split: option.splits sum.splits if_splits)
  let ?e = "mk_entry (fs_next s) d ''PENDING'' (pr_key req) req ?ls"
  note s1 = insert_entry_Inr [OF ins]
  have mv: "moved apply_reserve ?ls (fs_balances s) bal"
    using run_checked_moved [OF bal [unfolded reserve_lines_def]] s1(1) by simp
  have b64: "bal64 (fs_balances s)" using inv by (simp add: ledger_inv_def)
  show ?thesis
    unfolding res
    by (rule ledger_inv_append [OF inv, of ?e])
      (use mk_entry_ok [OF valid] s1 moved_nonneg [OF mv] inv in
        \<open>simp_all add: moved_reserve [OF mv b64] entry_amount_def ledger_inv_def\<close>)
qed

lemma post_pending_inv:
  assumes inv: "ledger_inv s"
  shows "ledger_inv (fst (post_pending_entry env i s))"
proof (cases "fst (post_pending_entry env i s) = s")
  case True
  with inv show ?thesis by simp
next
  case False
  then obtain e bal where e: "find_entry s i = Some e" "je_status e = ''PENDING''"
    and bal: "move_lines_to_posted env (je_lines e) (je_date e) (fs_balances s) = Inr bal"
    and res: "fst (post_pending_entry env i s) = (update_entry i (\<lambda>x. x\<lparr>je_status := ''POSTED''\<rparr>) s)
                     \<lparr>fs_balances := bal, fs_outbox := fs_outbox s @
                        [posted_event i (map (\<lambda>l. (jl_direction l, jl_amount l)) (je_lines e))]\<rparr>"
    by (auto simp: post_pending_entry_def split: option.splits sum.splits if_splits)
  have mem: "e \<in> set (fs_entries s)" "je_id e = i" using find_entry_in [OF e(1)] by auto
  have mv: "moved apply_post (je_lines e) (fs_balances s) bal"
    by (rule run_checked_moved [OF bal [unfolded move_lines_to_posted_def]])
  have ok: "entry_ok (fs_next s) e" and b64: "bal64 (fs_balances s)"
    using inv mem by (auto simp: ledger_inv_def entries_ok_def)
  show ?thesis
    unfolding res
    by (rule ledger_inv_replace [OF inv mem e(2), where g = "\<lambda>x. x\<lparr>je_status := ''POSTED''\<rparr>"])
      (use ok mem moved_nonneg [OF mv] inv in
        \<open>auto simp: moved_post [OF mv b64] entry_amount_def entry_ok_def e(2) ledger_inv_def update_entry_def\<close>)
qed

lemma release_pending_inv:
  assumes inv: "ledger_inv s"
  shows "ledger_inv (fst (release_pending_entry i reason s))"
proof (cases "fst (release_pending_entry i reason s) = s")
  case True
  with inv show ?thesis by simp
next
  case False
  let ?g = "\<lambda>x. x\<lparr>je_status := ''VOID'', je_void_reason := null_text reason, je_key := None\<rparr>"
  from False obtain e bal where e: "find_entry s i = Some e" "je_status e = ''PENDING''"
    and bal: "release_lines (je_lines e) (fs_balances s) = Inr bal"
    and res: "fst (release_pending_entry i reason s) = (update_entry i ?g s)\<lparr>fs_balances := bal\<rparr>"
    by (auto simp: release_pending_entry_def split: option.splits sum.splits if_splits)
  have mem: "e \<in> set (fs_entries s)" "je_id e = i" using find_entry_in [OF e(1)] by auto
  have mv: "moved apply_release (je_lines e) (fs_balances s) bal"
    by (rule release_lines_moved [OF bal])
  have ok: "entry_ok (fs_next s) e" and b64: "bal64 (fs_balances s)"
    using inv mem by (auto simp: ledger_inv_def entries_ok_def)
  show ?thesis
    unfolding res
    by (rule ledger_inv_replace [OF inv mem e(2), where g = "?g"])
      (use ok mem moved_nonneg [OF mv] inv in
        \<open>auto simp: moved_release [OF mv b64] entry_amount_def entry_ok_def e(2) ledger_inv_def update_entry_def\<close>)
qed

section \<open>Reversal\<close>

lemma sum_map2:
  fixes w v :: "'a \<Rightarrow> int"
  assumes "length ks = length ls" "\<And>i l. l \<in> set ls \<Longrightarrow> w (f i l) = v l"
  shows "sum_list (map w (map2 f ks ls)) = sum_list (map v ls)"
  using assms by (induction ks ls rule: list_induct2) auto

lemma flip_ok: "direction_ok d \<Longrightarrow> (flip_direction d = ''DEBIT'') = (\<not> d = ''DEBIT'') \<and> direction_ok (flip_direction d)"
  by (auto simp: direction_ok_def flip_direction_def)

lemma set_map2_mirror:
  "l \<in> set (map2 (mirror_line c) ks ls) \<Longrightarrow> \<exists>i. \<exists>l'\<in>set ls. l = mirror_line c i l'"
  by (auto dest: set_zip_rightD)

lemma mirror_fields [simp]:
  "jl_amount (mirror_line c i l) = jl_amount l" "jl_currency (mirror_line c i l) = c"
  "jl_direction (mirror_line c i l) = flip_direction (jl_direction l)"
  by (simp_all add: mirror_line_def)

lemma mirror_key: "jl_currency l = c \<Longrightarrow> line_key (mirror_line c i l) = line_key l"
  by (simp add: mirror_line_def line_key_def)

lemma sum_lines_mirror:
  assumes "lines_ok ls" "\<forall>l\<in>set ls. jl_currency l = c"
  shows "sum_lines k d (map2 (mirror_line c) [0..<length ls] ls) = sum_lines k (\<not> d) ls"
  unfolding sum_lines_def
proof (rule sum_map2)
  fix i l assume "l \<in> set ls"
  with assms flip_ok show "line_amount k d (mirror_line c i l) = line_amount k (\<not> d) l"
    by (auto simp: line_amount_def mirror_key lines_ok_def list_all_iff)
qed simp

lemma sum_lines_flip:
  assumes "lines_ok ls"
  shows "sum_lines k d (map flip_line ls) = sum_lines k (\<not> d) ls"
proof -
  have "line_amount k d (flip_line l) = line_amount k (\<not> d) l" if "l \<in> set ls" for l
    using assms flip_ok [of "jl_direction l"] that
    by (cases d) (auto simp: line_amount_def lines_ok_def list_all_iff flip_line_def line_key_def)
  then show ?thesis
    unfolding sum_lines_def map_map
    by (intro arg_cong [of _ _ sum_list] map_cong) auto
qed

lemma currency_sum_mirror:
  assumes "lines_ok ls"
  shows "currency_sum c' d (map2 (mirror_line c) [0..<length ls] ls) = (if c' = c then whole_sum (\<not> d) ls else 0)"
proof -
  have "currency_sum c' d (map2 (mirror_line c) [0..<length ls] ls) =
      sum_list (map (\<lambda>l. if c' = c then (if (jl_direction l = ''DEBIT'') = (\<not> d) then jl_amount l else 0) else 0) ls)"
    unfolding currency_sum_def
  proof (rule sum_map2)
    fix i l assume "l \<in> set ls"
    with assms flip_ok show "(if jl_currency (mirror_line c i l) = c' \<and> (jl_direction (mirror_line c i l) = ''DEBIT'') = d
        then jl_amount (mirror_line c i l) else 0) =
      (if c' = c then (if (jl_direction l = ''DEBIT'') = (\<not> d) then jl_amount l else 0) else 0)"
      by (auto simp: lines_ok_def list_all_iff)
  qed simp
  then show ?thesis by (simp add: whole_sum_def)
qed

lemma balanced_mirror:
  "lines_ok ls \<Longrightarrow> balanced ls \<Longrightarrow> balanced (map2 (mirror_line c) [0..<length ls] ls)"
  using balanced_whole by (simp add: balanced_def currency_sum_mirror)

lemma balanced_flip:
  assumes "lines_ok ls" "balanced ls"
  shows "balanced (map flip_line ls)"
proof -
  have "currency_sum c d (map flip_line ls) = currency_sum c (\<not> d) ls" for c d
    unfolding currency_sum_def map_map
    by (rule arg_cong [of _ _ sum_list], rule map_cong [OF refl])
      (use assms(1) flip_ok in \<open>auto simp: flip_line_def lines_ok_def list_all_iff\<close>)
  then show ?thesis using assms(2) by (simp add: balanced_def)
qed

lemma reversal_fields [simp]:
  "je_id (reversal_entry i d dt req o1) = i" "je_status (reversal_entry i d dt req o1) = ''POSTED''"
  "je_reversed_by (reversal_entry i d dt req o1) = None" "je_currency (reversal_entry i d dt req o1) = je_currency o1"
  "je_lines (reversal_entry i d dt req o1) = map2 (mirror_line (je_currency o1)) [0..<length (je_lines o1)] (je_lines o1)"
  by (simp_all add: reversal_entry_def)

lemma reversal_entry_ok:
  assumes "entry_ok n o1"
  shows "entry_ok (Suc i) (reversal_entry i d dt req o1)"
proof -
  let ?ls = "je_lines o1"
  have ls: "lines_ok ?ls" "balanced ?ls" using assms by (simp_all add: entry_ok_def)
  have "lines_ok (map2 (mirror_line (je_currency o1)) [0..<length ?ls] ?ls)"
    using ls(1) flip_ok unfolding lines_ok_def list_all_iff
    by (auto dest!: set_zip_rightD)
  then show ?thesis using balanced_mirror [OF ls] by (simp add: entry_ok_def)
qed

lemma get_entry_for_reversal_Inr:
  "get_entry_for_reversal s i = Inr e \<longleftrightarrow>
     find_entry s i = Some e \<and> je_status e = ''POSTED'' \<and> je_reversed_by e = None"
  by (auto simp: get_entry_for_reversal_def split: option.splits)

lemma write_reversal_success:
  assumes "snd (write_reversal env day dt req orig s) = Inr r"
  obtains s1 bal s2 where
    "insert_entry (reversal_entry (fs_next s) day dt req orig) s = Inr s1"
    "reverse_lines env (je_lines orig) day (fs_balances s1) = Inr bal"
    "mark_reversed (rv_entry req) (fs_next s) (s1\<lparr>fs_balances := bal\<rparr>) = Inr s2"
    "fst (write_reversal env day dt req orig s) =
       s2\<lparr>fs_outbox := fs_outbox s2 @ [Reversal_Event (fs_next s) (rv_entry req)]\<rparr>"
    "r = response (fs_next s) ''POSTED'' False"
  using assms unfolding write_reversal_def
  by (auto split: sum.splits)

lemma write_reversal_failure:
  "snd (write_reversal env day dt req orig s) = Inl err \<Longrightarrow> fst (write_reversal env day dt req orig s) = s"
  unfolding write_reversal_def by (auto split: sum.splits)

lemma reverse_transaction_cases:
  obtains (fail) err where "reverse_transaction env tenant req s = (s, Inl err)"
  | (written) orig day dt where "find_entry s (rv_entry req) = Some orig" "je_status orig = ''POSTED''"
      "je_reversed_by orig = None" "ensure_reversal_allowed env (je_domain orig) (je_doc_type orig) = None"
      "ensure_period_open_day env day = None"
      "reverse_transaction env tenant req s = write_reversal env day dt req orig s"
proof (cases "get_entry_for_reversal s (rv_entry req)")
  case (Inl err)
  then show thesis using fail unfolding reverse_transaction_def by (cases "require_tenant tenant") auto
next
  case (Inr orig)
  then have o: "find_entry s (rv_entry req) = Some orig" "je_status orig = ''POSTED''" "je_reversed_by orig = None"
    by (simp_all add: get_entry_for_reversal_Inr)
  show thesis
  proof (cases "\<exists>err. reverse_transaction env tenant req s = (s, Inl err)")
    case True
    then show thesis using fail by auto
  next
    case False
    then obtain day where "ensure_reversal_allowed env (je_domain orig) (je_doc_type orig) = None"
      "ensure_period_open_day env day = None" "reverse_transaction env tenant req s =
         write_reversal env day (if rv_doc_type req = [] then je_doc_type orig else rv_doc_type req) req orig s"
      unfolding reverse_transaction_def Inr by (auto split: option.splits simp del: if_split)
    then show thesis by (rule written [OF o])
  qed
qed

lemma reverse_transaction_failure:
  "snd (reverse_transaction env tenant req s) = Inl err \<Longrightarrow> fst (reverse_transaction env tenant req s) = s"
  by (rule reverse_transaction_cases [of env tenant req s]) (simp_all add: write_reversal_failure)

lemma reverse_transaction_success:
  assumes "snd (reverse_transaction env tenant req s) = Inr r"
  obtains orig day dt s1 bal s2 where
    "find_entry s (rv_entry req) = Some orig" "je_status orig = ''POSTED''" "je_reversed_by orig = None"
    "ensure_reversal_allowed env (je_domain orig) (je_doc_type orig) = None"
    "ensure_period_open_day env day = None"
    "insert_entry (reversal_entry (fs_next s) day dt req orig) s = Inr s1"
    "reverse_lines env (je_lines orig) day (fs_balances s1) = Inr bal"
    "mark_reversed (rv_entry req) (fs_next s) (s1\<lparr>fs_balances := bal\<rparr>) = Inr s2"
    "fst (reverse_transaction env tenant req s) =
       s2\<lparr>fs_outbox := fs_outbox s2 @ [Reversal_Event (fs_next s) (rv_entry req)]\<rparr>"
    "r = response (fs_next s) ''POSTED'' False"
proof (rule reverse_transaction_cases [of env tenant req s])
  fix err assume "reverse_transaction env tenant req s = (s, Inl err)"
  with assms show thesis by simp
next
  fix orig day dt
  assume o: "find_entry s (rv_entry req) = Some orig" "je_status orig = ''POSTED''" "je_reversed_by orig = None"
    "ensure_reversal_allowed env (je_domain orig) (je_doc_type orig) = None" "ensure_period_open_day env day = None"
    and eq: "reverse_transaction env tenant req s = write_reversal env day dt req orig s"
  show thesis
    by (rule write_reversal_success [OF assms [unfolded eq]])
      (rule that [OF o, unfolded eq], assumption+)
qed

lemma mark_reversed_update:
  assumes "distinct (map je_id (fs_entries s))" "e \<in> set (fs_entries s)" "je_id e = i"
    "je_status e = ''POSTED''" "je_reversed_by e = None"
  shows "mark_reversed i r s = Inr (s\<lparr>fs_entries := map (\<lambda>x. if je_id x = i
      then x\<lparr>je_reversed_by := Some r, je_status := ''REVERSED''\<rparr> else x) (fs_entries s)\<rparr>)"
proof -
  have "x = e" if "x \<in> set (fs_entries s)" "je_id x = i" for x
    using entry_unique [OF assms(1) that(1) assms(2)] assms(3) that by simp
  then have "map (\<lambda>e. if je_id e = i \<and> je_status e = ''POSTED'' \<and> je_reversed_by e = None
        then e\<lparr>je_reversed_by := Some r, je_status := ''REVERSED''\<rparr> else e) (fs_entries s) =
      map (\<lambda>x. if je_id x = i then x\<lparr>je_reversed_by := Some r, je_status := ''REVERSED''\<rparr> else x) (fs_entries s)"
    using assms(4,5) by (intro map_cong) auto
  then show ?thesis using assms by (auto simp: mark_reversed_def)
qed

text \<open>The reversal of an entry of one currency: the mirror entry's lines are what the rows moved by.\<close>

lemma reversed_counters:
  fixes s day dt req orig r i
  defines "es \<equiv> fs_entries s @ [reversal_entry (fs_next s) day dt req orig]"
    and "g \<equiv> \<lambda>x. x\<lparr>je_reversed_by := r, je_status := ''REVERSED''\<rparr>"
  assumes inv: "ledger_inv s" and ok: "entries_ok (Suc (fs_next s)) es"
    and mem: "orig \<in> set (fs_entries s)" "je_id orig = i" and st: "je_status orig = ''POSTED''"
    and p: "\<And>k d. posted_side d (row_of bal k) =
      i64 (posted_side d (row_of (fs_balances s) k) + sum_lines k d (map flip_line (je_lines orig)))"
    and q: "\<And>k d. reserved_side d (row_of bal k) = i64 (reserved_side d (row_of (fs_balances s) k))"
    and plain: "reversals_plain (map (\<lambda>x. if je_id x = i then g x else x) es)"
  shows "counters_match (map (\<lambda>x. if je_id x = i then g x else x) es) bal"
proof -
  have ids: "distinct (map je_id es)" using ok by (simp add: entries_ok_def)
  have mem': "orig \<in> set es" using mem by (simp add: es_def)
  have only: "x = orig" if "x \<in> set es" "je_id x = i" for x
    using entry_unique [OF ids that(1) mem'] that(2) mem(2) by simp
  have "reversals_plain es" using st by (intro reversals_plain_replace [OF plain]) (force dest: only)
  then have cm: "counters_match (fs_entries s) (fs_balances s)"
    using inv by (simp add: es_def ledger_inv_def reversals_plain_def)
  have "one_currency (g orig)"
    using plain mem' mem(2) by (auto simp: reversals_plain_def list_all_iff g_def)
  then have lo: "lines_ok (je_lines orig)" "\<forall>l\<in>set (je_lines orig). jl_currency l = je_currency orig"
    using ok mem' by (auto simp: entries_ok_def entry_ok_def one_currency_def list_all_iff g_def)
  have m: "counters_match es bal"
    unfolding es_def
    by (rule counters_match_append [OF cm])
      (simp_all add: p q entry_amount_def sum_lines_mirror [OF lo] sum_lines_flip [OF lo(1)])
  show ?thesis
    by (rule counters_match_replace [OF m ids mem' mem(2)])
      (use counters_match_bal64 [OF m] st in \<open>simp_all add: entry_amount_def i64_id bal64_def row64_def g_def\<close>)
qed

lemma reverse_inv:
  assumes inv: "ledger_inv s"
  shows "ledger_inv (fst (reverse_transaction env tenant req s))"
proof (cases "snd (reverse_transaction env tenant req s)")
  case (Inl err)
  then show ?thesis using reverse_transaction_failure inv by metis
next
  case (Inr r)
  then obtain orig day dt s1 bal s2 where
    o: "find_entry s (rv_entry req) = Some orig" "je_status orig = ''POSTED''" "je_reversed_by orig = None"
    and ins: "insert_entry (reversal_entry (fs_next s) day dt req orig) s = Inr s1"
    and rev: "reverse_lines env (je_lines orig) day (fs_balances s1) = Inr bal"
    and mark: "mark_reversed (rv_entry req) (fs_next s) (s1\<lparr>fs_balances := bal\<rparr>) = Inr s2"
    and res: "fst (reverse_transaction env tenant req s) =
       s2\<lparr>fs_outbox := fs_outbox s2 @ [Reversal_Event (fs_next s) (rv_entry req)]\<rparr>"
    by (rule reverse_transaction_success)
  let ?rev = "reversal_entry (fs_next s) day dt req orig"
  let ?es = "fs_entries s @ [?rev]"
  let ?g = "\<lambda>x. x\<lparr>je_reversed_by := Some (fs_next s), je_status := ''REVERSED''\<rparr>"
  let ?fs = "map (\<lambda>x. if je_id x = rv_entry req then ?g x else x) ?es"
  note s1 = insert_entry_Inr [OF ins]
  have mem: "orig \<in> set (fs_entries s)" "je_id orig = rv_entry req" using find_entry_in [OF o(1)] by auto
  have ok: "entries_ok (fs_next s) (fs_entries s)" and b64: "bal64 (fs_balances s)" and rb: "rows_balanced (fs_entries s) (fs_balances s)"
    using inv by (simp_all add: ledger_inv_def)
  have ook: "entry_ok (fs_next s) orig" using ok mem by (simp add: entries_ok_def)
  then have lo: "lines_ok (je_lines orig)" "balanced (je_lines orig)" by (simp_all add: entry_ok_def)
  have mv: "moved apply_direct_post (map flip_line (je_lines orig)) (fs_balances s) bal"
    using reverse_lines_moved [OF rev] s1(1) by simp
  note eff = moved_direct [OF mv b64]
  have ok1: "entries_ok (Suc (fs_next s)) ?es"
    by (rule entries_ok_append) (use ok reversal_entry_ok [OF ook] s1(2) in auto)
  have mem1: "orig \<in> set ?es" using mem by simp
  have d1: "distinct (map je_id ?es)" using ok1 unfolding entries_ok_def by blast
  have s2: "s2 = s1\<lparr>fs_balances := bal, fs_entries := ?fs\<rparr>"
    using mark mark_reversed_update [of "s1\<lparr>fs_balances := bal\<rparr>" orig "rv_entry req" "fs_next s"] d1 mem1 mem o s1(1)
    by simp
  have "bal64 bal" by (rule bal64_I [OF eff])
  moreover have "entries_ok (Suc (fs_next s)) ?fs"
    by (rule entries_ok_replace [OF ok1 mem1 mem(2)])
      (use ook mem in \<open>auto simp: entry_ok_def\<close>)
  moreover have "rows_balanced ?fs bal"
  proof (rule rows_balanced_moved [OF rb balanced_flip [OF lo] eff(1)])
    have "journal_keys ?fs = journal_keys ?es" by (rule journal_keys_simps(2)) simp
    moreover have "line_key ` set (je_lines orig) \<subseteq> journal_keys (fs_entries s)"
      using mem by (auto simp: journal_keys_def)
    ultimately show "journal_keys (fs_entries s) \<subseteq> journal_keys ?fs" "line_key ` set (map flip_line (je_lines orig)) \<subseteq> journal_keys ?fs"
      by (auto simp: image_image)
  qed
  moreover have "rows_nonneg bal"
    using moved_nonneg [OF mv] inv by (simp add: ledger_inv_def)
  moreover have "counters_match ?fs bal" if "reversals_plain ?fs"
    by (rule reversed_counters [OF inv ok1 mem o(2) eff that])
  ultimately show ?thesis using res s1(1) s2 by (simp add: ledger_inv_def)
qed

section \<open>Reachable states\<close>

lemma handle_existing_inv:
  "ledger_inv s \<Longrightarrow> ledger_inv (fst (handle_existing_for_reserve env req e s))"
  using release_pending_inv [of s "je_id e" "''reserve rebuilt: proposal edited''"]
  by (auto simp: handle_existing_for_reserve_def Let_def split: sum.splits prod.splits)

lemma reserve_inv:
  assumes "ledger_inv s"
  shows "ledger_inv (fst (reserve_posting env tenant req s))"
proof -
  have "ledger_inv s'" if "handle_existing_for_reserve env req e s = (s', r)" for e s' r
    using handle_existing_inv [OF assms(1), of env req e] that by simp
  then show ?thesis
    using assms create_pending_inv
    by (auto simp: reserve_posting_def split: option.splits prod.splits)
qed

lemma post_inv: "ledger_inv s \<Longrightarrow> ledger_inv (fst (post_transaction env tenant req s))"
  by (auto simp: post_transaction_def Let_def create_posted_inv post_pending_inv split: option.splits)

lemma release_inv:
  "ledger_inv s \<Longrightarrow> ledger_inv (fst (release_posting tenant i reason s))"
  by (auto simp: release_posting_def release_pending_inv split: option.splits)

text \<open>One call on the tables, under whatever configuration, date, tenant and request.\<close>

inductive fin_step :: "fin_state \<Rightarrow> fin_state \<Rightarrow> bool" where
  step_reserve: "fin_step s (fst (reserve_posting env tenant req s))"
| step_post: "fin_step s (fst (post_transaction env tenant req s))"
| step_release: "fin_step s (fst (release_posting tenant i reason s))"
| step_reverse: "fin_step s (fst (reverse_transaction env tenant rreq s))"

inductive fin_reachable :: "fin_state \<Rightarrow> bool" where
  reach_empty: "fin_reachable empty_fin_state"
| reach_step: "fin_reachable s \<Longrightarrow> fin_step s t \<Longrightarrow> fin_reachable t"

inductive_cases fin_stepE: "fin_step s t"

lemma fin_step_inv: "fin_step s t \<Longrightarrow> ledger_inv s \<Longrightarrow> ledger_inv t"
  by (erule fin_stepE) (simp_all add: reserve_inv post_inv release_inv reverse_inv)

lemma reachable_inv: "fin_reachable s \<Longrightarrow> ledger_inv s"
  by (induction rule: fin_reachable.induct) (auto intro: ledger_inv_empty fin_step_inv)

end
