(* ===== verification/Posting_Theorems.thy ===== *)
theory Posting_Theorems
  imports Posting_Safety
begin

text \<open>
  The properties of the posting service: what holds in every reachable state of the journal and its
  balances, what holds and reversals do to the balances, replays and failures, the posting-date policy
  and the debt-group matrix, each with a run of the model that exercises it.
\<close>

section \<open>No overdraft by reservation\<close>

definition headroom :: "(balance_key \<Rightarrow> balance_row option) \<Rightarrow> journal_line list \<Rightarrow> bool" where
  "headroom bal ls \<longleftrightarrow>
     (\<forall>k\<in>line_key ` set ls. \<forall>d. 0 \<le> posted_side d (row_of bal k) \<and> 0 \<le> reserved_side d (row_of bal k) \<and>
        posted_side d (row_of bal k) + sum_list (map jl_amount ls) < 2305843009213693952 \<and>
        reserved_side d (row_of bal k) + sum_list (map jl_amount ls) < 2305843009213693952)"

lemma lines_ok_sum: "lines_ok ls \<Longrightarrow> 0 \<le> sum_list (map jl_amount ls)"
  by (rule sum_list_nonneg_int) (auto simp: lines_ok_def list_all_iff intro: less_imp_le)

lemma headroom_small: "headroom bal ls \<Longrightarrow> lines_ok ls \<Longrightarrow> k \<in> line_key ` set ls \<Longrightarrow> row_small (row_of bal k)"
proof -
  assume a: "headroom bal ls" "lines_ok ls" and k: "k \<in> line_key ` set ls"
  from a(1) have "0 \<le> posted_side d (row_of bal k) \<and> 0 \<le> reserved_side d (row_of bal k) \<and>
        posted_side d (row_of bal k) + sum_list (map jl_amount ls) < 2305843009213693952 \<and>
        reserved_side d (row_of bal k) + sum_list (map jl_amount ls) < 2305843009213693952" for d
    using k by (auto simp: headroom_def)
  from this [of True] this [of False] show ?thesis
    using lines_ok_sum [OF a(2)]
    by (simp add: row_small_def small_def posted_side_def reserved_side_def)
qed

lemma checked_move_Inr:
  "checked_move chk f ns ops l bal = Inr b \<longleftrightarrow>
     chk (row_of bal (line_key l)) (natural_signed_opening (ops (line_key l)) (ns (line_key l)))
       (ns (line_key l)) (jl_direction l) (jl_amount l) = None \<and> b = move_line f l bal"
  by (auto simp: checked_move_def Let_def split: option.splits)

lemma fold_r_Cons: "fold_r f (x # xs) s = Inr t \<longleftrightarrow> (\<exists>s'. f x s = Inr s' \<and> fold_r f xs s' = Inr t)"
  by (auto split: sum.splits)

lemma headroom_step:
  assumes "headroom bal (l # ls)" "lines_ok (l # ls)" and b: "bal64 bal"
  shows "headroom (move_line apply_reserve l bal) ls" "small (jl_amount l)" "0 < jl_amount l"
    "direction_ok (jl_direction l)" "lines_ok ls"
proof -
  have l: "0 < jl_amount l" "direction_ok (jl_direction l)" "lines_ok ls"
    using assms(2) by (auto simp: lines_ok_def)
  then show "0 < jl_amount l" "direction_ok (jl_direction l)" "lines_ok ls" by auto
  have rest: "0 \<le> sum_list (map jl_amount ls)" using lines_ok_sum [OF l(3)] .
  have h: "0 \<le> posted_side d (row_of bal k) \<and> 0 \<le> reserved_side d (row_of bal k) \<and>
        posted_side d (row_of bal k) + (jl_amount l + sum_list (map jl_amount ls)) < 2305843009213693952 \<and>
        reserved_side d (row_of bal k) + (jl_amount l + sum_list (map jl_amount ls)) < 2305843009213693952"
    if "k \<in> line_key ` set (l # ls)" for k d
    using assms(1) that by (auto simp: headroom_def)
  then show "small (jl_amount l)" 
    unfolding small_def using rest l(1) h [of "line_key l" True, simplified] by linarith
  show "headroom (move_line apply_reserve l bal) ls"
    unfolding headroom_def
  proof (intro ballI allI)
    fix k d assume "k \<in> line_key ` set ls"
    then have h: "0 \<le> posted_side d (row_of bal k) \<and> 0 \<le> reserved_side d (row_of bal k) \<and>
        posted_side d (row_of bal k) + (jl_amount l + sum_list (map jl_amount ls)) < 2305843009213693952 \<and>
        reserved_side d (row_of bal k) + (jl_amount l + sum_list (map jl_amount ls)) < 2305843009213693952"
      using h [of k d] by simp
    have a: "0 \<le> line_amount k d l" "line_amount k d l \<le> jl_amount l" using l(1) by (auto simp: line_amount_def)
    have "posted_side d (row_of (move_line apply_reserve l bal) k) = posted_side d (row_of bal k)"
      using b by (simp add: reserve.posted_line [OF b] i64_id bal64_def row64_def del: row_of_upd)
    moreover have "in64 (reserved_side d (row_of bal k) + line_amount k d l)"
      unfolding in64_def using h a rest by linarith
    then have "reserved_side d (row_of (move_line apply_reserve l bal) k) = reserved_side d (row_of bal k) + line_amount k d l"
      by (simp add: reserve.reserved_line [OF b] i64_id del: row_of_upd)
    ultimately show "0 \<le> posted_side d (row_of (move_line apply_reserve l bal) k) \<and>
        0 \<le> reserved_side d (row_of (move_line apply_reserve l bal) k) \<and>
        posted_side d (row_of (move_line apply_reserve l bal) k) + sum_list (map jl_amount ls) < 2305843009213693952 \<and>
        reserved_side d (row_of (move_line apply_reserve l bal) k) + sum_list (map jl_amount ls) < 2305843009213693952"
      using h a l(1) by simp
  qed
qed

lemma fold_reserve_available:
  assumes "fold_r (checked_move check_reserve apply_reserve ns ops) ls bal = Inr bal'"
    and "lines_ok ls" "headroom bal ls" "bal64 bal" "small (natural_signed_opening (ops k) (ns k))" "ns k \<noteq> ''B''"
    and "0 \<le> spec_available (row_of bal k) (natural_signed_opening (ops k) (ns k)) (ns k) \<or>
         (\<exists>l\<in>set ls. line_key l = k \<and> spec_delta (ns k) (jl_direction l) (jl_amount l) < 0)"
  shows "0 \<le> spec_available (row_of bal' k) (natural_signed_opening (ops k) (ns k)) (ns k)"
  using assms
proof (induction ls arbitrary: bal)
  case Nil
  then show ?case by simp
next
  case (Cons l ls)
  let ?o = "natural_signed_opening (ops k) (ns k)"
  let ?b = "move_line apply_reserve l bal"
  let ?delta = "spec_delta (ns k) (jl_direction l) (jl_amount l)"
  from Cons.prems(1) have rest: "fold_r (checked_move check_reserve apply_reserve ns ops) ls ?b = Inr bal'"
    and ck: "line_key l = k \<Longrightarrow> check_reserve (row_of bal k) ?o (ns k) (jl_direction l) (jl_amount l) = None"
    by (auto simp: fold_r_Cons checked_move_Inr simp del: fold_r.simps)
  note st = headroom_step [OF Cons.prems(3,2,4)]
  have rs: "line_key l = k \<Longrightarrow> row_small (row_of bal k)" using headroom_small [OF Cons.prems(3,2)] by simp
  have av: "spec_available (row_of ?b k) ?o (ns k) =
      spec_available (row_of bal k) ?o (ns k) + (if line_key l = k then ?delta else 0)"
    using rs st by (auto simp: move_line_def spec_available_apply_reserve)
  have "0 \<le> spec_available (row_of ?b k) ?o (ns k) \<or>
         (\<exists>l\<in>set ls. line_key l = k \<and> spec_delta (ns k) (jl_direction l) (jl_amount l) < 0)"
  proof (cases "line_key l = k")
    case True
    have "?delta < 0 \<Longrightarrow> 0 \<le> spec_available (row_of bal k) ?o (ns k) + ?delta"
      using ck [OF True] check_reserve_iff [OF rs [OF True] Cons.prems(5) st(2)] Cons.prems(6) by auto
    with True av Cons.prems(7) show ?thesis by auto
  next
    case False
    with av Cons.prems(7) show ?thesis by auto
  qed
  then show ?case by (rule Cons.IH [OF rest st(5,1) reserve.bal64_line [OF Cons.prems(4)] Cons.prems(5,6)])
qed

lemma load_natures_line:
  assumes "load_natures env (balance_keys ls) (\<lambda>_. []) = Inr ns" "l \<in> set ls"
    "coa_lookup env (jl_coa_version l) (jl_account l) = Some a"
  shows "ns (line_key l) = ca_nature a"
  using load_natures_nature [OF assms(1), of "line_key l"] assms(2,3) by (auto simp: line_key_def)

lemma reserve_lines_available:
  assumes "reserve_lines env ls d bal = Inr bal'" "lines_ok ls" "headroom bal ls" "bal64 bal"
    and "l \<in> set ls" "coa_lookup env (jl_coa_version l) (jl_account l) = Some a" "ca_nature a \<noteq> ''B''"
    and "spec_delta (ca_nature a) (jl_direction l) (jl_amount l) < 0"
    and "small (natural_signed_opening (opening_on env (line_key l) d) (ca_nature a))"
  shows "0 \<le> spec_available (row_of bal' (line_key l))
            (natural_signed_opening (opening_on env (line_key l) d) (ca_nature a)) (ca_nature a)"
proof -
  let ?ks = "balance_keys ls"
  from assms(1) obtain ns where ns: "load_natures env ?ks (\<lambda>_. []) = Inr ns"
    and fold: "fold_r (checked_move check_reserve apply_reserve ns (\<lambda>k. opening_on env k d)) ls (ensure_rows ?ks bal) = Inr bal'"
    by (auto simp: reserve_lines_def run_checked_def Let_def bind_r_eq_Inr save_balances_iff)
  have nat_l: "ns (line_key l) = ca_nature a" by (rule load_natures_line [OF ns assms(5,6)])
  have "headroom (ensure_rows ?ks bal) ls" "bal64 (ensure_rows ?ks bal)" using assms(3,4) by (simp_all add: headroom_def)
  from fold_reserve_available [OF fold assms(2) this, of "line_key l"] assms nat_l show ?thesis by auto
qed

section \<open>Reachable states\<close>

text \<open>C1. In every state that reservations, posts, releases and reversals can reach, no counter of a balance row
  is negative; and as long as no entry whose lines are in another currency than its header has been
  reversed, each counter is the total of the journal: posted counters the POSTED and REVERSED entries,
  reserved counters the PENDING ones, both modulo 2^64 (Go's int64).\<close>

theorem balances_are_journal_totals:
  assumes "fin_reachable s"
  shows "0 \<le> posted_side d (row_of (fs_balances s) k) \<and> 0 \<le> reserved_side d (row_of (fs_balances s) k) \<and>
    (reversals_plain (fs_entries s) \<longrightarrow>
      posted_side d (row_of (fs_balances s) k) = i64 (total {''POSTED'', ''REVERSED''} k d (fs_entries s)) \<and>
      reserved_side d (row_of (fs_balances s) k) = i64 (total {''PENDING''} k d (fs_entries s)))"
proof -
  have inv: "ledger_inv s" using assms by (rule reachable_inv)
  then have "counters_nonneg (row_of (fs_balances s) k)" by (simp add: ledger_inv_def rows_nonneg_def)
  then have "0 \<le> posted_side d (row_of (fs_balances s) k)" "0 \<le> reserved_side d (row_of (fs_balances s) k)"
    by (auto simp: counters_nonneg_def posted_side_def reserved_side_def)
  with inv show ?thesis by (simp add: ledger_inv_def counters_match_def)
qed

text \<open>The balance keys of a currency that the journal uses.\<close>

definition ledger_keys :: "fin_state \<Rightarrow> string \<Rightarrow> balance_key list" where
  "ledger_keys s c =
     dedup [] (map line_key (filter (\<lambda>l. jl_currency l = c) (concat (map je_lines (fs_entries s)))))"

definition trial_total :: "fin_state \<Rightarrow> string \<Rightarrow> bool \<Rightarrow> int" where
  "trial_total s c d = sum_list (map (\<lambda>k. posted_side d (row_of (fs_balances s) k)) (ledger_keys s c))"

lemma ledger_keys_cover: "covers (ledger_keys s c) c (fs_entries s)"
  by (auto simp: covers_def ledger_keys_def distinct_dedup set_dedup journal_keys_def line_key_def)

text \<open>C2. The trial balance: in every state that reservations, posts, releases and reversals can reach, for every
  currency, the posted debits over the balance rows the journal uses equal the posted credits modulo 2^64, so
  exactly when both totals fit an int64. Entries of several currencies, and their reversals, are included.\<close>

theorem trial_balance:
  assumes "fin_reachable s"
  shows "i64 (trial_total s c True) = i64 (trial_total s c False)"
proof -
  have "rows_balanced (fs_entries s) (fs_balances s)"
    using reachable_inv [OF assms] by (simp add: ledger_inv_def)
  then show ?thesis
    using ledger_keys_cover [of s c] by (simp add: rows_balanced_def side_total_def trial_total_def)
qed

text \<open>No two journal entries of a reachable state hold the same idempotency key, and entry ids are
  unique and below the next one.\<close>

theorem one_entry_per_key:
  assumes "fin_reachable s" "x \<in> set (fs_entries s)" "y \<in> set (fs_entries s)"
    and "je_key x = Some key" "je_key y = Some key"
  shows "x = y \<and> je_id x < fs_next s"
proof -
  have inv: "entries_ok (fs_next s) (fs_entries s)"
    using reachable_inv [OF assms(1)] by (simp add: ledger_inv_def)
  then have ids: "distinct (map je_id (fs_entries s))" and ok: "entry_ok (fs_next s) x" and ku: "keys_unique (fs_entries s)"
    using assms(2) by (simp_all add: entries_ok_def)
  have "je_id x = je_id y" using ku assms(2-5) unfolding keys_unique_def by (metis option.distinct(1))
  with ids ok show ?thesis using entry_unique [OF ids assms(2,3)] by (simp add: entry_ok_def)
qed

section \<open>The journal only grows\<close>

definition status_next :: "string \<Rightarrow> string \<Rightarrow> bool" where
  "status_next a b \<longleftrightarrow> a = b \<or> a = ''PENDING'' \<and> b \<in> {''POSTED'', ''VOID''} \<or> a = ''POSTED'' \<and> b = ''REVERSED''"

definition kept :: "journal_entry \<Rightarrow> journal_entry \<Rightarrow> bool" where
  "kept e e' \<longleftrightarrow>
     je_id e' = je_id e \<and> je_lines e' = je_lines e \<and> je_date e' = je_date e \<and> je_doc_type e' = je_doc_type e \<and>
     status_next (je_status e) (je_status e') \<and> (je_key e' = je_key e \<or> je_key e' = None)"

lemma kept_refl: "kept e e"
  by (simp add: kept_def status_next_def)

definition grows :: "fin_state \<Rightarrow> fin_state \<Rightarrow> bool" where
  "grows s t \<longleftrightarrow> (\<forall>e\<in>set (fs_entries s). \<exists>e'\<in>set (fs_entries t). kept e e')"

lemma grows_refl: "grows s s"
  by (auto simp: grows_def intro: kept_refl)

lemma grows_append: "fs_entries t = fs_entries s @ es \<Longrightarrow> grows s t"
  by (auto simp: grows_def intro: kept_refl)

lemma grows_map:
  assumes "fs_entries t = map h (fs_entries s @ es)" "\<And>e. e \<in> set (fs_entries s) \<Longrightarrow> kept e (h e)"
  shows "grows s t"
  using assms by (auto simp: grows_def)

lemma create_posted_grows: "grows s (fst (create_posted env key req s))"
  by (auto simp: create_posted_def Let_def intro!: grows_refl grows_append dest!: insert_entry_Inr(1)
      split: option.splits sum.splits)

lemma create_pending_grows: "grows s (fst (create_pending env req s))"
  by (auto simp: create_pending_def Let_def intro!: grows_refl grows_append dest!: insert_entry_Inr(1)
      split: option.splits sum.splits)

lemma pending_unique:
  "ledger_inv s \<Longrightarrow> find_entry s i = Some e \<Longrightarrow> x \<in> set (fs_entries s) \<Longrightarrow> je_id x = i \<Longrightarrow> x = e"
  by (auto simp: ledger_inv_def entries_ok_def dest!: find_entry_in intro: entry_unique)

lemma post_pending_grows:
  assumes "ledger_inv s"
  shows "grows s (fst (post_pending_entry env i s))"
proof (cases "fst (post_pending_entry env i s) = s")
  case True
  then show ?thesis by (simp add: grows_refl)
next
  case False
  then obtain e where e: "find_entry s i = Some e" "je_status e = ''PENDING''"
    and es: "fs_entries (fst (post_pending_entry env i s)) =
      map (\<lambda>x. if je_id x = i then x\<lparr>je_status := ''POSTED''\<rparr> else x) (fs_entries s @ [])"
    by (auto simp: post_pending_entry_def update_entry_def split: option.splits sum.splits if_splits)
  show ?thesis
    by (rule grows_map [OF es]) (use pending_unique [OF assms e(1)] e(2) in \<open>auto simp: kept_def status_next_def\<close>)
qed

lemma release_pending_grows:
  assumes "ledger_inv s"
  shows "grows s (fst (release_pending_entry i reason s))"
proof (cases "fst (release_pending_entry i reason s) = s")
  case True
  then show ?thesis by (simp add: grows_refl)
next
  case False
  then obtain e where e: "find_entry s i = Some e" "je_status e = ''PENDING''"
    and es: "fs_entries (fst (release_pending_entry i reason s)) =
      map (\<lambda>x. if je_id x = i then x\<lparr>je_status := ''VOID'', je_void_reason := null_text reason, je_key := None\<rparr> else x)
        (fs_entries s @ [])"
    by (auto simp: release_pending_entry_def update_entry_def split: option.splits sum.splits if_splits)
  show ?thesis
    by (rule grows_map [OF es]) (use pending_unique [OF assms e(1)] e(2) in \<open>auto simp: kept_def status_next_def\<close>)
qed

lemma mark_reversed_entries:
  "mark_reversed i r s = Inr s2 \<Longrightarrow>
   fs_entries s2 = map (\<lambda>e. if je_id e = i \<and> je_status e = ''POSTED'' \<and> je_reversed_by e = None
      then e\<lparr>je_reversed_by := Some r, je_status := ''REVERSED''\<rparr> else e) (fs_entries s)"
  by (auto simp: mark_reversed_def split: if_splits)

lemma reverse_grows: "grows s (fst (reverse_transaction env tenant req s))"
proof (cases "snd (reverse_transaction env tenant req s)")
  case (Inl err)
  then show ?thesis using reverse_transaction_failure grows_refl by metis
next
  case (Inr r)
  then obtain orig day dt s1 bal s2 where ins: "insert_entry (reversal_entry (fs_next s) day dt req orig) s = Inr s1"
    and mark: "mark_reversed (rv_entry req) (fs_next s) (s1\<lparr>fs_balances := bal\<rparr>) = Inr s2"
    and res: "fst (reverse_transaction env tenant req s) =
       s2\<lparr>fs_outbox := fs_outbox s2 @ [Reversal_Event (fs_next s) (rv_entry req)]\<rparr>"
    by (rule reverse_transaction_success)
  show ?thesis
  proof (rule grows_map)
    show "fs_entries (fst (reverse_transaction env tenant req s)) =
      map (\<lambda>e. if je_id e = rv_entry req \<and> je_status e = ''POSTED'' \<and> je_reversed_by e = None
      then e\<lparr>je_reversed_by := Some (fs_next s), je_status := ''REVERSED''\<rparr> else e)
       (fs_entries s @ [reversal_entry (fs_next s) day dt req orig])"
      using mark_reversed_entries [OF mark] insert_entry_Inr(1) [OF ins] res by simp
  qed (auto simp: kept_def status_next_def)
qed

lemma grows_extend: "grows s t \<Longrightarrow> set (fs_entries t) \<subseteq> set (fs_entries u) \<Longrightarrow> grows s u"
  unfolding grows_def by blast

lemma create_pending_entries: "set (fs_entries s) \<subseteq> set (fs_entries (fst (create_pending env req s)))"
  by (auto simp: create_pending_def Let_def dest!: insert_entry_Inr(1) split: option.splits sum.splits)

lemma handle_existing_grows:
  "ledger_inv s \<Longrightarrow> grows s (fst (handle_existing_for_reserve env req e s))"
  using release_pending_grows [of s "je_id e" "''reserve rebuilt: proposal edited''"]
  by (auto simp: handle_existing_for_reserve_def Let_def intro: grows_refl split: sum.splits prod.splits)

lemma reserve_grows:
  assumes "ledger_inv s"
  shows "grows s (fst (reserve_posting env tenant req s))"
proof -
  have "grows s s'" if "handle_existing_for_reserve env req e s = (s', r)" for e s' r
    using handle_existing_grows [OF assms, of env req e] that by simp
  then show ?thesis
    by (auto simp: reserve_posting_def split: option.splits prod.splits
        intro: grows_refl create_pending_grows grows_extend [OF _ create_pending_entries])
qed

lemma post_grows: "ledger_inv s \<Longrightarrow> grows s (fst (post_transaction env tenant req s))"
  using create_posted_grows post_pending_grows grows_refl
  by (auto simp: post_transaction_def Let_def split: option.splits)

lemma release_grows: "ledger_inv s \<Longrightarrow> grows s (fst (release_posting tenant i reason s))"
  using release_pending_grows grows_refl by (auto simp: release_posting_def split: option.splits)

text \<open>C10. The journal is append-only: a call never deletes an entry or changes its lines, date or
  document type, moves its status only from PENDING to POSTED or VOID or from POSTED to REVERSED, and
  never gives it another idempotency key.\<close>

theorem journal_append_only:
  assumes "fin_reachable s" "fin_step s t" "e \<in> set (fs_entries s)"
  shows "\<exists>e'\<in>set (fs_entries t). kept e e'"
proof -
  have inv: "ledger_inv s" using assms(1) by (rule reachable_inv)
  from assms(2) have "grows s t"
    by (rule fin_stepE) (simp_all add: reserve_grows [OF inv] post_grows [OF inv] release_grows [OF inv] reverse_grows)
  with assms(3) show ?thesis by (auto simp: grows_def)
qed

section \<open>Holds\<close>

lemma find_append: "find P (xs @ ys) = (case find P xs of None \<Rightarrow> find P ys | Some x \<Rightarrow> Some x)"
  by (induction xs) auto

lemma create_pending_success:
  assumes "snd (create_pending env req s) = Inr r"
  obtains d s1 bal where "env_pg_date env (pr_date req) = Some d" "vr_valid (resolve env req)"
    "insert_entry (mk_entry (fs_next s) d ''PENDING'' (pr_key req) req (map to_journal_line (vr_lines (resolve env req)))) s = Inr s1"
    "reserve_lines env (map to_journal_line (vr_lines (resolve env req))) d (fs_balances s1) = Inr bal"
    "fst (create_pending env req s) = s1\<lparr>fs_balances := bal\<rparr>" "r = response (fs_next s) ''PENDING'' False"
  using assms by (auto simp: create_pending_def Let_def split: option.splits sum.splits if_splits)



lemma reserve_fresh:
  assumes "snd (reserve_posting env tenant req s) = Inr r" "find_entry_by_key s (pr_key req) (pr_doc_type req) = None"
  obtains d s1 bal where "env_pg_date env (pr_date req) = Some d" "vr_valid (resolve env req)"
    "insert_entry (mk_entry (fs_next s) d ''PENDING'' (pr_key req) req (map to_journal_line (vr_lines (resolve env req)))) s = Inr s1"
    "reserve_lines env (map to_journal_line (vr_lines (resolve env req))) d (fs_balances s) = Inr bal"
    "fst (reserve_posting env tenant req s) = s1\<lparr>fs_balances := bal\<rparr>" "r = response (fs_next s) ''PENDING'' False"
    "\<not> blank tenant"
proof -
  have t: "\<not> blank tenant" using assms(1) by (auto simp: reserve_posting_def require_tenant_def)
  have c: "snd (create_pending env req s) = Inr r" "reserve_posting env tenant req s = create_pending env req s"
    using assms by (auto simp: reserve_posting_def split: option.splits)
  show thesis
  proof (rule create_pending_success [OF c(1)])
    fix d s1 bal
    assume a: "env_pg_date env (pr_date req) = Some d" "vr_valid (resolve env req)"
      "insert_entry (mk_entry (fs_next s) d ''PENDING'' (pr_key req) req (map to_journal_line (vr_lines (resolve env req)))) s = Inr s1"
      "reserve_lines env (map to_journal_line (vr_lines (resolve env req))) d (fs_balances s1) = Inr bal"
      "fst (create_pending env req s) = s1\<lparr>fs_balances := bal\<rparr>" "r = response (fs_next s) ''PENDING'' False"
    from insert_entry_Inr(1) [OF a(3)] have "fs_balances s1 = fs_balances s" by simp
    with a(4) have "reserve_lines env (map to_journal_line (vr_lines (resolve env req))) d (fs_balances s) = Inr bal"
      by simp
    from that [OF a(1-3) this a(5) [folded c(2)] a(6) t] show thesis .
  qed
qed

lemma find_appended:
  "ledger_inv s \<Longrightarrow> je_id e = fs_next s \<Longrightarrow> fs_entries t = fs_entries s @ [e] \<Longrightarrow> find_entry t (fs_next s) = Some e"
proof -
  assume a: "ledger_inv s" "je_id e = fs_next s" "fs_entries t = fs_entries s @ [e]"
  have "\<forall>x\<in>set (fs_entries s). je_id x < fs_next s"
    using a(1) by (auto simp: ledger_inv_def entries_ok_def entry_ok_def)
  then have "find (\<lambda>x. je_id x = fs_next s) (fs_entries s) = None"
    by (auto simp: find_None_iff2)
  then show ?thesis using a by (simp add: find_entry_def find_append)
qed



text \<open>C8. No overdraft: in a reachable state with room (no counter of a row of the entry, plus all amounts of the
  entry, reaches 2^61, and no opening balance does), after a new reservation every account that a line of its entry draws on,
  other than one of nature B, has a non-negative available balance, its opening balance and all pending holds
  included.\<close>

theorem reserve_prevents_overdraft:
  assumes "fin_reachable s"
    and "snd (reserve_posting env tenant req s) = Inr r" "find_entry_by_key s (pr_key req) (pr_doc_type req) = None"
    and "find_entry (fst (reserve_posting env tenant req s)) (rs_entry r) = Some e" "headroom (fs_balances s) (je_lines e)"
    and "l \<in> set (je_lines e)" "coa_lookup env (jl_coa_version l) (jl_account l) = Some a" "ca_nature a \<noteq> ''B''"
    and "spec_delta (ca_nature a) (jl_direction l) (jl_amount l) < 0"
    and "small (natural_signed_opening (opening_on env (line_key l) (je_date e)) (ca_nature a))"
  shows "je_status e = ''PENDING'' \<and>
    0 \<le> spec_available (row_of (fs_balances (fst (reserve_posting env tenant req s))) (line_key l))
      (natural_signed_opening (opening_on env (line_key l) (je_date e)) (ca_nature a)) (ca_nature a)"
proof -
  let ?ls = "map to_journal_line (vr_lines (resolve env req))"
  have inv: "ledger_inv s" using assms(1) by (rule reachable_inv)
  obtain d s1 bal where valid: "vr_valid (resolve env req)"
    and ins: "insert_entry (mk_entry (fs_next s) d ''PENDING'' (pr_key req) req ?ls) s = Inr s1"
    and res: "reserve_lines env ?ls d (fs_balances s) = Inr bal"
    and st: "fst (reserve_posting env tenant req s) = s1\<lparr>fs_balances := bal\<rparr>"
    and r: "r = response (fs_next s) ''PENDING'' False"
    by (rule reserve_fresh [OF assms(2,3)])
  let ?e = "mk_entry (fs_next s) d ''PENDING'' (pr_key req) req ?ls"
  have "find_entry (s1\<lparr>fs_balances := bal\<rparr>) (fs_next s) = Some ?e"
    by (rule find_appended [OF inv]) (use insert_entry_Inr(1) [OF ins] in simp_all)
  then have e: "e = ?e" using assms(4) unfolding st r by (simp add: response_def)
  have "headroom (fs_balances s) ?ls" "bal64 (fs_balances s)"
    using assms(5) inv by (simp_all add: e headroom_def sum_list_sort ledger_inv_def)
  then show ?thesis
    using reserve_lines_available [OF res resolve_valid(1) [OF valid], of l a] assms(6-10) st by (simp add: e)
qed

section \<open>Replay and failure\<close>

lemma post_direct_success:
  assumes "snd (create_posted env key req s) = Inr r"
  obtains d s1 bal ev where "insert_entry (mk_entry (fs_next s) d ''POSTED'' key req (map to_journal_line (vr_lines (resolve env req)))) s = Inr s1"
    "fst (create_posted env key req s) = s1\<lparr>fs_balances := bal, fs_outbox := fs_outbox s1 @ [ev]\<rparr>"
    "r = response (fs_next s) ''POSTED'' False"
  using assms by (auto simp: create_posted_def Let_def split: option.splits sum.splits if_splits)

lemma max_closing_append:
  "je_doc_type e \<noteq> ''FIN_CLOSING'' \<Longrightarrow> fs_entries t = fs_entries s @ [e] \<Longrightarrow> max_closing_date t = max_closing_date s"
  by (simp add: max_closing_date_def)

lemma check_posting_date_same:
  "max_closing_date t = max_closing_date s \<Longrightarrow> check_posting_date env t dt date = check_posting_date env s dt date"
  by (simp add: check_posting_date_def check_posting_day_def Let_def split: option.splits)

text \<open>Posting is idempotent: repeating a direct post under its idempotency key (of any document type but
  the closing itself) answers with the same entry, marked as a replay, and changes nothing.\<close>

theorem post_idempotent:
  assumes "snd (post_transaction env tenant req s) = Inr r" "\<not> blank (pr_key req)"
    and "find_entry_by_key s (pr_key req) (pr_doc_type req) = None" "pr_doc_type req \<noteq> ''FIN_CLOSING''"
  shows "post_transaction env tenant req (fst (post_transaction env tenant req s)) =
    (fst (post_transaction env tenant req s), Inr (response (rs_entry r) ''POSTED'' True))"
proof -
  let ?ls = "map to_journal_line (vr_lines (resolve env req))"
  have key: "pr_key req \<noteq> []" using assms(2) by auto
  have t: "require_tenant tenant = None" and c: "check_posting_date env s (pr_doc_type req) (pr_date req) = None"
    using assms(1) by (auto simp: post_transaction_def split: option.splits)
  have one: "post_transaction env tenant req s = create_posted env (pr_key req) req s"
    using assms(2,3) t c by (simp add: post_transaction_def)
  obtain d s1 bal ev where ins: "insert_entry (mk_entry (fs_next s) d ''POSTED'' (pr_key req) req ?ls) s = Inr s1"
    and st: "fst (create_posted env (pr_key req) req s) = s1\<lparr>fs_balances := bal, fs_outbox := fs_outbox s1 @ [ev]\<rparr>"
    and r: "r = response (fs_next s) ''POSTED'' False"
    using assms(1) unfolding one by (rule post_direct_success)
  let ?t = "s1\<lparr>fs_balances := bal, fs_outbox := fs_outbox s1 @ [ev]\<rparr>"
  let ?e = "mk_entry (fs_next s) d ''POSTED'' (pr_key req) req ?ls"
  have es: "fs_entries ?t = fs_entries s @ [?e]" using insert_entry_Inr(1) [OF ins] by simp
  have none: "find (\<lambda>e. je_key e = Some (pr_key req) \<and> je_doc_type e = pr_doc_type req) (fs_entries s) = None"
    using assms(3) key by (simp add: find_entry_by_key_def)
  have dt: "je_doc_type ?e = pr_doc_type req" by (simp add: mk_entry_def)
  have bykey: "find_entry_by_key ?t (pr_key req) (pr_doc_type req) = Some ?e"
    using none key es dt by (simp add: find_entry_by_key_def find_append null_text_def)
  have "max_closing_date ?t = max_closing_date s"
    by (rule max_closing_append [OF _ es]) (use dt assms(4) in simp)
  then have "check_posting_date env ?t (pr_doc_type req) (pr_date req) = None"
    using c check_posting_date_same by metis
  then show ?thesis
    using bykey t r unfolding one st by (simp add: post_transaction_def response_def)
qed

lemma create_posted_fail:
  "snd (create_posted env key req s) = Inl err \<Longrightarrow> fst (create_posted env key req s) = s"
  by (auto simp: create_posted_def Let_def split: option.splits sum.splits if_splits)

lemma post_pending_fail:
  "snd (post_pending_entry env i s) = Inl err \<Longrightarrow> fst (post_pending_entry env i s) = s"
  by (auto simp: post_pending_entry_def split: option.splits sum.splits if_splits)

lemma release_pending_fail:
  "snd (release_pending_entry i reason s) = Inl err \<Longrightarrow> fst (release_pending_entry i reason s) = s"
  by (auto simp: release_pending_entry_def split: option.splits sum.splits if_splits)

lemma create_pending_fail:
  "snd (create_pending env req s) = Inl err \<Longrightarrow> fst (create_pending env req s) = s"
  by (auto simp: create_pending_def Let_def split: option.splits sum.splits if_splits)

lemma post_fail:
  "snd (post_transaction env tenant req s) = Inl err \<Longrightarrow> fst (post_transaction env tenant req s) = s"
  using create_posted_fail post_pending_fail
  by (auto simp: post_transaction_def Let_def split: option.splits if_splits)

lemma release_fail:
  "snd (release_posting tenant i reason s) = Inl err \<Longrightarrow> fst (release_posting tenant i reason s) = s"
  using release_pending_fail by (auto simp: release_posting_def split: option.splits)

text \<open>The hold that a failing reservation may have given up.\<close>

definition rebuilt_release :: "posting_request \<Rightarrow> fin_state \<Rightarrow> fin_state" where
  "rebuilt_release req s =
     (case find_entry_by_key s (pr_key req) (pr_doc_type req) of
        None \<Rightarrow> s
      | Some p \<Rightarrow> if je_status p = ''PENDING''
                  then fst (release_pending_entry (je_id p) ''reserve rebuilt: proposal edited'' s) else s)"

lemma reserve_fail:
  assumes fail: "snd (reserve_posting env tenant req s) = Inl err"
  shows "fst (reserve_posting env tenant req s) \<in> {s, rebuilt_release req s}"
proof (cases "find_entry_by_key s (pr_key req) (pr_doc_type req)")
  case None
  with fail show ?thesis using create_pending_fail by (auto simp: reserve_posting_def split: option.splits)
next
  case (Some p)
  have h: "fst (handle_existing_for_reserve env req p s) \<in> {s, rebuilt_release req s}"
    using Some by (auto simp: rebuilt_release_def handle_existing_for_reserve_def Let_def split: sum.splits prod.splits)
  have "fst (reserve_posting env tenant req s) = s \<or>
      fst (reserve_posting env tenant req s) = fst (handle_existing_for_reserve env req p s)"
    using fail Some create_pending_fail
    by (auto simp: reserve_posting_def split: option.splits prod.splits)
  with h show ?thesis by auto
qed

definition outcome_ok :: "(fin_state \<Rightarrow> bool) \<Rightarrow> fin_state \<times> (string + posting_response) \<Rightarrow> bool" where
  "outcome_ok P r = (case snd r of Inl _ \<Rightarrow> P (fst r) | Inr _ \<Rightarrow> True)"

text \<open>C11. A call that fails changes nothing: after an error of a post, a release or a reversal the state is
  as before; a failing reservation can only have released the hold of the same key that it was replacing.\<close>

theorem failed_calls_change_nothing:
  "outcome_ok (\<lambda>t. t = s) (post_transaction env tenant req s) \<and>
   outcome_ok (\<lambda>t. t = s) (release_posting tenant i reason s) \<and>
   outcome_ok (\<lambda>t. t = s) (reverse_transaction env tenant rreq s) \<and>
   outcome_ok (\<lambda>t. t \<in> {s, rebuilt_release req s}) (reserve_posting env tenant req s)"
  using post_fail release_fail reverse_transaction_failure reserve_fail
  by (auto simp: outcome_ok_def split: sum.splits)

section \<open>Reversal\<close>

text \<open>The net movement (debits less credits) of an account, and of an entry on it.\<close>

definition net_posted :: "fin_state \<Rightarrow> balance_key \<Rightarrow> int" where
  "net_posted s k = posted_side True (row_of (fs_balances s) k) - posted_side False (row_of (fs_balances s) k)"

definition net_of_lines :: "balance_key \<Rightarrow> journal_line list \<Rightarrow> int" where
  "net_of_lines k ls = sum_lines k True ls - sum_lines k False ls"

lemma net_i64: "i64 (i64 (a + x) - i64 (b + y)) = i64 ((a - b) - (y - x))"
  by (simp add: i64_absorb) (simp add: algebra_simps)

text \<open>C9. A reversal takes the entry's net effect off every account: the new net position is the old one
  less the entry's debits plus its credits on that account and currency, modulo 2^64; the entry was POSTED, of the finance domain and a cancellable
  document type, ends REVERSED and names the mirror entry.\<close>

theorem reversal_nets_out:
  assumes "fin_reachable s" "snd (reverse_transaction env tenant req s) = Inr r"
  shows "\<exists>orig. find_entry s (rv_entry req) = Some orig \<and> je_status orig = ''POSTED'' \<and>
      je_domain orig = ''fin'' \<and> has_prefix (je_doc_type orig) ''FIN_'' \<and>
      find_entry (fst (reverse_transaction env tenant req s)) (rv_entry req) =
        Some (orig\<lparr>je_reversed_by := Some (rs_entry r), je_status := ''REVERSED''\<rparr>) \<and>
      (\<forall>k. i64 (net_posted (fst (reverse_transaction env tenant req s)) k) =
           i64 (net_posted s k - net_of_lines k (je_lines orig)))"
proof -
  have inv: "ledger_inv s" using assms(1) by (rule reachable_inv)
  have inv': "ledger_inv (fst (reverse_transaction env tenant req s))" by (rule reverse_inv [OF inv])
  obtain orig day dt s1 bal s2 where
    o: "find_entry s (rv_entry req) = Some orig" "je_status orig = ''POSTED''" "je_reversed_by orig = None"
    and guard: "ensure_reversal_allowed env (je_domain orig) (je_doc_type orig) = None"
    and ins: "insert_entry (reversal_entry (fs_next s) day dt req orig) s = Inr s1"
    and rev: "reverse_lines env (je_lines orig) day (fs_balances s1) = Inr bal"
    and mark: "mark_reversed (rv_entry req) (fs_next s) (s1\<lparr>fs_balances := bal\<rparr>) = Inr s2"
    and res: "fst (reverse_transaction env tenant req s) =
       s2\<lparr>fs_outbox := fs_outbox s2 @ [Reversal_Event (fs_next s) (rv_entry req)]\<rparr>"
    and r: "r = response (fs_next s) ''POSTED'' False"
    by (rule reverse_transaction_success [OF assms(2)])
  have mem: "orig \<in> set (fs_entries s)" "je_id orig = rv_entry req" using find_entry_in [OF o(1)] by auto
  have lo: "lines_ok (je_lines orig)"
    using inv mem by (auto simp: ledger_inv_def entries_ok_def entry_ok_def)
  have b64: "bal64 (fs_balances s)" using inv by (simp add: ledger_inv_def)
  have mv: "moved apply_direct_post (map flip_line (je_lines orig)) (fs_balances s) bal"
    using reverse_lines_moved [OF rev] insert_entry_Inr(1) [OF ins] by simp
  have "fs_balances s2 = bal" using mark by (auto simp: mark_reversed_def split: if_splits)
  then have net: "i64 (net_posted (fst (reverse_transaction env tenant req s)) k) =
      i64 (net_posted s k - net_of_lines k (je_lines orig))" for k
    using moved_direct(1) [OF mv b64]
    by (simp add: res net_posted_def net_of_lines_def sum_lines_flip [OF lo] net_i64)
  have "orig\<lparr>je_reversed_by := Some (fs_next s), je_status := ''REVERSED''\<rparr> \<in> set (fs_entries s2)"
    using mark_reversed_entries [OF mark] insert_entry_Inr(1) [OF ins] mem o by (force simp: image_iff)
  then have "find_entry (fst (reverse_transaction env tenant req s)) (rv_entry req) =
        Some (orig\<lparr>je_reversed_by := Some (fs_next s), je_status := ''REVERSED''\<rparr>)"
    using inv' mem unfolding res by (intro find_entry_eq) (auto simp: ledger_inv_def entries_ok_def)
  then show ?thesis
    using o net ensure_reversal_allowed_fin [OF guard] r by (simp add: response_def)
qed

section \<open>Examples\<close>

definition demo_env :: fin_env where
  "demo_env = \<lparr>env_today = civil_day \<lparr>c_year = 2026, c_month = 6, c_day = 15\<rparr>,
     env_pg_date = (\<lambda>s. map_option civil_day (parse_iso s)), env_random_key = ''r1'',
     env_periods = [\<lparr>ap_start = civil_day \<lparr>c_year = 2026, c_month = 1, c_day = 1\<rparr>,
                     ap_end = civil_day \<lparr>c_year = 2026, c_month = 12, c_day = 31\<rparr>, ap_status = ''OPEN''\<rparr>],
     env_policies = (\<lambda>_. None), env_dimension_keys = [], env_class_maps = [],
     env_coa_accounts =
       [\<lparr>ca_version = ''V1'', ca_code = ''1111'', ca_name = ''Cash'', ca_nature = ''D'', ca_postable = True,
         ca_effective = 0, ca_expiry = None\<rparr>,
        \<lparr>ca_version = ''V1'', ca_code = ''4211'', ca_name = ''Deposits'', ca_nature = ''C'', ca_postable = True,
         ca_effective = 0, ca_expiry = None\<rparr>],
     env_coa_versions = [], env_openings = []\<rparr>"

definition demo_line :: "int \<Rightarrow> string \<Rightarrow> string \<Rightarrow> int \<Rightarrow> string \<Rightarrow> posting_line" where
  "demo_line i dir acc amount cur =
     \<lparr>pl_line_no = i, pl_direction = dir, pl_amount = amount, pl_currency = cur, pl_account = acc,
      pl_coa_version = ''V1'', pl_description = [],
      pl_analytics = \<lparr>an_classification = [], an_debt_group = [], an_customer = [], an_dimensions = []\<rparr>\<rparr>"

definition demo_request :: "string \<Rightarrow> posting_line list \<Rightarrow> posting_request" where
  "demo_request key ls =
     \<lparr>pr_key = key, pr_date = ''2026-06-10'', pr_currency = ''VND'', pr_description = [], pr_domain = ''fin'',
      pr_doc_type = ''FIN_DOUBLE_ENTRY'', pr_doc_id = [], pr_doc_code = ''D1'', pr_case_id = [], pr_actor = [],
      pr_lines = ls\<rparr>"

definition deposit_request :: posting_request where
  "deposit_request = demo_request ''k1'' [demo_line 1 ''DEBIT'' ''1111'' 500 [], demo_line 2 ''CREDIT'' ''4211'' 500 []]"

definition withdraw_request :: posting_request where
  "withdraw_request = demo_request ''k2'' [demo_line 1 ''DEBIT'' ''4211'' 200 [], demo_line 2 ''CREDIT'' ''1111'' 200 []]"

definition demo_state :: fin_state where
  "demo_state = fst (post_transaction demo_env ''t'' deposit_request empty_fin_state)"

definition demo_reverse :: reverse_request where
  "demo_reverse = \<lparr>rv_entry = 1, rv_date = [], rv_doc_type = [], rv_reason = ''error'', rv_key = ''k9'', rv_actor = ''u''\<rparr>"

definition cash_key :: balance_key where
  "cash_key = \<lparr>bk_bal_type = ''ACTUAL'', bk_coa_version = ''V1'', bk_account = ''1111'', bk_currency = ''VND''\<rparr>"

lemma demo_reachable: "fin_reachable demo_state"
  unfolding demo_state_def by (rule reach_step [OF reach_empty step_post])

theorem balances_are_journal_totals_witness:
  "0 \<le> posted_side True (row_of (fs_balances demo_state) cash_key) \<and>
   posted_side True (row_of (fs_balances demo_state) cash_key) = 500 \<and>
   i64 (total {''POSTED'', ''REVERSED''} cash_key True (fs_entries demo_state)) = 500"
proof -
  have "posted_side True (row_of (fs_balances demo_state) cash_key) = 500" by code_simp
  moreover have "reversals_plain (fs_entries demo_state)" by code_simp
  ultimately show ?thesis
    using balances_are_journal_totals [OF demo_reachable, of True cash_key] by simp
qed

theorem trial_balance_witness:
  "i64 (trial_total demo_state ''VND'' True) = i64 (trial_total demo_state ''VND'' False) \<and>
   trial_total demo_state ''VND'' True = 500"
  using trial_balance [OF demo_reachable, of "''VND''"] by (intro conjI) (assumption | code_simp)+

theorem one_entry_per_key_witness:
  "hd (fs_entries demo_state) = last (fs_entries demo_state) \<and> je_id (hd (fs_entries demo_state)) < fs_next demo_state"
  by (rule one_entry_per_key [OF demo_reachable, of _ _ "''k1''"]) code_simp+

definition demo_reversed :: fin_state where
  "demo_reversed = fst (reverse_transaction demo_env ''t'' demo_reverse demo_state)"

theorem journal_append_only_witness:
  "\<exists>e'\<in>set (fs_entries demo_reversed). kept (hd (fs_entries demo_state)) e'"
  unfolding demo_reversed_def
  by (rule journal_append_only [OF demo_reachable step_reverse]) code_simp

text \<open>500 of cash, 200 of them held: 300 stay available.\<close>

definition held_state :: fin_state where
  "held_state = fst (reserve_posting demo_env ''t'' withdraw_request demo_state)"

definition cash_out :: journal_line where
  "cash_out = to_journal_line (last (vr_lines (resolve demo_env withdraw_request)))"

theorem reserve_prevents_overdraft_witness:
  "je_status (last (fs_entries held_state)) = ''PENDING'' \<and>
   0 \<le> spec_available (row_of (fs_balances held_state) (line_key cash_out))
     (natural_signed_opening (opening_on demo_env (line_key cash_out) (je_date (last (fs_entries held_state)))) ''D'') ''D''"
proof -
  let ?a = "\<lparr>ca_version = ''V1'', ca_code = ''1111'', ca_name = ''Cash'', ca_nature = ''D'', ca_postable = True,
         ca_effective = 0, ca_expiry = None\<rparr>"
  have h: "snd (reserve_posting demo_env ''t'' withdraw_request demo_state) = Inr (response 2 ''PENDING'' False)"
    "find_entry_by_key demo_state (pr_key withdraw_request) (pr_doc_type withdraw_request) = None"
    by code_simp+
  have e: "find_entry held_state 2 = Some (last (fs_entries held_state))"
    "headroom (fs_balances demo_state) (je_lines (last (fs_entries held_state)))"
    "cash_out \<in> set (je_lines (last (fs_entries held_state)))"
    "coa_lookup demo_env (jl_coa_version cash_out) (jl_account cash_out) = Some ?a"
    "spec_delta (ca_nature ?a) (jl_direction cash_out) (jl_amount cash_out) < 0"
    "small (natural_signed_opening (opening_on demo_env (line_key cash_out) (je_date (last (fs_entries held_state)))) (ca_nature ?a))"
    by code_simp+
  show ?thesis
    using reserve_prevents_overdraft [OF demo_reachable h, of "last (fs_entries held_state)" cash_out ?a] e
    by (simp add: held_state_def response_def)
qed



theorem post_idempotent_witness:
  "post_transaction demo_env ''t'' deposit_request demo_state = (demo_state, Inr (response 1 ''POSTED'' True))"
proof -
  have p: "snd (post_transaction demo_env ''t'' deposit_request empty_fin_state) = Inr (response 1 ''POSTED'' False)"
    by code_simp
  have b: "\<not> blank (pr_key deposit_request)" by code_simp
  have f: "find_entry_by_key empty_fin_state (pr_key deposit_request) (pr_doc_type deposit_request) = None"
    by code_simp
  have t: "pr_doc_type deposit_request \<noteq> ''FIN_CLOSING''" by code_simp
  show ?thesis
    using post_idempotent [OF p b f t] by (simp add: demo_state_def response_def)
qed

theorem reversal_nets_out_witness:
  "\<exists>orig. find_entry demo_state 1 = Some orig \<and>
     (\<forall>k. i64 (net_posted demo_reversed k) = i64 (net_posted demo_state k - net_of_lines k (je_lines orig)))"
proof -
  have r: "snd (reverse_transaction demo_env ''t'' demo_reverse demo_state) = Inr (response 2 ''POSTED'' False)"
    by code_simp
  have e: "rv_entry demo_reverse = 1" by (simp add: demo_reverse_def)
  show ?thesis
    using reversal_nets_out [OF demo_reachable r] unfolding demo_reversed_def e by blast
qed

section \<open>Where the code falls short\<close>

definition wrapped_request :: posting_request where
  "wrapped_request = demo_request ''k3''
     [demo_line i ''DEBIT'' ''1111'' 4611686018427387904 ''VND''. i \<leftarrow> [1, 2, 3, 4]]"

text \<open>The balance check of a posting compares sums that wrap at 64 bits: four DEBIT lines of 2^62 and no
  CREDIT line pass validation and are posted, although the entry's debits exceed its credits by 2^64.\<close>

theorem wrapped_sums_pass_as_balanced:
  "vr_valid (resolve demo_env wrapped_request) \<and>
   snd (post_transaction demo_env ''t'' wrapped_request empty_fin_state) = Inr (response 1 ''POSTED'' False) \<and>
   currency_sum ''VND'' True (map to_journal_line (vr_lines (resolve demo_env wrapped_request))) = 18446744073709551616 \<and>
   currency_sum ''VND'' False (map to_journal_line (vr_lines (resolve demo_env wrapped_request))) = 0"
  by code_simp

definition mixed_request :: posting_request where
  "mixed_request = demo_request ''k4''
     [demo_line 1 ''DEBIT'' ''1111'' 100 ''USD'', demo_line 2 ''CREDIT'' ''4211'' 100 ''USD'']"

definition mixed_state :: fin_state where
  "mixed_state = fst (reverse_transaction demo_env ''t'' demo_reverse
     (fst (post_transaction demo_env ''t'' mixed_request empty_fin_state)))"

definition usd_cash_key :: balance_key where
  "usd_cash_key = cash_key\<lparr>bk_currency := ''USD''\<rparr>"

text \<open>Reversing an entry whose lines have another currency than its header writes the mirror lines in
  the header's currency but moves the balances of the lines' own currency: afterwards the USD cash row
  has a credit of 100 that no journal line carries.\<close>

theorem mixed_currency_reversal:
  "posted_side False (row_of (fs_balances mixed_state) usd_cash_key) = 100 \<and>
   total {''POSTED'', ''REVERSED''} usd_cash_key False (fs_entries mixed_state) = 0 \<and>
   total {''POSTED'', ''REVERSED''} cash_key False (fs_entries mixed_state) = 100 \<and>
   posted_side False (row_of (fs_balances mixed_state) cash_key) = 0"
  by code_simp

section \<open>Posting dates\<close>

text \<open>The posting-date policy: a date that parses as yyyy-mm-dd is accepted exactly when it is not after
  today and, when before it, the document type has no policy row or its row allows backdating, that many
  days, and (with the lock) not before the last closing; a refusal is one of the four sentinels.\<close>

theorem posting_date_policy:
  assumes "parse_iso (trim_date date) = Some c"
  shows "(check_posting_date env s doc_type date = None \<longleftrightarrow> date_window_ok env s doc_type (civil_day c)) \<and>
    check_posting_date env s doc_type date \<in> {None} \<union> Some ` set posting_policy_sentinels"
proof (cases "check_posting_date env s doc_type date")
  case None
  then show ?thesis using check_posting_date_iff [OF assms] by simp
next
  case (Some e)
  then have "e \<in> set posting_policy_sentinels" by (rule check_posting_date_sentinel)
  with Some show ?thesis using check_posting_date_iff [OF assms, of env s doc_type] by simp
qed

theorem posting_date_policy_witness:
  "check_posting_date demo_env demo_state ''FIN_SINGLE_ENTRY'' ''2026-06-16'' \<noteq> None"
proof -
  have p: "parse_iso (trim_date ''2026-06-16'') = Some \<lparr>c_year = 2026, c_month = 6, c_day = 16\<rparr>" by code_simp
  have "\<not> date_window_ok demo_env demo_state ''FIN_SINGLE_ENTRY'' (civil_day \<lparr>c_year = 2026, c_month = 6, c_day = 16\<rparr>)"
    by code_simp
  with posting_date_policy [OF p] show ?thesis by simp
qed

section \<open>Debt groups\<close>

text \<open>A debt-group transfer run moves money and makes none: it uses only allowed transitions, the total
  over the groups is what it was and no group goes negative.\<close>

theorem debt_matrix_conserves:
  assumes "matrix_apply allowed balances transfers = Inr m'"
    and "distinct gs" "\<forall>(f, t)\<in>set allowed. f \<in> set gs \<and> t \<in> set gs"
    and "\<forall>tr\<in>set transfers. in64 (dt_amount tr)" "\<forall>(g, b)\<in>set balances. in64 b"
  shows "group_total gs m' = group_total gs (map_of balances) \<and> (\<forall>g. 0 \<le> bal_get m' g)"
proof -
  have f: "fold_r (apply_transfer allowed) transfers (map_of balances) = Inr m'"
    and nn: "\<forall>(g, b)\<in>set balances. 0 \<le> b"
    using assms(1) by (auto simp: matrix_apply_def list_ex_iff split: if_splits)
  have "balances_ok (map_of balances)"
    using nn assms(5)
    by (auto simp: balances_ok_def bal_get_def in64_def split: option.splits dest!: map_of_SomeD)
  from fold_transfers [OF f this assms(4,2,3)] show ?thesis by (auto simp: balances_ok_def)
qed

theorem debt_matrix_conserves_witness:
  "\<exists>m'. matrix_apply [(''1'', ''2'')] [(''1'', 70), (''2'', 5)]
      [\<lparr>dt_from = ''1'', dt_to = ''2'', dt_amount = 30\<rparr>] = Inr m' \<and> group_total [''1'', ''2''] m' = 75"
proof -
  have "\<exists>m'. matrix_apply [(''1'', ''2'')] [(''1'', 70), (''2'', 5)]
      [\<lparr>dt_from = ''1'', dt_to = ''2'', dt_amount = 30\<rparr>] = Inr m'"
    by (simp add: matrix_apply_def apply_transfer_def bal_get_def sub64_def i64_def)
  then obtain m' where m: "matrix_apply [(''1'', ''2'')] [(''1'', 70), (''2'', 5)]
      [\<lparr>dt_from = ''1'', dt_to = ''2'', dt_amount = 30\<rparr>] = Inr m'" by blast
  have "group_total [''1'', ''2''] m' = group_total [''1'', ''2''] (map_of [(''1'', 70), (''2'', 5)])"
    using debt_matrix_conserves [OF m, of "[''1'', ''2'']"] by (simp add: in64_def)
  with m show ?thesis by (simp add: group_total_def bal_get_def)
qed

end
