(* ===== verification/Decimal.thy ===== *)
theory Decimal
  imports Prelude Complex_Main
begin

text \<open>
  Decimal amounts. The sources use github.com/shopspring/decimal, a third-party module: a decimal
  is modelled by the rational it denotes; addition, subtraction, multiplication and comparison
  are exact there, and its two rounding operations are parameters with the laws of the locale
  \<open>decimal_lib\<close> (the package's documentation: a result with \<open>p\<close> digits after the point, half a
  unit away at most, ties away from zero). \<open>Div\<close> is \<open>DivRound\<close> with 16 digits. Rounding on
  \<open>math/big\<close> rationals is Go's own library and is modelled directly.
\<close>

section \<open>The decimal library\<close>

definition on_grid :: "nat \<Rightarrow> rat \<Rightarrow> bool" where
  "on_grid p x \<longleftrightarrow> x * 10 ^ p \<in> \<int>"

locale decimal_lib =
  fixes div_round :: "rat \<Rightarrow> rat \<Rightarrow> nat \<Rightarrow> rat"
    and round_to :: "rat \<Rightarrow> nat \<Rightarrow> rat"
  assumes div_grid: "y \<noteq> 0 \<Longrightarrow> on_grid p (div_round x y p)"
    and div_near: "y \<noteq> 0 \<Longrightarrow> \<bar>div_round x y p - x / y\<bar> * (2 * 10 ^ p) \<le> 1"
    and round_grid: "on_grid p (round_to x p)"
    and round_near: "\<bar>round_to x p - x\<bar> * (2 * 10 ^ p) \<le> 1"
    and round_tie: "\<bar>round_to x p - x\<bar> * (2 * 10 ^ p) = 1 \<Longrightarrow> \<bar>x\<bar> \<le> \<bar>round_to x p\<bar>"

definition dec_div :: "(rat \<Rightarrow> rat \<Rightarrow> nat \<Rightarrow> rat) \<Rightarrow> rat \<Rightarrow> rat \<Rightarrow> rat" where
  "dec_div div_round x y = div_round x y 16"

lemma grid_close_eq:
  assumes "on_grid p x" "on_grid p y" "\<bar>x - y\<bar> * 10 ^ p < 1"
  shows "x = y"
proof -
  obtain a b where ab: "x * 10 ^ p = of_int a" "y * 10 ^ p = of_int b"
    using assms(1,2) by (auto simp: on_grid_def Ints_def)
  have "\<bar>x - y\<bar> * (10 ^ p :: rat) = \<bar>(x - y) * 10 ^ p\<bar>" by (simp add: abs_mult)
  also have "(x - y) * 10 ^ p = of_int (a - b)" using ab by (simp add: left_diff_distrib)
  finally have "of_int \<bar>a - b\<bar> = \<bar>x - y\<bar> * (10 ^ p :: rat)" by simp
  with assms(3) have "\<bar>a - b\<bar> < 1" by linarith
  then have "x * 10 ^ p = y * 10 ^ p" using ab by simp
  then show ?thesis by simp
qed

lemma grid_near_nonneg:
  assumes "on_grid p z" "\<bar>z - x\<bar> * (2 * 10 ^ p) \<le> 1" "0 \<le> x"
  shows "0 \<le> z"
proof (rule ccontr)
  assume neg: "\<not> 0 \<le> z"
  obtain a where a: "z * 10 ^ p = of_int a"
    using assms(1) by (auto simp: on_grid_def Ints_def)
  have "of_int a < (0 :: rat)" using neg a by (metis mult_neg_pos not_le zero_less_numeral zero_less_power)
  then have "a \<le> -1" by simp
  then have "z * 10 ^ p \<le> -1" using a by (metis of_int_le_iff of_int_minus of_int_1)
  moreover have "0 \<le> x * 10 ^ p" using assms(3) by simp
  ultimately have "1 \<le> (x - z) * 10 ^ p" by (simp add: left_diff_distrib)
  moreover have "(x - z) * 10 ^ p \<le> \<bar>z - x\<bar> * 10 ^ p"
    by (intro mult_right_mono) auto
  ultimately show False using assms(2) by simp
qed

lemma on_grid_add: "on_grid p x \<Longrightarrow> on_grid p y \<Longrightarrow> on_grid p (x + y)"
  by (auto simp: on_grid_def distrib_right intro: Ints_add)

lemma on_grid_diff: "on_grid p x \<Longrightarrow> on_grid p y \<Longrightarrow> on_grid p (x - y)"
  by (auto simp: on_grid_def left_diff_distrib intro: Ints_diff)

lemma on_grid_of_int [simp]: "on_grid p (of_int k)"
  by (auto simp: on_grid_def intro: Ints_mult)

lemma on_grid_0 [simp]: "on_grid p 0"
  by (simp add: on_grid_def)

lemma on_grid_unit: "on_grid p (1 / 10 ^ p)"
  by (simp add: on_grid_def)

lemma on_grid_mult_int: "on_grid p x \<Longrightarrow> on_grid p (of_int k * x)"
  by (auto simp: on_grid_def mult.assoc intro: Ints_mult)

context decimal_lib
begin

lemma round_on_grid:
  assumes "on_grid p x"
  shows "round_to x p = x"
proof (rule grid_close_eq [OF round_grid assms])
  show "\<bar>round_to x p - x\<bar> * 10 ^ p < 1" using round_near [of x p] by simp
qed

lemma div_round_exact:
  assumes "y \<noteq> 0" "on_grid p (x / y)"
  shows "div_round x y p = x / y"
proof (rule grid_close_eq [OF div_grid [OF assms(1)] assms(2)])
  show "\<bar>div_round x y p - x / y\<bar> * 10 ^ p < 1" using div_near [OF assms(1), of x p] by simp
qed

lemma round_nonneg: "0 \<le> x \<Longrightarrow> 0 \<le> round_to x p"
  by (rule grid_near_nonneg [OF round_grid round_near])

lemma div_nonneg: "0 \<le> x / y \<Longrightarrow> y \<noteq> 0 \<Longrightarrow> 0 \<le> div_round x y p"
  by (rule grid_near_nonneg [OF div_grid div_near])

lemma div_error: "y \<noteq> 0 \<Longrightarrow> \<bar>div_round x y p - x / y\<bar> \<le> 1 / (2 * 10 ^ p)"
  using div_near [of y x p] by (simp add: field_simps)

lemma round_error: "\<bar>round_to x p - x\<bar> \<le> 1 / (2 * 10 ^ p)"
  using round_near [of x p] by (simp add: field_simps)

end

section \<open>Rounding of rationals\<close>

definition half_away :: "rat \<Rightarrow> int" where
  "half_away x = (if 0 \<le> x then \<lfloor>x + 1/2\<rfloor> else - \<lfloor>- x + 1/2\<rfloor>)"

lemma half_away_bounds:
  "0 \<le> x \<Longrightarrow> of_int (half_away x) \<le> x + 1/2 \<and> x < of_int (half_away x) + 1/2"
  "x < 0 \<Longrightarrow> of_int (half_away x) < x + 1/2 \<and> x \<le> of_int (half_away x) + 1/2"
proof -
  show "0 \<le> x \<Longrightarrow> of_int (half_away x) \<le> x + 1/2 \<and> x < of_int (half_away x) + 1/2"
    using floor_correct [of "x + 1/2"] by (simp add: half_away_def algebra_simps)
  assume "x < 0"
  then have h: "of_int (half_away x) = - of_int \<lfloor>- x + 1/2\<rfloor>" by (simp add: half_away_def)
  have "of_int \<lfloor>- x + 1/2\<rfloor> \<le> - x + 1/2 \<and> - x + 1/2 < of_int \<lfloor>- x + 1/2\<rfloor> + 1"
    using floor_correct [of "- x + 1/2"] by simp
  then show "of_int (half_away x) < x + 1/2 \<and> x \<le> of_int (half_away x) + 1/2"
    unfolding h by (simp add: algebra_simps)
qed

lemma half_away_near: "2 * \<bar>of_int (half_away x) - x\<bar> \<le> 1"
proof -
  have "of_int (half_away x) - x \<le> 1/2 \<and> x - of_int (half_away x) \<le> 1/2"
    using half_away_bounds [of x] by (cases "0 \<le> x") (simp_all add: algebra_simps)
  then have "\<bar>of_int (half_away x) - x\<bar> \<le> 1/2" by (intro abs_leI) (simp_all add: algebra_simps)
  then show ?thesis by simp
qed

lemma half_away_tie:
  assumes "2 * \<bar>of_int (half_away x) - x\<bar> = 1"
  shows "\<bar>x\<bar> \<le> \<bar>of_int (half_away x)\<bar>"
proof (cases "0 \<le> x")
  case True
  then have "of_int (half_away x) = x + 1/2" using half_away_bounds(1) [of x] assms by (simp add: abs_if split: if_splits)
  with True show ?thesis by simp
next
  case False
  then have "of_int (half_away x) = x - 1/2" using half_away_bounds(2) [of x] assms by (simp add: abs_if split: if_splits)
  with False show ?thesis by simp
qed

lemma half_away_of_int [simp]: "half_away (of_int k) = k"
  by (auto simp: half_away_def) linarith+

text \<open>The library's two operations, computed: the instance at which the model runs.\<close>

definition round_half_away :: "rat \<Rightarrow> nat \<Rightarrow> rat" where
  "round_half_away x p = of_int (half_away (x * 10 ^ p)) / 10 ^ p"

definition div_half_away :: "rat \<Rightarrow> rat \<Rightarrow> nat \<Rightarrow> rat" where
  "div_half_away x y p = round_half_away (x / y) p"

lemma round_half_away_grid: "on_grid p (round_half_away x p)"
  by (simp add: on_grid_def round_half_away_def)

lemma round_half_away_scaled:
  "\<bar>round_half_away x p - x\<bar> * (2 * 10 ^ p) = 2 * \<bar>of_int (half_away (x * 10 ^ p)) - x * 10 ^ p\<bar>"
proof -
  have "\<bar>round_half_away x p - x\<bar> * 10 ^ p = \<bar>(round_half_away x p - x) * 10 ^ p\<bar>"
    by (simp add: abs_mult)
  also have "(round_half_away x p - x) * 10 ^ p = of_int (half_away (x * 10 ^ p)) - x * 10 ^ p"
    by (simp add: round_half_away_def left_diff_distrib)
  finally show ?thesis by simp
qed

lemma round_half_away_near: "\<bar>round_half_away x p - x\<bar> * (2 * 10 ^ p) \<le> 1"
  using half_away_near [of "x * 10 ^ p"] by (simp only: round_half_away_scaled)

lemma round_half_away_tie:
  assumes "\<bar>round_half_away x p - x\<bar> * (2 * 10 ^ p) = 1"
  shows "\<bar>x\<bar> \<le> \<bar>round_half_away x p\<bar>"
proof -
  have "2 * \<bar>of_int (half_away (x * 10 ^ p)) - x * 10 ^ p\<bar> = 1"
    using assms by (simp only: round_half_away_scaled)
  from half_away_tie [OF this] have "\<bar>x * 10 ^ p\<bar> / 10 ^ p \<le> \<bar>of_int (half_away (x * 10 ^ p))\<bar> / 10 ^ p"
    by (intro divide_right_mono) auto
  then show ?thesis by (simp add: round_half_away_def abs_mult)
qed

interpretation dec: decimal_lib div_half_away round_half_away
  by unfold_locales
    (auto simp: div_half_away_def round_half_away_grid round_half_away_near round_half_away_tie)

section \<open>Rounding to a unit\<close>

definition rat_floor :: "rat \<Rightarrow> int" where
  "rat_floor x = \<lfloor>x\<rfloor>"

definition rat_ceil :: "rat \<Rightarrow> int" where
  "rat_ceil x = (let f = rat_floor x in if of_int f = x then f else f + 1)"

definition rat_half_up :: "rat \<Rightarrow> int" where
  "rat_half_up x = (if 0 \<le> x then rat_floor (x + 1/2) else - rat_floor (- x + 1/2))"

lemma rat_ceil_eq: "rat_ceil x = \<lceil>x\<rceil>"
  using ceiling_altdef [of x] by (simp only: rat_ceil_def rat_floor_def Let_def eq_commute [of _ x])

lemma rat_half_up_eq: "rat_half_up x = half_away x"
  by (simp add: rat_half_up_def half_away_def rat_floor_def)

section \<open>Integer part\<close>

text \<open>\<open>IntPart\<close> truncates toward zero and keeps 64 bits.\<close>

definition int_part :: "rat \<Rightarrow> int" where
  "int_part x = i64 (if 0 \<le> x then \<lfloor>x\<rfloor> else - \<lfloor>- x\<rfloor>)"

lemma int_part_of_int: "in64 n \<Longrightarrow> int_part (of_int n) = n"
  by (auto simp: int_part_def i64_id simp flip: of_int_minus)

end
