(* ===== verification/Loan_Interest.thy ===== *)
theory Loan_Interest
  imports Decimal Go_Date "HOL-Library.Product_Lexorder"
begin

text \<open>
  The loan interest calculator (apps/loan-service/internal/domain/interest.go). A \<open>time.Time\<close> is
  used there only through its civil day, so it is a day number; decimals are rationals and \<open>dr\<close> is
  the decimal library's \<open>DivRound\<close>. Errors are the calculator's codes.
\<close>

section \<open>Codes\<close>

definition skip_first_day :: string where "skip_first_day = ''CM124.001''"
definition skip_last_day :: string where "skip_last_day = ''CM124.002''"
definition round_mode_half_up :: string where "round_mode_half_up = ''CM163.001''"
definition round_mode_ceiling :: string where "round_mode_ceiling = ''CM163.002''"
definition round_mode_floor :: string where "round_mode_floor = ''CM163.003''"

definition err_base_unknown :: string where "err_base_unknown = ''lnm.interest.base_code_unknown''"
definition err_base_undefined :: string where "err_base_undefined = ''lnm.interest.base_code_undefined''"
definition err_over_rate :: string where "err_over_rate = ''lnm.interest.over_rate_missing''"
definition err_balance_missing :: string where "err_balance_missing = ''lnm.interest.balance_missing''"
definition err_date_method :: string where "err_date_method = ''lnm.interest.unsupported_date_method''"
definition err_round_type :: string where "err_round_type = ''lnm.interest.unsupported_round_type''"

definition interest_base_days :: "string \<Rightarrow> string + int" where
  "interest_base_days code =
     (if code = ''CSTL_01'' then Inl err_base_undefined
      else if code = ''CSTL_02'' then Inr 365
      else Inl err_base_unknown)"

definition validate_date_method :: "string \<Rightarrow> string option" where
  "validate_date_method m = (if m = skip_first_day \<or> m = skip_last_day then None else Some err_date_method)"

definition validate_round_type :: "string \<Rightarrow> string option" where
  "validate_round_type k =
     (if k = round_mode_half_up \<or> k = round_mode_ceiling \<or> k = round_mode_floor then None else Some err_round_type)"

definition interest_from_day :: "int \<Rightarrow> int option \<Rightarrow> string \<Rightarrow> string + int" where
  "interest_from_day disburse base date_method =
     (case validate_date_method date_method of
        Some err \<Rightarrow> Inl err
      | None \<Rightarrow>
          let b = (case base of None \<Rightarrow> disburse | Some b \<Rightarrow> b) in
          if b \<le> disburse \<and> date_method = skip_last_day then Inr b else Inr (b + 1))"

definition round_interest :: "rat \<Rightarrow> int \<Rightarrow> string \<Rightarrow> string + rat" where
  "round_interest amount round_no round_type =
     (if round_no \<le> 0 then Inr amount
      else case validate_round_type round_type of
        Some err \<Rightarrow> Inl err
      | None \<Rightarrow>
          let q = amount / of_int round_no;
              n = (if round_type = round_mode_ceiling then rat_ceil q
                   else if round_type = round_mode_floor then rat_floor q
                   else rat_half_up q)
          in Inr (of_int n * of_int round_no))"

section \<open>Input, events and result\<close>

record balance_entry =
  be_day :: int
  be_balance :: rat

record rate_entry =
  re_day :: int
  re_rate :: "rat option"
  re_over :: "rat option"

record overdue_rule =
  od_day :: int
  od_extension :: bool
  od_grace :: int

record principal_payment =
  pay_day :: int
  pay_amount :: rat

record interest_input =
  ii_from :: int
  ii_to :: int
  ii_date_method :: string
  ii_settlement :: bool
  ii_base_code :: string
  ii_round_no :: int
  ii_round_type :: string
  ii_balances :: "balance_entry list"
  ii_rates :: "rate_entry list"
  ii_agreement_rate :: "rat option"
  ii_agreement_over :: "rat option"
  ii_overdue :: "overdue_rule option"
  ii_payment :: "principal_payment option"

record interest_segment =
  sg_from :: int
  sg_to :: int
  sg_days :: int
  sg_normal :: rat
  sg_overdue :: rat
  sg_rate :: "rat option"
  sg_over :: "rat option"
  sg_normal_interest :: rat
  sg_overdue_interest :: rat

record interest_result =
  ir_normal :: rat
  ir_overdue :: rat
  ir_raw :: rat
  ir_total :: rat
  ir_normal_rounded :: rat
  ir_overdue_rounded :: rat
  ir_days :: int
  ir_segments :: "interest_segment list"

definition zero_interest_result :: interest_result where
  "zero_interest_result = \<lparr>ir_normal = 0, ir_overdue = 0, ir_raw = 0, ir_total = 0, ir_normal_rounded = 0,
     ir_overdue_rounded = 0, ir_days = 0, ir_segments = []\<rparr>"

datatype event_kind =
    Rate_Change "rat option" "rat option"
  | Balance_Change rat
  | Overdue_Start rat
  | Principal_Paid rat

fun event_prio :: "event_kind \<Rightarrow> int" where
  "event_prio (Rate_Change _ _) = 0"
| "event_prio (Balance_Change _) = 1"
| "event_prio (Overdue_Start _) = 2"
| "event_prio (Principal_Paid _) = 3"

record interest_event =
  ev_eff :: int
  ev_kind :: event_kind

record interest_state =
  is_normal :: rat
  is_overdue :: rat
  is_rate :: "rat option"
  is_over :: "rat option"

definition initial_state :: interest_state where
  "initial_state = \<lparr>is_normal = 0, is_overdue = 0, is_rate = None, is_over = None\<rparr>"

section \<open>Building the events\<close>

text \<open>\<open>normalizeBalances\<close>: the entries up to \<open>until\<close>, one per day (the later entry wins), by day.\<close>

definition normalize_balances :: "balance_entry list \<Rightarrow> int \<Rightarrow> (int \<times> rat) list" where
  "normalize_balances entries until =
     map (\<lambda>d. (d, be_balance (last [e \<leftarrow> entries. be_day e = d])))
       (sort (remdups [d \<leftarrow> map be_day entries. d \<le> until]))"

definition balance_timeline :: "(int \<times> rat) list \<Rightarrow> int \<Rightarrow> (int \<times> rat) list" where
  "balance_timeline history first =
     (case [h \<leftarrow> history. fst h \<le> first] of [] \<Rightarrow> [] | hs \<Rightarrow> [(first, snd (last hs))]) @
     [h \<leftarrow> history. first < fst h]"

definition balance_on :: "(int \<times> rat) list \<Rightarrow> int \<Rightarrow> rat" where
  "balance_on timeline day =
     (if timeline = [] then 0
      else case [h \<leftarrow> timeline. fst h \<le> day] of [] \<Rightarrow> snd (hd timeline) | hs \<Rightarrow> snd (last hs))"

definition effective_day :: "int \<Rightarrow> int \<Rightarrow> int \<Rightarrow> int" where
  "effective_day first shift day = (if day \<le> first then first else day + shift)"

text \<open>The first row with the latest date not after \<open>first\<close>.\<close>

fun start_row :: "int \<Rightarrow> rate_entry option \<Rightarrow> rate_entry list \<Rightarrow> rate_entry option" where
  "start_row first start [] = start"
| "start_row first start (r # rs) =
     (if re_day r \<le> first \<and> (case start of None \<Rightarrow> True | Some s \<Rightarrow> re_day s < re_day r)
      then start_row first (Some r) rs else start_row first start rs)"

text \<open>The rate events of the rows \<open>(day, rate, over)\<close>: the first, then every row that changes a rate.\<close>

fun rate_changes ::
  "(int \<Rightarrow> int) \<Rightarrow> (rat option \<times> rat option) option \<Rightarrow> (int \<times> rat option \<times> rat option) list \<Rightarrow>
   interest_event list" where
  "rate_changes eff prev [] = []"
| "rate_changes eff prev ((d, r, ov) # rows) =
     (if prev = None \<or> prev \<noteq> Some (r, ov)
      then \<lparr>ev_eff = eff d, ev_kind = Rate_Change r ov\<rparr> # rate_changes eff (Some (r, ov)) rows
      else rate_changes eff prev rows)"

definition rate_events :: "interest_input \<Rightarrow> int \<Rightarrow> int \<Rightarrow> (int \<Rightarrow> int) \<Rightarrow> interest_event list" where
  "rate_events inp first calc_day eff =
     (let rows = sort_key re_day [r \<leftarrow> ii_rates inp. re_day r \<le> calc_day];
          opening = (case start_row first None rows of
              Some r \<Rightarrow> [(first, re_rate r, re_over r)]
            | None \<Rightarrow>
                if ii_agreement_rate inp \<noteq> None \<or> ii_agreement_over inp \<noteq> None
                then [(first, ii_agreement_rate inp, ii_agreement_over inp)] else [])
      in rate_changes eff None (opening @ [(re_day r, re_rate r, re_over r). r \<leftarrow> rows, first < re_day r]))"

fun balance_events :: "(int \<Rightarrow> int) \<Rightarrow> rat option \<Rightarrow> (int \<times> rat) list \<Rightarrow> interest_event list" where
  "balance_events eff prev [] = []"
| "balance_events eff prev ((d, b) # ts) =
     (if prev = None \<or> prev \<noteq> Some b
      then \<lparr>ev_eff = eff d, ev_kind = Balance_Change b\<rparr> # balance_events eff (Some b) ts
      else balance_events eff prev ts)"

definition overdue_events :: "interest_input \<Rightarrow> int \<Rightarrow> (int \<Rightarrow> int) \<Rightarrow> (int \<times> rat) list \<Rightarrow> interest_event list" where
  "overdue_events inp first eff timeline =
     (case ii_overdue inp of
        None \<Rightarrow> []
      | Some ru \<Rightarrow>
          let start = (if \<not> od_extension ru \<and> 0 < od_grace ru then od_day ru + od_grace ru else od_day ru);
              day = max start first
          in if start \<le> ii_to inp
             then [\<lparr>ev_eff = eff day, ev_kind = Overdue_Start (balance_on timeline day)\<rparr>] else [])"

definition payment_events :: "interest_input \<Rightarrow> (int \<Rightarrow> int) \<Rightarrow> interest_event list" where
  "payment_events inp eff =
     (case ii_payment inp of
        None \<Rightarrow> []
      | Some p \<Rightarrow>
          if 0 < pay_amount p \<and> pay_day p \<le> ii_to inp
          then [\<lparr>ev_eff = eff (pay_day p), ev_kind = Principal_Paid (pay_amount p)\<rparr>] else [])"

definition interest_events :: "interest_input \<Rightarrow> int \<Rightarrow> int \<Rightarrow> (int \<times> rat) list \<Rightarrow> interest_event list" where
  "interest_events inp first shift timeline =
     (let eff = effective_day first shift in
      sort_key (\<lambda>e. (ev_eff e, event_prio (ev_kind e)))
        (rate_events inp first (ii_to inp) eff @ balance_events eff None timeline @
         overdue_events inp first eff timeline @ payment_events inp eff))"

section \<open>Accruing\<close>

definition segment_interest :: "(rat \<Rightarrow> rat \<Rightarrow> nat \<Rightarrow> rat) \<Rightarrow> rat \<Rightarrow> rat \<Rightarrow> int \<Rightarrow> int \<Rightarrow> rat" where
  "segment_interest dr amount rate days base = dr (amount * rate * of_int days) (of_int (100 * base)) 10"

fun apply_event :: "interest_state \<Rightarrow> event_kind \<Rightarrow> interest_state" where
  "apply_event s (Rate_Change r ov) = s\<lparr>is_rate := r, is_over := ov\<rparr>"
| "apply_event s (Balance_Change b) =
     (if b < is_overdue s then s\<lparr>is_overdue := b, is_normal := 0\<rparr>
      else s\<lparr>is_normal := b - is_overdue s\<rparr>)"
| "apply_event s (Overdue_Start b) =
     (let current = is_normal s + is_overdue s; a = min (max b 0) current
      in s\<lparr>is_overdue := a, is_normal := max (current - a) 0\<rparr>)"
| "apply_event s (Principal_Paid p) =
     (let part = min p (is_overdue s)
      in s\<lparr>is_overdue := is_overdue s - part, is_normal := max (is_normal s - (p - part)) 0\<rparr>)"

definition apply_events :: "interest_event list \<Rightarrow> interest_state \<Rightarrow> interest_state" where
  "apply_events evs s = foldl (\<lambda>s e. apply_event s (ev_kind e)) s evs"

text \<open>The boundaries: the first day and every event day inside \<open>(first, last]\<close>.\<close>

fun event_cuts :: "int \<Rightarrow> int \<Rightarrow> int \<Rightarrow> interest_event list \<Rightarrow> int list" where
  "event_cuts first last_day prev [] = []"
| "event_cuts first last_day prev (e # es) =
     (if first < ev_eff e \<and> ev_eff e \<le> last_day \<and> ev_eff e \<noteq> prev
      then ev_eff e # event_cuts first last_day (ev_eff e) es else event_cuts first last_day prev es)"

definition make_segment ::
  "(rat \<Rightarrow> rat \<Rightarrow> nat \<Rightarrow> rat) \<Rightarrow> int \<Rightarrow> int \<Rightarrow> int \<Rightarrow> interest_state \<Rightarrow> string + interest_segment" where
  "make_segment dr base day0 end_day st =
     (let days = end_day - day0 + 1;
          normal = (if 0 < is_normal st then
              (case is_rate st of Some r \<Rightarrow> segment_interest dr (is_normal st) r days base | None \<Rightarrow> 0) else 0);
          seg = \<lparr>sg_from = day0, sg_to = end_day, sg_days = days, sg_normal = is_normal st,
                 sg_overdue = is_overdue st, sg_rate = is_rate st, sg_over = is_over st,
                 sg_normal_interest = normal, sg_overdue_interest = 0\<rparr>
      in if 0 < is_overdue st then
           (case is_over st of
              None \<Rightarrow> Inl err_over_rate
            | Some r \<Rightarrow> Inr (seg\<lparr>sg_overdue_interest := segment_interest dr (is_overdue st) r days base\<rparr>))
         else Inr seg)"

text \<open>The loop over the boundaries, with the events still to apply and the segments so far.\<close>

fun accrue_cuts ::
  "(rat \<Rightarrow> rat \<Rightarrow> nat \<Rightarrow> rat) \<Rightarrow> int \<Rightarrow> int \<Rightarrow> int list \<Rightarrow> interest_event list \<Rightarrow> interest_state \<Rightarrow>
   interest_segment list \<Rightarrow> string + interest_segment list" where
  "accrue_cuts dr base last_day [] evs st segs = Inr segs"
| "accrue_cuts dr base last_day (day0 # cuts) evs st segs =
     (let st' = apply_events (takeWhile (\<lambda>e. ev_eff e \<le> day0) evs) st;
          evs' = dropWhile (\<lambda>e. ev_eff e \<le> day0) evs;
          end_day = (case cuts of [] \<Rightarrow> last_day | c # _ \<Rightarrow> c - 1)
      in if is_normal st' + is_overdue st' \<le> 0 then accrue_cuts dr base last_day cuts evs' st' segs
         else case make_segment dr base day0 end_day st' of
           Inl err \<Rightarrow> Inl err
         | Inr seg \<Rightarrow> accrue_cuts dr base last_day cuts evs' st' (segs @ [seg]))"

definition rounded :: "rat \<Rightarrow> interest_input \<Rightarrow> rat" where
  "rounded x inp = (case round_interest x (ii_round_no inp) (ii_round_type inp) of Inl _ \<Rightarrow> 0 | Inr y \<Rightarrow> y)"

definition interest_result_of :: "interest_input \<Rightarrow> interest_segment list \<Rightarrow> interest_result" where
  "interest_result_of inp segs =
     (let normal = sum_list (map sg_normal_interest segs); overdue = sum_list (map sg_overdue_interest segs)
      in \<lparr>ir_normal = normal, ir_overdue = overdue, ir_raw = normal + overdue,
          ir_total = rounded (normal + overdue) inp, ir_normal_rounded = rounded normal inp,
          ir_overdue_rounded = rounded overdue inp, ir_days = sum_list (map sg_days segs), ir_segments = segs\<rparr>)"

definition day_shift :: "interest_input \<Rightarrow> int" where
  "day_shift inp = (if ii_date_method inp = skip_first_day then 1 else 0)"

definition last_counted :: "interest_input \<Rightarrow> int" where
  "last_counted inp =
     (if ii_settlement inp \<and> ii_date_method inp = skip_last_day then ii_to inp - 1 else ii_to inp)"

definition input_timeline :: "interest_input \<Rightarrow> (int \<times> rat) list" where
  "input_timeline inp = balance_timeline (normalize_balances (ii_balances inp) (ii_to inp)) (ii_from inp)"

definition input_events :: "interest_input \<Rightarrow> interest_event list" where
  "input_events inp = interest_events inp (ii_from inp) (day_shift inp) (input_timeline inp)"

definition check_input :: "interest_input \<Rightarrow> string + int" where
  "check_input inp =
     (case interest_base_days (ii_base_code inp) of
        Inl err \<Rightarrow> Inl err
      | Inr base \<Rightarrow>
        (case validate_date_method (ii_date_method inp) of
           Some err \<Rightarrow> Inl err
         | None \<Rightarrow>
           (case (if 0 < ii_round_no inp then validate_round_type (ii_round_type inp) else None) of
              Some err \<Rightarrow> Inl err
            | None \<Rightarrow>
              if normalize_balances (ii_balances inp) (ii_to inp) = [] then Inl err_balance_missing
              else Inr base)))"

definition calculate_interest :: "(rat \<Rightarrow> rat \<Rightarrow> nat \<Rightarrow> rat) \<Rightarrow> interest_input \<Rightarrow> string + interest_result" where
  "calculate_interest dr inp =
     (case check_input inp of
        Inl err \<Rightarrow> Inl err
      | Inr base \<Rightarrow>
          let first = ii_from inp; last_day = last_counted inp; evs = input_events inp in
          if last_day < first then Inr zero_interest_result
          else case accrue_cuts dr base last_day (first # event_cuts first last_day first evs) evs initial_state [] of
            Inl err \<Rightarrow> Inl err
          | Inr segs \<Rightarrow> Inr (interest_result_of inp segs))"

section \<open>The calculation day by day\<close>

text \<open>The principal and rates in force on a day: every event effective up to it, in order.\<close>

definition state_on :: "interest_input \<Rightarrow> int \<Rightarrow> interest_state" where
  "state_on inp d = apply_events [e \<leftarrow> input_events inp. ev_eff e \<le> d] initial_state"

definition outstanding :: "interest_state \<Rightarrow> rat" where
  "outstanding st = is_normal st + is_overdue st"

text \<open>One day's interest, exactly.\<close>

definition daily_interest :: "int \<Rightarrow> interest_state \<Rightarrow> rat" where
  "daily_interest base st =
     (if outstanding st \<le> 0 then 0
      else (if 0 < is_normal st then is_normal st * (case is_rate st of Some r \<Rightarrow> r | None \<Rightarrow> 0) / of_int (100 * base) else 0)
         + (if 0 < is_overdue st then is_overdue st * (case is_over st of Some r \<Rightarrow> r | None \<Rightarrow> 0) / of_int (100 * base) else 0))"

definition rate_gap :: "interest_state \<Rightarrow> bool" where
  "rate_gap st \<longleftrightarrow> 0 < outstanding st \<and> 0 < is_overdue st \<and> is_over st = None"

definition positive_days :: "(int \<Rightarrow> interest_state) \<Rightarrow> int list \<Rightarrow> int" where
  "positive_days S ds = int (length [d \<leftarrow> ds. 0 < outstanding (S d)])"

definition day_sum :: "int \<Rightarrow> (int \<Rightarrow> interest_state) \<Rightarrow> int list \<Rightarrow> rat" where
  "day_sum base S ds = sum_list (map (\<lambda>d. daily_interest base (S d)) ds)"

definition segment_total :: "interest_segment list \<Rightarrow> rat" where
  "segment_total segs = sum_list (map (\<lambda>s. sg_normal_interest s + sg_overdue_interest s) segs)"

lemma takeWhile_sorted:
  "sorted (map f xs) \<Longrightarrow> takeWhile (\<lambda>x. f x \<le> c) xs = filter (\<lambda>x. f x \<le> (c::int)) xs"
proof (induction xs)
  case (Cons x xs)
  have "filter (\<lambda>y. f y \<le> c) xs = []" if "\<not> f x \<le> c"
    using Cons.prems that by (auto simp: filter_empty_conv)
  with Cons show ?case by auto
qed simp

lemma apply_events_append [simp]: "apply_events (xs @ ys) s = apply_events ys (apply_events xs s)"
  by (simp add: apply_events_def)

definition run_state :: "interest_event list \<Rightarrow> interest_state \<Rightarrow> int \<Rightarrow> interest_state" where
  "run_state evs st d = apply_events (takeWhile (\<lambda>e. ev_eff e \<le> d) evs) st"

lemma run_state_later:
  assumes "c \<le> d"
  shows "run_state (dropWhile (\<lambda>e. ev_eff e \<le> c) evs) (apply_events (takeWhile (\<lambda>e. ev_eff e \<le> c) evs) st) d =
    run_state evs st d"
proof -
  have "takeWhile (\<lambda>e. ev_eff e \<le> d) evs =
      takeWhile (\<lambda>e. ev_eff e \<le> c) evs @ takeWhile (\<lambda>e. ev_eff e \<le> d) (dropWhile (\<lambda>e. ev_eff e \<le> c) evs)"
    using assms by (induction evs) auto
  then show ?thesis by (simp add: run_state_def)
qed

lemma run_state_same:
  assumes "c \<le> d" "\<And>e. e \<in> set evs \<Longrightarrow> \<not> (c < ev_eff e \<and> ev_eff e \<le> d)"
  shows "run_state evs st d = apply_events (takeWhile (\<lambda>e. ev_eff e \<le> c) evs) st"
proof -
  have "takeWhile (\<lambda>e. ev_eff e \<le> d) evs = takeWhile (\<lambda>e. ev_eff e \<le> c) evs"
  proof (rule takeWhile_cong [OF refl])
    fix e assume "e \<in> set evs"
    with assms show "(ev_eff e \<le> d) = (ev_eff e \<le> c)" by (metis linorder_not_le order_trans)
  qed
  then show ?thesis by (simp add: run_state_def)
qed

lemma sum_list_const: "(\<And>x. x \<in> set xs \<Longrightarrow> f x = c) \<Longrightarrow> sum_list (map f xs) = of_nat (length xs) * (c :: rat)"
  by (induction xs) (auto simp: distrib_right)

lemma day_sum_const:
  assumes "c \<le> e" "\<And>d. d \<in> set [c..e] \<Longrightarrow> S d = st"
  shows "day_sum base S [c..e] = of_int (e - c + 1) * daily_interest base st"
    "positive_days S [c..e] = (if 0 < outstanding st then e - c + 1 else 0)"
proof -
  have "int (length [c..e]) = e - c + 1" using assms(1) by simp
  then have l: "(of_nat (length [c..e]) :: rat) = of_int (e - c + 1)" by (metis of_int_of_nat_eq)
  show "day_sum base S [c..e] = of_int (e - c + 1) * daily_interest base st"
    unfolding day_sum_def by (subst sum_list_const [where c = "daily_interest base st"]) (use assms(2) l in auto)
  have "[d \<leftarrow> [c..e]. 0 < outstanding (S d)] = (if 0 < outstanding st then [c..e] else [])"
    using assms(2) by (auto simp: filter_empty_conv intro: filter_True)
  then show "positive_days S [c..e] = (if 0 < outstanding st then e - c + 1 else 0)"
    using assms(1) by (simp add: positive_days_def)
qed

lemma day_sum_cong: "(\<And>d. d \<in> set ds \<Longrightarrow> S d = T d) \<Longrightarrow> day_sum base S ds = day_sum base T ds"
  unfolding day_sum_def by (metis (mono_tags, lifting) map_cong)

lemma positive_days_cong: "(\<And>d. d \<in> set ds \<Longrightarrow> S d = T d) \<Longrightarrow> positive_days S ds = positive_days T ds"
  unfolding positive_days_def by (metis (mono_tags, lifting) filter_cong)

lemma day_sum_append: "day_sum base S (xs @ ys) = day_sum base S xs + day_sum base S ys"
  by (simp add: day_sum_def)

lemma positive_days_append: "positive_days S (xs @ ys) = positive_days S xs + positive_days S ys"
  by (simp add: positive_days_def)

lemma sorted_dropWhile_map: "sorted (map f xs) \<Longrightarrow> sorted (map f (dropWhile P xs))"
  by (induction xs) auto

lemma upto_split3: "c \<le> m \<Longrightarrow> m \<le> e + 1 \<Longrightarrow> [c..e] = [c..m - 1] @ [m..e]"
  by (metis add_diff_cancel_right' diff_add_cancel upto_split1 upto.simps verit_comp_simplify1(3) upto_split2 le_diff_eq linorder_not_le zle_diff1_eq append_Nil2 order.order_iff_strict)

context decimal_lib
begin

lemma segment_interest_error:
  assumes "base \<noteq> 0"
  shows "\<bar>segment_interest div_round amount rate days base - of_int days * (amount * rate / of_int (100 * base))\<bar>
    \<le> 1 / (2 * 10 ^ 10)"
proof -
  have "of_int (100 * base) \<noteq> (0 :: rat)" using assms by simp
  from div_error [OF this, of "amount * rate * of_int days" 10] show ?thesis
    by (simp add: segment_interest_def mult.commute mult.left_commute)
qed

lemma make_segment_error:
  assumes "make_segment div_round base c e st = Inr seg" "base \<noteq> 0" "0 < outstanding st"
  shows "sg_days seg = e - c + 1 \<and> \<not> rate_gap st \<and>
    \<bar>sg_normal_interest seg + sg_overdue_interest seg - of_int (e - c + 1) * daily_interest base st\<bar> \<le> 1 / 10 ^ 10"
proof -
  let ?n = "if 0 < is_normal st then is_normal st * (case is_rate st of Some r \<Rightarrow> r | None \<Rightarrow> 0) / of_int (100 * base) else 0"
  let ?o = "if 0 < is_overdue st then is_overdue st * (case is_over st of Some r \<Rightarrow> r | None \<Rightarrow> 0) / of_int (100 * base) else 0"
  have d: "daily_interest base st = ?n + ?o" using assms(3) by (simp add: daily_interest_def)
  have days: "sg_days seg = e - c + 1"
    and normal: "sg_normal_interest seg = (if 0 < is_normal st then
              (case is_rate st of Some r \<Rightarrow> segment_interest div_round (is_normal st) r (e - c + 1) base | None \<Rightarrow> 0) else 0)"
    and over: "sg_overdue_interest seg = (if 0 < is_overdue st then
              (case is_over st of Some r \<Rightarrow> segment_interest div_round (is_overdue st) r (e - c + 1) base | None \<Rightarrow> 0) else 0)"
    and gap: "\<not> rate_gap st"
    using assms(1) by (auto simp: make_segment_def Let_def rate_gap_def split: if_splits option.splits)
  have "\<bar>sg_normal_interest seg - of_int (e - c + 1) * ?n\<bar> \<le> 1 / (2 * 10 ^ 10)"
    using segment_interest_error [OF assms(2), of "is_normal st" _ "e - c + 1"]
    unfolding normal by (auto split: option.splits)
  moreover have "\<bar>sg_overdue_interest seg - of_int (e - c + 1) * ?o\<bar> \<le> 1 / (2 * 10 ^ 10)"
    using segment_interest_error [OF assms(2), of "is_overdue st" _ "e - c + 1"]
    unfolding over by (auto split: option.splits)
  ultimately have "\<bar>(sg_normal_interest seg - of_int (e - c + 1) * ?n) + (sg_overdue_interest seg - of_int (e - c + 1) * ?o)\<bar>
      \<le> 1 / (2 * 10 ^ 10) + 1 / (2 * 10 ^ 10)"
    by (intro order_trans [OF abs_triangle_ineq add_mono])
  then show ?thesis using days gap unfolding d by (simp add: algebra_simps)
qed

end

context decimal_lib
begin

lemma accrue_cuts_days:
  assumes "accrue_cuts div_round base last_day (c # cs) evs st segs = Inr segs'" "base \<noteq> 0"
    and "sorted (map ev_eff evs)" "sorted_wrt (<) (c # cs)" "\<forall>x\<in>set (c # cs). x \<le> last_day"
    and "\<And>e. e \<in> set evs \<Longrightarrow> c < ev_eff e \<Longrightarrow> ev_eff e \<le> last_day \<Longrightarrow> ev_eff e \<in> set cs"
  shows "\<exists>new. segs' = segs @ new \<and> sum_list (map sg_days new) = positive_days (run_state evs st) [c..last_day] \<and>
     (\<forall>d\<in>{c..last_day}. \<not> rate_gap (run_state evs st d)) \<and>
     \<bar>segment_total new - day_sum base (run_state evs st) [c..last_day]\<bar> \<le> of_nat (length new) / 10 ^ 10"
  using assms(1,3-6)
proof (induction cs arbitrary: c evs st segs)
  case Nil
  let ?st = "apply_events (takeWhile (\<lambda>e. ev_eff e \<le> c) evs) st"
  have le: "c \<le> last_day" using Nil.prems(4) by simp
  have same: "run_state evs st d = ?st" if "d \<in> {c..last_day}" for d
    by (rule run_state_same) (use that Nil.prems(5) in force)+
  have S: "day_sum base (run_state evs st) [c..last_day] = of_int (last_day - c + 1) * daily_interest base ?st"
    "positive_days (run_state evs st) [c..last_day] = (if 0 < outstanding ?st then last_day - c + 1 else 0)"
    using day_sum_const [OF le, of "run_state evs st" ?st] same by auto
  show ?case
  proof (cases "0 < outstanding ?st")
    case False
    then have "segs' = segs" "daily_interest base ?st = 0" "\<not> rate_gap ?st"
      using Nil.prems(1) by (auto simp: outstanding_def daily_interest_def rate_gap_def Let_def)
    then show ?thesis using S False same by (intro exI [of _ "[]"]) (simp add: segment_total_def)
  next
    case True
    then obtain seg where seg: "make_segment div_round base c last_day ?st = Inr seg" "segs' = segs @ [seg]"
      using Nil.prems(1) by (auto simp: outstanding_def Let_def split: sum.splits)
    show ?thesis
      using make_segment_error [OF seg(1) assms(2) True] seg(2) S True same
      by (intro exI [of _ "[seg]"]) (simp add: segment_total_def)
  qed
next
  case (Cons c2 cs)
  let ?st = "apply_events (takeWhile (\<lambda>e. ev_eff e \<le> c) evs) st"
  let ?evs = "dropWhile (\<lambda>e. ev_eff e \<le> c) evs"
  have c2: "c < c2" "c2 \<le> last_day" and later: "\<forall>x\<in>set cs. c2 < x" using Cons.prems(3,4) by auto
  have same: "run_state evs st d = ?st" if "d \<in> {c..c2 - 1}" for d
  proof (rule run_state_same)
    show "c \<le> d" using that by simp
    fix e assume e: "e \<in> set evs"
    show "\<not> (c < ev_eff e \<and> ev_eff e \<le> d)"
    proof
      assume a: "c < ev_eff e \<and> ev_eff e \<le> d"
      then have "ev_eff e \<in> set (c2 # cs)" using Cons.prems(5) [OF e] that c2 by auto
      then have "c2 \<le> ev_eff e" using later by auto
      with a that show False by simp
    qed
  qed
  have split: "[c..last_day] = [c..c2 - 1] @ [c2..last_day]" using c2 by (intro upto_split3) auto
  have tail: "run_state evs st d = run_state ?evs ?st d" if "d \<in> set [c2..last_day]" for d
    using run_state_later [of c d evs st] that c2 by simp
  have le: "c \<le> c2 - 1" using c2 by simp
  have head: "day_sum base (run_state evs st) [c..c2 - 1] = of_int (c2 - 1 - c + 1) * daily_interest base ?st"
    "positive_days (run_state evs st) [c..c2 - 1] = (if 0 < outstanding ?st then c2 - 1 - c + 1 else 0)"
    using day_sum_const [OF le, of "run_state evs st" ?st] same by auto
  have t1: "day_sum base (run_state evs st) [c2..last_day] = day_sum base (run_state ?evs ?st) [c2..last_day]"
    by (rule day_sum_cong) (rule tail)
  have t2: "positive_days (run_state evs st) [c2..last_day] = positive_days (run_state ?evs ?st) [c2..last_day]"
    by (rule positive_days_cong) (rule tail)
  have sums: "day_sum base (run_state evs st) [c..last_day] =
      of_int (c2 - 1 - c + 1) * daily_interest base ?st + day_sum base (run_state ?evs ?st) [c2..last_day]"
    "positive_days (run_state evs st) [c..last_day] =
      (if 0 < outstanding ?st then c2 - 1 - c + 1 else 0) + positive_days (run_state ?evs ?st) [c2..last_day]"
    unfolding split day_sum_append positive_days_append head t1 t2 by (rule refl)+
  have sorted': "sorted (map ev_eff ?evs)"
    by (rule sorted_dropWhile_map [OF Cons.prems(2)])
  have inc: "sorted_wrt (<) (c2 # cs)" "\<forall>x\<in>set (c2 # cs). x \<le> last_day" using Cons.prems(3,4) by auto
  have cov: "ev_eff e \<in> set cs" if "e \<in> set ?evs" "c2 < ev_eff e" "ev_eff e \<le> last_day" for e
    using Cons.prems(5) [of e] that c2 set_dropWhileD [of e _ evs] by auto
  have gaps: "(\<forall>d\<in>{c..last_day}. \<not> rate_gap (run_state evs st d)) \<longleftrightarrow>
      \<not> rate_gap ?st \<and> (\<forall>d\<in>{c2..last_day}. \<not> rate_gap (run_state ?evs ?st d))"
  proof -
    have "{c..last_day} = {c..c2 - 1} \<union> {c2..last_day}" using c2 by auto
    moreover have "(\<forall>d\<in>{c..c2 - 1}. \<not> rate_gap (run_state evs st d)) \<longleftrightarrow> \<not> rate_gap ?st"
      using same le by auto
    moreover have "(\<forall>d\<in>{c2..last_day}. \<not> rate_gap (run_state evs st d)) \<longleftrightarrow>
       (\<forall>d\<in>{c2..last_day}. \<not> rate_gap (run_state ?evs ?st d))"
      using tail by auto
    ultimately show ?thesis by (simp add: ball_Un)
  qed
  show ?case
  proof (cases "0 < outstanding ?st")
    case False
    then have z: "daily_interest base ?st = 0" "\<not> rate_gap ?st"
      by (auto simp: daily_interest_def rate_gap_def)
    have "accrue_cuts div_round base last_day (c2 # cs) ?evs ?st segs = Inr segs'"
      using Cons.prems(1) False by (simp add: outstanding_def Let_def)
    from Cons.IH [OF this sorted' inc cov] show ?thesis
      using z False unfolding gaps sums by simp
  next
    case True
    then obtain seg where seg: "make_segment div_round base c (c2 - 1) ?st = Inr seg"
      and rest: "accrue_cuts div_round base last_day (c2 # cs) ?evs ?st (segs @ [seg]) = Inr segs'"
      using Cons.prems(1) by (auto simp: outstanding_def Let_def split: sum.splits)
    note m = make_segment_error [OF seg assms(2) True]
    obtain new where new: "segs' = (segs @ [seg]) @ new"
      "sum_list (map sg_days new) = positive_days (run_state ?evs ?st) [c2..last_day]"
      "\<forall>d\<in>{c2..last_day}. \<not> rate_gap (run_state ?evs ?st d)"
      "\<bar>segment_total new - day_sum base (run_state ?evs ?st) [c2..last_day]\<bar> \<le> of_nat (length new) / 10 ^ 10"
      using Cons.IH [OF rest sorted' inc cov] by blast
    have tot: "segment_total (seg # new) - day_sum base (run_state evs st) [c..last_day] =
        (sg_normal_interest seg + sg_overdue_interest seg - of_int (c2 - 1 - c + 1) * daily_interest base ?st) +
        (segment_total new - day_sum base (run_state ?evs ?st) [c2..last_day])"
      unfolding sums by (simp add: segment_total_def)
    have "\<bar>segment_total (seg # new) - day_sum base (run_state evs st) [c..last_day]\<bar> \<le>
        1 / 10 ^ 10 + of_nat (length new) / 10 ^ 10"
      unfolding tot using m new(4) by (intro order_trans [OF abs_triangle_ineq add_mono]) auto
    then have "\<bar>segment_total (seg # new) - day_sum base (run_state evs st) [c..last_day]\<bar> \<le>
        of_nat (length (seg # new)) / 10 ^ 10"
      by (simp add: add_divide_distrib)
    moreover have "sum_list (map sg_days (seg # new)) = positive_days (run_state evs st) [c..last_day]"
      using m new(2) True unfolding sums by simp
    moreover have "\<forall>d\<in>{c..last_day}. \<not> rate_gap (run_state evs st d)"
      using gaps m new(3) by blast
    moreover have "segs' = segs @ (seg # new)" using new(1) by simp
    ultimately show ?thesis by blast
  qed
qed

end

lemma accrue_cuts_error:
  assumes "accrue_cuts dr base last_day (c # cs) evs st segs = Inl err"
    and "sorted_wrt (<) (c # cs)" "\<forall>x\<in>set (c # cs). x \<le> last_day"
  shows "err = err_over_rate \<and> (\<exists>d\<in>{c..last_day}. rate_gap (run_state evs st d))"
  using assms
proof (induction cs arbitrary: c evs st segs)
  case Nil
  have "run_state evs st c = apply_events (takeWhile (\<lambda>e. ev_eff e \<le> c) evs) st" by (simp add: run_state_def)
  with Nil show ?case
    by (intro conjI bexI [of _ c])
      (auto simp: Let_def make_segment_def rate_gap_def outstanding_def split: sum.splits if_splits option.splits)
next
  case (Cons c2 cs)
  let ?st = "apply_events (takeWhile (\<lambda>e. ev_eff e \<le> c) evs) st"
  let ?evs = "dropWhile (\<lambda>e. ev_eff e \<le> c) evs"
  have c2: "c < c2" "c2 \<le> last_day" using Cons.prems(2,3) by auto
  have now: "run_state evs st c = ?st" by (simp add: run_state_def)
  have inc: "sorted_wrt (<) (c2 # cs)" "\<forall>x\<in>set (c2 # cs). x \<le> last_day" using Cons.prems(2,3) by auto
  show ?case
  proof (cases "0 < outstanding ?st \<and> (\<exists>e. make_segment dr base c (c2 - 1) ?st = Inl e)")
    case True
    then have "rate_gap (run_state evs st c)" "err = err_over_rate"
      using Cons.prems(1) unfolding now
      by (auto simp: Let_def make_segment_def rate_gap_def outstanding_def split: sum.splits if_splits option.splits)
    then show ?thesis using c2 by (intro conjI bexI [of _ c]) auto
  next
    case False
    then obtain segs1 where "accrue_cuts dr base last_day (c2 # cs) ?evs ?st segs1 = Inl err"
      using Cons.prems(1) by (auto simp: Let_def outstanding_def split: sum.splits if_splits)
    from Cons.IH [OF this inc] obtain d where "err = err_over_rate" "d \<in> {c2..last_day}"
      "rate_gap (run_state ?evs ?st d)" by blast
    then show ?thesis using run_state_later [of c d evs st] c2 by (intro conjI bexI [of _ d]) auto
  qed
qed

lemma event_cuts_props:
  assumes "sorted (map ev_eff es)" "\<forall>e\<in>set es. prev \<le> ev_eff e" "first \<le> prev" "prev \<le> last_day"
  shows "sorted_wrt (<) (prev # event_cuts first last_day prev es) \<and>
    (\<forall>x\<in>set (event_cuts first last_day prev es). x \<le> last_day) \<and>
    (\<forall>e\<in>set es. prev < ev_eff e \<and> ev_eff e \<le> last_day \<longrightarrow> ev_eff e \<in> set (event_cuts first last_day prev es))"
  using assms
proof (induction es arbitrary: prev)
  case Nil
  then show ?case by simp
next
  case (Cons e es)
  show ?case
  proof (cases "first < ev_eff e \<and> ev_eff e \<le> last_day \<and> ev_eff e \<noteq> prev")
    case True
    have lt: "prev < ev_eff e" using True Cons.prems(2) by auto
    let ?cs = "event_cuts first last_day (ev_eff e) es"
    have IH: "sorted_wrt (<) (ev_eff e # ?cs) \<and> (\<forall>x\<in>set ?cs. x \<le> last_day) \<and>
      (\<forall>x\<in>set es. ev_eff e < ev_eff x \<and> ev_eff x \<le> last_day \<longrightarrow> ev_eff x \<in> set ?cs)"
      by (rule Cons.IH) (use True Cons.prems in auto)
    have eq: "event_cuts first last_day prev (e # es) = ev_eff e # ?cs" using True by simp
    have "sorted_wrt (<) (prev # ev_eff e # ?cs)" using IH lt by force
    moreover have "\<forall>x\<in>set (ev_eff e # ?cs). x \<le> last_day" using IH True by auto
    moreover have "ev_eff x \<in> set (ev_eff e # ?cs)"
      if x: "x \<in> set (e # es)" "ev_eff x \<le> last_day" for x
    proof (cases "ev_eff x = ev_eff e")
      case False
      moreover have "ev_eff e \<le> ev_eff x" using x Cons.prems(1) by auto
      ultimately show ?thesis using x IH by auto
    qed simp
    ultimately show ?thesis unfolding eq by blast
  next
    case False
    have "sorted_wrt (<) (prev # event_cuts first last_day prev es) \<and>
      (\<forall>x\<in>set (event_cuts first last_day prev es). x \<le> last_day) \<and>
      (\<forall>x\<in>set es. prev < ev_eff x \<and> ev_eff x \<le> last_day \<longrightarrow> ev_eff x \<in> set (event_cuts first last_day prev es))"
      by (rule Cons.IH) (use Cons.prems in auto)
    moreover have "\<not> (prev < ev_eff e \<and> ev_eff e \<le> last_day)" using False Cons.prems(3) by linarith
    moreover have "event_cuts first last_day prev (e # es) = event_cuts first last_day prev es" using False by auto
    ultimately show ?thesis by (metis set_ConsD)
  qed
qed

section \<open>The events of an input\<close>

lemma rate_changes_eff: "e \<in> set (rate_changes eff prev rows) \<Longrightarrow> \<exists>d. ev_eff e = eff d"
  by (induction eff prev rows rule: rate_changes.induct) (auto split: if_splits)

lemma balance_events_eff: "e \<in> set (balance_events eff prev ts) \<Longrightarrow> \<exists>d. ev_eff e = eff d"
  by (induction eff prev ts rule: balance_events.induct) (auto split: if_splits)

lemma input_events_eff:
  assumes "e \<in> set (input_events inp)"
  shows "ii_from inp \<le> ev_eff e"
proof -
  have "\<exists>d. ev_eff e = effective_day (ii_from inp) (day_shift inp) d"
    using assms
    by (auto simp: input_events_def interest_events_def rate_events_def overdue_events_def payment_events_def Let_def
        dest!: rate_changes_eff balance_events_eff split: option.splits if_splits)
  moreover have "0 \<le> day_shift inp" by (simp add: day_shift_def)
  ultimately show ?thesis by (auto simp: effective_day_def split: if_splits)
qed

lemma sorted_fst_key: "sorted (map (\<lambda>x. (f x, g x)) xs) \<Longrightarrow> sorted (map f xs)"
  by (induction xs) (auto simp: less_eq_prod_def)

lemma input_events_sorted: "sorted (map ev_eff (input_events inp))"
  unfolding input_events_def interest_events_def Let_def
  by (rule sorted_fst_key [where g = "\<lambda>e. event_prio (ev_kind e)"]) simp

lemma run_state_input: "run_state (input_events inp) initial_state d = state_on inp d"
  unfolding run_state_def state_on_def by (simp add: takeWhile_sorted [OF input_events_sorted])

lemma check_input_base: "check_input inp = Inr base \<Longrightarrow> base = 365"
  by (auto simp: check_input_def interest_base_days_def split: sum.splits option.splits if_splits)

lemma segment_total_result:
  "ir_raw (interest_result_of inp segs) = segment_total segs" "ir_days (interest_result_of inp segs) = sum_list (map sg_days segs)"
  "ir_segments (interest_result_of inp segs) = segs"
proof -
  show "ir_raw (interest_result_of inp segs) = segment_total segs"
    by (induction segs) (simp_all add: interest_result_of_def segment_total_def Let_def)
qed (simp_all add: interest_result_of_def Let_def)

lemma calculate_cases:
  assumes "check_input inp = Inr base" "ii_from inp \<le> last_counted inp"
  shows "calculate_interest dr inp =
    (case accrue_cuts dr base (last_counted inp)
        (ii_from inp # event_cuts (ii_from inp) (last_counted inp) (ii_from inp) (input_events inp))
        (input_events inp) initial_state [] of
      Inl err \<Rightarrow> Inl err | Inr segs \<Rightarrow> Inr (interest_result_of inp segs))"
  using assms by (simp add: calculate_interest_def Let_def)

abbreviation "cuts_of inp \<equiv> event_cuts (ii_from inp) (last_counted inp) (ii_from inp) (input_events inp)"

lemma input_cuts:
  assumes "ii_from inp \<le> last_counted inp"
  shows "sorted_wrt (<) (ii_from inp # cuts_of inp)" "\<forall>x\<in>set (ii_from inp # cuts_of inp). x \<le> last_counted inp"
    "e \<in> set (input_events inp) \<Longrightarrow> ii_from inp < ev_eff e \<Longrightarrow> ev_eff e \<le> last_counted inp \<Longrightarrow> ev_eff e \<in> set (cuts_of inp)"
proof -
  have "\<forall>e\<in>set (input_events inp). ii_from inp \<le> ev_eff e" using input_events_eff by blast
  note p = event_cuts_props [OF input_events_sorted this order_refl assms]
  show "sorted_wrt (<) (ii_from inp # cuts_of inp)" using p by blast
  show "\<forall>x\<in>set (ii_from inp # cuts_of inp). x \<le> last_counted inp" using p assms by simp
  show "e \<in> set (input_events inp) \<Longrightarrow> ii_from inp < ev_eff e \<Longrightarrow> ev_eff e \<le> last_counted inp \<Longrightarrow> ev_eff e \<in> set (cuts_of inp)"
    using p by blast
qed

section \<open>Properties\<close>

text \<open>C12. The loan interest calculator agrees with counting day by day: for an accepted input, the days it
  reports are the days of the period with outstanding principal, and its unrounded total differs from
  the sum of the exact daily interest (principal and rate in force that day / 365 / 100) by at most
  10^-10 per segment, the precision of its one division.\<close>

theorem interest_matches_daily:
  assumes "decimal_lib dr rt" "check_input inp = Inr base" "ii_from inp \<le> last_counted inp"
    and "calculate_interest dr inp = Inr res"
  shows "ir_days res = positive_days (state_on inp) [ii_from inp..last_counted inp] \<and>
    \<bar>ir_raw res - day_sum base (state_on inp) [ii_from inp..last_counted inp]\<bar> \<le> of_nat (length (ir_segments res)) / 10 ^ 10"
proof -
  let ?cuts = "event_cuts (ii_from inp) (last_counted inp) (ii_from inp) (input_events inp)"
  obtain segs where segs: "accrue_cuts dr base (last_counted inp) (ii_from inp # ?cuts) (input_events inp) initial_state [] = Inr segs"
    and res: "res = interest_result_of inp segs"
    using assms(4) unfolding calculate_cases [OF assms(2,3)] by (auto split: sum.splits)
  note cuts = input_cuts [OF assms(3)]
  have b: "base \<noteq> 0" using check_input_base [OF assms(2)] by simp
  have rs: "run_state (input_events inp) initial_state = state_on inp" using run_state_input by blast
  show ?thesis
    using decimal_lib.accrue_cuts_days [OF assms(1) segs b input_events_sorted cuts] unfolding rs res segment_total_result
    by auto
qed

text \<open>C13. For an accepted input the calculator fails exactly when some counted day has overdue principal and
  no overdue rate, and then with the code over_rate_missing: it never guesses a rate.\<close>

theorem interest_error_iff_rate_gap:
  assumes "decimal_lib dr rt" "check_input inp = Inr base" "ii_from inp \<le> last_counted inp"
  shows "(calculate_interest dr inp = Inl err_over_rate \<longleftrightarrow>
      (\<exists>d\<in>{ii_from inp..last_counted inp}. rate_gap (state_on inp d))) \<and>
    (\<forall>e. calculate_interest dr inp = Inl e \<longrightarrow> e = err_over_rate)"
proof -
  let ?cuts = "event_cuts (ii_from inp) (last_counted inp) (ii_from inp) (input_events inp)"
  let ?run = "accrue_cuts dr base (last_counted inp) (ii_from inp # ?cuts) (input_events inp) initial_state []"
  note cuts = input_cuts [OF assms(3)]
  have b: "base \<noteq> 0" using check_input_base [OF assms(2)] by simp
  have rs: "run_state (input_events inp) initial_state = state_on inp" using run_state_input by blast
  show ?thesis
  proof (cases ?run)
    case (Inl e)
    from accrue_cuts_error [OF this cuts(1,2)] show ?thesis
      unfolding calculate_cases [OF assms(2,3)] Inl rs by auto
  next
    case (Inr segs)
    from decimal_lib.accrue_cuts_days [OF assms(1) Inr b input_events_sorted cuts] show ?thesis
      unfolding calculate_cases [OF assms(2,3)] Inr rs by auto
  qed
qed

text \<open>Rounding by ROUND_NO and the CM163 mode, in one exact step: the result is a multiple of the unit; FLOOR
  is the largest one not above the amount, CEILING the smallest not below it, HALF_UP a nearest one, ties
  away from zero.\<close>

theorem round_interest_modes:
  assumes "0 < n" "round_interest amount n mode = Inr r"
  shows "(\<exists>k. r = of_int k * of_int n) \<and>
    (mode = ''CM163.003'' \<longrightarrow> r \<le> amount \<and> amount < r + of_int n) \<and>
    (mode = ''CM163.002'' \<longrightarrow> amount \<le> r \<and> r < amount + of_int n) \<and>
    (mode = ''CM163.001'' \<longrightarrow> 2 * \<bar>r - amount\<bar> \<le> of_int n \<and> (2 * \<bar>r - amount\<bar> = of_int n \<longrightarrow> \<bar>amount\<bar> \<le> \<bar>r\<bar>))"
proof -
  let ?n = "of_int n :: rat" and ?q = "amount / of_int n"
  let ?k = "if mode = round_mode_ceiling then rat_ceil ?q else if mode = round_mode_floor then rat_floor ?q else rat_half_up ?q"
  have n: "0 < ?n" using assms(1) by simp
  have r: "r = of_int ?k * ?n"
    using assms by (auto simp: round_interest_def Let_def split: option.splits if_splits)
  have q: "?q * ?n = amount" using n by simp
  have "of_int \<lfloor>?q\<rfloor> * ?n \<le> ?q * ?n \<and> ?q * ?n < (of_int \<lfloor>?q\<rfloor> + 1) * ?n"
    using floor_correct [of ?q] n by (intro conjI mult_right_mono mult_strict_right_mono) auto
  then have fl: "of_int \<lfloor>?q\<rfloor> * ?n \<le> amount \<and> amount < of_int \<lfloor>?q\<rfloor> * ?n + ?n"
    unfolding q by (simp add: distrib_right)
  have "(of_int \<lceil>?q\<rceil> - 1) * ?n < ?q * ?n \<and> ?q * ?n \<le> of_int \<lceil>?q\<rceil> * ?n"
    using ceiling_correct [of ?q] n by (intro conjI mult_right_mono mult_strict_right_mono) auto
  then have ce: "amount \<le> of_int \<lceil>?q\<rceil> * ?n \<and> of_int \<lceil>?q\<rceil> * ?n < amount + ?n"
    unfolding q by (simp add: left_diff_distrib)
  have h: "\<bar>of_int (half_away ?q) * ?n - amount\<bar> = \<bar>of_int (half_away ?q) - ?q\<bar> * ?n"
    using n q by (metis abs_mult abs_of_pos left_diff_distrib)
  have near: "2 * \<bar>of_int (half_away ?q) * ?n - amount\<bar> \<le> ?n"
    using mult_right_mono [OF half_away_near [of ?q], of ?n] n unfolding h by simp
  have tie: "\<bar>amount\<bar> \<le> \<bar>of_int (half_away ?q) * ?n\<bar>" if "2 * \<bar>of_int (half_away ?q) * ?n - amount\<bar> = ?n"
  proof -
    have "2 * \<bar>of_int (half_away ?q) - ?q\<bar> = 1" using that n unfolding h by simp
    from half_away_tie [OF this] have "\<bar>?q\<bar> * ?n \<le> \<bar>of_int (half_away ?q)\<bar> * ?n"
      using n by (intro mult_right_mono) auto
    then show ?thesis using n q by (metis abs_mult abs_of_pos)
  qed
  consider "mode = ''CM163.003''" | "mode = ''CM163.002''" | "mode = ''CM163.001''"
    | "mode \<notin> {''CM163.003'', ''CM163.002'', ''CM163.001''}" by blast
  then show ?thesis
  proof cases
    case 1
    then have "r = of_int \<lfloor>?q\<rfloor> * ?n" using r by (simp add: round_mode_ceiling_def round_mode_floor_def rat_floor_def)
    with 1 fl show ?thesis by auto
  next
    case 2
    then have "r = of_int \<lceil>?q\<rceil> * ?n" using r by (simp add: round_mode_ceiling_def rat_ceil_eq)
    with 2 ce show ?thesis by auto
  next
    case 3
    then have "r = of_int (half_away ?q) * ?n"
      using r by (simp add: round_mode_ceiling_def round_mode_floor_def rat_half_up_eq)
    with 3 near tie show ?thesis by auto
  next
    case 4
    with r show ?thesis by auto
  qed
qed

theorem round_interest_modes_witness:
  "round_interest 1500 1000 ''CM163.001'' = Inr 2000 \<and> 2 * \<bar>2000 - 1500 :: rat\<bar> \<le> 1000"
proof
  show r: "round_interest 1500 1000 ''CM163.001'' = Inr 2000" by code_simp
  show "2 * \<bar>2000 - 1500 :: rat\<bar> \<le> 1000"
    using round_interest_modes [OF _ r] by simp
qed

section \<open>The principal follows the balance history\<close>

fun balance_of :: "event_kind \<Rightarrow> rat option" where
  "balance_of (Balance_Change b) = Some b"
| "balance_of _ = None"

fun is_payment :: "event_kind \<Rightarrow> bool" where
  "is_payment (Principal_Paid _) = True"
| "is_payment _ = False"

definition is_balance :: "interest_event \<Rightarrow> bool" where
  "is_balance e = (balance_of (ev_kind e) \<noteq> None)"

definition last_balance :: "rat \<Rightarrow> interest_event list \<Rightarrow> rat" where
  "last_balance x evs = foldl (\<lambda>x e. case balance_of (ev_kind e) of Some b \<Rightarrow> b | None \<Rightarrow> x) x evs"

lemma outstanding_step:
  "\<not> is_payment k \<Longrightarrow> outstanding (apply_event s k) = (case balance_of k of Some b \<Rightarrow> b | None \<Rightarrow> outstanding s)"
  by (cases k) (auto simp: outstanding_def Let_def)

lemma outstanding_events:
  "\<forall>e\<in>set evs. \<not> is_payment (ev_kind e) \<Longrightarrow>
   outstanding (apply_events evs s) = last_balance (outstanding s) [e \<leftarrow> evs. is_balance e]"
  by (induction evs arbitrary: s)
    (auto simp: apply_events_def last_balance_def is_balance_def outstanding_step split: option.splits)

lemma rate_changes_kind: "e \<in> set (rate_changes eff prev rows) \<Longrightarrow> balance_of (ev_kind e) = None \<and> \<not> is_payment (ev_kind e)"
  by (induction eff prev rows rule: rate_changes.induct) (auto split: if_splits)

lemma balance_events_kind: "e \<in> set (balance_events eff prev ts) \<Longrightarrow> is_balance e \<and> \<not> is_payment (ev_kind e)"
  by (induction eff prev ts rule: balance_events.induct) (auto simp: is_balance_def split: if_splits)

lemma overdue_events_kind: "e \<in> set (overdue_events inp first eff ts) \<Longrightarrow> \<not> is_balance e \<and> \<not> is_payment (ev_kind e)"
  by (auto simp: overdue_events_def is_balance_def Let_def split: option.splits if_splits)

lemma balance_events_eff_in:
  "e \<in> set (balance_events eff prev ts) \<Longrightarrow> \<exists>h\<in>set ts. ev_eff e = eff (fst h)"
  by (induction eff prev ts rule: balance_events.induct) (auto split: if_splits)

lemma balance_events_sorted:
  assumes "sorted (map fst ts)" "mono eff"
  shows "sorted (map (\<lambda>e. (ev_eff e, event_prio (ev_kind e))) (balance_events eff prev ts))"
  using assms(1)
proof (induction ts arbitrary: prev)
  case Nil
  then show ?case by simp
next
  case (Cons h ts)
  obtain d b where h: "h = (d, b)" by fastforce
  have "\<forall>e\<in>set (balance_events eff (Some b) ts). (eff d, 1) \<le> (ev_eff e, event_prio (ev_kind e))"
  proof
    fix e assume e: "e \<in> set (balance_events eff (Some b) ts)"
    obtain h' where "h' \<in> set ts" "ev_eff e = eff (fst h')" using balance_events_eff_in [OF e] by blast
    then have "eff d \<le> ev_eff e" using Cons.prems assms(2) h by (auto dest: monoD)
    moreover have "event_prio (ev_kind e) = 1"
      using balance_events_kind [OF e] by (cases "ev_kind e") (auto simp: is_balance_def)
    ultimately show "(eff d, 1) \<le> (ev_eff e, event_prio (ev_kind e))" by (simp add: less_eq_prod_def)
  qed
  then show ?case using Cons h by simp
qed

lemma last_balance_events:
  assumes "sorted (map fst ts)" "mono eff" "prev = None \<or> prev = Some x"
  shows "last_balance x [e \<leftarrow> balance_events eff prev ts. ev_eff e \<le> d] =
    (case [h \<leftarrow> ts. eff (fst h) \<le> d] of [] \<Rightarrow> x | hs \<Rightarrow> snd (last hs))"
  using assms(1,3)
proof (induction ts arbitrary: prev x)
  case Nil
  then show ?case by (simp add: last_balance_def)
next
  case (Cons h ts)
  obtain dd b where h: "h = (dd, b)" by fastforce
  show ?case
  proof (cases "eff dd \<le> d")
    case True
    have IH: "last_balance b [e \<leftarrow> balance_events eff (Some b) ts. ev_eff e \<le> d] =
      (case [h \<leftarrow> ts. eff (fst h) \<le> d] of [] \<Rightarrow> b | hs \<Rightarrow> snd (last hs))"
      by (rule Cons.IH) (use Cons.prems in auto)
    have "last_balance x [e \<leftarrow> balance_events eff prev (h # ts). ev_eff e \<le> d] =
        last_balance b [e \<leftarrow> balance_events eff (Some b) ts. ev_eff e \<le> d]"
      using True Cons.prems(2) h by (auto simp: last_balance_def)
    then show ?thesis using IH True h by (simp split: list.splits)
  next
    case False
    have later: "\<not> eff (fst h') \<le> d" if "h' \<in> set (h # ts)" for h'
      using that Cons.prems(1) assms(2) False h by (auto dest: monoD order_trans)
    then have "[h' \<leftarrow> h # ts. eff (fst h') \<le> d] = []" by (auto simp: filter_empty_conv)
    moreover have "\<not> ev_eff e \<le> d" if "e \<in> set (balance_events eff prev (h # ts))" for e
      using balance_events_eff_in [OF that] later by metis
    then have "[e \<leftarrow> balance_events eff prev (h # ts). ev_eff e \<le> d] = []"
      unfolding filter_empty_conv by blast
    ultimately show ?thesis by (simp add: last_balance_def)
  qed
qed

lemma timeline_sorted: "sorted (map fst (input_timeline inp))"
proof -
  let ?h = "normalize_balances (ii_balances inp) (ii_to inp)"
  have "map fst ?h = sort (remdups [d \<leftarrow> map be_day (ii_balances inp). d \<le> ii_to inp])"
    by (simp add: normalize_balances_def comp_def)
  then have "sorted (map fst ?h)" by simp
  then have "sorted (map fst [x \<leftarrow> ?h. ii_from inp < fst x])" by (rule sorted_filter)
  then show ?thesis
    by (auto simp: input_timeline_def balance_timeline_def split: list.splits)
qed

lemma effective_mono: "0 \<le> shift \<Longrightarrow> mono (effective_day first shift)"
  by (auto intro!: monoI simp: effective_day_def)

text \<open>Without a pending payment the principal that accrues on a day is the balance history: the balance of
  the latest entry whose effective day (its value date, one day later under CM124.001) has come, and zero
  before the first. Rate changes and the overdue split never change it.\<close>

theorem principal_follows_balances:
  assumes "ii_payment inp = None"
  shows "outstanding (state_on inp d) =
    (case [h \<leftarrow> input_timeline inp. effective_day (ii_from inp) (day_shift inp) (fst h) \<le> d] of
       [] \<Rightarrow> 0 | hs \<Rightarrow> snd (last hs))"
proof -
  let ?eff = "effective_day (ii_from inp) (day_shift inp)" and ?ts = "input_timeline inp"
  let ?key = "\<lambda>e. (ev_eff e, event_prio (ev_kind e))"
  let ?raw = "rate_events inp (ii_from inp) (ii_to inp) ?eff @ balance_events ?eff None ?ts @
         overdue_events inp (ii_from inp) ?eff ?ts @ payment_events inp ?eff"
  have m: "mono ?eff" by (rule effective_mono) (simp add: day_shift_def)
  have ev: "input_events inp = sort_key ?key ?raw"
    by (simp add: input_events_def interest_events_def Let_def)
  have raw: "[e \<leftarrow> ?raw. is_balance e] = balance_events ?eff None ?ts"
    using assms rate_changes_kind balance_events_kind overdue_events_kind
    by (auto simp: payment_events_def rate_events_def is_balance_def Let_def filter_empty_conv intro!: filter_True)
  have nopay: "\<forall>e\<in>set (input_events inp). \<not> is_payment (ev_kind e)"
    using assms rate_changes_kind balance_events_kind overdue_events_kind
    unfolding ev by (auto simp: payment_events_def rate_events_def Let_def)
  have "[e \<leftarrow> input_events inp. is_balance e] = sort_key ?key (balance_events ?eff None ?ts)"
    unfolding ev filter_sort raw ..
  also have "\<dots> = balance_events ?eff None ?ts"
    by (rule sort_key_id_if_sorted) (rule balance_events_sorted [OF timeline_sorted m])
  finally have bal: "[e \<leftarrow> input_events inp. is_balance e] = balance_events ?eff None ?ts" .
  have "[e \<leftarrow> [e \<leftarrow> input_events inp. ev_eff e \<le> d]. is_balance e] =
      [e \<leftarrow> [e \<leftarrow> input_events inp. is_balance e]. ev_eff e \<le> d]"
    by (simp add: conj_commute)
  then have "outstanding (state_on inp d) = last_balance 0 [e \<leftarrow> balance_events ?eff None ?ts. ev_eff e \<le> d]"
    unfolding state_on_def bal using nopay
    by (subst outstanding_events) (auto simp: outstanding_def initial_state_def)
  also have "\<dots> = (case [h \<leftarrow> ?ts. ?eff (fst h) \<le> d] of [] \<Rightarrow> 0 | hs \<Rightarrow> snd (last hs))"
    by (rule last_balance_events [OF timeline_sorted m]) simp
  finally show ?thesis .
qed

section \<open>An example\<close>

definition demo_input :: interest_input where
  "demo_input = \<lparr>ii_from = 100, ii_to = 130, ii_date_method = ''CM124.001'', ii_settlement = False,
     ii_base_code = ''CSTL_02'', ii_round_no = 1, ii_round_type = ''CM163.001'',
     ii_balances = [\<lparr>be_day = 90, be_balance = 365000\<rparr>, \<lparr>be_day = 110, be_balance = 182500\<rparr>],
     ii_rates = [], ii_agreement_rate = Some 10, ii_agreement_over = Some 15,
     ii_overdue = Some \<lparr>od_day = 120, od_extension = False, od_grace = 0\<rparr>, ii_payment = None\<rparr>"

lemma demo_checked: "check_input demo_input = Inr 365"
  by code_simp

theorem interest_matches_daily_witness:
  "\<exists>res. calculate_interest div_half_away demo_input = Inr res \<and> ir_raw res = 2350 \<and>
     ir_days res = positive_days (state_on demo_input) [100..130] \<and>
     \<bar>ir_raw res - day_sum 365 (state_on demo_input) [100..130]\<bar> \<le> of_nat (length (ir_segments res)) / 10 ^ 10"
proof -
  have v: "map_sum id ir_raw (calculate_interest div_half_away demo_input) = Inr 2350" by code_simp
  then obtain res where res: "calculate_interest div_half_away demo_input = Inr res" "ir_raw res = 2350"
    by (cases "calculate_interest div_half_away demo_input") auto
  have p: "ii_from demo_input = 100" "last_counted demo_input = 130" by code_simp+
  show ?thesis
    using interest_matches_daily [OF dec.decimal_lib_axioms demo_checked _ res(1)] res unfolding p by auto
qed

definition gap_input :: interest_input where
  "gap_input = demo_input\<lparr>ii_agreement_over := None\<rparr>"

theorem interest_error_iff_rate_gap_witness:
  "calculate_interest div_half_away gap_input = Inl err_over_rate"
proof -
  have c: "check_input gap_input = Inr 365" "ii_from gap_input = 100" "last_counted gap_input = 130" by code_simp+
  have "rate_gap (state_on gap_input 125)" by code_simp
  then show ?thesis
    using interest_error_iff_rate_gap [OF dec.decimal_lib_axioms c(1)] unfolding c(2,3) by auto
qed

theorem principal_follows_balances_witness:
  "outstanding (state_on demo_input 110) = 365000 \<and> outstanding (state_on demo_input 111) = 182500"
proof -
  have n: "ii_payment demo_input = None" by (simp add: demo_input_def)
  have "(case [h \<leftarrow> input_timeline demo_input. effective_day (ii_from demo_input) (day_shift demo_input) (fst h) \<le> 110] of
       [] \<Rightarrow> 0 | hs \<Rightarrow> snd (last hs)) = (365000 :: rat)"
    "(case [h \<leftarrow> input_timeline demo_input. effective_day (ii_from demo_input) (day_shift demo_input) (fst h) \<le> 111] of
       [] \<Rightarrow> 0 | hs \<Rightarrow> snd (last hs)) = (182500 :: rat)"
    by code_simp+
  then show ?thesis by (simp only: principal_follows_balances [OF n] simp_thms)
qed

end
