(* ===== verification/Loan_Config.thy ===== *)
theory Loan_Config
  imports Loan_Interest
begin

text \<open>
  The versioned interest configuration of a loan product
  (apps/loan-service/internal/domain/interest_config.go): validation of a stored row, and the
  choice of the version in force for an organisation and a day.
\<close>

definition err_config_request :: string where "err_config_request = ''lnm.product_config.request_invalid''"
definition err_config_not_found :: string where "err_config_not_found = ''lnm.product_config.not_found''"
definition err_config_invalid :: string where "err_config_invalid = ''lnm.product_config.invalid''"
definition err_calc_method :: string where "err_calc_method = ''lnm.interest.calc_method_unsupported''"
definition err_start_method :: string where "err_start_method = ''lnm.interest.start_method_unsupported''"
definition err_overdue_check :: string where "err_overdue_check = ''lnm.interest.overdue_check_unsupported''"
definition err_grace_missing :: string where "err_grace_missing = ''lnm.product_config.grace_days_missing''"
definition err_overdue_rate_missing :: string where
  "err_overdue_rate_missing = ''lnm.product_config.overdue_rate_missing''"

record interest_config_record =
  cr_id :: string
  cr_tenant :: string
  cr_product :: string
  cr_org :: "string option"
  cr_effective :: string
  cr_base_code :: string
  cr_calc_method :: string
  cr_date_method :: string
  cr_start_method :: string
  cr_overdue_check :: string
  cr_round_no :: int
  cr_round_type :: string
  cr_grace_days :: "int option"
  cr_overdue_rate_type :: "string option"
  cr_overdue_rate_value :: "rat option"

record interest_config =
  cf_id :: string
  cf_org :: string
  cf_effective :: string
  cf_base_code :: string
  cf_year_days :: int
  cf_date_method :: string
  cf_round_no :: int
  cf_round_type :: string
  cf_grace_days :: "int option"
  cf_overdue_rate :: "rat option"

definition grace_days :: "interest_config \<Rightarrow> string + int" where
  "grace_days c = (case cf_grace_days c of None \<Rightarrow> Inl err_grace_missing | Some d \<Rightarrow> Inr d)"

definition overdue_rate :: "interest_config \<Rightarrow> string + rat" where
  "overdue_rate c = (case cf_overdue_rate c of None \<Rightarrow> Inl err_overdue_rate_missing | Some r \<Rightarrow> Inr r)"

definition apply_config :: "interest_config \<Rightarrow> interest_input \<Rightarrow> interest_input" where
  "apply_config c inp =
     inp\<lparr>ii_base_code := cf_base_code c, ii_date_method := cf_date_method c,
         ii_round_no := cf_round_no c, ii_round_type := cf_round_type c\<rparr>"

section \<open>Validating a row\<close>

text \<open>A code that has a supported value, and at most one known but unsupported one.\<close>

definition check_code :: "string \<Rightarrow> string \<Rightarrow> string \<Rightarrow> string \<Rightarrow> string option" where
  "check_code code supported unsupported err =
     (if code = supported then None else if code = unsupported then Some err else Some err_config_invalid)"

definition check_overdue_rate :: "interest_config_record \<Rightarrow> string + rat option" where
  "check_overdue_rate r =
     (case (cr_overdue_rate_type r, cr_overdue_rate_value r) of
        (None, None) \<Rightarrow> Inr None
      | (Some t, Some v) \<Rightarrow>
          if t \<noteq> ''CM127.001'' then Inl err_config_invalid
          else if v < 0 then Inl err_config_invalid else Inr (Some v)
      | _ \<Rightarrow> Inl err_config_invalid)"

definition check_grace_days :: "interest_config_record \<Rightarrow> string option" where
  "check_grace_days r =
     (case cr_grace_days r of Some d \<Rightarrow> if d < 0 then Some err_config_invalid else None | None \<Rightarrow> None)"

text \<open>The checks of \<open>ParseInterestConfig\<close> after the year basis, first problem first.\<close>

definition row_checks :: "interest_config_record \<Rightarrow> string option list" where
  "row_checks r =
     [check_code (cr_calc_method r) ''CM123.001'' ''CM123.002'' err_calc_method,
      if cr_date_method r = skip_first_day \<or> cr_date_method r = skip_last_day then None else Some err_config_invalid,
      check_code (cr_start_method r) ''CM125.001'' ''CM125.002'' err_start_method,
      check_code (cr_overdue_check r) ''CM126.001'' ''CM126.002'' err_overdue_check,
      if validate_round_type (cr_round_type r) = None then None else Some err_config_invalid,
      if cr_round_no r < 0 then Some err_config_invalid else None,
      check_grace_days r]"

fun first_error :: "string option list \<Rightarrow> string option" where
  "first_error [] = None"
| "first_error (Some e # _) = Some e"
| "first_error (None # es) = first_error es"

definition parse_interest_config :: "interest_config_record \<Rightarrow> string + interest_config" where
  "parse_interest_config r =
     (case interest_base_days (cr_base_code r) of
        Inl err \<Rightarrow> Inl err
      | Inr days \<Rightarrow>
        (case first_error (row_checks r) of
           Some err \<Rightarrow> Inl err
         | None \<Rightarrow>
           (case check_overdue_rate r of
              Inl err \<Rightarrow> Inl err
            | Inr rate \<Rightarrow>
              Inr \<lparr>cf_id = cr_id r, cf_org = (case cr_org r of None \<Rightarrow> [] | Some org \<Rightarrow> org),
                   cf_effective = cr_effective r, cf_base_code = cr_base_code r, cf_year_days = days,
                   cf_date_method = cr_date_method r, cf_round_no = cr_round_no r, cf_round_type = cr_round_type r,
                   cf_grace_days = cr_grace_days r, cf_overdue_rate = rate\<rparr>)))"

section \<open>The version in force\<close>

definition is_iso_day :: "string \<Rightarrow> bool" where
  "is_iso_day s = (case parse_iso s of None \<Rightarrow> False | Some c \<Rightarrow> format_iso c = s)"

text \<open>The loop of \<open>versionInForce\<close>: the best row so far and whether another shares its date.\<close>

fun scan_versions ::
  "string \<Rightarrow> interest_config_record option \<Rightarrow> bool \<Rightarrow> interest_config_record list \<Rightarrow>
   string + interest_config_record option" where
  "scan_versions as_of best tied [] = (if tied then Inl err_config_invalid else Inr best)"
| "scan_versions as_of best tied (r # rs) =
     (if \<not> is_iso_day (cr_effective r) then Inl err_config_invalid
      else if str_lt as_of (cr_effective r) then scan_versions as_of best tied rs
      else case best of
        None \<Rightarrow> scan_versions as_of (Some r) False rs
      | Some b \<Rightarrow>
          if str_lt (cr_effective b) (cr_effective r) then scan_versions as_of (Some r) False rs
          else if cr_effective r = cr_effective b then scan_versions as_of best True rs
          else scan_versions as_of best tied rs)"

definition version_in_force ::
  "interest_config_record list \<Rightarrow> string \<Rightarrow> string + interest_config_record option" where
  "version_in_force rows as_of = scan_versions as_of None False rows"

definition tenant_rows :: "interest_config_record list \<Rightarrow> interest_config_record list" where
  "tenant_rows records = [r \<leftarrow> records. cr_org r = None]"

definition org_rows :: "string \<Rightarrow> interest_config_record list \<Rightarrow> interest_config_record list" where
  "org_rows org records = [r \<leftarrow> records. org \<noteq> [] \<and> cr_org r = Some org]"

definition resolve_interest_config ::
  "interest_config_record list \<Rightarrow> string \<Rightarrow> string \<Rightarrow> string + interest_config" where
  "resolve_interest_config records org as_of =
     (if \<not> is_iso_day as_of then Inl err_config_request
      else case version_in_force (org_rows org records) as_of of
        Inl err \<Rightarrow> Inl err
      | Inr (Some r) \<Rightarrow> parse_interest_config r
      | Inr None \<Rightarrow>
          (case version_in_force (tenant_rows records) as_of of
             Inl err \<Rightarrow> Inl err
           | Inr (Some r) \<Rightarrow> parse_interest_config r
           | Inr None \<Rightarrow> Inl err_config_not_found))"

section \<open>Properties\<close>

lemma is_iso_day_iff: "is_iso_day s \<longleftrightarrow> (\<exists>c. parse_iso s = Some c)"
  by (auto simp: is_iso_day_def format_parse_iso split: option.splits)

text \<open>On ISO texts, string order is day order.\<close>

lemma str_lt_iso:
  "is_iso_day s \<Longrightarrow> is_iso_day t \<Longrightarrow> str_lt s t \<longleftrightarrow> iso_day s < iso_day t"
  by (auto simp: is_iso_day_iff iso_day_def iso_order)

lemma iso_day_inj: "is_iso_day s \<Longrightarrow> is_iso_day t \<Longrightarrow> s = t \<longleftrightarrow> iso_day s = iso_day t"
proof -
  assume "is_iso_day s" "is_iso_day t"
  then obtain a b where ab: "parse_iso s = Some a" "parse_iso t = Some b" by (auto simp: is_iso_day_iff)
  have "iso_day s = civil_day a" "iso_day t = civil_day b" using ab by (simp_all add: iso_day_def)
  moreover have "civil_day a = civil_day b \<Longrightarrow> a = b"
    by (rule civil_day_inj [OF parse_iso_SomeD(6) [OF ab(1)] parse_iso_SomeD(6) [OF ab(2)]])
  moreover have "a = b \<Longrightarrow> s = t" using parse_iso_inj [OF ab(1)] ab(2) by blast
  moreover have "s = t \<Longrightarrow> a = b" using ab by simp
  ultimately show ?thesis by metis
qed

abbreviation "row_day r \<equiv> iso_day (cr_effective r)"

text \<open>The rows in force on a day, and those of them that are not older than \<open>r\<close>.\<close>

definition rows_upto :: "interest_config_record list \<Rightarrow> string \<Rightarrow> interest_config_record list" where
  "rows_upto rows as_of = [x \<leftarrow> rows. row_day x \<le> iso_day as_of]"

definition not_older :: "interest_config_record list \<Rightarrow> interest_config_record \<Rightarrow> interest_config_record list" where
  "not_older rows r = [x \<leftarrow> rows. row_day r \<le> row_day x]"

definition scan_inv :: "interest_config_record list \<Rightarrow> interest_config_record option \<Rightarrow> bool \<Rightarrow> bool" where
  "scan_inv cands best tied =
     (case best of
        None \<Rightarrow> \<not> tied \<and> cands = []
      | Some b \<Rightarrow> (\<forall>x\<in>set cands. row_day x \<le> row_day b) \<and> (\<not> tied \<longrightarrow> not_older cands b = [b]))"

lemma scan_versions_inv:
  assumes "scan_versions as_of best tied rs = Inr res" "is_iso_day as_of"
    and "scan_inv (rows_upto pre as_of) best tied"
    and "case best of None \<Rightarrow> True | Some b \<Rightarrow> is_iso_day (cr_effective b)"
  shows "scan_inv (rows_upto (pre @ rs) as_of) res False"
  using assms(1,3,4)
proof (induction rs arbitrary: pre best tied)
  case Nil
  then show ?case by (auto split: if_splits)
next
  case (Cons r rs)
  have iso: "is_iso_day (cr_effective r)" using Cons.prems(1) by (auto split: if_splits)
  have app: "rows_upto (pre @ [r]) as_of = rows_upto pre as_of @ (if row_day r \<le> iso_day as_of then [r] else [])"
    by (simp add: rows_upto_def)
  have late: "str_lt as_of (cr_effective r) \<longleftrightarrow> \<not> row_day r \<le> iso_day as_of"
    using str_lt_iso [OF assms(2) iso] by auto
  have goal: "scan_inv (rows_upto (pre @ r # rs) as_of) res False"
    if "scan_versions as_of best' tied' rs = Inr res" "scan_inv (rows_upto (pre @ [r]) as_of) best' tied'"
      "case best' of None \<Rightarrow> True | Some b \<Rightarrow> is_iso_day (cr_effective b)" for best' tied'
    using Cons.IH [OF that] by simp
  show ?case
  proof (cases "row_day r \<le> iso_day as_of")
    case False
    then show ?thesis using goal [of best tied] Cons.prems iso late by (simp add: app)
  next
    case True
    show ?thesis
    proof (cases best)
      case None
      then show ?thesis using goal [of "Some r" False] Cons.prems iso late True
        by (simp add: app scan_inv_def not_older_def)
    next
      case (Some b)
      have isob: "is_iso_day (cr_effective b)" using Cons.prems(3) Some by simp
      note lt = str_lt_iso [OF isob iso] and eq = iso_day_inj [OF iso isob]
      have max: "\<forall>x\<in>set (rows_upto pre as_of). row_day x \<le> row_day b"
        and uniq: "\<not> tied \<longrightarrow> not_older (rows_upto pre as_of) b = [b]"
        using Cons.prems(2) Some by (auto simp: scan_inv_def)
      consider "row_day b < row_day r" | "row_day b = row_day r" | "row_day r < row_day b" by linarith
      then show ?thesis
      proof cases
        case 1
        then have "\<forall>x\<in>set (rows_upto pre as_of). \<not> row_day r \<le> row_day x" using max by force
        then have "not_older (rows_upto pre as_of) r = []" by (simp add: not_older_def filter_empty_conv)
        moreover have "\<forall>x\<in>set (rows_upto pre as_of). row_day x \<le> row_day r" using max 1 by force
        ultimately have "scan_inv (rows_upto (pre @ [r]) as_of) (Some r) False"
          using True by (simp add: app scan_inv_def not_older_def)
        then show ?thesis using goal [of "Some r" False] Cons.prems(1) Some True iso late lt 1 by simp
      next
        case 2
        then have "scan_inv (rows_upto (pre @ [r]) as_of) (Some b) True"
          using True max by (simp add: app scan_inv_def)
        then show ?thesis using goal [of "Some b" True] Cons.prems(1) Some True iso isob late lt eq 2 by simp
      next
        case 3
        then have "scan_inv (rows_upto (pre @ [r]) as_of) (Some b) tied"
          using True max uniq by (simp add: app scan_inv_def not_older_def)
        then show ?thesis using goal [of "Some b" tied] Cons.prems(1) Some True iso isob late lt eq 3 by simp
      qed
    qed
  qed
qed

lemma version_in_force_Some:
  "version_in_force rows as_of = Inr (Some r) \<Longrightarrow> is_iso_day as_of \<Longrightarrow> not_older (rows_upto rows as_of) r = [r]"
  using scan_versions_inv [of as_of None False rows "Some r" "[]"]
  by (simp add: version_in_force_def scan_inv_def rows_upto_def)

lemma version_in_force_None:
  "version_in_force rows as_of = Inr None \<Longrightarrow> is_iso_day as_of \<Longrightarrow> rows_upto rows as_of = []"
  using scan_versions_inv [of as_of None False rows None "[]"]
  by (simp add: version_in_force_def scan_inv_def rows_upto_def)

text \<open>The configuration in force is the right version: it is the validated row of the organisation, or with
  no row of the organisation in force the tenant-wide row, whose effective date is not after the day asked for
  and which is the only row of its scope that is not older than itself: the newest, without a tie.\<close>

theorem config_in_force:
  assumes "resolve_interest_config records org as_of = Inr cfg"
  shows "\<exists>r\<in>set records. parse_interest_config r = Inr cfg \<and> row_day r \<le> iso_day as_of \<and>
    (cr_org r = Some org \<and> org \<noteq> [] \<and> not_older (rows_upto (org_rows org records) as_of) r = [r] \<or>
     cr_org r = None \<and> rows_upto (org_rows org records) as_of = [] \<and>
       not_older (rows_upto (tenant_rows records) as_of) r = [r])"
proof -
  have iso: "is_iso_day as_of" using assms by (auto simp: resolve_interest_config_def split: if_splits)
  have mem: "x \<in> set rows \<and> row_day x \<le> iso_day as_of" if "not_older (rows_upto rows as_of) x = [x]" for rows x
  proof -
    have "x \<in> set (not_older (rows_upto rows as_of) x)" unfolding that by simp
    then show ?thesis by (simp add: not_older_def rows_upto_def)
  qed
  consider r where "version_in_force (org_rows org records) as_of = Inr (Some r)" "parse_interest_config r = Inr cfg"
    | r where "version_in_force (org_rows org records) as_of = Inr None"
        "version_in_force (tenant_rows records) as_of = Inr (Some r)" "parse_interest_config r = Inr cfg"
    using assms iso by (auto simp: resolve_interest_config_def split: sum.splits option.splits)
  then show ?thesis
  proof cases
    case 1
    note s = version_in_force_Some [OF 1(1) iso]
    from mem [OF s] have "r \<in> set records" "cr_org r = Some org" "org \<noteq> []" "row_day r \<le> iso_day as_of"
      by (auto simp: org_rows_def)
    with s 1(2) show ?thesis by blast
  next
    case 2
    note s = version_in_force_Some [OF 2(2) iso] and n = version_in_force_None [OF 2(1) iso]
    from mem [OF s] have "r \<in> set records" "cr_org r = None" "row_day r \<le> iso_day as_of"
      by (auto simp: tenant_rows_def)
    with s n 2(3) show ?thesis by blast
  qed
qed

lemma parse_config_fields:
  assumes "parse_interest_config r = Inr cfg"
  shows "interest_base_days (cf_base_code cfg) = Inr (cf_year_days cfg)" "validate_date_method (cf_date_method cfg) = None"
    "validate_round_type (cf_round_type cfg) = None" "0 \<le> cf_round_no cfg"
    "case cf_grace_days cfg of None \<Rightarrow> True | Some d \<Rightarrow> 0 \<le> d" "case cf_overdue_rate cfg of None \<Rightarrow> True | Some v \<Rightarrow> 0 \<le> v"
proof -
  obtain days rate where days: "interest_base_days (cr_base_code r) = Inr days"
    and checks: "first_error (row_checks r) = None" and rate: "check_overdue_rate r = Inr rate"
    and cfg: "cfg = \<lparr>cf_id = cr_id r, cf_org = (case cr_org r of None \<Rightarrow> [] | Some org \<Rightarrow> org),
                   cf_effective = cr_effective r, cf_base_code = cr_base_code r, cf_year_days = days,
                   cf_date_method = cr_date_method r, cf_round_no = cr_round_no r, cf_round_type = cr_round_type r,
                   cf_grace_days = cr_grace_days r, cf_overdue_rate = rate\<rparr>"
    using assms by (auto simp: parse_interest_config_def split: sum.splits option.splits)
  have err: "first_error es = None \<Longrightarrow> e \<in> set es \<Longrightarrow> e = None" for es e
    by (induction es rule: first_error.induct) auto
  have all: "e = None" if "e \<in> set (row_checks r)" for e using err [OF checks that] .
  have c: "(if cr_date_method r = skip_first_day \<or> cr_date_method r = skip_last_day then None else Some err_config_invalid) = None"
    "(if validate_round_type (cr_round_type r) = None then None else Some err_config_invalid) = None"
    "(if cr_round_no r < 0 then Some err_config_invalid else None) = None" "check_grace_days r = None"
    by (rule all; simp add: row_checks_def)+
  show "interest_base_days (cf_base_code cfg) = Inr (cf_year_days cfg)" using days cfg by simp
  show "validate_date_method (cf_date_method cfg) = None" using c(1) cfg by (auto simp: validate_date_method_def split: if_splits)
  show "validate_round_type (cf_round_type cfg) = None" using c(2) cfg by (auto split: if_splits)
  show "0 \<le> cf_round_no cfg" using c(3) cfg by (auto split: if_splits)
  show "case cf_grace_days cfg of None \<Rightarrow> True | Some d \<Rightarrow> 0 \<le> d"
    using c(4) cfg by (auto simp: check_grace_days_def split: option.splits if_splits)
  show "case cf_overdue_rate cfg of None \<Rightarrow> True | Some v \<Rightarrow> 0 \<le> v"
    using rate cfg by (auto simp: check_overdue_rate_def split: option.splits if_splits)
qed

text \<open>A configuration that validates is one the calculator accepts: with its settings applied, any input with
  a balance history passes the calculator's own checks, on the year basis of the configuration, and its grace
  days and overdue rate, when present, are not negative.\<close>

theorem config_accepted_by_calculator:
  assumes "parse_interest_config r = Inr cfg" "normalize_balances (ii_balances inp) (ii_to inp) \<noteq> []"
  shows "check_input (apply_config cfg inp) = Inr (cf_year_days cfg) \<and>
    grace_days cfg \<in> {Inl err_grace_missing} \<union> Inr ` {0..} \<and> overdue_rate cfg \<in> {Inl err_overdue_rate_missing} \<union> Inr ` {0..}"
  using parse_config_fields [OF assms(1)] assms(2)
  by (auto simp: check_input_def apply_config_def grace_days_def overdue_rate_def split: option.splits)

definition demo_row :: "string option \<Rightarrow> string \<Rightarrow> interest_config_record" where
  "demo_row org eff = \<lparr>cr_id = ''v'' @ eff, cr_tenant = ''t1'', cr_product = ''P1'', cr_org = org, cr_effective = eff, cr_base_code = ''CSTL_02'',
     cr_calc_method = ''CM123.001'', cr_date_method = ''CM124.002'', cr_start_method = ''CM125.001'',
     cr_overdue_check = ''CM126.001'', cr_round_no = 1000, cr_round_type = ''CM163.003'', cr_grace_days = None,
     cr_overdue_rate_type = Some ''CM127.001'', cr_overdue_rate_value = Some 150\<rparr>"

definition demo_rows :: "interest_config_record list" where
  "demo_rows = [demo_row None ''2026-01-01'', demo_row (Some ''HN'') ''2026-03-01'', demo_row (Some ''HN'') ''2026-06-01'']"

theorem config_in_force_witness:
  "resolve_interest_config demo_rows ''HN'' ''2026-04-15'' = parse_interest_config (demo_row (Some ''HN'') ''2026-03-01'') \<and>
   (\<exists>r\<in>set demo_rows. row_day r \<le> iso_day ''2026-04-15'')"
proof -
  obtain cfg where c: "resolve_interest_config demo_rows ''HN'' ''2026-04-15'' = Inr cfg"
    "parse_interest_config (demo_row (Some ''HN'') ''2026-03-01'') = Inr cfg"
  proof -
    have "resolve_interest_config demo_rows ''HN'' ''2026-04-15'' = parse_interest_config (demo_row (Some ''HN'') ''2026-03-01'')"
      "isl (parse_interest_config (demo_row (Some ''HN'') ''2026-03-01'')) = False"
      by code_simp+
    then show thesis using that by (cases "parse_interest_config (demo_row (Some ''HN'') ''2026-03-01'')") auto
  qed
  then show ?thesis using config_in_force [OF c(1)] by auto
qed

theorem config_accepted_by_calculator_witness:
  "\<exists>cfg. parse_interest_config (demo_row None ''2026-01-01'') = Inr cfg \<and>
     check_input (apply_config cfg demo_input) = Inr (cf_year_days cfg)"
proof -
  have "isl (parse_interest_config (demo_row None ''2026-01-01'')) = False" by code_simp
  then obtain cfg where c: "parse_interest_config (demo_row None ''2026-01-01'') = Inr cfg"
    by (cases "parse_interest_config (demo_row None ''2026-01-01'')") auto
  have "normalize_balances (ii_balances demo_input) (ii_to demo_input) \<noteq> []" by code_simp
  from config_accepted_by_calculator [OF c this] c show ?thesis by blast
qed

end
