(* ===== verification/Money.thy ===== *)
theory Money
  imports Decimal
begin

text \<open>
  libs/go/arda-money/money.go: the currency exponents, the conversions between minor units (Go
  \<open>int64\<close>) and decimals, rounding to the currency, monthly interest, and the even allocation of a
  total. \<open>dr\<close> and \<open>rt\<close> are the decimal library's \<open>DivRound\<close> and \<open>Round\<close>.
\<close>

definition currency_exponents :: "(string \<times> nat) list" where
  "currency_exponents =
     [(''VND'', 0), (''JPY'', 0), (''KRW'', 0), (''BHD'', 3), (''IQD'', 3), (''JOD'', 3), (''KWD'', 3),
      (''LYD'', 3), (''OMR'', 3), (''TND'', 3)]"

definition exponent :: "string \<Rightarrow> nat" where
  "exponent currency =
     (case map_of currency_exponents (to_upper (trim_space currency)) of Some e \<Rightarrow> e | None \<Rightarrow> 2)"

definition from_minor :: "int \<Rightarrow> string \<Rightarrow> rat" where
  "from_minor minor currency = of_int minor / 10 ^ exponent currency"

definition to_minor :: "(rat \<Rightarrow> nat \<Rightarrow> rat) \<Rightarrow> rat \<Rightarrow> string \<Rightarrow> string + int" where
  "to_minor rt value currency =
     (let minor = rt (value * 10 ^ exponent currency) 0
      in if minor \<noteq> of_int \<lfloor>minor\<rfloor> \<or> 9223372036854775807 < minor \<or> minor < -9223372036854775808
         then Inl ''arda-money: minor amount overflows int64''
         else Inr \<lfloor>minor\<rfloor>)"

definition round_money :: "(rat \<Rightarrow> nat \<Rightarrow> rat) \<Rightarrow> rat \<Rightarrow> string \<Rightarrow> rat" where
  "round_money rt value currency = rt value (exponent currency)"

definition monthly_interest ::
  "(rat \<Rightarrow> rat \<Rightarrow> nat \<Rightarrow> rat) \<Rightarrow> (rat \<Rightarrow> nat \<Rightarrow> rat) \<Rightarrow> rat \<Rightarrow> rat \<Rightarrow> string \<Rightarrow> rat" where
  "monthly_interest dr rt prin rate currency =
     (let prin = (if prin < 0 then 0 else prin)
      in round_money rt (dec_div dr (dec_div dr (prin * rate) 100) 12) currency)"

text \<open>The loop of \<open>AllocateEven\<close> that hands the rounding remainder \<open>diff\<close> to the first shares.\<close>

fun spread :: "rat \<Rightarrow> rat \<Rightarrow> rat list \<Rightarrow> rat list" where
  "spread one diff [] = []"
| "spread one diff (s # ss) =
     (if diff = 0 then s # ss
      else if one \<le> diff then (s + one) # spread one (diff - one) ss
      else if diff \<le> - one then (s - one) # spread one (diff + one) ss
      else (s + diff) # spread one 0 ss)"

definition allocate_even ::
  "(rat \<Rightarrow> rat \<Rightarrow> nat \<Rightarrow> rat) \<Rightarrow> (rat \<Rightarrow> nat \<Rightarrow> rat) \<Rightarrow> rat \<Rightarrow> int \<Rightarrow> string \<Rightarrow> rat list" where
  "allocate_even dr rt amount parts currency =
     (if parts \<le> 0 then []
      else let amount = round_money rt amount currency;
               share = round_money rt (dec_div dr amount (of_int parts)) currency;
               shares = replicate (nat parts) share;
               diff = amount - sum_list shares
           in spread (1 / 10 ^ exponent currency) diff shares)"

definition sub_floor :: "rat \<Rightarrow> rat \<Rightarrow> rat" where
  "sub_floor value subtrahend = (let result = value - subtrahend in if result < 0 then 0 else result)"

section \<open>Lemmas\<close>

lemma exponent_le: "exponent currency \<le> 3"
proof (cases "map_of currency_exponents (to_upper (trim_space currency))")
  case None
  then show ?thesis by (simp add: exponent_def)
next
  case (Some e)
  then have "(to_upper (trim_space currency), e) \<in> set currency_exponents" by (rule map_of_SomeD)
  then have "e \<le> 3" by (auto simp: currency_exponents_def)
  with Some show ?thesis by (simp add: exponent_def)
qed

lemma spread_sum:
  assumes "0 < one" "diff = of_int k * one" "\<bar>k\<bar> \<le> int (length ss)"
  shows "sum_list (spread one diff ss) = sum_list ss + diff \<and> length (spread one diff ss) = length ss"
  using assms(2,3)
proof (induction ss arbitrary: diff k)
  case Nil
  then show ?case by simp
next
  case (Cons s ss)
  consider "k = 0" | "0 < k" | "k < 0" by linarith
  then show ?case
  proof cases
    case 1
    with Cons.prems show ?thesis by simp
  next
    case 2
    then have "1 \<le> k" by simp
    then have le: "one \<le> diff" using assms(1) Cons.prems(1) by (simp add: mult_le_cancel_right1)
    have "diff - one = of_int (k - 1) * one" using Cons.prems(1) by (simp add: left_diff_distrib)
    moreover have "\<bar>k - 1\<bar> \<le> int (length ss)" using 2 Cons.prems(2) by simp
    ultimately have "sum_list (spread one (diff - one) ss) = sum_list ss + (diff - one) \<and>
        length (spread one (diff - one) ss) = length ss" by (rule Cons.IH)
    moreover have "diff \<noteq> 0" using le assms(1) by simp
    ultimately show ?thesis using le by simp
  next
    case 3
    then have "k \<le> -1" by simp
    then have "of_int k * one \<le> (-1) * one" using assms(1) by (intro mult_right_mono) (simp_all add: of_int_le_iff [of k "-1", simplified])
    then have le: "diff \<le> - one" using Cons.prems(1) by simp
    have "diff + one = of_int (k + 1) * one" using Cons.prems(1) by (simp add: distrib_right)
    moreover have "\<bar>k + 1\<bar> \<le> int (length ss)" using 3 Cons.prems(2) by simp
    ultimately have "sum_list (spread one (diff + one) ss) = sum_list ss + (diff + one) \<and>
        length (spread one (diff + one) ss) = length ss" by (rule Cons.IH)
    moreover have "\<not> one \<le> diff" "diff \<noteq> 0" using le assms(1) by simp_all
    ultimately show ?thesis using le by simp
  qed
qed

lemma spread_near:
  assumes "0 < one" "\<forall>s\<in>set ss. s = share"
  shows "\<forall>x\<in>set (spread one diff ss). \<bar>x - share\<bar> \<le> one"
  using assms(2)
proof (induction ss arbitrary: diff)
  case Nil
  then show ?case by simp
next
  case (Cons s ss)
  then have s: "s = share" and IH: "\<forall>x\<in>set (spread one d ss). \<bar>x - share\<bar> \<le> one" for d by auto
  then show ?case using assms(1) Cons.prems IH by (auto simp: abs_le_iff)
qed

context decimal_lib
begin

text \<open>The remainder of an even split is a whole number of minor units, at most one per share.\<close>

lemma allocation_remainder:
  assumes "0 < n" "on_grid e t" "e \<le> 16"
  defines "share \<equiv> round_to (div_round t (of_int n) 16) e"
  shows "\<exists>k. t - of_int n * share = of_int k * (1 / 10 ^ e) \<and> \<bar>k\<bar> \<le> n"
proof -
  let ?q = "div_round t (of_int n) 16"
  have n0: "(of_int n :: rat) \<noteq> 0" "(0::rat) < of_int n" using assms(1) by simp_all
  have "on_grid e (t - of_int n * share)"
    unfolding share_def by (rule on_grid_diff [OF assms(2) on_grid_mult_int [OF round_grid]])
  then obtain k where k: "(t - of_int n * share) * 10 ^ e = of_int k"
    by (auto simp: on_grid_def Ints_def)
  have p: "(10::rat) ^ e \<le> 10 ^ 16" using assms(3) by (intro power_increasing) auto
  have d1: "\<bar>?q - t / of_int n\<bar> \<le> 1 / (2 * 10 ^ e)"
    using div_error [OF n0(1), of t 16] p by (intro order_trans [OF div_error [OF n0(1)]] divide_left_mono) auto
  have d2: "\<bar>share - ?q\<bar> \<le> 1 / (2 * 10 ^ e)" unfolding share_def by (rule round_error)
  have "\<bar>share - t / of_int n\<bar> \<le> \<bar>share - ?q\<bar> + \<bar>?q - t / of_int n\<bar>" by simp
  also have "\<dots> \<le> 1 / (2 * 10 ^ e) + 1 / (2 * 10 ^ e)" by (rule add_mono [OF d2 d1])
  also have "\<dots> = 1 / 10 ^ e" by simp
  finally have near: "\<bar>share - t / of_int n\<bar> \<le> 1 / 10 ^ e" .
  have "t - of_int n * share = of_int n * (t / of_int n - share)" using n0 by (simp add: right_diff_distrib)
  then have "\<bar>t - of_int n * share\<bar> = of_int n * \<bar>share - t / of_int n\<bar>"
    using n0(2) by (simp add: abs_mult abs_minus_commute)
  also have "\<dots> \<le> of_int n * (1 / 10 ^ e)" using near n0(2) by (intro mult_left_mono) auto
  finally have "\<bar>t - of_int n * share\<bar> * 10 ^ e \<le> of_int n" by (simp add: field_simps)
  then have "\<bar>of_int k\<bar> \<le> (of_int n :: rat)" using k by (simp add: abs_mult flip: k)
  then have "\<bar>k\<bar> \<le> n" by (simp only: flip: of_int_abs of_int_le_iff [where ?'a = rat])
  moreover have "t - of_int n * share = of_int k * (1 / 10 ^ e)" using k by (simp add: field_simps)
  ultimately show ?thesis by blast
qed

end

section \<open>Properties\<close>

text \<open>C14. Minor units survive the round trip through decimals: converting an int64 amount to major units and
  back gives the amount, for every currency.\<close>

theorem minor_roundtrip:
  assumes "decimal_lib dr rt" "in64 m"
  shows "to_minor rt (from_minor m currency) currency = Inr m"
proof -
  have "rt (of_int m) 0 = of_int m"
    by (rule decimal_lib.round_on_grid [OF assms(1)]) simp
  then show ?thesis
    using assms(2) by (simp add: to_minor_def from_minor_def in64_def Let_def)
qed

theorem minor_roundtrip_witness:
  "to_minor round_half_away (from_minor 123456 ''usd'') ''usd'' = Inr 123456"
  by (rule minor_roundtrip [OF dec.decimal_lib_axioms]) (simp add: in64_def)

text \<open>The even allocation of a total is exact: it yields the requested number of shares, they add up to
  the total rounded to the currency's minor unit, and no two shares differ by more than two minor units.\<close>

theorem allocate_even_exact:
  assumes "decimal_lib dr rt" "0 < parts"
  shows "length (allocate_even dr rt amount parts currency) = nat parts \<and>
    sum_list (allocate_even dr rt amount parts currency) = round_money rt amount currency \<and>
    (\<forall>x\<in>set (allocate_even dr rt amount parts currency). \<forall>y\<in>set (allocate_even dr rt amount parts currency).
       \<bar>x - y\<bar> \<le> 2 / 10 ^ exponent currency)"
proof -
  let ?e = "exponent currency" and ?t = "round_money rt amount currency"
  let ?share = "round_money rt (dec_div dr ?t (of_int parts)) currency"
  let ?ss = "replicate (nat parts) ?share"
  let ?diff = "?t - sum_list ?ss"
  have grid: "on_grid ?e ?t" unfolding round_money_def by (rule decimal_lib.round_grid [OF assms(1)])
  have e: "?e \<le> 16" using exponent_le [of currency] by simp
  have sum: "sum_list ?ss = of_int parts * ?share" using assms(2) by (simp add: sum_list_replicate)
  obtain k where k: "?diff = of_int k * (1 / 10 ^ ?e)" "\<bar>k\<bar> \<le> parts"
    using decimal_lib.allocation_remainder [OF assms(1,2) grid e, folded dec_div_def, folded round_money_def [of rt]]
    unfolding sum by blast
  have one: "(0::rat) < 1 / 10 ^ ?e" by simp
  have r: "allocate_even dr rt amount parts currency = spread (1 / 10 ^ ?e) ?diff ?ss"
    using assms(2) by (simp add: allocate_even_def Let_def)
  have "\<bar>k\<bar> \<le> int (length ?ss)" using k(2) assms(2) by simp
  note sp = spread_sum [OF one k(1) this]
  have near: "\<forall>x\<in>set (spread (1 / 10 ^ ?e) ?diff ?ss). \<bar>x - ?share\<bar> \<le> 1 / 10 ^ ?e"
    by (rule spread_near [OF one]) simp
  have "\<bar>x - y\<bar> \<le> 2 / 10 ^ ?e"
    if "x \<in> set (spread (1 / 10 ^ ?e) ?diff ?ss)" "y \<in> set (spread (1 / 10 ^ ?e) ?diff ?ss)" for x y
  proof -
    have "\<bar>x - y\<bar> \<le> \<bar>x - ?share\<bar> + \<bar>y - ?share\<bar>" by simp
    also have "\<dots> \<le> 1 / 10 ^ ?e + 1 / 10 ^ ?e" using near that by (intro add_mono) auto
    finally show ?thesis by simp
  qed
  then show ?thesis unfolding r using sp by simp
qed

theorem allocate_even_exact_witness:
  "sum_list (allocate_even div_half_away round_half_away 100 3 ''VND'') = round_money round_half_away 100 ''VND'' \<and>
   allocate_even div_half_away round_half_away 100 3 ''VND'' = [34, 33, 33]"
proof
  show "sum_list (allocate_even div_half_away round_half_away 100 3 ''VND'') = round_money round_half_away 100 ''VND''"
    using allocate_even_exact [OF dec.decimal_lib_axioms, of 3 100 "''VND''"] by simp
  show "allocate_even div_half_away round_half_away 100 3 ''VND'' = [34, 33, 33]" by code_simp
qed

end
