(* ===== verification/Loan_Rules.thy ===== *)
theory Loan_Rules
  imports Money Go_Date
begin

text \<open>
  The amount rules of the loan service (apps/loan-service/internal/domain): the validation of a
  contract revision (contract_rules.go), the exposure of a contract and the limits of a
  disbursement (contract_exposure.go, disbursement_limits.go), the risk provisions
  (specific_provision.go, general_provision.go, provision_batch.go) and the day count of
  accrual.go. Minor amounts are Go \<open>int64\<close>; a \<open>float64\<close> rate is the decimal that
  \<open>decimal.NewFromFloat\<close> reads off it, a rational.
\<close>

section \<open>Contract revisions\<close>

text \<open>
  \<open>ValidateContractUpdate\<close> visits the two date fields in the order of a Go map, which is not
  specified: the order of the list is that of the run.
\<close>

fun check_dates :: "(string \<times> string) list \<Rightarrow> string + unit" where
  "check_dates [] = Inr ()"
| "check_dates ((field, date) # others) =
     (if date = [] then check_dates others
      else case parse_iso date of
        None \<Rightarrow> Inl (field @ '' must be a valid YYYY-MM-DD date'')
      | Some _ \<Rightarrow> check_dates others)"

definition date_fields :: "bool \<Rightarrow> string \<Rightarrow> string \<Rightarrow> (string \<times> string) list" where
  "date_fields contract_first contract_date maturity_date =
     (if contract_first then [(''contract_date'', contract_date), (''maturity_date'', maturity_date)]
      else [(''maturity_date'', maturity_date), (''contract_date'', contract_date)])"

definition validate_contract_update ::
  "bool \<Rightarrow> int \<Rightarrow> rat \<Rightarrow> int \<Rightarrow> string \<Rightarrow> string \<Rightarrow> string + unit" where
  "validate_contract_update contract_first loan_amt interest_rate loan_term contract_date maturity_date =
     (if loan_amt \<le> 0 then Inl ''loan_amt must be positive''
      else if interest_rate \<le> 0 then Inl ''interest_rate must be positive''
      else if loan_term \<le> 0 then Inl ''loan_term must be positive''
      else check_dates (date_fields contract_first contract_date maturity_date))"

section \<open>Exposure and disbursement limits\<close>

record contract_exposure =
  ce_loan :: int
  ce_outstanding :: int
  ce_pending :: int
  ce_reserved :: int

definition used_minor :: "contract_exposure \<Rightarrow> int" where
  "used_minor e = add64 (add64 (ce_outstanding e) (ce_pending e)) (ce_reserved e)"

definition headroom_minor :: "contract_exposure \<Rightarrow> int" where
  "headroom_minor e = sub64 (ce_loan e) (used_minor e)"

definition allows :: "contract_exposure \<Rightarrow> int \<Rightarrow> bool" where
  "allows e amount \<longleftrightarrow> 0 < amount \<and> amount \<le> headroom_minor e"

definition check_complete_remainder :: "int \<Rightarrow> int \<Rightarrow> int \<Rightarrow> string + unit" where
  "check_complete_remainder source_register completed disbursement =
     (if sub64 source_register completed < disbursement
      then Inl ''disburse_amt_minor exceeds source remainder'' else Inr ())"

definition check_register_limit :: "int \<Rightarrow> int \<Rightarrow> int \<Rightarrow> string + unit" where
  "check_register_limit contract_loan contract_outstanding disbursement =
     (let exposure = \<lparr>ce_loan = contract_loan, ce_outstanding = contract_outstanding, ce_pending = 0, ce_reserved = 0\<rparr>
      in if \<not> allows exposure disbursement
         then Inl ''disburse_amt_minor exceeds contract headroom'' else Inr ())"

section \<open>Provisions\<close>

definition required_specific_provision ::
  "(rat \<Rightarrow> rat \<Rightarrow> nat \<Rightarrow> rat) \<Rightarrow> (rat \<Rightarrow> nat \<Rightarrow> rat) \<Rightarrow> int \<Rightarrow> rat \<Rightarrow> int" where
  "required_specific_provision dr rt base rate =
     (if base \<le> 0 \<or> rate \<le> 0 then 0
      else int_part (rt (dec_div dr (of_int base * rate) 100) 0))"

definition specific_provision_delta :: "int \<Rightarrow> int \<Rightarrow> int \<times> int" where
  "specific_provision_delta required current =
     (if current < required then (sub64 required current, 0)
      else if required < current then (0, sub64 current required)
      else (0, 0))"

definition required_general_provision ::
  "(rat \<Rightarrow> rat \<Rightarrow> nat \<Rightarrow> rat) \<Rightarrow> (rat \<Rightarrow> nat \<Rightarrow> rat) \<Rightarrow> int \<Rightarrow> rat \<Rightarrow> int" where
  "required_general_provision dr rt outstanding rate =
     (if outstanding \<le> 0 \<or> rate \<le> 0 then 0
      else int_part (rt (dec_div dr (of_int outstanding * rate) 100) 0))"

definition general_provision_delta :: "int \<Rightarrow> int \<Rightarrow> int \<times> int" where
  "general_provision_delta required accumulated =
     (if accumulated < required then (sub64 required accumulated, 0)
      else if required < accumulated then (0, sub64 accumulated required)
      else (0, 0))"

definition debt_group_provision_rates :: "(string \<times> rat) list" where
  "debt_group_provision_rates =
     [(''GROUP_1'', 0), (''GROUP_2'', 5), (''GROUP_3'', 20), (''GROUP_4'', 50), (''GROUP_5'', 100)]"

definition debt_group_provision_rate :: "string \<Rightarrow> rat option" where
  "debt_group_provision_rate code = map_of debt_group_provision_rates code"

definition or_vnd :: "string \<Rightarrow> string" where
  "or_vnd currency = (if currency = [] then ''VND'' else currency)"

definition required_provision_minor ::
  "(rat \<Rightarrow> rat \<Rightarrow> nat \<Rightarrow> rat) \<Rightarrow> (rat \<Rightarrow> nat \<Rightarrow> rat) \<Rightarrow> int \<Rightarrow> rat \<Rightarrow> string \<Rightarrow> string + int" where
  "required_provision_minor dr rt outstanding rate currency0 =
     (let currency = or_vnd currency0;
          amount = rt (dec_div dr (from_minor outstanding currency * rate) 100) 0
      in to_minor rt amount currency)"

definition provision_delta :: "int \<Rightarrow> int \<Rightarrow> int" where
  "provision_delta required accumulated = sub64 required accumulated"

section \<open>Days\<close>

definition days_between :: "string \<Rightarrow> string \<Rightarrow> string + int" where
  "days_between from_date to_date =
     (case parse_iso from_date of
        None \<Rightarrow> Inl ''invalid from_date''
      | Some a \<Rightarrow>
        (case parse_iso to_date of
           None \<Rightarrow> Inl ''invalid to_date''
         | Some b \<Rightarrow> Inr (sub_days (civil_day b) (civil_day a))))"

section \<open>Lemmas\<close>

lemma half_unit:
  assumes "decimal_lib dr rt" "on_grid 16 (x / 100)"
  shows "\<exists>n. rt (dec_div dr x 100) 0 = of_int n \<and> \<bar>of_int n - x / 100\<bar> \<le> 1/2"
proof -
  have e: "dec_div dr x 100 = x / 100"
    unfolding dec_div_def using decimal_lib.div_round_exact [OF assms(1), of 100 16 x] assms(2) by simp
  obtain n where n: "rt (x / 100) 0 = of_int n"
    using decimal_lib.round_grid [OF assms(1), of 0 "x / 100"] by (auto simp: on_grid_def Ints_def)
  have "\<bar>of_int n - x / 100\<bar> \<le> 1/2"
    using decimal_lib.round_error [OF assms(1), of "x / 100" 0] n by simp
  then show ?thesis unfolding e using n by blast
qed

lemma percent_grid:
  assumes "on_grid 14 rate"
  shows "on_grid 16 (of_int base * rate / 100)"
proof -
  obtain k where "rate * 10 ^ 14 = of_int k" using assms by (auto simp: on_grid_def Ints_def)
  then have "of_int base * rate / 100 * 10 ^ 16 = of_int (base * k)" by (simp add: field_simps)
  then show ?thesis unfolding on_grid_def by (metis Ints_of_int)
qed

lemma provision_amount:
  assumes "decimal_lib dr rt" "on_grid 14 rate" "0 < base" "in64 base" "0 < rate" "rate \<le> 100"
  shows "\<exists>n. int_part (rt (dec_div dr (of_int base * rate) 100) 0) = n \<and> 0 \<le> n \<and> n \<le> base \<and>
    2 * \<bar>of_int n - of_int base * rate / 100\<bar> \<le> 1"
proof -
  obtain n where n: "rt (dec_div dr (of_int base * rate) 100) 0 = of_int n"
    "\<bar>of_int n - of_int base * rate / 100\<bar> \<le> 1/2"
    using half_unit [OF assms(1) percent_grid [OF assms(2), of base]] by auto
  have b: "(0::rat) < of_int base" using assms(3) by simp
  have pos: "0 < of_int base * rate / 100" using b assms(5) by simp
  have "of_int base * rate \<le> of_int base * 100" using b assms(6) by (intro mult_left_mono) auto
  then have le: "of_int base * rate / 100 \<le> of_int base" by simp
  have "of_int (-1) < (of_int n :: rat)" using abs_le_D2 [OF n(2)] pos by linarith
  then have "-1 < n" by (simp only: of_int_less_iff)
  then have n0: "0 \<le> n" by simp
  have "of_int n < (of_int base :: rat) + 1" using abs_le_D1 [OF n(2)] le by linarith
  then have "of_int n < (of_int (base + 1) :: rat)" by simp
  then have "n < base + 1" by (simp only: of_int_less_iff)
  then have nb: "n \<le> base" by simp
  have "in64 n" using n0 nb assms(4) by (simp add: in64_def)
  then have "int_part (of_int n) = n" by (rule int_part_of_int)
  then show ?thesis using n n0 nb by simp
qed

lemma delta_reaches:
  assumes "in64 (required - accumulated)" "in64 (accumulated - required)"
    and "specific_provision_delta required accumulated = (up, down)"
  shows "accumulated + up - down = required" "0 \<le> up" "0 \<le> down" "up = 0 \<or> down = 0"
  using assms by (auto simp: specific_provision_delta_def sub64_eq split: if_splits)

lemma general_is_specific:
  "required_general_provision = required_specific_provision" "general_provision_delta = specific_provision_delta"
  by (simp_all add: fun_eq_iff required_general_provision_def required_specific_provision_def
      general_provision_delta_def specific_provision_delta_def)

lemma provision_examples:
  assumes "decimal_lib dr rt"
  shows "required_provision_minor dr rt 1050 5 ''USD'' = Inr 100 \<and> required_specific_provision dr rt 1050 5 = 53"
proof
  have e: "exponent ''USD'' = 2" by code_simp
  have g: "on_grid 16 (105 / 2 / 100 :: rat)" "on_grid 16 (5250 / 100 :: rat)"
    unfolding on_grid_def by (simp_all add: Ints_def image_iff)
  obtain n where n: "rt (dec_div dr (105/2) 100) 0 = of_int n" "\<bar>of_int n - 105 / 2 / 100\<bar> \<le> (1/2 :: rat)"
    using half_unit [OF assms g(1)] by blast
  have "of_int 0 < (of_int n :: rat)" "of_int n < (of_int 2 :: rat)"
    using abs_le_D1 [OF n(2)] abs_le_D2 [OF n(2)] by simp_all
  then have "0 < n" "n < 2" by (simp_all only: of_int_less_iff)
  then have r1: "rt (dec_div dr (105/2) 100) 0 = 1" using n(1) by (simp add: less_le)
  have "rt (of_int 100) 0 = of_int 100" by (rule decimal_lib.round_on_grid [OF assms on_grid_of_int])
  then show "required_provision_minor dr rt 1050 5 ''USD'' = Inr 100"
    using r1 by (simp add: required_provision_minor_def or_vnd_def from_minor_def to_minor_def e)
  obtain m where m: "rt (dec_div dr 5250 100) 0 = of_int m" "\<bar>of_int m - 5250 / 100\<bar> \<le> (1/2 :: rat)"
    using half_unit [OF assms g(2)] by blast
  have q: "dec_div dr 5250 100 = 5250 / 100"
    unfolding dec_div_def by (rule decimal_lib.div_round_exact [OF assms _ g(2)]) simp
  have "of_int 51 < (of_int m :: rat)" "of_int m < (of_int 54 :: rat)"
    using abs_le_D1 [OF m(2)] abs_le_D2 [OF m(2)] by simp_all
  then have "51 < m" "m < 54" by (simp_all only: of_int_less_iff)
  moreover have "m \<noteq> 52"
    using decimal_lib.round_tie [OF assms, of "5250 / 100" 0] m(1) q by auto
  ultimately have "m = 53" by simp
  then show "required_specific_provision dr rt 1050 5 = 53"
    using m(1) by (simp add: required_specific_provision_def int_part_def i64_id in64_def)
qed

section \<open>Properties\<close>

text \<open>The limits of a disbursement are exact as long as the sums stay inside 64 bits: an exposure allows an
  amount exactly when it is positive and, added to what is disbursed, pending and held, stays within the
  loan amount; a registration is accepted exactly when it fits the contract, and a completion exactly when
  it does not exceed what is left of its registration.\<close>

theorem disbursement_limits_exact:
  assumes "0 \<le> ce_outstanding e" "0 \<le> ce_pending e" "0 \<le> ce_reserved e" "0 \<le> ce_loan e"
    and "in64 (ce_loan e)" "in64 (ce_outstanding e + ce_pending e + ce_reserved e)" "in64 (source - completed)"
  shows "(allows e amount \<longleftrightarrow>
      0 < amount \<and> ce_outstanding e + ce_pending e + ce_reserved e + amount \<le> ce_loan e) \<and>
    (check_register_limit (ce_loan e) (ce_outstanding e) amount = Inr () \<longleftrightarrow>
      0 < amount \<and> ce_outstanding e + amount \<le> ce_loan e) \<and>
    (check_complete_remainder source completed amount = Inr () \<longleftrightarrow> completed + amount \<le> source)"
proof -
  have in1: "in64 (ce_outstanding e + ce_pending e)" "in64 (ce_outstanding e)"
    "in64 (ce_loan e - (ce_outstanding e + ce_pending e + ce_reserved e))" "in64 (ce_loan e - ce_outstanding e)"
    using assms by (auto simp: in64_def)
  have "headroom_minor e = ce_loan e - (ce_outstanding e + ce_pending e + ce_reserved e)"
    using in1 assms by (simp add: headroom_minor_def used_minor_def add64_eq sub64_eq)
  then have a: "allows e amount \<longleftrightarrow>
      0 < amount \<and> ce_outstanding e + ce_pending e + ce_reserved e + amount \<le> ce_loan e"
    by (auto simp: allows_def)
  have b: "check_register_limit (ce_loan e) (ce_outstanding e) amount = Inr () \<longleftrightarrow>
      0 < amount \<and> ce_outstanding e + amount \<le> ce_loan e"
    using in1 by (auto simp: check_register_limit_def allows_def headroom_minor_def used_minor_def add64_eq sub64_eq)
  have c: "check_complete_remainder source completed amount = Inr () \<longleftrightarrow> completed + amount \<le> source"
    using assms(7) by (auto simp: check_complete_remainder_def sub64_eq)
  from a b c show ?thesis by blast
qed

definition demo_exposure :: contract_exposure where
  "demo_exposure = \<lparr>ce_loan = 1000, ce_outstanding = 600, ce_pending = 200, ce_reserved = 50\<rparr>"

theorem disbursement_limits_exact_witness:
  "allows demo_exposure 150 \<and> \<not> allows demo_exposure 151 \<and>
   check_complete_remainder 500 200 300 = Inr () \<and> check_complete_remainder 500 200 301 \<noteq> Inr ()"
proof -
  have r: "0 \<le> ce_outstanding demo_exposure" "0 \<le> ce_pending demo_exposure" "0 \<le> ce_reserved demo_exposure"
    "0 \<le> ce_loan demo_exposure" "in64 (ce_loan demo_exposure)"
    "in64 (ce_outstanding demo_exposure + ce_pending demo_exposure + ce_reserved demo_exposure)" "in64 (500 - 200)"
    by (simp_all add: demo_exposure_def in64_def)
  show ?thesis
    using disbursement_limits_exact [OF r, of 150] disbursement_limits_exact [OF r, of 151]
      disbursement_limits_exact [OF r, of 300] disbursement_limits_exact [OF r, of 301]
    by (simp add: demo_exposure_def)
qed

text \<open>A required specific or general provision is the base times the rate, to the nearest minor unit: for
  a rate up to 100 percent with at most 14 decimals it lies between 0 and the base and is at most half a
  unit off; and the posted deltas bring the accumulated provision to the required one, one of the two being
  zero and none negative.\<close>

theorem provision_reaches_required:
  assumes "decimal_lib dr rt" "on_grid 14 rate" "0 < base" "in64 base" "0 < rate" "rate \<le> 100"
    and "0 \<le> accumulated" "in64 accumulated"
  shows "\<exists>required. required_specific_provision dr rt base rate = required \<and>
    required_general_provision dr rt base rate = required \<and>
    0 \<le> required \<and> required \<le> base \<and> 2 * \<bar>of_int required - of_int base * rate / 100\<bar> \<le> 1 \<and>
    (case specific_provision_delta required accumulated of
       (up, down) \<Rightarrow> accumulated + up - down = required \<and> 0 \<le> up \<and> 0 \<le> down \<and> (up = 0 \<or> down = 0)) \<and>
    general_provision_delta required accumulated = specific_provision_delta required accumulated"
proof -
  obtain n where n: "int_part (rt (dec_div dr (of_int base * rate) 100) 0) = n" "0 \<le> n" "n \<le> base"
    "2 * \<bar>of_int n - of_int base * rate / 100\<bar> \<le> 1"
    using provision_amount [OF assms(1-6)] by blast
  have req: "required_specific_provision dr rt base rate = n"
    using n(1) assms(3,5) by (simp add: required_specific_provision_def)
  obtain up down where d: "specific_provision_delta n accumulated = (up, down)" by fastforce
  have "in64 (n - accumulated)" "in64 (accumulated - n)" using n(2,3) assms by (auto simp: in64_def)
  from delta_reaches [OF this d] n req d show ?thesis by (simp add: general_is_specific)
qed

theorem provision_reaches_required_witness:
  "required_specific_provision div_half_away round_half_away 1050 5 = 53 \<and>
   specific_provision_delta 53 40 = (13, 0)"
proof -
  have "on_grid 14 (5 :: rat)" using on_grid_of_int [of 14 5] by simp
  then have "0 \<le> required_specific_provision div_half_away round_half_away 1050 5"
    using provision_reaches_required [OF dec.decimal_lib_axioms, of 5 1050 40] by (auto simp: in64_def)
  moreover have "required_specific_provision div_half_away round_half_away 1050 5 = 53" by code_simp
  moreover have "specific_provision_delta 53 40 = (13, 0)" by code_simp
  ultimately show ?thesis by blast
qed

text \<open>The batch provision rounds to whole major units before it converts to minor units: every result is a
  multiple of the currency's major unit, so for a currency with cents it can miss the rounding in minor
  units that the specific provision of the same base and rate gives (1050 cents at 5 percent: 100 cents
  instead of 53).\<close>

theorem provision_whole_major_units:
  assumes "decimal_lib dr rt" "required_provision_minor dr rt outstanding rate currency = Inr r"
  shows "r mod 10 ^ exponent (or_vnd currency) = 0 \<and>
    required_provision_minor dr rt 1050 5 ''USD'' = Inr 100 \<and> required_specific_provision dr rt 1050 5 = 53"
proof -
  let ?x = "dec_div dr (from_minor outstanding (or_vnd currency) * rate) 100"
  let ?e = "exponent (or_vnd currency)"
  have whole: "\<exists>n. rt x 0 = of_int n" for x
    using decimal_lib.round_grid [OF assms(1), of 0 x] by (auto simp: on_grid_def Ints_def)
  obtain n where n: "rt ?x 0 = of_int n" using whole by blast
  have "rt (of_int (n * 10 ^ ?e)) 0 = of_int (n * 10 ^ ?e)"
    by (rule decimal_lib.round_on_grid [OF assms(1) on_grid_of_int])
  then have rt: "rt (rt ?x 0 * 10 ^ ?e) 0 = of_int (n * 10 ^ ?e)" using n by simp
  have "Inr r = (Inr \<lfloor>of_int (n * 10 ^ ?e) :: rat\<rfloor> :: string + int)"
    using assms(2) unfolding required_provision_minor_def to_minor_def Let_def rt by (simp split: if_splits)
  then have "r = n * 10 ^ ?e" by (simp only: floor_of_int sum.inject)
  then have "r mod 10 ^ ?e = 0" by simp
  then show ?thesis using provision_examples [OF assms(1)] by blast
qed

theorem provision_whole_major_units_witness:
  "(100 :: int) mod 10 ^ exponent (or_vnd ''USD'') = 0"
proof -
  have "required_provision_minor div_half_away round_half_away 1050 5 ''USD'' = Inr 100"
    using provision_examples [OF dec.decimal_lib_axioms] by blast
  from provision_whole_major_units [OF dec.decimal_lib_axioms this] show ?thesis by blast
qed

end
