(* ===== verification/Loan_Schedule.thy ===== *)
theory Loan_Schedule
  imports Loan_Rules
begin

text \<open>
  The repayment schedule of an agreement (apps/loan-service/internal/domain/repayment_schedule.go,
  with the rows of loan.go): equal principal shares, interest on the declining balance, one term a
  month. A panic of \<open>MustToMinor\<close> or of an index is a value of its own.
\<close>

datatype failure = Error string | Panic string

record agreement =
  ag_id :: string
  ag_tenant :: string
  ag_contract :: string
  ag_code :: string
  ag_disburse_date :: string
  ag_disburse :: int
  ag_rate :: rat
  ag_over_rate :: rat
  ag_term :: int
  ag_term_unit :: string
  ag_maturity :: string
  ag_debt_group :: string
  ag_interest_freq :: string
  ag_principal_freq :: string
  ag_outstanding :: int
  ag_pending :: int
  ag_coln_principal :: int
  ag_coln_interest :: int
  ag_provision :: int
  ag_plan :: string
  ag_currency :: string
  ag_classification :: string
  ag_status :: string

record repay_plan =
  rp_contract :: string
  rp_agreement :: string
  rp_plan_no :: int
  rp_term_no :: int
  rp_from :: string
  rp_to :: string
  rp_rate :: rat
  rp_principal :: int
  rp_interest :: int

definition must_to_minor :: "(rat \<Rightarrow> nat \<Rightarrow> rat) \<Rightarrow> rat \<Rightarrow> string \<Rightarrow> failure + int" where
  "must_to_minor rt value currency =
     (case to_minor rt value currency of Inl err \<Rightarrow> Inl (Panic err) | Inr m \<Rightarrow> Inr m)"

definition plan_row ::
  "(rat \<Rightarrow> rat \<Rightarrow> nat \<Rightarrow> rat) \<Rightarrow> (rat \<Rightarrow> nat \<Rightarrow> rat) \<Rightarrow> agreement \<Rightarrow> string \<Rightarrow> civil \<Rightarrow> int \<Rightarrow> rat \<Rightarrow> rat \<Rightarrow>
   failure + repay_plan" where
  "plan_row dr rt agr currency start i remaining share =
     (case must_to_minor rt share currency of
        Inl p \<Rightarrow> Inl p
      | Inr prin \<Rightarrow>
        (case must_to_minor rt (monthly_interest dr rt remaining (ag_rate agr) currency) currency of
           Inl p \<Rightarrow> Inl p
         | Inr interest \<Rightarrow>
           Inr \<lparr>rp_contract = ag_contract agr, rp_agreement = ag_code agr, rp_plan_no = 1, rp_term_no = i,
                rp_from = format_iso (add_months start (i - 1)), rp_to = format_iso (add_months start i),
                rp_rate = ag_rate agr, rp_principal = prin, rp_interest = interest\<rparr>))"

text \<open>The loop from term \<open>i\<close>, \<open>n\<close> terms to go, with the shares from \<open>shares[i-1]\<close> on.\<close>

fun plan_rows ::
  "(rat \<Rightarrow> rat \<Rightarrow> nat \<Rightarrow> rat) \<Rightarrow> (rat \<Rightarrow> nat \<Rightarrow> rat) \<Rightarrow> agreement \<Rightarrow> string \<Rightarrow> civil \<Rightarrow> nat \<Rightarrow> int \<Rightarrow> rat \<Rightarrow> rat list \<Rightarrow>
   failure + repay_plan list" where
  "plan_rows dr rt agr currency start 0 i remaining shares = Inr []"
| "plan_rows dr rt agr currency start (Suc n) i remaining [] = Inl (Panic ''index out of range'')"
| "plan_rows dr rt agr currency start (Suc n) i remaining (share # shares) =
     (case plan_row dr rt agr currency start i remaining share of
        Inl p \<Rightarrow> Inl p
      | Inr row \<Rightarrow>
        (case plan_rows dr rt agr currency start n (i + 1) (remaining - share) shares of
           Inl p \<Rightarrow> Inl p
         | Inr rows \<Rightarrow> Inr (row # rows)))"

definition build_even_principal_plans ::
  "(rat \<Rightarrow> rat \<Rightarrow> nat \<Rightarrow> rat) \<Rightarrow> (rat \<Rightarrow> nat \<Rightarrow> rat) \<Rightarrow> agreement \<Rightarrow> int \<Rightarrow> string \<Rightarrow>
   failure + repay_plan list" where
  "build_even_principal_plans dr rt agr term_count start_date =
     (if term_count \<le> 0 then Inl (Error ''term count must be positive'')
      else
        let currency = or_vnd (ag_currency agr);
            outstanding = from_minor (ag_outstanding agr) currency;
            shares = allocate_even dr rt outstanding term_count currency
        in case parse_iso start_date of
             None \<Rightarrow> Inl (Error ''invalid effective start date'')
           | Some start \<Rightarrow>
               plan_rows dr rt agr currency start (nat term_count) 1 outstanding shares)"

section \<open>Shares\<close>

lemma spread_nonneg:
  assumes "0 < one" "\<forall>s\<in>set ss. 0 \<le> s" "0 \<le> diff \<or> (\<forall>s\<in>set ss. one \<le> s)"
  shows "\<forall>x\<in>set (spread one diff ss). 0 \<le> x"
  using assms(2,3)
proof (induction ss arbitrary: diff)
  case (Cons s ss)
  have step: "\<forall>x\<in>set (spread one d ss). 0 \<le> x" if "0 \<le> d \<or> (\<forall>s\<in>set ss. one \<le> s)" for d
    using Cons.IH [OF _ that] Cons.prems(1) by simp
  consider "diff = 0" | "one \<le> diff" | "diff \<le> - one" | "diff \<noteq> 0" "\<not> one \<le> diff" "\<not> diff \<le> - one" by linarith
  then show ?case
  proof cases
    case 1 then show ?thesis using Cons.prems by simp
  next
    case 2
    then have "0 \<le> diff - one" by simp
    from step [OF disjI1 [OF this]] 2 assms(1) Cons.prems(1) show ?thesis by auto
  next
    case 3
    then have neg: "diff < 0" using assms(1) by linarith
    then have "\<forall>s\<in>set (s # ss). one \<le> s" using Cons.prems(2) by auto
    with step [of "diff + one"] 3 neg assms(1) show ?thesis by auto
  next
    case 4
    have "0 \<le> s + diff"
    proof (cases "0 \<le> diff")
      case True then show ?thesis using Cons.prems(1) by simp
    next
      case False
      then have "one \<le> s" using Cons.prems(2) by auto
      with 4 show ?thesis by simp
    qed
    with step [of 0] 4 show ?thesis by auto
  qed
qed simp

lemma spread_grid:
  assumes "on_grid e one" "on_grid e diff" "\<forall>s\<in>set ss. on_grid e s"
  shows "\<forall>x\<in>set (spread one diff ss). on_grid e x"
  using assms(2,3)
proof (induction ss arbitrary: diff)
  case (Cons s ss)
  have step: "\<forall>x\<in>set (spread one d ss). on_grid e x" if "on_grid e d" for d
    using Cons.IH [OF that] Cons.prems(2) by simp
  have g: "on_grid e (diff - one)" "on_grid e (diff + one)" "on_grid e (s - one)" "on_grid e (s + one)" "on_grid e (s + diff)"
    using assms(1) Cons.prems by (simp_all add: on_grid_add on_grid_diff)
  show ?case using step [OF g(1)] step [OF g(2)] step [OF on_grid_0] g Cons.prems by auto
qed simp

lemma allocate_even_shares:
  assumes "decimal_lib dr rt" "0 < n" "0 \<le> t" "on_grid (exponent c) t"
  shows "\<forall>x\<in>set (allocate_even dr rt t n c). 0 \<le> x \<and> on_grid (exponent c) x"
proof -
  let ?e = "exponent c"
  let ?share = "rt (dec_div dr t (of_int n)) ?e"
  let ?diff = "t - of_int n * ?share"
  have t: "rt t ?e = t" by (rule decimal_lib.round_on_grid [OF assms(1,4)])
  have sum: "sum_list (replicate (nat n) ?share) = of_int n * ?share" using assms(2) by (simp add: sum_list_replicate)
  have r: "allocate_even dr rt t n c = spread (1 / 10 ^ ?e) ?diff (replicate (nat n) ?share)"
    using assms(2) t by (simp add: allocate_even_def round_money_def Let_def sum_list_replicate)
  have n0: "(of_int n :: rat) \<noteq> 0" "(0 :: rat) < of_int n" using assms(2) by simp_all
  have "0 \<le> dec_div dr t (of_int n)"
    unfolding dec_div_def by (rule decimal_lib.div_nonneg [OF assms(1)]) (use assms(3) n0 in auto)
  then have s0: "0 \<le> ?share" by (rule decimal_lib.round_nonneg [OF assms(1)])
  have sg: "on_grid ?e ?share" by (rule decimal_lib.round_grid [OF assms(1)])
  have one: "(0 :: rat) < 1 / 10 ^ ?e" by simp
  have "0 \<le> ?diff \<or> 1 / 10 ^ ?e \<le> ?share"
  proof (cases "?share = 0")
    case True then show ?thesis using assms(3) by simp
  next
    case False
    obtain k where k: "?share * 10 ^ ?e = of_int k" using sg by (auto simp: on_grid_def Ints_def)
    have "0 < ?share * 10 ^ ?e" using False s0 by simp
    then have "1 \<le> k" unfolding k by simp
    then have "1 \<le> ?share * 10 ^ ?e" unfolding k by simp
    then have "1 / 10 ^ ?e \<le> ?share" by (simp add: field_simps)
    then show ?thesis ..
  qed
  then have "\<forall>x\<in>set (spread (1 / 10 ^ ?e) ?diff (replicate (nat n) ?share)). 0 \<le> x"
    by (intro spread_nonneg [OF one]) (use s0 in auto)
  moreover have "\<forall>x\<in>set (spread (1 / 10 ^ ?e) ?diff (replicate (nat n) ?share)). on_grid ?e x"
    by (rule spread_grid [OF on_grid_unit on_grid_diff [OF assms(4) on_grid_mult_int [OF sg]]]) (use sg in simp)
  ultimately show ?thesis unfolding r by blast
qed

section \<open>Interest of a term\<close>

lemma monthly_interest_bound:
  assumes "decimal_lib dr rt" "0 \<le> p" "0 \<le> rate" "rate \<le> 100"
  shows "0 \<le> monthly_interest dr rt p rate c \<and> on_grid (exponent c) (monthly_interest dr rt p rate c) \<and>
    monthly_interest dr rt p rate c * 10 ^ exponent c \<le> p * 10 ^ exponent c / 12 + 1"
proof -
  let ?e = "exponent c"
  let ?x1 = "dr (p * rate) 100 16" and ?x2 = "dr (dr (p * rate) 100 16) 12 16"
  have m: "monthly_interest dr rt p rate c = rt ?x2 ?e"
    using assms(2) by (simp add: monthly_interest_def dec_div_def round_money_def)
  have pr: "0 \<le> p * rate" using assms(2,3) by simp
  have x1: "0 \<le> ?x1" by (rule decimal_lib.div_nonneg [OF assms(1)]) (use pr in auto)
  have x2: "0 \<le> ?x2" by (rule decimal_lib.div_nonneg [OF assms(1)]) (use x1 in auto)
  have "p * rate \<le> p * 100" using assms(2,4) by (intro mult_left_mono) auto
  then have "p * rate / 100 \<le> p" by simp
  moreover have "\<bar>?x1 - p * rate / 100\<bar> \<le> 1 / (2 * 10 ^ 16)" by (rule decimal_lib.div_error [OF assms(1)]) simp
  note abs_le_D1 [OF this]
  ultimately have b1: "?x1 \<le> p + 1 / (2 * 10 ^ 16)" by linarith
  have "\<bar>?x2 - ?x1 / 12\<bar> \<le> 1 / (2 * 10 ^ 16)" by (rule decimal_lib.div_error [OF assms(1)]) simp
  from abs_le_D1 [OF this] have b2: "?x2 \<le> p / 12 + 1 / 10 ^ 16" using b1 by simp
  have "\<bar>rt ?x2 ?e - ?x2\<bar> \<le> 1 / (2 * 10 ^ ?e)" by (rule decimal_lib.round_error [OF assms(1)])
  from abs_le_D1 [OF this] have "rt ?x2 ?e \<le> p / 12 + 1 / 10 ^ 16 + 1 / (2 * 10 ^ ?e)" using b2 by linarith
  then have "rt ?x2 ?e * 10 ^ ?e \<le> (p / 12 + 1 / 10 ^ 16 + 1 / (2 * 10 ^ ?e)) * 10 ^ ?e"
    by (intro mult_right_mono) auto
  also have "\<dots> = p * 10 ^ ?e / 12 + 10 ^ ?e / 10 ^ 16 + 1 / 2" by (simp add: field_simps)
  also have "\<dots> \<le> p * 10 ^ ?e / 12 + 1"
  proof -
    have "(10::rat) ^ ?e \<le> 10 ^ 3" using exponent_le [of c] by (intro power_increasing) auto
    then show ?thesis by simp
  qed
  finally show ?thesis
    unfolding m using decimal_lib.round_nonneg [OF assms(1) x2] decimal_lib.round_grid [OF assms(1)] by blast
qed

lemma to_minor_grid:
  assumes "decimal_lib dr rt" "on_grid (exponent c) x" "0 \<le> x" "x * 10 ^ exponent c \<le> 9223372036854775807"
  shows "\<exists>m. to_minor rt x c = Inr m \<and> of_int m = x * 10 ^ exponent c \<and> 0 \<le> m"
proof -
  obtain k where k: "x * 10 ^ exponent c = of_int k" using assms(2) by (auto simp: on_grid_def Ints_def)
  have "0 \<le> x * 10 ^ exponent c" using assms(3) by simp
  then have k0: "0 \<le> k" unfolding k by simp
  have "rt (of_int k) 0 = of_int k" by (rule decimal_lib.round_on_grid [OF assms(1) on_grid_of_int])
  then have "to_minor rt x c = Inr k"
    using assms(4) k0 unfolding to_minor_def k Let_def by simp
  then show ?thesis using k k0 by simp
qed

section \<open>The rows\<close>

text \<open>What row \<open>j\<close> of a schedule says: its term, its month, its share, and interest on what is still owed.\<close>

definition row_ok ::
  "(rat \<Rightarrow> rat \<Rightarrow> nat \<Rightarrow> rat) \<Rightarrow> (rat \<Rightarrow> nat \<Rightarrow> rat) \<Rightarrow> agreement \<Rightarrow> string \<Rightarrow> civil \<Rightarrow> int \<Rightarrow> rat \<Rightarrow> rat \<Rightarrow>
   repay_plan \<Rightarrow> bool" where
  "row_ok dr rt agr c start i remaining share row \<longleftrightarrow>
     rp_term_no row = i \<and> rp_from row = format_iso (add_months start (i - 1)) \<and>
     rp_to row = format_iso (add_months start i) \<and> 0 \<le> rp_principal row \<and>
     of_int (rp_principal row) = share * 10 ^ exponent c \<and> 0 \<le> rp_interest row \<and>
     to_minor rt (monthly_interest dr rt remaining (ag_rate agr) c) c = Inr (rp_interest row)"

lemma plan_row_ok:
  assumes "decimal_lib dr rt" "0 \<le> ag_rate agr" "ag_rate agr \<le> 100"
    and "0 \<le> remaining" "remaining * 10 ^ exponent c \<le> 9223372036854775807"
    and "0 \<le> share" "on_grid (exponent c) share" "share \<le> remaining"
  shows "\<exists>row. plan_row dr rt agr c start i remaining share = Inr row \<and> row_ok dr rt agr c start i remaining share row"
proof -
  have "share * 10 ^ exponent c \<le> remaining * 10 ^ exponent c" using assms(8) by (intro mult_right_mono) auto
  then have "share * 10 ^ exponent c \<le> 9223372036854775807" using assms(5) by linarith
  from to_minor_grid [OF assms(1,7,6) this] obtain m where m: "to_minor rt share c = Inr m"
    "of_int m = share * 10 ^ exponent c" "0 \<le> m" by blast
  note b = monthly_interest_bound [OF assms(1,4,2,3), of c]
  then have "monthly_interest dr rt remaining (ag_rate agr) c * 10 ^ exponent c \<le> 9223372036854775807"
    using assms(5) by simp
  from to_minor_grid [OF assms(1) _ _ this] b obtain k where
    k: "to_minor rt (monthly_interest dr rt remaining (ag_rate agr) c) c = Inr k" "0 \<le> k" by blast
  show ?thesis
    using m k by (simp add: plan_row_def must_to_minor_def row_ok_def)
qed

lemma plan_rows_ok:
  assumes "decimal_lib dr rt" "0 \<le> ag_rate agr" "ag_rate agr \<le> 100"
    and "\<forall>x\<in>set shares. 0 \<le> x \<and> on_grid (exponent c) x"
    and "sum_list shares * 10 ^ exponent c \<le> 9223372036854775807"
  shows "\<exists>rows. plan_rows dr rt agr c start (length shares) i (sum_list shares) shares = Inr rows \<and>
    length rows = length shares \<and>
    (\<forall>j<length shares. row_ok dr rt agr c start (i + int j) (sum_list (drop j shares)) (shares ! j) (rows ! j))"
  using assms(4,5)
proof (induction shares arbitrary: i)
  case (Cons share shares)
  have nn: "0 \<le> sum_list shares" using Cons.prems(1) by (intro sum_list_nonneg) auto
  have "sum_list shares * 10 ^ exponent c \<le> sum_list (share # shares) * 10 ^ exponent c"
    using Cons.prems(1) by (intro mult_right_mono) auto
  then have "sum_list shares * 10 ^ exponent c \<le> 9223372036854775807" using Cons.prems(2) by linarith
  with Cons.IH [of "i + 1"] Cons.prems(1) obtain rows where
    rows: "plan_rows dr rt agr c start (length shares) (i + 1) (sum_list shares) shares = Inr rows"
    "length rows = length shares"
    "\<forall>j<length shares. row_ok dr rt agr c start (i + 1 + int j) (sum_list (drop j shares)) (shares ! j) (rows ! j)"
    by auto
  obtain row where row: "plan_row dr rt agr c start i (sum_list (share # shares)) share = Inr row"
    "row_ok dr rt agr c start i (sum_list (share # shares)) share row"
    using plan_row_ok [OF assms(1-3) _ Cons.prems(2), of share start i] Cons.prems(1) nn by auto
  have all: "row_ok dr rt agr c start (i + int j) (sum_list (drop j (share # shares))) ((share # shares) ! j) ((row # rows) ! j)"
    if "j < length (share # shares)" for j
  proof (cases j)
    case 0 with row show ?thesis by simp
  next
    case (Suc k)
    with that rows(3) have "row_ok dr rt agr c start (i + 1 + int k) (sum_list (drop k shares)) (shares ! k) (rows ! k)"
      by simp
    then show ?thesis unfolding Suc by (simp add: add.assoc)
  qed
  have "plan_rows dr rt agr c start (length (share # shares)) i (sum_list (share # shares)) (share # shares) = Inr (row # rows)"
    using row(1) rows(1) by simp
  then show ?case using all rows(2) by (intro exI [of _ "row # rows"]) simp
qed simp

section \<open>Properties\<close>

text \<open>What holds of every row, for the rows together: the principal of the first rows is that of the first shares, the
  rows are numbered and joined.\<close>

lemma rows_principal:
  assumes "length rows = length ss"
    and "\<forall>j<length ss. row_ok dr rt agr c start (1 + int j) (sum_list (drop j ss)) (ss ! j) (rows ! j)"
  shows "j \<le> length ss \<Longrightarrow> of_int (sum_list (map rp_principal (take j rows))) = sum_list (take j ss) * 10 ^ exponent c"
proof (induction j)
  case (Suc j)
  moreover have "of_int (rp_principal (rows ! j)) = ss ! j * 10 ^ exponent c"
    using assms(2) Suc.prems by (simp add: row_ok_def)
  ultimately show ?case using assms(1) by (simp add: take_Suc_conv_app_nth distrib_right)
qed simp

lemma rows_rest:
  assumes "of_int (sum_list (map rp_principal (take j rows))) = sum_list (take j ss) * 10 ^ exponent c"
    and "sum_list ss = from_minor t c"
  shows "sum_list (drop j ss) = from_minor (t - sum_list (map rp_principal (take j rows))) c"
proof -
  have "sum_list (take j ss) + sum_list (drop j ss) = from_minor t c"
    using assms(2) by (metis append_take_drop_id sum_list_append)
  moreover have "sum_list (take j ss) = from_minor (sum_list (map rp_principal (take j rows))) c"
    using assms(1) by (simp add: from_minor_def field_simps)
  ultimately show ?thesis by (simp add: from_minor_def diff_divide_distrib)
qed

lemma rows_joined:
  assumes rows: "\<forall>j<n. row_ok dr rt agr c start (1 + int j) (rest j) (ss ! j) (rows ! j)" and "j < n"
  shows "rp_term_no (rows ! j) = int j + 1 \<and> 0 \<le> rp_principal (rows ! j) \<and>
    rp_from (rows ! j) = (if j = 0 then format_iso (add_months start 0) else rp_to (rows ! (j - 1))) \<and>
    to_minor rt (monthly_interest dr rt (rest j) (ag_rate agr) c) c = Inr (rp_interest (rows ! j))"
proof -
  have ok: "row_ok dr rt agr c start (1 + int j) (rest j) (ss ! j) (rows ! j)" using assms by blast
  have "rp_from (rows ! j) = rp_to (rows ! (j - 1))" if "j \<noteq> 0"
  proof -
    have "row_ok dr rt agr c start (1 + int (j - 1)) (rest (j - 1)) (ss ! (j - 1)) (rows ! (j - 1))"
      using assms by simp
    then show ?thesis using ok that by (simp add: row_ok_def of_nat_diff)
  qed
  then show ?thesis using ok by (auto simp: row_ok_def add.commute)
qed

text \<open>C17. A schedule from good input is produced and is complete: for a positive number of terms, a valid start date, a
  non-negative outstanding balance of 64 bits and a rate from 0 to 100 percent there is no error and no panic; the terms
  are numbered from 1, each starts on the day the term before ends, the first on the start date; the
  principal shares are non-negative and add up exactly to the outstanding balance; and the interest of each
  term is the monthly interest on the principal not yet repaid.\<close>

theorem schedule_complete:
  assumes "decimal_lib dr rt" "0 < n" "parse_iso start_date = Some start"
    and "0 \<le> ag_outstanding agr" "in64 (ag_outstanding agr)" "0 \<le> ag_rate agr" "ag_rate agr \<le> 100"
  shows "\<exists>rows. build_even_principal_plans dr rt agr n start_date = Inr rows \<and> length rows = nat n \<and>
    sum_list (map rp_principal rows) = ag_outstanding agr \<and>
    (\<forall>j<nat n. rp_term_no (rows ! j) = int j + 1 \<and> 0 \<le> rp_principal (rows ! j) \<and>
       rp_from (rows ! j) = (if j = 0 then format_iso (add_months start 0) else rp_to (rows ! (j - 1))) \<and>
       to_minor rt (monthly_interest dr rt
         (from_minor (ag_outstanding agr - sum_list (map rp_principal (take j rows))) (or_vnd (ag_currency agr)))
         (ag_rate agr) (or_vnd (ag_currency agr))) (or_vnd (ag_currency agr)) = Inr (rp_interest (rows ! j)))"
proof -
  let ?c = "or_vnd (ag_currency agr)" and ?e = "exponent (or_vnd (ag_currency agr))"
  let ?t = "from_minor (ag_outstanding agr) ?c"
  let ?ss = "allocate_even dr rt ?t n ?c"
  have t: "0 \<le> ?t" "on_grid ?e ?t" "?t * 10 ^ ?e = of_int (ag_outstanding agr)"
    using assms(4) by (simp_all add: from_minor_def on_grid_def)
  have len: "length ?ss = nat n" and "sum_list ?ss = round_money rt ?t ?c"
    using allocate_even_exact [OF assms(1,2), of ?t ?c] by auto
  then have sum: "sum_list ?ss = ?t"
    unfolding round_money_def using decimal_lib.round_on_grid [OF assms(1) t(2)] by simp
  have max: "sum_list ?ss * 10 ^ ?e \<le> 9223372036854775807"
    unfolding sum t(3) using assms(5) by (simp add: in64_def)
  obtain rows where rows: "plan_rows dr rt agr ?c start (length ?ss) 1 (sum_list ?ss) ?ss = Inr rows"
    "length rows = nat n"
    "\<forall>j<nat n. row_ok dr rt agr ?c start (1 + int j) (sum_list (drop j ?ss)) (?ss ! j) (rows ! j)"
    using plan_rows_ok [OF assms(1,6,7) allocate_even_shares [OF assms(1,2) t(1,2)] max, of start 1]
    unfolding len by blast
  have build: "build_even_principal_plans dr rt agr n start_date = Inr rows"
    using rows(1) assms(2,3) unfolding len sum by (simp add: build_even_principal_plans_def Let_def)
  have taken: "of_int (sum_list (map rp_principal (take j rows))) = sum_list (take j ?ss) * 10 ^ ?e" if "j \<le> nat n" for j
    using rows_principal [of rows ?ss] rows(2,3) that unfolding len by blast
  have "of_int (sum_list (map rp_principal rows)) = (of_int (ag_outstanding agr) :: rat)"
    using taken [of "nat n"] rows(2) len sum t(3) by simp
  then have total: "sum_list (map rp_principal rows) = ag_outstanding agr" by (simp only: of_int_eq_iff)
  note row = rows_joined [OF rows(3)]
  show ?thesis
  proof (intro exI conjI allI impI)
    fix j assume "j < nat n"
    then show "rp_term_no (rows ! j) = int j + 1" "0 \<le> rp_principal (rows ! j)"
      "rp_from (rows ! j) = (if j = 0 then format_iso (add_months start 0) else rp_to (rows ! (j - 1)))"
      using row by simp_all
    show "to_minor rt (monthly_interest dr rt
         (from_minor (ag_outstanding agr - sum_list (map rp_principal (take j rows))) ?c) (ag_rate agr) ?c) ?c =
         Inr (rp_interest (rows ! j))"
      using row [OF \<open>j < nat n\<close>] unfolding rows_rest [OF taken [OF less_imp_le [OF \<open>j < nat n\<close>]] sum] by blast
  qed (use build rows(2) total in simp_all)
qed

definition demo_agreement :: agreement where
  "demo_agreement = \<lparr>ag_id = ''a1'', ag_tenant = ''t1'', ag_contract = ''C1'', ag_code = ''A1'',
     ag_disburse_date = ''2026-01-31'', ag_disburse = 1000, ag_rate = 12, ag_over_rate = 18, ag_term = 3,
     ag_term_unit = ''M'', ag_maturity = ''2026-04-30'', ag_debt_group = ''GROUP_1'', ag_interest_freq = ''M'',
     ag_principal_freq = ''M'', ag_outstanding = 1000, ag_pending = 0, ag_coln_principal = 0,
     ag_coln_interest = 0, ag_provision = 0, ag_plan = [], ag_currency = [], ag_classification = [],
     ag_status = ''ACTIVE''\<rparr>"

lemma demo_rows_schedule:
  "build_even_principal_plans div_half_away round_half_away demo_agreement 3 ''2026-01-31'' = Inr
     [\<lparr>rp_contract = ''C1'', rp_agreement = ''A1'', rp_plan_no = 1, rp_term_no = 1, rp_from = ''2026-01-31'',
        rp_to = ''2026-03-03'', rp_rate = 12, rp_principal = 334, rp_interest = 10\<rparr>,
      \<lparr>rp_contract = ''C1'', rp_agreement = ''A1'', rp_plan_no = 1, rp_term_no = 2, rp_from = ''2026-03-03'',
        rp_to = ''2026-03-31'', rp_rate = 12, rp_principal = 333, rp_interest = 7\<rparr>,
      \<lparr>rp_contract = ''C1'', rp_agreement = ''A1'', rp_plan_no = 1, rp_term_no = 3, rp_from = ''2026-03-31'',
        rp_to = ''2026-05-01'', rp_rate = 12, rp_principal = 333, rp_interest = 3\<rparr>]"
  by code_simp

theorem schedule_complete_witness:
  "\<exists>rows. build_even_principal_plans div_half_away round_half_away demo_agreement 3 ''2026-01-31'' = Inr rows \<and>
     length rows = 3 \<and> sum_list (map rp_principal rows) = 1000"
proof -
  have "parse_iso ''2026-01-31'' = Some \<lparr>c_year = 2026, c_month = 1, c_day = 31\<rparr>" by code_simp
  from schedule_complete [OF dec.decimal_lib_axioms _ this, of 3 demo_agreement]
  show ?thesis by (auto simp: demo_agreement_def in64_def)
qed

end
