(* ===== verification/Loan_Status.thy ===== *)
theory Loan_Status
  imports Prelude
begin

text \<open>
  The status machines of the loan aggregates (apps/loan-service/internal/domain/status.go) and the
  rules that depend on a status: which contracts a maker may still edit, the decision of an
  adjustment and its replay. A machine is a list of edges; \<open>can_transition\<close> is the guard of every
  status change.
\<close>

section \<open>The machines\<close>

definition workflow_machine :: string where "workflow_machine = ''workflow''"
definition contract_machine :: string where "contract_machine = ''contract''"
definition agreement_machine :: string where "agreement_machine = ''agreement''"
definition plan_lifecycle_machine :: string where "plan_lifecycle_machine = ''repay_plan_lifecycle''"
definition plan_payment_machine :: string where "plan_payment_machine = ''repay_plan_payment''"

record transition =
  tr_from :: string
  tr_to :: string

definition edge :: "string \<Rightarrow> string \<Rightarrow> transition" where
  "edge a b = \<lparr>tr_from = a, tr_to = b\<rparr>"

definition machines :: "(string \<times> transition list) list" where
  "machines =
     [(workflow_machine,
        [edge ''DRAFT'' ''PENDING_APPROVAL'', edge ''DRAFT'' ''CANCELLED'',
         edge ''PENDING_APPROVAL'' ''SUBMIT_FAILED'', edge ''SUBMIT_FAILED'' ''PENDING_APPROVAL'',
         edge ''PENDING_APPROVAL'' ''APPROVED'', edge ''PENDING_APPROVAL'' ''REJECTED'',
         edge ''PENDING_APPROVAL'' ''CANCELLED'', edge ''REJECTED'' ''DRAFT'',
         edge ''APPROVED'' ''POSTED'', edge ''POSTED'' ''REVERSED'']),
      (contract_machine,
        [edge ''DRAFT'' ''PENDING_APPROVAL'', edge ''DRAFT'' ''CANCELLED'',
         edge ''PENDING_APPROVAL'' ''APPROVED'', edge ''PENDING_APPROVAL'' ''REJECTED'',
         edge ''PENDING_APPROVAL'' ''CANCELLED'', edge ''REJECTED'' ''DRAFT'',
         edge ''APPROVED'' ''DISBURSED'', edge ''DISBURSED'' ''CLOSED'']),
      (agreement_machine, [edge ''ACTIVE'' ''CLOSED'']),
      (plan_lifecycle_machine, [edge ''ACTIVE'' ''SUPERSEDED'']),
      (plan_payment_machine,
        [edge ''PLANNED'' ''PARTIALLY_PAID'', edge ''PLANNED'' ''PAID'', edge ''PARTIALLY_PAID'' ''PAID''])]"

definition allowed_transitions :: "string \<Rightarrow> transition list" where
  "allowed_transitions machine = (case map_of machines machine of Some es \<Rightarrow> es | None \<Rightarrow> [])"

section \<open>The guard\<close>

definition err_transition :: string where "err_transition = ''invalid status transition: ''"

definition needs_reason :: "string \<Rightarrow> bool" where
  "needs_reason t \<longleftrightarrow> t = ''REJECTED'' \<or> t = ''CANCELLED'' \<or> t = ''REVERSED''"

text \<open>The loop over the edges: \<open>None\<close> when no edge matches.\<close>

fun scan_edges :: "transition list \<Rightarrow> string \<Rightarrow> string \<Rightarrow> string \<Rightarrow> (string + unit) option" where
  "scan_edges [] a b reason = None"
| "scan_edges (e # es) a b reason =
     (if tr_from e = a \<and> tr_to e = b
      then (if needs_reason b \<and> trim_space reason = []
            then Some (Inl (err_transition @ b @ '' requires a reason'')) else Some (Inr ()))
      else scan_edges es a b reason)"

definition can_transition :: "string \<Rightarrow> string \<Rightarrow> string \<Rightarrow> string \<Rightarrow> string + unit" where
  "can_transition machine a b reason =
     (if machine = [] \<or> a = [] \<or> b = []
      then Inl (err_transition @ ''machine, from and to are required'')
      else case scan_edges (allowed_transitions machine) a b reason of
        Some r \<Rightarrow> r
      | None \<Rightarrow> Inl (err_transition @ machine @ '' cannot move from '' @ a @ '' to '' @ b))"

fun touches :: "transition list \<Rightarrow> string \<Rightarrow> bool" where
  "touches [] status = False"
| "touches (e # es) status = (tr_from e = status \<or> tr_to e = status \<or> touches es status)"

definition has_transition_path :: "string \<Rightarrow> string \<Rightarrow> bool" where
  "has_transition_path machine status = touches (allowed_transitions machine) status"

section \<open>Decisions\<close>

definition adjustment_decision_status :: "string \<Rightarrow> string + string" where
  "adjustment_decision_status decision =
     (let d = to_upper decision in
      if d = ''APPROVE'' then Inr ''ACTIVE''
      else if d = ''REJECT'' then Inr ''REJECTED''
      else if d = ''CANCEL'' then Inr ''CANCELLED''
      else Inl ''unknown decision'')"

definition check_adjustment_replay :: "string \<Rightarrow> string \<Rightarrow> string + unit" where
  "check_adjustment_replay current target =
     (if current = target then Inr ()
      else Inl (''lnm: adjustment is not pending (status='' @ current @ '')''))"

definition contract_editable :: "string \<Rightarrow> bool" where
  "contract_editable status \<longleftrightarrow>
     status = ''DRAFT'' \<or> status = ''PENDING_APPROVAL'' \<or> status = ''REJECTED''"

section \<open>Histories\<close>

text \<open>The status history of one aggregate: every change goes through the guard. Latest first.\<close>

inductive history :: "string \<Rightarrow> string \<Rightarrow> string list \<Rightarrow> bool" for machine start where
  history_start: "history machine start [start]"
| history_move: "history machine start (a # h) \<Longrightarrow> can_transition machine a b reason = Inr () \<Longrightarrow>
    history machine start (b # a # h)"

inductive_cases history_ConsE: "history machine start (b # a # h)"
inductive_simps history_single: "history machine start [a]"

lemma history_nonempty: "history machine start h \<Longrightarrow> h \<noteq> []"
  by (induction rule: history.induct) auto

text \<open>
  The contract that a checkpoint of a machine offers: the statuses before it are closed under the
  moves, except for the move into the checkpoint itself.
\<close>

locale checkpoint =
  fixes moves :: "string \<Rightarrow> string \<Rightarrow> bool"
    and start :: string and gate :: string and before :: "string set"
  assumes start_before: "start \<in> before"
    and moves_before: "a \<in> before \<Longrightarrow> moves a b \<Longrightarrow> b = gate \<or> b \<in> before"
begin

inductive run :: "string list \<Rightarrow> bool" where
  run_start: "run [start]"
| run_move: "run (a # h) \<Longrightarrow> moves a b \<Longrightarrow> run (b # a # h)"

lemma passes_gate: "run h \<Longrightarrow> hd h \<notin> before \<Longrightarrow> gate \<in> set h"
proof (induction rule: run.induct)
  case run_start
  then show ?case using start_before by simp
next
  case (run_move a h b)
  then show ?case using moves_before by (cases "a \<in> before") auto
qed

end

definition moves :: "string \<Rightarrow> string \<Rightarrow> string \<Rightarrow> bool" where
  "moves machine a b \<longleftrightarrow> edge a b \<in> set (allowed_transitions machine)"

lemma scan_edges_None: "scan_edges es a b reason = None \<longleftrightarrow> edge a b \<notin> set es"
  by (induction es) (auto simp: edge_def)

lemma scan_edges_Some:
  "edge a b \<in> set es \<Longrightarrow> scan_edges es a b reason =
     Some (if needs_reason b \<and> trim_space reason = []
           then Inl (err_transition @ b @ '' requires a reason'') else Inr ())"
  by (induction es) (auto simp: edge_def)

lemma can_transition_ok:
  "can_transition machine a b reason = Inr () \<longleftrightarrow>
     machine \<noteq> [] \<and> a \<noteq> [] \<and> b \<noteq> [] \<and> moves machine a b \<and> (needs_reason b \<longrightarrow> trim_space reason \<noteq> [])"
  by (cases "edge a b \<in> set (allowed_transitions machine)")
    (auto simp: can_transition_def moves_def scan_edges_Some scan_edges_None [THEN iffD2])

lemmas machine_simps = moves_def allowed_transitions_def machines_def edge_def workflow_machine_def
  contract_machine_def agreement_machine_def plan_lifecycle_machine_def plan_payment_machine_def

interpretation workflow: checkpoint "moves workflow_machine" "''DRAFT''" "''APPROVED''"
  "{''DRAFT'', ''PENDING_APPROVAL'', ''SUBMIT_FAILED'', ''REJECTED'', ''CANCELLED''}"
  by unfold_locales (auto simp: machine_simps)

interpretation contract: checkpoint "moves contract_machine" "''DRAFT''" "''APPROVED''"
  "{''DRAFT'', ''PENDING_APPROVAL'', ''REJECTED'', ''CANCELLED''}"
  by unfold_locales (auto simp: machine_simps)

lemma history_workflow_run: "history workflow_machine ''DRAFT'' h \<Longrightarrow> workflow.run h"
  by (induction rule: history.induct) (auto simp: can_transition_ok intro: workflow.run.intros)

lemma history_contract_run: "history contract_machine ''DRAFT'' h \<Longrightarrow> contract.run h"
  by (induction rule: history.induct) (auto simp: can_transition_ok intro: contract.run.intros)

section \<open>Properties\<close>

definition terminal :: "string \<Rightarrow> string \<Rightarrow> bool" where
  "terminal machine s \<longleftrightarrow> (\<forall>e\<in>set (allowed_transitions machine). tr_from e \<noteq> s)"

text \<open>The guard of a status change says yes exactly when the three names are given, the machine has the
  edge, and a rejection, cancellation or reversal comes with a reason that is not blank; a status is known
  to a machine exactly when some edge touches it.\<close>

theorem can_transition_iff:
  "(can_transition machine a b reason = Inr () \<longleftrightarrow>
      machine \<noteq> [] \<and> a \<noteq> [] \<and> b \<noteq> [] \<and> edge a b \<in> set (allowed_transitions machine) \<and>
      (needs_reason b \<longrightarrow> trim_space reason \<noteq> [])) \<and>
   (has_transition_path machine a \<longleftrightarrow>
      (\<exists>e\<in>set (allowed_transitions machine). tr_from e = a \<or> tr_to e = a))"
proof
  show "can_transition machine a b reason = Inr () \<longleftrightarrow>
      machine \<noteq> [] \<and> a \<noteq> [] \<and> b \<noteq> [] \<and> edge a b \<in> set (allowed_transitions machine) \<and>
      (needs_reason b \<longrightarrow> trim_space reason \<noteq> [])"
    by (simp add: can_transition_ok moves_def)
  have "touches es a \<longleftrightarrow> (\<exists>e\<in>set es. tr_from e = a \<or> tr_to e = a)" for es
    by (induction es) auto
  then show "has_transition_path machine a \<longleftrightarrow>
      (\<exists>e\<in>set (allowed_transitions machine). tr_from e = a \<or> tr_to e = a)"
    by (simp add: has_transition_path_def)
qed

theorem can_transition_iff_witness:
  "can_transition workflow_machine ''PENDING_APPROVAL'' ''REJECTED'' '' too risky '' = Inr () \<and>
   can_transition workflow_machine ''PENDING_APPROVAL'' ''REJECTED'' ''  '' \<noteq> Inr ()"
  unfolding can_transition_iff [THEN conjunct1]
  by (simp add: machine_simps needs_reason_def) code_simp

text \<open>C15. Nothing is posted or disbursed without an approval: in every status history that starts as a draft
  and only uses guarded moves, a workflow case that is POSTED or REVERSED has been APPROVED before, and so
  has a contract that is DISBURSED or CLOSED.\<close>

theorem approved_before_posting:
  "(history workflow_machine ''DRAFT'' h \<longrightarrow> hd h = ''POSTED'' \<or> hd h = ''REVERSED'' \<longrightarrow> ''APPROVED'' \<in> set h) \<and>
   (history contract_machine ''DRAFT'' h \<longrightarrow> hd h = ''DISBURSED'' \<or> hd h = ''CLOSED'' \<longrightarrow> ''APPROVED'' \<in> set h)"
proof (intro conjI impI)
  assume "history workflow_machine ''DRAFT'' h" "hd h = ''POSTED'' \<or> hd h = ''REVERSED''"
  then show "''APPROVED'' \<in> set h" by (intro workflow.passes_gate history_workflow_run) auto
next
  assume "history contract_machine ''DRAFT'' h" "hd h = ''DISBURSED'' \<or> hd h = ''CLOSED''"
  then show "''APPROVED'' \<in> set h" by (intro contract.passes_gate history_contract_run) auto
qed

definition demo_history :: "string list" where
  "demo_history = [''POSTED'', ''APPROVED'', ''PENDING_APPROVAL'', ''SUBMIT_FAILED'', ''PENDING_APPROVAL'', ''DRAFT'']"

lemma demo_history_run: "history workflow_machine ''DRAFT'' demo_history"
  unfolding demo_history_def
  by (intro history.intros(2) [where reason = "[]"] history_start)
    (simp_all add: can_transition_ok machine_simps needs_reason_def)

theorem approved_before_posting_witness:
  "history workflow_machine ''DRAFT'' demo_history \<and> ''APPROVED'' \<in> set demo_history"
  using approved_before_posting [of demo_history] demo_history_run by (simp add: demo_history_def)

abbreviation "workflow_statuses \<equiv>
  {''DRAFT'', ''PENDING_APPROVAL'', ''SUBMIT_FAILED'', ''REJECTED'', ''CANCELLED'', ''APPROVED'', ''POSTED'', ''REVERSED''}"

lemma workflow_status: "history workflow_machine ''DRAFT'' h \<Longrightarrow> hd h \<in> workflow_statuses"
  by (induction rule: history.induct) (auto simp: can_transition_ok machine_simps)

lemma workflow_move:
  assumes "history workflow_machine ''DRAFT'' (a # h)" "moves workflow_machine a b" "a \<noteq> []" "b \<noteq> []"
  shows "history workflow_machine ''DRAFT'' (b # a # h)"
proof (rule history_move [OF assms(1)])
  have "trim_space ''x'' \<noteq> []" by code_simp
  with assms show "can_transition workflow_machine a b ''x'' = Inr ()"
    by (simp add: can_transition_ok workflow_machine_def)
qed

text \<open>The way out of each status, last step first.\<close>

fun way_out :: "string \<Rightarrow> string list" where
  "way_out s =
     (if s = ''DRAFT'' \<or> s = ''PENDING_APPROVAL'' then [''CANCELLED'']
      else if s = ''SUBMIT_FAILED'' then [''CANCELLED'', ''PENDING_APPROVAL'']
      else if s = ''REJECTED'' then [''CANCELLED'', ''DRAFT'']
      else if s = ''APPROVED'' then [''REVERSED'', ''POSTED'']
      else if s = ''POSTED'' then [''REVERSED''] else [])"

lemma workflow_exits:
  "moves workflow_machine ''DRAFT'' ''CANCELLED''" "moves workflow_machine ''PENDING_APPROVAL'' ''CANCELLED''"
  "moves workflow_machine ''SUBMIT_FAILED'' ''PENDING_APPROVAL''" "moves workflow_machine ''REJECTED'' ''DRAFT''"
  "moves workflow_machine ''APPROVED'' ''POSTED''" "moves workflow_machine ''POSTED'' ''REVERSED''"
  by (simp_all add: machine_simps)

lemma way_out_history:
  assumes "history workflow_machine ''DRAFT'' (a # h)"
  shows "history workflow_machine ''DRAFT'' (way_out a @ a # h)"
proof -
  have "a \<in> workflow_statuses" using workflow_status [OF assms] by simp
  then consider "a = ''DRAFT'' \<or> a = ''PENDING_APPROVAL''" | "a = ''SUBMIT_FAILED''" | "a = ''REJECTED''"
    | "a = ''APPROVED''" | "a = ''POSTED''" | "a = ''CANCELLED'' \<or> a = ''REVERSED''"
    unfolding insert_iff empty_iff by argo
  then show ?thesis
  proof cases
    case 1
    then show ?thesis using workflow_move [OF assms, of "''CANCELLED''"] workflow_exits(1,2) by auto
  next
    case 2
    note a = assms [unfolded 2] and w = workflow_exits(3,2)
    show ?thesis using workflow_move [OF workflow_move [OF a w(1)] w(2)] unfolding 2 by simp
  next
    case 3
    note a = assms [unfolded 3] and w = workflow_exits(4,1)
    show ?thesis using workflow_move [OF workflow_move [OF a w(1)] w(2)] unfolding 3 by simp
  next
    case 4
    note a = assms [unfolded 4] and w = workflow_exits(5,6)
    show ?thesis using workflow_move [OF workflow_move [OF a w(1)] w(2)] unfolding 4 by simp
  next
    case 5
    then show ?thesis using workflow_move [OF assms, of "''REVERSED''"] workflow_exits(6) by auto
  next
    case 6
    then show ?thesis using assms by auto
  qed
qed

lemma workflow_end: "terminal workflow_machine ''CANCELLED''" "terminal workflow_machine ''REVERSED''"
  by (simp_all add: terminal_def machine_simps)

text \<open>C16. No workflow case is stuck: from every status history that starts as a draft, some continuation with
  guarded moves ends in a terminal status, CANCELLED or REVERSED, and these two have no way out.\<close>

theorem every_case_can_close:
  assumes "history workflow_machine ''DRAFT'' h"
  shows "(\<exists>more. history workflow_machine ''DRAFT'' (more @ h) \<and> terminal workflow_machine (hd (more @ h))) \<and>
    (\<forall>s. has_transition_path workflow_machine s \<longrightarrow>
       (terminal workflow_machine s \<longleftrightarrow> s = ''CANCELLED'' \<or> s = ''REVERSED''))"
proof
  show "\<forall>s. has_transition_path workflow_machine s \<longrightarrow>
      (terminal workflow_machine s \<longleftrightarrow> s = ''CANCELLED'' \<or> s = ''REVERSED'')"
    by (auto simp: has_transition_path_def terminal_def machine_simps)
  obtain a r where h: "h = a # r" using history_nonempty [OF assms] by (cases h) auto
  have "terminal workflow_machine (hd (way_out a @ a # r))"
    using workflow_status [OF assms] workflow_end unfolding h by auto
  then show "\<exists>more. history workflow_machine ''DRAFT'' (more @ h) \<and> terminal workflow_machine (hd (more @ h))"
    using way_out_history [of a r] assms unfolding h by blast
qed

theorem every_case_can_close_witness:
  "\<exists>more. history workflow_machine ''DRAFT'' (more @ demo_history) \<and>
     terminal workflow_machine (hd (more @ demo_history))"
  using every_case_can_close [OF demo_history_run] by blast

end
