(* ===== verification/Loan_Db.thy ===== *)
theory Loan_Db
  imports Loan_Rules Loan_Status
begin

text \<open>
  The rows of the loan service that drawdowns and receipts work on and the statements of the
  repository on them (apps/loan-service/internal/repository: contract_exposure_repo.go,
  disbursement_repo.go, agreement_repo.go, outbox.go and loan_repo.go). The state holds the rows of
  one tenant; every statement filters by tenant. A repository call is one transaction: an error
  leaves the rows as they were. Row ids are generated by the database: here the next unused number.
\<close>

section \<open>Rows\<close>

record loan_contract =
  lc_id :: string
  lc_code :: string
  lc_amount :: int
  lc_status :: string
  lc_employee :: string
  lc_customer :: string
  lc_product :: string
  lc_org :: string
  lc_case :: "string option"
  lc_date :: string
  lc_maturity :: string

record loan_agreement =
  la_code :: string
  la_contract :: string
  la_outstanding :: int
  la_pending :: int
  la_coln_principal :: int
  la_coln_interest :: int
  la_group :: string
  la_plan :: string
  la_status :: string

record drawdown =
  dd_id :: nat
  dd_contract :: string
  dd_agreement :: string
  dd_date :: string
  dd_amount :: int
  dd_currency :: string
  dd_fund :: "string option"
  dd_flow :: string
  dd_source :: "nat option"
  dd_batch :: "nat option"
  dd_closed :: bool
  dd_status :: string
  dd_case :: "string option"
  dd_case_code :: "string option"
  dd_journal :: "string option"
  dd_created_by :: string
  dd_updated_by :: string
  dd_version :: int

text \<open>\<open>lnm_contract_reservations\<close>: every row has the source type DISBURSEMENT.\<close>

record reservation =
  rs_contract :: string
  rs_source :: nat
  rs_amount :: int
  rs_status :: string

record receipt =
  rc_id :: nat
  rc_contract :: string
  rc_agreement :: string
  rc_date :: string
  rc_principal :: int
  rc_interest :: int
  rc_overdue :: int
  rc_currency :: string
  rc_batch :: "string option"
  rc_status :: string
  rc_case :: "string option"
  rc_case_code :: "string option"
  rc_journal :: "string option"
  rc_created_by :: string
  rc_updated_by :: "string option"
  rc_version :: int

record draw_batch =
  db_id :: nat
  db_flow :: string
  db_source :: "nat option"
  db_date :: string
  db_currency :: string
  db_total :: int
  db_status :: string
  db_case :: "string option"
  db_journal :: "string option"
  db_created_by :: string
  db_version :: int

record receipt_batch =
  cb_id :: string
  cb_date :: string
  cb_principal :: int
  cb_interest :: int
  cb_status :: string
  cb_case :: "string option"
  cb_journal :: "string option"
  cb_created_by :: string
  cb_version :: int

text \<open>The queue of workflow submissions of batches; one row per batch.\<close>

record submission =
  sb_batch :: nat
  sb_status :: string
  sb_attempts :: int
  sb_next :: int
  sb_locked :: "int option"
  sb_error :: string

text \<open>An event of \<open>loan_outbox\<close>: its dedupe key is the drawdown and the status.\<close>

record draw_event =
  de_draw :: nat
  de_status :: string
  de_contract :: string
  de_users :: "string list"

text \<open>One line of \<open>lnm_disbursement_batch_history\<close>: batch, event, from, to.\<close>

record batch_line =
  bl_batch :: nat
  bl_event :: string
  bl_from :: string
  bl_to :: string

record approval_limit =
  al_org :: string
  al_product :: string
  al_pgd :: int
  al_gd :: int

text \<open>
  A row of one of the eleven tables of adjustments, the one of its kind. The payload is what the JSON
  object decodes to: its keys, each with null, a text, or something else.
\<close>

datatype payload_value = P_Null | P_Text string | P_Other

record adjustment =
  aj_kind :: string
  aj_id :: string
  aj_contract :: string
  aj_agreement :: "string option"
  aj_date :: "string option"
  aj_amount :: "int option"
  aj_payload :: "(string \<times> payload_value) list"
  aj_status :: string
  aj_case :: "string option"
  aj_note :: "string option"
  aj_decided_by :: "string option"
  aj_created_by :: string

record loan_db =
  ld_contracts :: "loan_contract list"
  ld_agreements :: "loan_agreement list"
  ld_draws :: "drawdown list"
  ld_reservations :: "reservation list"
  ld_receipts :: "receipt list"
  ld_batches :: "draw_batch list"
  ld_receipt_batches :: "receipt_batch list"
  ld_submissions :: "submission list"
  ld_events :: "draw_event list"
  ld_history :: "batch_line list"
  ld_limits :: "approval_limit list"
  ld_adjustments :: "adjustment list"
  ld_next :: nat

section \<open>Errors\<close>

text \<open>
  The sentinels of the repository and the domain; \<open>Db_Error\<close> stands for every other error,
  mostly of the database, \<open>No_Rows\<close> for a bare \<open>sql.ErrNoRows\<close>.
\<close>

datatype loan_error =
  Not_Found | No_Rows | Code_Taken | Stale_Version | Bad_Transition | Headroom_Exceeded | Not_Approved | Not_Editable
  | Not_Pending | Db_Error

definition map_repo_error :: "loan_error \<Rightarrow> string" where
  "map_repo_error e =
     (case e of
        Bad_Transition \<Rightarrow> code_conflict
      | Stale_Version \<Rightarrow> code_conflict
      | Not_Approved \<Rightarrow> code_conflict
      | Not_Pending \<Rightarrow> code_conflict
      | Not_Found \<Rightarrow> code_not_found
      | Code_Taken \<Rightarrow> code_conflict
      | _ \<Rightarrow> code_internal)"

text \<open>The guard of a status change, as the error of the domain.\<close>

definition transition_ok :: "string \<Rightarrow> string \<Rightarrow> string \<Rightarrow> string \<Rightarrow> loan_error + unit" where
  "transition_ok machine a b reason =
     (case can_transition machine a b reason of Inl _ \<Rightarrow> Inl Bad_Transition | Inr _ \<Rightarrow> Inr ())"

section \<open>Queries\<close>

definition contract_by_code :: "loan_db \<Rightarrow> string \<Rightarrow> loan_contract option" where
  "contract_by_code db code = find (\<lambda>c. lc_code c = code) (ld_contracts db)"

definition agreement_by_code :: "loan_db \<Rightarrow> string \<Rightarrow> loan_agreement option" where
  "agreement_by_code db code = find (\<lambda>a. la_code a = code) (ld_agreements db)"

definition draw_by_id :: "loan_db \<Rightarrow> nat \<Rightarrow> drawdown option" where
  "draw_by_id db i = find (\<lambda>d. dd_id d = i) (ld_draws db)"

text \<open>A SUM of BIGINT is a NUMERIC; reading it into an \<open>int64\<close> fails when it does not fit.\<close>

definition scan_sum :: "int list \<Rightarrow> loan_error + int" where
  "scan_sum xs = (if in64 (sum_list xs) then Inr (sum_list xs) else Inl Db_Error)"

definition contract_outstanding :: "loan_db \<Rightarrow> string \<Rightarrow> int list" where
  "contract_outstanding db code = [la_outstanding a. a \<leftarrow> ld_agreements db, la_contract a = code]"

definition contract_pending :: "loan_db \<Rightarrow> string \<Rightarrow> int list" where
  "contract_pending db code = [la_pending a. a \<leftarrow> ld_agreements db, la_contract a = code]"

definition contract_held :: "loan_db \<Rightarrow> string \<Rightarrow> int list" where
  "contract_held db code = [rs_amount r. r \<leftarrow> ld_reservations db, rs_contract r = code \<and> rs_status r = ''HELD'']"

definition load_contract_exposure :: "loan_db \<Rightarrow> string \<Rightarrow> loan_error + contract_exposure" where
  "load_contract_exposure db code =
     (case contract_by_code db code of
        None \<Rightarrow> Inl Not_Found
      | Some c \<Rightarrow>
        bind_r (scan_sum (contract_outstanding db code)) (\<lambda>outst.
        bind_r (scan_sum (contract_pending db code)) (\<lambda>pending.
        bind_r (scan_sum (contract_held db code)) (\<lambda>held.
          Inr \<lparr>ce_loan = lc_amount c, ce_outstanding = outst, ce_pending = pending, ce_reserved = held\<rparr>))))"

definition sum_complete_for_source :: "loan_db \<Rightarrow> nat \<Rightarrow> loan_error + int" where
  "sum_complete_for_source db source =
     scan_sum [dd_amount d. d \<leftarrow> ld_draws db, dd_source d = Some source \<and> dd_flow d = ''COMPLETE'' \<and>
       dd_status d \<in> {''PENDING_APPROVAL'', ''APPROVED'', ''POSTED''}]"

text \<open>\<open>staleVersion\<close>: did a guarded statement miss its row because of the version?\<close>

definition stale_version :: "int option \<Rightarrow> int \<Rightarrow> bool" where
  "stale_version current expected =
     (0 < expected \<and> (case current of None \<Rightarrow> False | Some v \<Rightarrow> v \<noteq> expected))"

section \<open>Reservations\<close>

text \<open>The table holds at most one reservation for a source.\<close>

definition reserve_contract_amount ::
  "loan_db \<Rightarrow> string \<Rightarrow> nat \<Rightarrow> int \<Rightarrow> loan_error + loan_db" where
  "reserve_contract_amount db code source amount =
     (case contract_by_code db code of
        None \<Rightarrow> Inl Not_Found
      | Some _ \<Rightarrow>
        bind_r (load_contract_exposure db code) (\<lambda>exposure.
          if \<not> allows exposure amount then Inl Headroom_Exceeded
          else if \<exists>r\<in>set (ld_reservations db). rs_source r = source then Inl Db_Error
          else Inr (db\<lparr>ld_reservations := ld_reservations db @
                 [\<lparr>rs_contract = code, rs_source = source, rs_amount = amount, rs_status = ''HELD''\<rparr>]\<rparr>)))"

definition release_reservations :: "(nat \<Rightarrow> bool) \<Rightarrow> loan_db \<Rightarrow> loan_db" where
  "release_reservations sources db =
     db\<lparr>ld_reservations := upd (\<lambda>r. sources (rs_source r) \<and> rs_status r = ''HELD'')
        (\<lambda>r. r\<lparr>rs_status := ''RELEASED''\<rparr>) (ld_reservations db)\<rparr>"

section \<open>Drawdown rows\<close>

text \<open>
  The INSERT of a drawdown: the amount may not be negative, a source has to be a row of the table, and
  the date has to be one for the database (\<open>pgd\<close> reads a text as a DATE and gives its ISO text).
\<close>

definition insert_draw :: "(string \<Rightarrow> string option) \<Rightarrow> loan_db \<Rightarrow> drawdown \<Rightarrow> loan_error + loan_db \<times> nat" where
  "insert_draw pgd db d =
     (case pgd (dd_date d) of
        None \<Rightarrow> Inl Db_Error
      | Some date \<Rightarrow>
        if dd_amount d < 0 then Inl Db_Error
        else if dd_source d \<noteq> None \<and> draw_by_id db (the (dd_source d)) = None then Inl Db_Error
        else Inr (db\<lparr>ld_draws := ld_draws db @
               [d\<lparr>dd_id := ld_next db, dd_date := date, dd_status := ''DRAFT'', dd_version := 1\<rparr>],
             ld_next := ld_next db + 1\<rparr>, ld_next db))"

definition create_draw_row :: "(string \<Rightarrow> string option) \<Rightarrow> loan_db \<Rightarrow> drawdown \<Rightarrow> loan_db \<times> (loan_error + nat)" where
  "create_draw_row pgd db d = (case insert_draw pgd db d of Inl e \<Rightarrow> (db, Inl e) | Inr (db1, i) \<Rightarrow> (db1, Inr i))"

definition create_draw_with_reservation ::
  "(string \<Rightarrow> string option) \<Rightarrow> loan_db \<Rightarrow> drawdown \<Rightarrow> loan_db \<times> (loan_error + nat)" where
  "create_draw_with_reservation pgd db d =
     (case bind_r (insert_draw pgd db d) (\<lambda>(db1, i).
         bind_r (reserve_contract_amount db1 (dd_contract d) i (dd_amount d)) (\<lambda>db2. Inr (db2, i))) of
        Inl e \<Rightarrow> (db, Inl e)
      | Inr (db2, i) \<Rightarrow> (db2, Inr i))"

text \<open>\<open>WHERE id = $2 AND status = $5 AND ($6 = 0 OR version = $6)\<close>.\<close>

definition draw_guard :: "nat \<Rightarrow> string \<Rightarrow> int \<Rightarrow> drawdown \<Rightarrow> bool" where
  "draw_guard i status expected d =
     (dd_id d = i \<and> dd_status d = status \<and> (expected = 0 \<or> dd_version d = expected))"

definition miss_draw :: "loan_db \<Rightarrow> nat \<Rightarrow> int \<Rightarrow> loan_error" where
  "miss_draw db i expected =
     (if stale_version (map_option dd_version (draw_by_id db i)) expected then Stale_Version
      else case draw_by_id db i of None \<Rightarrow> Not_Found | Some _ \<Rightarrow> Bad_Transition)"

definition set_draw_row_status ::
  "loan_db \<Rightarrow> nat \<Rightarrow> string \<Rightarrow> string \<Rightarrow> string \<Rightarrow> int \<Rightarrow> loan_error + loan_db" where
  "set_draw_row_status db i from_status to_status actor expected =
     (if \<exists>d\<in>set (ld_draws db). draw_guard i from_status expected d
      then Inr (db\<lparr>ld_draws := upd (draw_guard i from_status expected)
             (\<lambda>d. d\<lparr>dd_status := to_status, dd_updated_by := actor, dd_version := dd_version d + 1\<rparr>) (ld_draws db)\<rparr>)
      else Inl (miss_draw db i expected))"

definition event_users :: "string \<Rightarrow> string \<Rightarrow> string list" where
  "event_users created_by updated_by =
     (if created_by \<noteq> [] then [created_by] else []) @
     (if updated_by \<noteq> [] \<and> updated_by \<noteq> created_by then [updated_by] else [])"

definition enqueue_draw_event :: "loan_db \<Rightarrow> nat \<Rightarrow> string \<Rightarrow> string \<Rightarrow> string \<Rightarrow> string \<Rightarrow> loan_db" where
  "enqueue_draw_event db i status0 contract created_by updated_by =
     (let status = to_upper (trim_space status0) in
      if status \<notin> {''APPROVED'', ''REJECTED'', ''FAILED''} then db
      else if \<exists>e\<in>set (ld_events db). de_draw e = i \<and> de_status e = status then db
      else db\<lparr>ld_events := ld_events db @ [\<lparr>de_draw = i, de_status = status, de_contract = contract,
             de_users = event_users created_by updated_by\<rparr>]\<rparr>)"

definition set_draw_status ::
  "loan_db \<Rightarrow> nat \<Rightarrow> string \<Rightarrow> string \<Rightarrow> string \<Rightarrow> string \<Rightarrow> int \<Rightarrow> loan_db \<times> (loan_error + unit)" where
  "set_draw_status db i from_status to_status actor reason expected =
     (case bind_r (transition_ok workflow_machine from_status to_status reason) (\<lambda>_.
        if to_status \<in> {''APPROVED'', ''REJECTED'', ''CANCELLED'', ''FAILED''} then
          bind_r (set_draw_row_status db i from_status to_status actor expected) (\<lambda>db1.
            let db2 = (if to_status \<in> {''REJECTED'', ''CANCELLED''} then release_reservations (\<lambda>s. s = i) db1 else db1)
            in case draw_by_id db2 i of
                 None \<Rightarrow> Inl No_Rows
               | Some d \<Rightarrow> Inr (enqueue_draw_event db2 i to_status (dd_contract d) (dd_created_by d) (dd_updated_by d)))
        else set_draw_row_status db i from_status to_status actor expected) of
        Inl e \<Rightarrow> (db, Inl e)
      | Inr db1 \<Rightarrow> (db1, Inr ()))"

text \<open>At most one drawdown of a tenant carries a workflow case.\<close>

definition set_draw_case_and_journal ::
  "loan_db \<Rightarrow> nat \<Rightarrow> string \<Rightarrow> string \<Rightarrow> string \<Rightarrow> loan_db \<times> (loan_error + unit)" where
  "set_draw_case_and_journal db i case_id case_code journal =
     (if case_id \<noteq> [] \<and> (\<exists>d\<in>set (ld_draws db). dd_id d = i) \<and>
         (\<exists>d\<in>set (ld_draws db). dd_id d \<noteq> i \<and> dd_case d = Some case_id)
      then (db, Inl Db_Error)
      else (db\<lparr>ld_draws := upd (\<lambda>d. dd_id d = i)
              (\<lambda>d. d\<lparr>dd_case := null_if_empty case_id, dd_case_code := null_if_empty case_code,
                     dd_journal := null_if_empty journal, dd_version := dd_version d + 1\<rparr>) (ld_draws db)\<rparr>, Inr ()))"

section \<open>Settling a drawdown\<close>

text \<open>
  An UPDATE of the balances of an agreement: \<open>None\<close> when no row satisfies the condition, an error
  when a balance leaves 64 bits.
\<close>

definition update_agreement ::
  "loan_db \<Rightarrow> (loan_agreement \<Rightarrow> bool) \<Rightarrow> (loan_agreement \<Rightarrow> loan_agreement) \<Rightarrow> loan_error + loan_db option" where
  "update_agreement db p f =
     (if \<exists>a\<in>set (ld_agreements db). p a \<and>
         \<not> (in64 (la_outstanding (f a)) \<and> in64 (la_pending (f a)) \<and> in64 (la_coln_principal (f a)) \<and>
            in64 (la_coln_interest (f a)))
      then Inl Db_Error
      else if \<exists>a\<in>set (ld_agreements db). p a
      then Inr (Some (db\<lparr>ld_agreements := upd p f (ld_agreements db)\<rparr>))
      else Inr None)"

definition disburse_contract :: "loan_db \<Rightarrow> (loan_contract \<Rightarrow> bool) \<Rightarrow> loan_db" where
  "disburse_contract db p =
     db\<lparr>ld_contracts := upd (\<lambda>c. p c \<and> lc_status c = ''APPROVED'') (\<lambda>c. c\<lparr>lc_status := ''DISBURSED''\<rparr>) (ld_contracts db)\<rparr>"

definition post_draw_row ::
  "loan_db \<Rightarrow> nat \<Rightarrow> string \<Rightarrow> string \<Rightarrow> int \<Rightarrow> loan_error + loan_db option" where
  "post_draw_row db i journal actor expected =
     (if \<exists>d\<in>set (ld_draws db). draw_guard i ''APPROVED'' expected d
      then Inr (Some (db\<lparr>ld_draws := upd (draw_guard i ''APPROVED'' expected)
             (\<lambda>d. d\<lparr>dd_status := ''POSTED'', dd_journal := null_if_empty journal, dd_updated_by := actor,
                    dd_version := dd_version d + 1\<rparr>) (ld_draws db)\<rparr>))
      else if stale_version (map_option dd_version (draw_by_id db i)) expected then Inl Stale_Version
      else Inr None)"

definition settle_gate :: "loan_error + unit" where
  "settle_gate =
     bind_r (transition_ok workflow_machine ''APPROVED'' ''POSTED'' []) (\<lambda>_.
       transition_ok contract_machine ''APPROVED'' ''DISBURSED'' [])"

text \<open>\<open>SettleDisbursementRegister\<close>: \<open>False\<close> when the row was not APPROVED.\<close>

definition settle_register_tx ::
  "loan_db \<Rightarrow> nat \<Rightarrow> string \<Rightarrow> int \<Rightarrow> string \<Rightarrow> string \<Rightarrow> int \<Rightarrow> loan_db \<times> (loan_error + bool)" where
  "settle_register_tx db i agreement amount journal actor expected =
     (case bind_r settle_gate (\<lambda>_. bind_r (post_draw_row db i journal actor expected) (\<lambda>posted.
        case posted of
          None \<Rightarrow> Inr None
        | Some db1 \<Rightarrow>
          bind_r (update_agreement db1 (\<lambda>a. la_code a = agreement) (\<lambda>a. a\<lparr>la_pending := la_pending a + amount\<rparr>))
            (\<lambda>r. case r of
               None \<Rightarrow> Inl Db_Error
             | Some db2 \<Rightarrow>
               let db3 = disburse_contract db2 (\<lambda>c. \<exists>d\<in>set (ld_draws db2). dd_id d = i \<and> dd_contract d = lc_code c) in
               if \<exists>r\<in>set (ld_reservations db3). rs_source r = i \<and> rs_status r = ''HELD''
               then Inr (Some (db3\<lparr>ld_reservations := upd (\<lambda>r. rs_source r = i \<and> rs_status r = ''HELD'')
                      (\<lambda>r. r\<lparr>rs_status := ''CONSUMED''\<rparr>) (ld_reservations db3)\<rparr>))
               else Inl Db_Error))) of
        Inl e \<Rightarrow> (db, Inl e)
      | Inr None \<Rightarrow> (db, Inr False)
      | Inr (Some db4) \<Rightarrow> (db4, Inr True))"

definition settle_complete_tx ::
  "loan_db \<Rightarrow> nat \<Rightarrow> string \<Rightarrow> string \<Rightarrow> int \<Rightarrow> string \<Rightarrow> string \<Rightarrow> int \<Rightarrow> loan_db \<times> (loan_error + bool)" where
  "settle_complete_tx db i contract agreement amount journal actor expected =
     (case bind_r settle_gate (\<lambda>_. bind_r (post_draw_row db i journal actor expected) (\<lambda>posted.
        case posted of
          None \<Rightarrow> Inr None
        | Some db1 \<Rightarrow>
          bind_r (update_agreement db1 (\<lambda>a. la_code a = agreement \<and> amount \<le> la_pending a)
              (\<lambda>a. a\<lparr>la_outstanding := la_outstanding a + amount, la_pending := la_pending a - amount\<rparr>))
            (\<lambda>r. case r of
               None \<Rightarrow> Inl Db_Error
             | Some db2 \<Rightarrow> Inr (Some (disburse_contract db2 (\<lambda>c. lc_code c = contract \<and>
                 (\<exists>d\<in>set (ld_draws db2). dd_contract d = lc_code c \<and> dd_flow d = ''COMPLETE'' \<and> dd_status d = ''POSTED'')))))))
      of
        Inl e \<Rightarrow> (db, Inl e)
      | Inr None \<Rightarrow> (db, Inr False)
      | Inr (Some db3) \<Rightarrow> (db3, Inr True))"

section \<open>Contracts and agreements\<close>

definition close_contract_by_code :: "loan_db \<Rightarrow> string \<Rightarrow> loan_db \<times> (loan_error + unit)" where
  "close_contract_by_code db code =
     (case transition_ok contract_machine ''DISBURSED'' ''CLOSED'' [] of
        Inl e \<Rightarrow> (db, Inl e)
      | Inr _ \<Rightarrow>
        if \<exists>c\<in>set (ld_contracts db). lc_code c = code \<and> lc_status c = ''DISBURSED''
        then (db\<lparr>ld_contracts := upd (\<lambda>c. lc_code c = code \<and> lc_status c = ''DISBURSED'')
                (\<lambda>c. c\<lparr>lc_status := ''CLOSED''\<rparr>) (ld_contracts db)\<rparr>, Inr ())
        else (db, Inl Bad_Transition))"

text \<open>The dates are cast by the statement: an empty text is not a date.\<close>

definition create_contract_row ::
  "(string \<Rightarrow> string option) \<Rightarrow> loan_db \<Rightarrow> loan_contract \<Rightarrow> loan_db \<times> (loan_error + unit)" where
  "create_contract_row pgd db c =
     (case (pgd (lc_date c), pgd (lc_maturity c)) of
        (Some d, Some m) \<Rightarrow>
          if \<exists>x\<in>set (ld_contracts db). lc_code x = lc_code c then (db, Inl Code_Taken)
          else (db\<lparr>ld_contracts := ld_contracts db @ [c\<lparr>lc_date := d, lc_maturity := m\<rparr>]\<rparr>, Inr ())
      | _ \<Rightarrow> (db, Inl Db_Error))"

definition update_contract_status :: "loan_db \<Rightarrow> string \<Rightarrow> string \<Rightarrow> string \<Rightarrow> loan_db \<times> (loan_error + unit)" where
  "update_contract_status db i from_status to_status =
     (if \<exists>c\<in>set (ld_contracts db). lc_id c = i \<and> lc_status c = from_status
      then (db\<lparr>ld_contracts := upd (\<lambda>c. lc_id c = i \<and> lc_status c = from_status)
              (\<lambda>c. c\<lparr>lc_status := to_status\<rparr>) (ld_contracts db)\<rparr>, Inr ())
      else (db, Inl (if \<exists>c\<in>set (ld_contracts db). lc_id c = i then Bad_Transition else Not_Found)))"

definition set_contract_workflow_case :: "loan_db \<Rightarrow> string \<Rightarrow> string \<Rightarrow> loan_db \<times> (loan_error + unit)" where
  "set_contract_workflow_case db i case_id =
     (let p = (\<lambda>c. lc_id c = i \<and>
          (lc_status c = ''DRAFT'' \<or> lc_status c = ''PENDING_APPROVAL'' \<and> lc_case c = Some case_id)) in
      if \<exists>c\<in>set (ld_contracts db). p c
      then (db\<lparr>ld_contracts := upd p (\<lambda>c. c\<lparr>lc_case := Some case_id, lc_status := ''PENDING_APPROVAL''\<rparr>)
              (ld_contracts db)\<rparr>, Inr ())
      else (db, Inl Bad_Transition))"

text \<open>The revision of a contract, over the columns that drawdowns read.\<close>

definition update_contract_row ::
  "(string \<Rightarrow> string option) \<Rightarrow> loan_db \<Rightarrow> string \<Rightarrow> int \<Rightarrow> string \<Rightarrow> string \<Rightarrow> string \<Rightarrow>
   loan_db \<times> (loan_error + unit)" where
  "update_contract_row pgd db i amount contract_date maturity_date employee =
     (case (pgd contract_date, pgd maturity_date) of
        (Some d, Some m) \<Rightarrow>
          let p = (\<lambda>c. lc_id c = i \<and> lc_status c \<in> {''DRAFT'', ''PENDING_APPROVAL'', ''REJECTED''}) in
          if \<exists>c\<in>set (ld_contracts db). p c
          then (db\<lparr>ld_contracts := upd p
                  (\<lambda>c. c\<lparr>lc_amount := amount, lc_date := d, lc_maturity := m, lc_employee := employee,
                         lc_status := (if lc_status c = ''REJECTED'' then ''DRAFT'' else lc_status c)\<rparr>) (ld_contracts db)\<rparr>,
                Inr ())
          else (db, Inl (if \<exists>c\<in>set (ld_contracts db). lc_id c = i then Not_Editable else Not_Found))
      | _ \<Rightarrow> (db, Inl Db_Error))"

definition create_agreement_row ::
  "(string \<Rightarrow> string option) \<Rightarrow> loan_db \<Rightarrow> loan_agreement \<Rightarrow> string \<Rightarrow> string \<Rightarrow> loan_db \<times> (loan_error + unit)" where
  "create_agreement_row pgd db a0 disburse_date maturity_date =
     (let a = a0\<lparr>la_status := ''ACTIVE'', la_group := (if la_group a0 = [] then ''GROUP_1'' else la_group a0),
                la_pending := 0, la_coln_principal := 0, la_coln_interest := 0\<rparr> in
      if pgd disburse_date = None \<or> pgd maturity_date = None then (db, Inl Db_Error)
      else if \<exists>x\<in>set (ld_agreements db). la_code x = la_code a then (db, Inl Code_Taken)
      else (db\<lparr>ld_agreements := ld_agreements db @ [a]\<rparr>, Inr ()))"

end
