(* ===== verification/Loan_Contracts.thy ===== *)
theory Loan_Contracts
  imports Loan_Db
begin

text \<open>
  Contracts and agreements (apps/loan-service/internal/service: contract_service.go,
  approval_limits.go and \<open>CreateAgreement\<close> of agreement_service.go). The workflow service is a
  parameter: opening a case and submitting it, either of which can fail.
\<close>

section \<open>Codes\<close>

text \<open>\<open>codePattern\<close>: a letter or digit, then up to 63 letters, digits, underscores, dots and hyphens.\<close>

definition code_start :: "char \<Rightarrow> bool" where
  "code_start c \<longleftrightarrow> (let n = of_char c :: nat in 65 \<le> n \<and> n \<le> 90 \<or> 97 \<le> n \<and> n \<le> 122 \<or> 48 \<le> n \<and> n \<le> 57)"

definition code_char :: "char \<Rightarrow> bool" where
  "code_char c \<longleftrightarrow> code_start c \<or> c \<in> {CHR ''_'', CHR ''.'', CHR ''-''}"

definition code_pattern :: "string \<Rightarrow> bool" where
  "code_pattern s = (case s of [] \<Rightarrow> False | c # cs \<Rightarrow> code_start c \<and> length cs \<le> 63 \<and> list_all code_char cs)"

section \<open>Approval limits\<close>

definition get_approval_limits ::
  "loan_db \<Rightarrow> string \<Rightarrow> string \<Rightarrow> approval_limit option \<times> approval_limit option" where
  "get_approval_limits db org prod_code =
     (if org = [] then (None, None)
      else let load = (\<lambda>code. find (\<lambda>l. al_org l = org \<and> al_product l = code) (ld_limits db))
           in (load prod_code, load []))"

definition no_limit :: approval_limit where
  "no_limit = \<lparr>al_org = [], al_product = [], al_pgd = 0, al_gd = 0\<rparr>"

definition pick_approval_limit :: "approval_limit option \<Rightarrow> approval_limit option \<Rightarrow> approval_limit" where
  "pick_approval_limit org prod_limit =
     (case prod_limit of Some l \<Rightarrow> l | None \<Rightarrow> (case org of Some l \<Rightarrow> l | None \<Rightarrow> no_limit))"

definition escalate_to_board :: int where "escalate_to_board = 0"

definition resolve_approval_limits :: "approval_limit option \<Rightarrow> approval_limit option \<Rightarrow> string + int \<times> int" where
  "resolve_approval_limits org prod_limit =
     (let picked = pick_approval_limit org prod_limit in
      if al_org picked = [] then Inr (escalate_to_board, escalate_to_board)
      else if al_pgd picked \<le> 0 \<or> al_gd picked < al_pgd picked then Inl code_conflict
      else Inr (al_pgd picked, al_gd picked))"

definition approval_limits :: "loan_db \<Rightarrow> loan_contract \<Rightarrow> string + int \<times> int" where
  "approval_limits db c =
     (case get_approval_limits db (lc_org c) (lc_product c) of
        (prod_limit, org) \<Rightarrow> resolve_approval_limits org prod_limit)"

section \<open>Contracts\<close>

text \<open>
  The workflow client: opening a case of a type for an object, which gives its id and code, and
  submitting it.
\<close>

record loan_workflow =
  lw_create :: "string \<Rightarrow> string \<Rightarrow> string + string \<times> string"
  lw_submit :: "string \<Rightarrow> string + unit"

definition start_case :: "loan_workflow \<Rightarrow> string \<Rightarrow> string \<Rightarrow> string + string \<times> string" where
  "start_case w case_type object_id =
     (case lw_create w case_type object_id of
        Inl _ \<Rightarrow> Inl code_bad_gateway
      | Inr (case_id, case_code) \<Rightarrow>
        (case lw_submit w case_id of Inl _ \<Rightarrow> Inl code_bad_gateway | Inr _ \<Rightarrow> Inr (case_id, case_code)))"

definition contract_by_id :: "loan_db \<Rightarrow> string \<Rightarrow> loan_contract option" where
  "contract_by_id db i = find (\<lambda>c. lc_id c = i) (ld_contracts db)"

text \<open>
  \<open>CreateContract\<close>: the INSERT does not store the organisation of the request. The error of the
  statement is returned as it is, which the handler reports as an internal error.
\<close>

definition create_contract ::
  "(string \<Rightarrow> string option) \<Rightarrow> loan_db \<Rightarrow> string \<Rightarrow> loan_contract \<Rightarrow> loan_db \<times> (string + unit)" where
  "create_contract pgd db fresh_id inp =
     (if trim_space (lc_code inp) = [] \<or> \<not> code_pattern (lc_code inp) then (db, Inl code_required)
      else if trim_space (lc_customer inp) = [] then (db, Inl code_required)
      else if lc_amount inp \<le> 0 then (db, Inl code_invalid_input)
      else case create_contract_row pgd db
          (inp\<lparr>lc_id := fresh_id, lc_status := ''DRAFT'', lc_org := [], lc_case := None\<rparr>) of
        (db1, Inl _) \<Rightarrow> (db1, Inl code_internal)
      | (db1, Inr _) \<Rightarrow> (db1, Inr ()))"

definition submit_contract :: "loan_workflow option \<Rightarrow> loan_db \<Rightarrow> string \<Rightarrow> loan_db \<times> (string + unit)" where
  "submit_contract workflow db i =
     (case workflow of
        None \<Rightarrow> (db, Inl code_internal)
      | Some w \<Rightarrow>
        (case contract_by_id db i of
           None \<Rightarrow> (db, Inl code_not_found)
         | Some c \<Rightarrow>
           if lc_status c \<noteq> ''DRAFT'' then (db, Inl code_invalid_input)
           else case approval_limits db c of
             Inl e \<Rightarrow> (db, Inl e)
           | Inr _ \<Rightarrow>
             (case start_case w ''LOAN_FORMATION_V2'' (lc_id c) of
                Inl e \<Rightarrow> (db, Inl e)
              | Inr (case_id, _) \<Rightarrow>
                (case set_contract_workflow_case db (lc_id c) case_id of
                   (db1, Inl e) \<Rightarrow> (db1, Inl (map_repo_error e))
                 | (db1, Inr _) \<Rightarrow> (db1, Inr ())))))"

definition set_contract_status :: "loan_db \<Rightarrow> string \<Rightarrow> string \<Rightarrow> string \<Rightarrow> loan_db \<times> (string + unit)" where
  "set_contract_status db i status reason =
     (if status = [] then (db, Inl code_required)
      else case contract_by_id db i of
        None \<Rightarrow> (db, Inl code_not_found)
      | Some c \<Rightarrow>
        (case transition_ok contract_machine (lc_status c) status reason of
           Inl e \<Rightarrow> (db, Inl (map_repo_error e))
         | Inr _ \<Rightarrow>
           (case update_contract_status db i (lc_status c) status of
              (db1, Inl e) \<Rightarrow> (db1, Inl (map_repo_error e))
            | (db1, Inr _) \<Rightarrow> (db1, Inr ()))))"

text \<open>
  \<open>UpdateContract\<close>, the revision by the maker: the checks on the new amount, rate, term and dates
  (\<open>validate_contract_update\<close>), the status window, and the statement with its own guard.
\<close>

definition update_contract ::
  "(string \<Rightarrow> string option) \<Rightarrow> bool \<Rightarrow> loan_db \<Rightarrow> string \<Rightarrow> int \<Rightarrow> rat \<Rightarrow> int \<Rightarrow> string \<Rightarrow> string \<Rightarrow> string \<Rightarrow>
   loan_db \<times> (string + unit)" where
  "update_contract pgd contract_first db i amount rate term contract_date maturity_date employee =
     (case validate_contract_update contract_first amount rate term contract_date maturity_date of
        Inl _ \<Rightarrow> (db, Inl code_invalid_input)
      | Inr _ \<Rightarrow>
        (case contract_by_id db i of
           None \<Rightarrow> (db, Inl code_not_found)
         | Some c \<Rightarrow>
           if \<not> contract_editable (lc_status c) then (db, Inl code_invalid_input)
           else case update_contract_row pgd db i amount contract_date maturity_date (trim_space employee) of
             (db1, Inl Not_Editable) \<Rightarrow> (db1, Inl code_invalid_input)
           | (db1, Inl e) \<Rightarrow> (db1, Inl (map_repo_error e))
           | (db1, Inr _) \<Rightarrow> (db1, Inr ())))"

definition create_agreement ::
  "(string \<Rightarrow> string option) \<Rightarrow> loan_db \<Rightarrow> loan_agreement \<Rightarrow> int \<Rightarrow> string \<Rightarrow> string \<Rightarrow> loan_db \<times> (string + unit)" where
  "create_agreement pgd db inp disburse_amount disburse_date maturity_date =
     (if trim_space (la_contract inp) = [] \<or> trim_space (la_code inp) = [] then (db, Inl code_required)
      else if disburse_amount \<le> 0 then (db, Inl code_invalid_input)
      else case create_agreement_row pgd db (inp\<lparr>la_outstanding := 0\<rparr>) disburse_date maturity_date of
        (db1, Inl _) \<Rightarrow> (db1, Inl code_internal)
      | (db1, Inr _) \<Rightarrow> (db1, Inr ()))"

end
