(* ===== verification/Loan_Drawdown.thy ===== *)
theory Loan_Drawdown
  imports Loan_Contracts
begin

text \<open>
  Single drawdowns and receipts: \<open>DisbursementService\<close> and \<open>CollectionService\<close> of
  apps/loan-service/internal/service with the statements of collection_repo.go. A call takes the
  rows and gives them back with its answer; the version of the row that the checker saw
  (\<open>WithDataVersion\<close>, 0 when there is none) is the argument \<open>expected\<close>. The workflow service and the
  reading of dates are parameters.
\<close>

section \<open>Creating a drawdown\<close>

definition is_valid_iso_date :: "string \<Rightarrow> bool" where
  "is_valid_iso_date v \<longleftrightarrow>
     length v = 10 \<and> v ! 4 = CHR ''-'' \<and> v ! 7 = CHR ''-'' \<and>
     list_all (\<lambda>i. 48 \<le> (of_char (v ! i) :: nat) \<and> (of_char (v ! i) :: nat) \<le> 57) [0, 5]"

record draw_input =
  di_contract :: string
  di_agreement :: string
  di_date :: string
  di_amount :: int
  di_currency :: string
  di_fund :: string
  di_flow :: string
  di_source :: "nat option"

definition validate_complete_source :: "loan_db \<Rightarrow> nat option \<Rightarrow> string + drawdown" where
  "validate_complete_source db source =
     (case source of
        None \<Rightarrow> Inl code_required
      | Some i \<Rightarrow>
        (case draw_by_id db i of
           None \<Rightarrow> Inl code_invalid_input
         | Some d \<Rightarrow>
           if dd_flow d \<noteq> ''REGISTER'' then Inl code_invalid_input
           else if dd_status d \<noteq> ''POSTED'' then Inl code_invalid_input
           else Inr d))"

definition flow_or_register :: "string \<Rightarrow> string" where
  "flow_or_register flow = (if flow = [] then ''REGISTER'' else flow)"

definition draw_row :: "draw_input \<Rightarrow> nat option \<Rightarrow> string \<Rightarrow> drawdown" where
  "draw_row inp source actor =
     \<lparr>dd_id = 0, dd_contract = di_contract inp, dd_agreement = di_agreement inp, dd_date = di_date inp,
      dd_amount = di_amount inp, dd_currency = or_vnd (di_currency inp), dd_fund = null_if_empty (di_fund inp),
      dd_flow = flow_or_register (di_flow inp), dd_source = source, dd_batch = None, dd_closed = False,
      dd_status = ''DRAFT'', dd_case = None, dd_case_code = None, dd_journal = None, dd_created_by = actor,
      dd_updated_by = [], dd_version = 1\<rparr>"

definition check_draw_flow :: "loan_db \<Rightarrow> draw_input \<Rightarrow> string + nat option" where
  "check_draw_flow db inp =
     (if flow_or_register (di_flow inp) = ''REGISTER'' then
        (case contract_by_code db (trim_space (di_contract inp)) of
           None \<Rightarrow> Inl code_invalid_input
         | Some _ \<Rightarrow> Inr (di_source inp))
      else if flow_or_register (di_flow inp) = ''COMPLETE'' then
        bind_r (validate_complete_source db (di_source inp)) (\<lambda>source.
          case sum_complete_for_source db (dd_id source) of
            Inl e \<Rightarrow> Inl (map_repo_error e)
          | Inr completed \<Rightarrow>
            (case check_complete_remainder (dd_amount source) completed (di_amount inp) of
               Inl _ \<Rightarrow> Inl code_invalid_input
             | Inr _ \<Rightarrow> Inr (Some (dd_id source))))
      else Inl code_invalid_input)"

definition create_draw ::
  "(string \<Rightarrow> string option) \<Rightarrow> loan_db \<Rightarrow> string \<Rightarrow> draw_input \<Rightarrow> loan_db \<times> (string + nat)" where
  "create_draw pgd db actor inp =
     (if trim_space (di_contract inp) = [] \<or> trim_space (di_agreement inp) = [] then (db, Inl code_required)
      else if di_amount inp \<le> 0 then (db, Inl code_invalid_input)
      else if \<not> is_valid_iso_date (di_date inp) then (db, Inl code_invalid_input)
      else case agreement_by_code db (di_agreement inp) of
        None \<Rightarrow> (db, Inl code_invalid_input)
      | Some a \<Rightarrow>
        if la_contract a \<noteq> trim_space (di_contract inp) then (db, Inl code_invalid_input)
        else case check_draw_flow db inp of
          Inl e \<Rightarrow> (db, Inl e)
        | Inr source \<Rightarrow>
          let create = (if flow_or_register (di_flow inp) = ''REGISTER'' then create_draw_with_reservation else create_draw_row)
          in (case create pgd db (draw_row inp source actor) of
                (db1, Inl Headroom_Exceeded) \<Rightarrow> (db1, Inl code_invalid_input)
              | (db1, Inl e) \<Rightarrow> (db1, Inl (map_repo_error e))
              | (db1, Inr i) \<Rightarrow> (db1, Inr i)))"

section \<open>Submitting and deciding\<close>

definition draw_case_type :: "string \<Rightarrow> string" where
  "draw_case_type flow = (if flow = ''COMPLETE'' then ''LNM_DISB_COMPLETE_V2'' else ''LNM_DISB_REGISTER_V2'')"

text \<open>A bare \<open>sql.ErrNoRows\<close> is not the \<open>ErrNotFound\<close> of the repository.\<close>

definition get_draw :: "loan_db \<Rightarrow> nat \<Rightarrow> string + drawdown" where
  "get_draw db i =
     (case draw_by_id db i of None \<Rightarrow> Inl (map_repo_error No_Rows) | Some d \<Rightarrow> Inr d)"

definition submit_draw ::
  "loan_workflow option \<Rightarrow> loan_db \<Rightarrow> string \<Rightarrow> nat \<Rightarrow> int \<Rightarrow> loan_db \<times> (string + unit)" where
  "submit_draw workflow db actor i expected =
     (case get_draw db i of
        Inl e \<Rightarrow> (db, Inl e)
      | Inr d \<Rightarrow>
        if dd_batch d \<noteq> None then (db, Inl code_conflict)
        else if dd_status d \<noteq> ''DRAFT'' then (db, Inl code_invalid_input)
        else case workflow of
          None \<Rightarrow> (db, Inl code_internal)
        | Some w \<Rightarrow>
          (case start_case w (draw_case_type (flow_or_register (dd_flow d))) (dec_str i) of
             Inl e \<Rightarrow> (db, Inl e)
           | Inr (case_id, case_code) \<Rightarrow>
             (case set_draw_case_and_journal db i case_id case_code [] of
                (db1, Inl e) \<Rightarrow> (db1, Inl (map_repo_error e))
              | (db1, Inr _) \<Rightarrow>
                (case transition_ok workflow_machine (dd_status d) ''PENDING_APPROVAL'' [] of
                   Inl e \<Rightarrow> (db1, Inl (map_repo_error e))
                 | Inr _ \<Rightarrow>
                   (case set_draw_status db1 i (dd_status d) ''PENDING_APPROVAL'' actor [] expected of
                      (db2, Inl e) \<Rightarrow> (db2, Inl (map_repo_error e))
                    | (db2, Inr _) \<Rightarrow> (db2, Inr ()))))))"

definition check_draw :: "loan_db \<Rightarrow> nat \<Rightarrow> bool" where
  "check_draw db i =
     (case get_draw db i of Inl _ \<Rightarrow> False | Inr d \<Rightarrow> dd_status d = ''PENDING_APPROVAL'')"

definition draw_decision :: "string \<Rightarrow> string option" where
  "draw_decision decision =
     (if decision = ''APPROVE'' then Some ''APPROVED''
      else if decision = ''REJECT'' then Some ''REJECTED''
      else if decision = ''CANCEL'' then Some ''CANCELLED'' else None)"

definition resolve_draw ::
  "loan_db \<Rightarrow> nat \<Rightarrow> string \<Rightarrow> string \<Rightarrow> string \<Rightarrow> int \<Rightarrow> loan_db \<times> (string + unit)" where
  "resolve_draw db i decision actor note expected =
     (case get_draw db i of
        Inl e \<Rightarrow> (db, Inl e)
      | Inr d \<Rightarrow>
        (case draw_decision decision of
           None \<Rightarrow> (db, Inl code_invalid_input)
         | Some target \<Rightarrow>
           (case transition_ok workflow_machine (dd_status d) target note of
              Inl e \<Rightarrow> (db, Inl (map_repo_error e))
            | Inr _ \<Rightarrow>
              (case set_draw_status db i (dd_status d) target actor note expected of
                 (db1, Inl e) \<Rightarrow> (db1, Inl (map_repo_error e))
               | (db1, Inr _) \<Rightarrow> (db1, Inr ())))))"

section \<open>Settling\<close>

text \<open>A row that waits for its decision is approved first, in a transaction of its own.\<close>

definition approve_if_waiting :: "loan_db \<Rightarrow> drawdown \<Rightarrow> string \<Rightarrow> int \<Rightarrow> loan_db \<times> (loan_error + unit)" where
  "approve_if_waiting db d actor expected =
     (if dd_status d = ''PENDING_APPROVAL''
      then set_draw_status db (dd_id d) (dd_status d) ''APPROVED'' actor [] expected
      else (db, Inr ()))"

definition settle_register ::
  "loan_db \<Rightarrow> nat \<Rightarrow> string \<Rightarrow> string \<Rightarrow> int \<Rightarrow> loan_db \<times> (string + unit)" where
  "settle_register db i journal actor expected =
     (case get_draw db i of
        Inl e \<Rightarrow> (db, Inl e)
      | Inr d \<Rightarrow>
        (case approve_if_waiting db d actor expected of
           (db1, Inl e) \<Rightarrow> (db1, Inl (map_repo_error e))
         | (db1, Inr _) \<Rightarrow>
           (case settle_register_tx db1 (dd_id d) (dd_agreement d) (dd_amount d) journal actor expected of
              (db2, Inl e) \<Rightarrow> (db2, Inl (map_repo_error e))
            | (db2, Inr _) \<Rightarrow> (db2, Inr ()))))"

definition settle_complete ::
  "loan_db \<Rightarrow> nat \<Rightarrow> string \<Rightarrow> string \<Rightarrow> int \<Rightarrow> loan_db \<times> (string + unit)" where
  "settle_complete db i journal actor expected =
     (case get_draw db i of
        Inl e \<Rightarrow> (db, Inl e)
      | Inr d \<Rightarrow>
        (case approve_if_waiting db d actor expected of
           (db1, Inl e) \<Rightarrow> (db1, Inl (map_repo_error e))
         | (db1, Inr _) \<Rightarrow>
           (case settle_complete_tx db1 (dd_id d) (dd_contract d) (dd_agreement d) (dd_amount d) journal actor expected of
              (db2, Inl e) \<Rightarrow> (db2, Inl (map_repo_error e))
            | (db2, Inr _) \<Rightarrow> (db2, Inr ()))))"

definition settle_draw ::
  "loan_db \<Rightarrow> nat \<Rightarrow> string \<Rightarrow> string \<Rightarrow> int \<Rightarrow> loan_db \<times> (string + unit)" where
  "settle_draw db i journal actor expected =
     (case get_draw db i of
        Inl e \<Rightarrow> (db, Inl e)
      | Inr d \<Rightarrow>
        if flow_or_register (dd_flow d) = ''COMPLETE'' then settle_complete db (dd_id d) journal actor expected
        else settle_register db (dd_id d) journal actor expected)"

section \<open>The posting request\<close>

text \<open>
  \<open>PostingDetail\<close>: the drawdown joined with its agreement and contract. The error of
  \<open>GetContractByCode\<close> is none of the sentinels.
\<close>

record posting_detail =
  pd_draw :: nat
  pd_contract :: string
  pd_agreement :: string
  pd_date :: string
  pd_amount :: int
  pd_currency :: string
  pd_group :: string
  pd_org :: string
  pd_customer :: string
  pd_fund :: string
  pd_flow :: string
  pd_case :: string

definition text_of :: "string option \<Rightarrow> string" where
  "text_of s = (case s of None \<Rightarrow> [] | Some x \<Rightarrow> x)"

definition draw_posting_detail :: "loan_db \<Rightarrow> nat \<Rightarrow> string + posting_detail" where
  "draw_posting_detail db i =
     bind_r (get_draw db i) (\<lambda>d.
       case agreement_by_code db (dd_agreement d) of
         None \<Rightarrow> Inl (map_repo_error Not_Found)
       | Some a \<Rightarrow>
         (case contract_by_code db (dd_contract d) of
            None \<Rightarrow> Inl (map_repo_error Db_Error)
          | Some c \<Rightarrow> Inr \<lparr>pd_draw = dd_id d, pd_contract = dd_contract d, pd_agreement = dd_agreement d,
              pd_date = dd_date d, pd_amount = dd_amount d, pd_currency = dd_currency d, pd_group = la_group a,
              pd_org = lc_employee c, pd_customer = lc_customer c, pd_fund = text_of (dd_fund d),
              pd_flow = flow_or_register (dd_flow d), pd_case = text_of (dd_case d)\<rparr>))"

end
