(* ===== verification/Loan_Receipts.thy ===== *)
theory Loan_Receipts
  imports Loan_Drawdown
begin

text \<open>
  Receipts on agreements: \<open>CollectionService\<close> (collection_service.go) and the receipts of a batch
  (batch_collection_service.go) of apps/loan-service/internal/service, with the statements of
  collection_repo.go and batch_collection_repo.go. The workflow service, the reading of dates
  (\<open>pgd\<close>), the reading of a text as a UUID (\<open>pgu\<close>) and the random part of a new id are parameters.
\<close>

section \<open>Statements\<close>

definition receipt_by_id :: "loan_db \<Rightarrow> nat \<Rightarrow> receipt option" where
  "receipt_by_id db i = find (\<lambda>r. rc_id r = i) (ld_receipts db)"

text \<open>
  The INSERT of a receipt: no amount may be negative and their sum has to be positive, which is
  computed in 64 bits.
\<close>

definition insert_receipt :: "(string \<Rightarrow> string option) \<Rightarrow> loan_db \<Rightarrow> receipt \<Rightarrow> loan_error + loan_db \<times> nat" where
  "insert_receipt pgd db r =
     (case pgd (rc_date r) of
        None \<Rightarrow> Inl Db_Error
      | Some date \<Rightarrow>
        if rc_principal r < 0 \<or> rc_interest r < 0 then Inl Db_Error
        else if \<not> in64 (rc_principal r + rc_interest r) \<or> \<not> in64 (rc_principal r + rc_interest r + rc_overdue r)
        then Inl Db_Error
        else if rc_principal r + rc_interest r + rc_overdue r \<le> 0 then Inl Db_Error
        else Inr (db\<lparr>ld_receipts := ld_receipts db @
               [r\<lparr>rc_id := ld_next db, rc_date := date, rc_status := ''DRAFT'', rc_version := 1\<rparr>],
             ld_next := ld_next db + 1\<rparr>, ld_next db))"

definition receipt_guard :: "nat \<Rightarrow> string \<Rightarrow> int \<Rightarrow> receipt \<Rightarrow> bool" where
  "receipt_guard i status expected r =
     (rc_id r = i \<and> rc_status r = status \<and> (expected = 0 \<or> rc_version r = expected))"

definition set_receipt_status ::
  "loan_db \<Rightarrow> nat \<Rightarrow> string \<Rightarrow> string \<Rightarrow> string \<Rightarrow> string \<Rightarrow> int \<Rightarrow> loan_db \<times> (loan_error + unit)" where
  "set_receipt_status db i from_status to_status actor reason expected =
     (case transition_ok workflow_machine from_status to_status reason of
        Inl e \<Rightarrow> (db, Inl e)
      | Inr _ \<Rightarrow>
        if \<exists>r\<in>set (ld_receipts db). receipt_guard i from_status expected r
        then (db\<lparr>ld_receipts := upd (receipt_guard i from_status expected)
                (\<lambda>r. r\<lparr>rc_status := to_status, rc_updated_by := Some actor, rc_version := rc_version r + 1\<rparr>)
                (ld_receipts db)\<rparr>, Inr ())
        else (db, Inl (if stale_version (map_option rc_version (receipt_by_id db i)) expected then Stale_Version
                       else case receipt_by_id db i of None \<Rightarrow> Not_Found | Some _ \<Rightarrow> Bad_Transition)))"

definition set_receipt_case_and_journal ::
  "loan_db \<Rightarrow> nat \<Rightarrow> string \<Rightarrow> string \<Rightarrow> string \<Rightarrow> loan_db \<times> (loan_error + unit)" where
  "set_receipt_case_and_journal db i case_id case_code journal =
     (if case_id \<noteq> [] \<and> (\<exists>r\<in>set (ld_receipts db). rc_id r = i) \<and>
         (\<exists>r\<in>set (ld_receipts db). rc_id r \<noteq> i \<and> rc_case r = Some case_id)
      then (db, Inl Db_Error)
      else (db\<lparr>ld_receipts := upd (\<lambda>r. rc_id r = i)
              (\<lambda>r. r\<lparr>rc_case := null_if_empty case_id, rc_case_code := null_if_empty case_code,
                     rc_journal := null_if_empty journal, rc_version := rc_version r + 1\<rparr>) (ld_receipts db)\<rparr>, Inr ()))"

text \<open>
  What a receipt does to its agreement: \<open>GREATEST(outstanding - principal, 0)\<close>, the collected
  counters, and the end of the agreement when nothing is outstanding.
\<close>

definition apply_receipt :: "int \<Rightarrow> int \<Rightarrow> loan_agreement \<Rightarrow> loan_agreement" where
  "apply_receipt principal_minor interest_minor a =
     a\<lparr>la_outstanding := max (la_outstanding a - principal_minor) 0,
       la_coln_principal := la_coln_principal a + principal_minor,
       la_coln_interest := la_coln_interest a + interest_minor,
       la_status := (if max (la_outstanding a - principal_minor) 0 = 0 then ''CLOSED'' else la_status a)\<rparr>"

definition update_collected ::
  "loan_db \<Rightarrow> string \<Rightarrow> int \<Rightarrow> int \<Rightarrow> loan_error + loan_db option" where
  "update_collected db agreement principal_minor interest_minor =
     (if \<exists>a\<in>set (ld_agreements db). la_code a = agreement \<and> \<not> in64 (la_outstanding a - principal_minor)
      then Inl Db_Error
      else update_agreement db (\<lambda>a. la_code a = agreement) (apply_receipt principal_minor interest_minor))"

definition receipt_gate :: "loan_error + unit" where
  "receipt_gate =
     bind_r (transition_ok workflow_machine ''APPROVED'' ''POSTED'' []) (\<lambda>_.
       transition_ok agreement_machine ''ACTIVE'' ''CLOSED'' [])"

definition settle_receipt_tx ::
  "loan_db \<Rightarrow> nat \<Rightarrow> string \<Rightarrow> string \<Rightarrow> int \<Rightarrow> loan_db \<times> (loan_error + bool)" where
  "settle_receipt_tx db i journal actor expected =
     (case receipt_gate of
        Inl e \<Rightarrow> (db, Inl e)
      | Inr _ \<Rightarrow>
        (case find (receipt_guard i ''APPROVED'' expected) (ld_receipts db) of
           None \<Rightarrow>
             (case receipt_by_id db i of
                None \<Rightarrow> (db, Inl Not_Found)
              | Some r \<Rightarrow>
                if rc_status r = ''POSTED'' \<and> rc_journal r \<noteq> None then (db, Inr False)
                else if expected \<noteq> 0 \<and> rc_version r \<noteq> expected then (db, Inl Stale_Version)
                else (db, Inl Not_Approved))
         | Some r \<Rightarrow>
           let db1 = db\<lparr>ld_receipts := upd (receipt_guard i ''APPROVED'' expected)
                 (\<lambda>r. r\<lparr>rc_status := ''POSTED'', rc_journal := null_if_empty journal,
                        rc_updated_by := null_if_empty actor, rc_version := rc_version r + 1\<rparr>) (ld_receipts db)\<rparr>
           in (case update_collected db1 (rc_agreement r) (rc_principal r) (rc_interest r) of
                 Inl e \<Rightarrow> (db, Inl e)
               | Inr None \<Rightarrow> (db, Inl Db_Error)
               | Inr (Some db2) \<Rightarrow> (db2, Inr True))))"

section \<open>Single receipts\<close>

definition create_receipt ::
  "(string \<Rightarrow> string option) \<Rightarrow> loan_db \<Rightarrow> string \<Rightarrow> receipt \<Rightarrow> loan_db \<times> (string + nat)" where
  "create_receipt pgd db actor inp =
     (if trim_space (rc_contract inp) = [] \<or> trim_space (rc_agreement inp) = [] then (db, Inl code_required)
      else if rc_principal inp \<le> 0 \<and> rc_interest inp \<le> 0 then (db, Inl code_invalid_input)
      else if \<not> is_valid_iso_date (rc_date inp) then (db, Inl code_invalid_input)
      else case agreement_by_code db (rc_agreement inp) of
        None \<Rightarrow> (db, Inl code_invalid_input)
      | Some _ \<Rightarrow>
        (case insert_receipt pgd db (inp\<lparr>rc_overdue := 0, rc_currency := or_vnd (rc_currency inp), rc_batch := None,
             rc_case := None, rc_case_code := None, rc_journal := None, rc_created_by := actor, rc_updated_by := None\<rparr>) of
           Inl e \<Rightarrow> (db, Inl (map_repo_error e))
         | Inr (db1, i) \<Rightarrow> (db1, Inr i)))"

definition get_receipt :: "loan_db \<Rightarrow> nat \<Rightarrow> string + receipt" where
  "get_receipt db i =
     (case receipt_by_id db i of None \<Rightarrow> Inl (map_repo_error No_Rows) | Some r \<Rightarrow> Inr r)"

definition submit_receipt ::
  "loan_workflow option \<Rightarrow> loan_db \<Rightarrow> string \<Rightarrow> nat \<Rightarrow> int \<Rightarrow> loan_db \<times> (string + unit)" where
  "submit_receipt workflow db actor i expected =
     (case get_receipt db i of
        Inl e \<Rightarrow> (db, Inl e)
      | Inr r \<Rightarrow>
        if rc_status r \<noteq> ''DRAFT'' then (db, Inl code_invalid_input)
        else case workflow of
          None \<Rightarrow> (db, Inl code_internal)
        | Some w \<Rightarrow>
          (case start_case w ''LNM_COLLECTION_V2'' (dec_str i) of
             Inl e \<Rightarrow> (db, Inl e)
           | Inr (case_id, case_code) \<Rightarrow>
             (case set_receipt_case_and_journal db i case_id case_code [] of
                (db1, Inl e) \<Rightarrow> (db1, Inl (map_repo_error e))
              | (db1, Inr _) \<Rightarrow>
                (case set_receipt_status db1 i (rc_status r) ''PENDING_APPROVAL'' actor [] expected of
                   (db2, Inl e) \<Rightarrow> (db2, Inl (map_repo_error e))
                 | (db2, Inr _) \<Rightarrow> (db2, Inr ())))))"

definition check_receipt :: "loan_db \<Rightarrow> nat \<Rightarrow> bool" where
  "check_receipt db i =
     (case get_receipt db i of Inl _ \<Rightarrow> False | Inr r \<Rightarrow> rc_status r = ''PENDING_APPROVAL'')"

definition resolve_receipt ::
  "loan_db \<Rightarrow> nat \<Rightarrow> string \<Rightarrow> string \<Rightarrow> string \<Rightarrow> int \<Rightarrow> loan_db \<times> (string + unit)" where
  "resolve_receipt db i decision actor note expected =
     (case get_receipt db i of
        Inl e \<Rightarrow> (db, Inl e)
      | Inr r \<Rightarrow>
        (case (if decision = ''APPROVE'' then Some ''APPROVED'' else if decision = ''REJECT'' then Some ''REJECTED'' else None) of
           None \<Rightarrow> (db, Inl code_invalid_input)
         | Some target \<Rightarrow>
           (case transition_ok workflow_machine (rc_status r) target note of
              Inl e \<Rightarrow> (db, Inl (map_repo_error e))
            | Inr _ \<Rightarrow>
              (case set_receipt_status db i (rc_status r) target actor note expected of
                 (db1, Inl e) \<Rightarrow> (db1, Inl (map_repo_error e))
               | (db1, Inr _) \<Rightarrow> (db1, Inr ())))))"

definition settle_receipt :: "loan_db \<Rightarrow> nat \<Rightarrow> string \<Rightarrow> string \<Rightarrow> int \<Rightarrow> loan_db \<times> (string + unit)" where
  "settle_receipt db i journal actor expected =
     (case get_receipt db i of
        Inl e \<Rightarrow> (db, Inl e)
      | Inr r \<Rightarrow>
        (case (if rc_status r = ''PENDING_APPROVAL'' then set_receipt_status db i (rc_status r) ''APPROVED'' actor [] expected
               else (db, Inr ())) of
           (db1, Inl e) \<Rightarrow> (db1, Inl (map_repo_error e))
         | (db1, Inr _) \<Rightarrow>
           (case settle_receipt_tx db1 i journal actor expected of
              (db2, Inl e) \<Rightarrow> (db2, Inl (map_repo_error e))
            | (db2, Inr _) \<Rightarrow> (db2, Inr ()))))"

section \<open>Batches of receipts\<close>

record receipt_line =
  rl_contract :: string
  rl_agreement :: string
  rl_principal :: int
  rl_interest :: int
  rl_overdue :: int

definition payment_method_ok :: "string \<Rightarrow> bool" where
  "payment_method_ok method0 =
     (let m = to_upper (trim_space method0); method = (if m = [] then ''TRANSFER'' else m)
      in method = ''CASH'' \<or> method = ''TRANSFER'')"

definition check_receipt_line :: "loan_db \<Rightarrow> receipt_line \<Rightarrow> string + receipt_line" where
  "check_receipt_line db line0 =
     (let line = line0\<lparr>rl_contract := trim_space (rl_contract line0), rl_agreement := trim_space (rl_agreement line0)\<rparr> in
      if rl_contract line = [] \<or> rl_agreement line = [] then Inl code_invalid_input
      else if rl_principal line < 0 \<or> rl_interest line < 0 \<or> rl_overdue line < 0 then Inl code_invalid_input
      else if add64 (add64 (rl_principal line) (rl_interest line)) (rl_overdue line) \<le> 0 then Inl code_invalid_input
      else case agreement_by_code db (rl_agreement line) of
        None \<Rightarrow> Inl code_invalid_input
      | Some a \<Rightarrow>
        if la_contract a \<noteq> rl_contract line then Inl code_invalid_input
        else if la_outstanding a < rl_principal line then Inl code_invalid_input
        else Inr line)"

fun check_receipt_lines :: "loan_db \<Rightarrow> receipt_line list \<Rightarrow> string + receipt_line list" where
  "check_receipt_lines db [] = Inr []"
| "check_receipt_lines db (l # ls) =
     bind_r (check_receipt_line db l) (\<lambda>x. bind_r (check_receipt_lines db ls) (\<lambda>xs. Inr (x # xs)))"

definition line_receipt :: "string \<Rightarrow> string \<Rightarrow> string \<Rightarrow> receipt_line \<Rightarrow> receipt" where
  "line_receipt batch_id date actor line =
     \<lparr>rc_id = 0, rc_contract = rl_contract line, rc_agreement = rl_agreement line, rc_date = date,
      rc_principal = rl_principal line, rc_interest = rl_interest line, rc_overdue = rl_overdue line,
      rc_currency = ''VND'', rc_batch = Some batch_id, rc_status = ''DRAFT'', rc_case = None, rc_case_code = None,
      rc_journal = None, rc_created_by = actor, rc_updated_by = None, rc_version = 1\<rparr>"

fun insert_receipts :: "(string \<Rightarrow> string option) \<Rightarrow> loan_db \<Rightarrow> receipt list \<Rightarrow> loan_error + loan_db" where
  "insert_receipts pgd db [] = Inr db"
| "insert_receipts pgd db (r # rs) =
     bind_r (insert_receipt pgd db r) (\<lambda>(db1, _). insert_receipts pgd db1 rs)"

text \<open>\<open>CreateCollectionBatch\<close>: the id of the header is a UUID column.\<close>

definition create_receipt_batch_tx ::
  "(string \<Rightarrow> string option) \<Rightarrow> (string \<Rightarrow> bool) \<Rightarrow> loan_db \<Rightarrow> receipt_batch \<Rightarrow> receipt list \<Rightarrow> loan_error + loan_db" where
  "create_receipt_batch_tx pgd pgu db b rows =
     (if \<not> pgu (cb_id b) then Inl Db_Error
      else case pgd (cb_date b) of
        None \<Rightarrow> Inl Db_Error
      | Some date \<Rightarrow>
        if \<exists>x\<in>set (ld_receipt_batches db). cb_id x = cb_id b then Inl Db_Error
        else insert_receipts pgd
          (db\<lparr>ld_receipt_batches := ld_receipt_batches db @ [b\<lparr>cb_date := date, cb_version := 1\<rparr>]\<rparr>) rows)"

definition receipt_batch_by_id :: "(string \<Rightarrow> bool) \<Rightarrow> loan_db \<Rightarrow> string \<Rightarrow> loan_error + receipt_batch" where
  "receipt_batch_by_id pgu db i =
     (if \<not> pgu i then Inl Db_Error
      else case find (\<lambda>b. cb_id b = i) (ld_receipt_batches db) of None \<Rightarrow> Inl Not_Found | Some b \<Rightarrow> Inr b)"

definition receipt_batch_rows :: "loan_db \<Rightarrow> string \<Rightarrow> receipt list" where
  "receipt_batch_rows db i = [r \<leftarrow> ld_receipts db. rc_batch r = Some i]"

definition set_receipt_batch_case :: "loan_db \<Rightarrow> string \<Rightarrow> string \<Rightarrow> loan_db \<times> (loan_error + unit)" where
  "set_receipt_batch_case db i case_id =
     (if case_id \<noteq> [] \<and> (\<exists>b\<in>set (ld_receipt_batches db). cb_id b = i) \<and>
         (\<exists>b\<in>set (ld_receipt_batches db). cb_id b \<noteq> i \<and> cb_case b = Some case_id)
      then (db, Inl Db_Error)
      else (db\<lparr>ld_receipt_batches := upd (\<lambda>b. cb_id b = i)
              (\<lambda>b. b\<lparr>cb_case := null_if_empty case_id, cb_version := cb_version b + 1\<rparr>) (ld_receipt_batches db)\<rparr>, Inr ()))"

definition receipt_batch_guard :: "string \<Rightarrow> string \<Rightarrow> int \<Rightarrow> receipt_batch \<Rightarrow> bool" where
  "receipt_batch_guard i status expected b =
     (cb_id b = i \<and> cb_status b = status \<and> (expected = 0 \<or> cb_version b = expected))"

definition receipt_batch_version :: "loan_db \<Rightarrow> string \<Rightarrow> int option" where
  "receipt_batch_version db i = map_option cb_version (find (\<lambda>b. cb_id b = i) (ld_receipt_batches db))"

definition set_receipt_batch_status ::
  "loan_db \<Rightarrow> string \<Rightarrow> string \<Rightarrow> string \<Rightarrow> string \<Rightarrow> int \<Rightarrow> loan_db \<times> (loan_error + unit)" where
  "set_receipt_batch_status db i from_status to_status reason expected =
     (case transition_ok workflow_machine from_status to_status reason of
        Inl e \<Rightarrow> (db, Inl e)
      | Inr _ \<Rightarrow>
        if \<exists>b\<in>set (ld_receipt_batches db). receipt_batch_guard i from_status expected b
        then (db\<lparr>ld_receipt_batches := upd (receipt_batch_guard i from_status expected)
                   (\<lambda>b. b\<lparr>cb_status := to_status, cb_version := cb_version b + 1\<rparr>) (ld_receipt_batches db),
                 ld_receipts := upd (\<lambda>r. rc_batch r = Some i \<and> rc_status r = from_status)
                   (\<lambda>r. r\<lparr>rc_status := to_status, rc_version := rc_version r + 1\<rparr>) (ld_receipts db)\<rparr>, Inr ())
        else (db, Inl (if stale_version (receipt_batch_version db i) expected then Stale_Version
                       else case receipt_batch_version db i of None \<Rightarrow> Not_Found | Some _ \<Rightarrow> Bad_Transition)))"

definition set_receipt_batch_posted ::
  "loan_db \<Rightarrow> string \<Rightarrow> string \<Rightarrow> int \<Rightarrow> loan_db \<times> (loan_error + unit)" where
  "set_receipt_batch_posted db i journal expected =
     (case transition_ok workflow_machine ''APPROVED'' ''POSTED'' [] of
        Inl e \<Rightarrow> (db, Inl e)
      | Inr _ \<Rightarrow>
        if \<exists>b\<in>set (ld_receipt_batches db). receipt_batch_guard i ''APPROVED'' expected b
        then (db\<lparr>ld_receipt_batches := upd (receipt_batch_guard i ''APPROVED'' expected)
                   (\<lambda>b. b\<lparr>cb_status := ''POSTED'', cb_journal := null_if_empty journal, cb_version := cb_version b + 1\<rparr>)
                   (ld_receipt_batches db)\<rparr>, Inr ())
        else (db, Inl (if stale_version (receipt_batch_version db i) expected then Stale_Version else Not_Found)))"

definition submit_receipt_batch ::
  "loan_workflow option \<Rightarrow> loan_db \<Rightarrow> receipt_batch \<Rightarrow> int \<Rightarrow> loan_db \<times> (string + unit)" where
  "submit_receipt_batch workflow db b expected =
     (case workflow of
        None \<Rightarrow> (db, Inl code_internal)
      | Some w \<Rightarrow>
        (case start_case w ''LNM_COLLECTION_BATCH_V2'' (cb_id b) of
           Inl e \<Rightarrow> (db, Inl e)
         | Inr (case_id, _) \<Rightarrow>
           (case set_receipt_batch_case db (cb_id b) case_id of
              (db1, Inl e) \<Rightarrow> (db1, Inl (map_repo_error e))
            | (db1, Inr _) \<Rightarrow>
              (case set_receipt_batch_status db1 (cb_id b) (cb_status b) ''PENDING_APPROVAL'' [] expected of
                 (db2, Inl e) \<Rightarrow> (db2, Inl (map_repo_error e))
               | (db2, Inr _) \<Rightarrow> (db2, Inr ())))))"

text \<open>\<open>NewID("colbatch")\<close> is the prefix, an underscore and 32 hexadecimal digits.\<close>

definition new_id :: "string \<Rightarrow> string \<Rightarrow> string" where
  "new_id prefix hex = prefix @ ''_'' @ hex"

definition create_receipt_batch ::
  "(string \<Rightarrow> string option) \<Rightarrow> (string \<Rightarrow> bool) \<Rightarrow> loan_workflow option \<Rightarrow> loan_db \<Rightarrow> string \<Rightarrow> string \<Rightarrow> string \<Rightarrow>
   string \<Rightarrow> receipt_line list \<Rightarrow> int \<Rightarrow> loan_db \<times> (string + string)" where
  "create_receipt_batch pgd pgu workflow db hex actor txn_date method lines expected =
     (if lines = [] then (db, Inl code_required)
      else if \<not> is_valid_iso_date txn_date then (db, Inl code_invalid_input)
      else if \<not> payment_method_ok method then (db, Inl code_invalid_input)
      else case check_receipt_lines db lines of
        Inl e \<Rightarrow> (db, Inl e)
      | Inr rows \<Rightarrow>
        let b = \<lparr>cb_id = new_id ''colbatch'' hex, cb_date = txn_date,
              cb_principal = foldl (\<lambda>t l. add64 t (rl_principal l)) 0 rows,
              cb_interest = foldl (\<lambda>t l. add64 t (add64 (rl_interest l) (rl_overdue l))) 0 rows,
              cb_status = ''DRAFT'', cb_case = None, cb_journal = None, cb_created_by = actor, cb_version = 1\<rparr>
        in (case create_receipt_batch_tx pgd pgu db b (map (line_receipt (cb_id b) txn_date actor) rows) of
              Inl e \<Rightarrow> (db, Inl (map_repo_error e))
            | Inr db1 \<Rightarrow>
              (case submit_receipt_batch workflow db1 b expected of
                 (db2, Inl e) \<Rightarrow> (db2, Inl e)
               | (db2, Inr _) \<Rightarrow> (db2, Inr (cb_id b)))))"

definition check_receipt_batch :: "(string \<Rightarrow> bool) \<Rightarrow> loan_db \<Rightarrow> string \<Rightarrow> bool" where
  "check_receipt_batch pgu db i =
     (case receipt_batch_by_id pgu db i of
        Inl _ \<Rightarrow> False
      | Inr b \<Rightarrow>
        cb_status b = ''PENDING_APPROVAL'' \<and>
        list_all (\<lambda>r. case agreement_by_code db (rc_agreement r) of
            None \<Rightarrow> False | Some a \<Rightarrow> rc_principal r \<le> la_outstanding a) (receipt_batch_rows db i))"

definition resolve_receipt_batch ::
  "(string \<Rightarrow> bool) \<Rightarrow> loan_db \<Rightarrow> string \<Rightarrow> string \<Rightarrow> string \<Rightarrow> int \<Rightarrow> loan_db \<times> (string + unit)" where
  "resolve_receipt_batch pgu db i decision note expected =
     (case receipt_batch_by_id pgu db i of
        Inl e \<Rightarrow> (db, Inl (map_repo_error e))
      | Inr b \<Rightarrow>
        (case draw_decision decision of
           None \<Rightarrow> (db, Inl code_invalid_input)
         | Some target \<Rightarrow>
           (case transition_ok workflow_machine (cb_status b) target note of
              Inl e \<Rightarrow> (db, Inl (map_repo_error e))
            | Inr _ \<Rightarrow>
              (case set_receipt_batch_status db i (cb_status b) target note expected of
                 (db1, Inl e) \<Rightarrow> (db1, Inl (map_repo_error e))
               | (db1, Inr _) \<Rightarrow> (db1, Inr ())))))"

text \<open>Three statements per row, each a transaction of its own.\<close>

definition settle_receipt_row :: "loan_db \<Rightarrow> receipt \<Rightarrow> string \<Rightarrow> string \<Rightarrow> loan_db \<times> (loan_error + unit)" where
  "settle_receipt_row db r journal actor =
     (case set_receipt_case_and_journal db (rc_id r) [] [] journal of
        (db1, Inl e) \<Rightarrow> (db1, Inl e)
      | (db1, Inr _) \<Rightarrow>
        (case set_receipt_status db1 (rc_id r) (rc_status r) ''POSTED'' actor [] 0 of
           (db2, Inl e) \<Rightarrow> (db2, Inl e)
         | (db2, Inr _) \<Rightarrow>
           (case update_collected db2 (rc_agreement r) (rc_principal r) (add64 (rc_interest r) (rc_overdue r)) of
              Inl e \<Rightarrow> (db2, Inl e)
            | Inr None \<Rightarrow> (db2, Inr ())
            | Inr (Some db3) \<Rightarrow> (db3, Inr ()))))"

fun settle_receipt_rows :: "loan_db \<Rightarrow> receipt list \<Rightarrow> string \<Rightarrow> string \<Rightarrow> loan_db \<times> (loan_error + unit)" where
  "settle_receipt_rows db [] journal actor = (db, Inr ())"
| "settle_receipt_rows db (r # rs) journal actor =
     (case settle_receipt_row db r journal actor of
        (db1, Inl e) \<Rightarrow> (db1, Inl e)
      | (db1, Inr _) \<Rightarrow> settle_receipt_rows db1 rs journal actor)"

text \<open>The error of the last statement is returned without its code, which the caller does not use.\<close>

definition settle_receipt_batch ::
  "(string \<Rightarrow> bool) \<Rightarrow> loan_db \<Rightarrow> string \<Rightarrow> string \<Rightarrow> string \<Rightarrow> int \<Rightarrow> loan_db \<times> (loan_error + unit)" where
  "settle_receipt_batch pgu db i journal actor expected =
     (case receipt_batch_by_id pgu db i of
        Inl e \<Rightarrow> (db, Inl e)
      | Inr b \<Rightarrow>
        if cb_status b = ''POSTED'' then (db, Inr ())
        else case (if cb_status b = ''PENDING_APPROVAL''
                   then set_receipt_batch_status db i (cb_status b) ''APPROVED'' [] expected else (db, Inr ())) of
          (db1, Inl e) \<Rightarrow> (db1, Inl e)
        | (db1, Inr _) \<Rightarrow>
          (case settle_receipt_rows db1 (receipt_batch_rows db1 i) journal actor of
             (db2, Inl e) \<Rightarrow> (db2, Inl e)
           | (db2, Inr _) \<Rightarrow> set_receipt_batch_posted db2 i journal expected))"

end
