(* ===== verification/Loan_Batches.thy ===== *)
theory Loan_Batches
  imports Loan_Receipts
begin

text \<open>
  Batches of drawdowns: \<open>BatchDisbursementService\<close> of apps/loan-service/internal/service
  (batch_disbursement_create.go, batch_disbursement_review.go, batch_disbursement_submission.go) with
  the statements of batch_disbursement_repo.go and disbursement_submission_repo.go. The time of the
  database is an argument, in seconds; the workflow service and the reading of dates are parameters.
\<close>

section \<open>Rows of a batch\<close>

record batch_input =
  bi_contract :: string
  bi_agreement :: string
  bi_amount :: int
  bi_closed :: bool

definition batch_by_id :: "loan_db \<Rightarrow> nat \<Rightarrow> loan_error + draw_batch" where
  "batch_by_id db i = (case find (\<lambda>b. db_id b = i) (ld_batches db) of None \<Rightarrow> Inl Not_Found | Some b \<Rightarrow> Inr b)"

definition batch_rows :: "loan_db \<Rightarrow> nat \<Rightarrow> drawdown list" where
  "batch_rows db i = [d \<leftarrow> ld_draws db. dd_batch d = Some i]"

definition sum_complete_for_agreement :: "loan_db \<Rightarrow> string \<Rightarrow> loan_error + int" where
  "sum_complete_for_agreement db agreement =
     scan_sum [dd_amount d. d \<leftarrow> ld_draws db, dd_agreement d = agreement \<and> dd_flow d = ''COMPLETE'' \<and>
       dd_status d \<in> {''PENDING_APPROVAL'', ''APPROVED'', ''POSTED''}]"

definition batch_history :: "nat \<Rightarrow> string \<Rightarrow> string \<Rightarrow> string \<Rightarrow> loan_db \<Rightarrow> loan_db" where
  "batch_history i event from_status to_status db =
     db\<lparr>ld_history := ld_history db @ [\<lparr>bl_batch = i, bl_event = event, bl_from = from_status, bl_to = to_status\<rparr>]\<rparr>"

fun insert_draws :: "(string \<Rightarrow> string option) \<Rightarrow> loan_db \<Rightarrow> drawdown list \<Rightarrow> loan_error + loan_db" where
  "insert_draws pgd db [] = Inr db"
| "insert_draws pgd db (d # ds) = bind_r (insert_draw pgd db d) (\<lambda>(db1, _). insert_draws pgd db1 ds)"

section \<open>Drafts\<close>

definition create_draw_batch_tx ::
  "(string \<Rightarrow> string option) \<Rightarrow> loan_db \<Rightarrow> draw_batch \<Rightarrow> drawdown list \<Rightarrow> loan_db \<times> (loan_error + nat)" where
  "create_draw_batch_tx pgd db b rows =
     (case bind_r (case pgd (db_date b) of None \<Rightarrow> Inl Db_Error | Some date \<Rightarrow>
         Inr (db\<lparr>ld_batches := ld_batches db @ [b\<lparr>db_id := ld_next db, db_date := date, db_version := 1\<rparr>],
                ld_next := ld_next db + 1\<rparr>))
         (\<lambda>db1. bind_r (insert_draws pgd db1 (map (\<lambda>d. d\<lparr>dd_batch := Some (ld_next db)\<rparr>) rows))
           (\<lambda>db2. Inr (batch_history (ld_next db) ''CREATED'' [] ''DRAFT'' db2))) of
        Inl e \<Rightarrow> (db, Inl e)
      | Inr db3 \<Rightarrow> (db3, Inr (ld_next db)))"

definition batch_row :: "string \<Rightarrow> string \<Rightarrow> string \<Rightarrow> string \<Rightarrow> nat option \<Rightarrow> batch_input \<Rightarrow> drawdown" where
  "batch_row date currency actor flow source l =
     \<lparr>dd_id = 0, dd_contract = bi_contract l, dd_agreement = bi_agreement l, dd_date = date, dd_amount = bi_amount l,
      dd_currency = currency, dd_fund = None, dd_flow = flow, dd_source = source, dd_batch = None,
      dd_closed = bi_closed l, dd_status = ''DRAFT'', dd_case = None, dd_case_code = None, dd_journal = None,
      dd_created_by = actor, dd_updated_by = [], dd_version = 1\<rparr>"

definition draft_header :: "string \<Rightarrow> nat option \<Rightarrow> string \<Rightarrow> string \<Rightarrow> string \<Rightarrow> int \<Rightarrow> draw_batch" where
  "draft_header flow source date currency actor total_minor =
     \<lparr>db_id = 0, db_flow = flow, db_source = source, db_date = date, db_currency = currency, db_total = total_minor,
      db_status = ''DRAFT'', db_case = None, db_journal = None, db_created_by = actor, db_version = 1\<rparr>"

definition batch_total :: "drawdown list \<Rightarrow> int" where
  "batch_total rows = foldl (\<lambda>t d. add64 t (dd_amount d)) 0 rows"

definition trim_line :: "batch_input \<Rightarrow> batch_input" where
  "trim_line l = l\<lparr>bi_contract := trim_space (bi_contract l), bi_agreement := trim_space (bi_agreement l)\<rparr>"

definition register_line :: "loan_db \<Rightarrow> string \<Rightarrow> string \<Rightarrow> batch_input \<Rightarrow> string + drawdown" where
  "register_line db date actor l0 =
     (let l = trim_line l0 in
      if bi_contract l = [] \<or> bi_agreement l = [] then Inl code_invalid_input
      else if bi_amount l \<le> 0 then Inl code_invalid_input
      else case agreement_by_code db (bi_agreement l) of
        None \<Rightarrow> Inl code_invalid_input
      | Some a \<Rightarrow>
        if la_contract a \<noteq> bi_contract l then Inl code_invalid_input
        else if contract_by_code db (bi_contract l) = None then Inl code_invalid_input
        else Inr (batch_row date ''VND'' actor ''REGISTER'' None (l\<lparr>bi_closed := False\<rparr>)))"

fun check_lines :: "(batch_input \<Rightarrow> string + drawdown) \<Rightarrow> batch_input list \<Rightarrow> string + drawdown list" where
  "check_lines f [] = Inr []"
| "check_lines f (l # ls) = bind_r (f l) (\<lambda>d. bind_r (check_lines f ls) (\<lambda>ds. Inr (d # ds)))"

definition create_batch_register ::
  "(string \<Rightarrow> string option) \<Rightarrow> loan_db \<Rightarrow> string \<Rightarrow> string \<Rightarrow> string \<Rightarrow> batch_input list \<Rightarrow> loan_db \<times> (string + nat)" where
  "create_batch_register pgd db actor txn_date method lines =
     (if \<not> is_valid_iso_date txn_date then (db, Inl code_invalid_input)
      else if \<not> payment_method_ok method then (db, Inl code_invalid_input)
      else case check_lines (register_line db txn_date actor) lines of
        Inl e \<Rightarrow> (db, Inl e)
      | Inr rows \<Rightarrow>
        (case create_draw_batch_tx pgd db (draft_header ''REGISTER'' None txn_date ''VND'' actor (batch_total rows)) rows of
           (db1, Inl Headroom_Exceeded) \<Rightarrow> (db1, Inl code_invalid_input)
         | (db1, Inl e) \<Rightarrow> (db1, Inl (map_repo_error e))
         | (db1, Inr i) \<Rightarrow> (db1, Inr i)))"

text \<open>The map of the source rows by agreement keeps the last row of an agreement.\<close>

definition source_row :: "drawdown list \<Rightarrow> string \<Rightarrow> drawdown option" where
  "source_row rows agreement = find (\<lambda>d. dd_agreement d = agreement) (rev rows)"

definition complete_line ::
  "loan_db \<Rightarrow> drawdown list \<Rightarrow> string \<Rightarrow> string \<Rightarrow> string \<Rightarrow> batch_input \<Rightarrow> string + drawdown" where
  "complete_line db sources date currency actor l0 =
     (let l = trim_line l0 in
      case source_row sources (bi_agreement l) of
        None \<Rightarrow> Inl code_invalid_input
      | Some s \<Rightarrow>
        if bi_contract l \<noteq> [] \<and> bi_contract l \<noteq> dd_contract s then Inl code_invalid_input
        else let amount = (if bi_closed l then 0 else bi_amount l) in
          if amount < 0 then Inl code_invalid_input
          else case sum_complete_for_agreement db (bi_agreement l) of
            Inl e \<Rightarrow> Inl (map_repo_error e)
          | Inr completed \<Rightarrow>
            if sub64 (dd_amount s) completed < amount then Inl code_invalid_input
            else Inr (batch_row date currency actor ''COMPLETE'' (Some (dd_id s))
                   (l\<lparr>bi_contract := dd_contract s, bi_amount := amount\<rparr>)))"

definition create_batch_complete ::
  "(string \<Rightarrow> string option) \<Rightarrow> loan_db \<Rightarrow> string \<Rightarrow> nat option \<Rightarrow> string \<Rightarrow> string \<Rightarrow> batch_input list \<Rightarrow>
   loan_db \<times> (string + nat)" where
  "create_batch_complete pgd db actor source_id txn_date method lines =
     (case source_id of
        None \<Rightarrow> (db, Inl code_required)
      | Some sid \<Rightarrow>
        if lines = [] then (db, Inl code_required)
        else if \<not> is_valid_iso_date txn_date then (db, Inl code_invalid_input)
        else if \<not> payment_method_ok method then (db, Inl code_invalid_input)
        else case batch_by_id db sid of
          Inl _ \<Rightarrow> (db, Inl code_invalid_input)
        | Inr source \<Rightarrow>
          if db_flow source \<noteq> ''REGISTER'' then (db, Inl code_invalid_input)
          else if db_status source \<noteq> ''POSTED'' then (db, Inl code_invalid_input)
          else case check_lines (complete_line db (batch_rows db sid) txn_date (db_currency source) actor) lines of
            Inl e \<Rightarrow> (db, Inl e)
          | Inr rows \<Rightarrow>
            (case create_draw_batch_tx pgd db
                (draft_header ''COMPLETE'' (Some sid) txn_date (db_currency source) actor (batch_total rows)) rows of
               (db1, Inl e) \<Rightarrow> (db1, Inl (map_repo_error e))
             | (db1, Inr i) \<Rightarrow> (db1, Inr i)))"

text \<open>\<open>UpdateDraftDisbursementBatch\<close>: the editable rows are replaced.\<close>

definition draft_guard :: "nat \<Rightarrow> int \<Rightarrow> draw_batch \<Rightarrow> bool" where
  "draft_guard i expected b = (db_id b = i \<and> db_status b = ''DRAFT'' \<and> db_version b = expected)"

definition update_draft_tx ::
  "(string \<Rightarrow> string option) \<Rightarrow> loan_db \<Rightarrow> nat \<Rightarrow> int \<Rightarrow> string \<Rightarrow> drawdown list \<Rightarrow> loan_db \<times> (loan_error + unit)" where
  "update_draft_tx pgd db i expected txn_date rows =
     (case pgd txn_date of
        None \<Rightarrow> (db, Inl Db_Error)
      | Some date \<Rightarrow>
        if \<not> (\<exists>b\<in>set (ld_batches db). draft_guard i expected b) then (db, Inl Stale_Version)
        else let db1 = db\<lparr>ld_batches := upd (draft_guard i expected)
                     (\<lambda>b. b\<lparr>db_date := date, db_total := batch_total rows, db_version := db_version b + 1\<rparr>) (ld_batches db),
                   ld_draws := [d \<leftarrow> ld_draws db. \<not> (dd_batch d = Some i \<and> dd_status d = ''DRAFT'')]\<rparr>
             in (case insert_draws pgd db1 (map (\<lambda>d. d\<lparr>dd_batch := Some i\<rparr>) rows) of
                   Inl e \<Rightarrow> (db, Inl e)
                 | Inr db2 \<Rightarrow> (batch_history i ''UPDATED'' ''DRAFT'' ''DRAFT'' db2, Inr ())))"

definition update_register_line ::
  "loan_db \<Rightarrow> draw_batch \<Rightarrow> string \<Rightarrow> string \<Rightarrow> batch_input \<Rightarrow> string + drawdown" where
  "update_register_line db b date actor l0 =
     (let l = trim_line l0 in
      if bi_contract l = [] \<or> bi_agreement l = [] \<or> bi_amount l \<le> 0 then Inl code_invalid_input
      else case agreement_by_code db (bi_agreement l) of
        None \<Rightarrow> Inl code_invalid_input
      | Some a \<Rightarrow>
        if la_contract a \<noteq> bi_contract l then Inl code_invalid_input
        else if contract_by_code db (bi_contract l) = None then Inl code_invalid_input
        else Inr (batch_row date (db_currency b) actor (db_flow b) None (l\<lparr>bi_closed := False\<rparr>)))"

definition update_complete_line ::
  "draw_batch \<Rightarrow> drawdown list \<Rightarrow> string \<Rightarrow> string \<Rightarrow> batch_input \<Rightarrow> string + drawdown" where
  "update_complete_line b sources date actor l =
     (case source_row sources (trim_space (bi_agreement l)) of
        None \<Rightarrow> Inl code_invalid_input
      | Some s \<Rightarrow>
        if bi_amount l < 0 then Inl code_invalid_input
        else if bi_contract l \<noteq> [] \<and> bi_contract l \<noteq> dd_contract s then Inl code_invalid_input
        else Inr (batch_row date (db_currency b) actor (db_flow b) (Some (dd_id s))
               (l\<lparr>bi_contract := dd_contract s, bi_agreement := dd_agreement s,
                  bi_amount := (if bi_closed l then 0 else bi_amount l)\<rparr>)))"

definition update_draft ::
  "(string \<Rightarrow> string option) \<Rightarrow> loan_db \<Rightarrow> string \<Rightarrow> nat \<Rightarrow> int \<Rightarrow> string \<Rightarrow> string \<Rightarrow> batch_input list \<Rightarrow>
   loan_db \<times> (string + unit)" where
  "update_draft pgd db actor i data_version txn_date method lines =
     (if data_version \<le> 0 then (db, Inl code_invalid_input)
      else case batch_by_id db i of
        Inl e \<Rightarrow> (db, Inl (map_repo_error e))
      | Inr b \<Rightarrow>
        if db_status b \<noteq> ''DRAFT'' then (db, Inl code_conflict)
        else if \<not> is_valid_iso_date txn_date then (db, Inl code_invalid_input)
        else if \<not> payment_method_ok method then (db, Inl code_invalid_input)
        else case (if db_flow b = ''REGISTER'' then check_lines (update_register_line db b txn_date actor) lines
                   else check_lines (update_complete_line b
                     (case db_source b of None \<Rightarrow> [] | Some s \<Rightarrow> batch_rows db s) txn_date actor) lines) of
          Inl e \<Rightarrow> (db, Inl e)
        | Inr rows \<Rightarrow>
          (case update_draft_tx pgd db i data_version txn_date rows of
             (db1, Inl e) \<Rightarrow> (db1, Inl (map_repo_error e))
           | (db1, Inr _) \<Rightarrow> (db1, Inr ())))"

definition cancel_draft_tx :: "loan_db \<Rightarrow> nat \<Rightarrow> int \<Rightarrow> loan_db \<times> (loan_error + unit)" where
  "cancel_draft_tx db i expected =
     (if \<not> (\<exists>b\<in>set (ld_batches db). draft_guard i expected b) then (db, Inl Stale_Version)
      else (batch_history i ''CANCELLED'' ''DRAFT'' ''CANCELLED''
             (db\<lparr>ld_batches := upd (draft_guard i expected)
                   (\<lambda>b. b\<lparr>db_status := ''CANCELLED'', db_version := db_version b + 1\<rparr>) (ld_batches db),
                 ld_draws := upd (\<lambda>d. dd_batch d = Some i \<and> dd_status d = ''DRAFT'')
                   (\<lambda>d. d\<lparr>dd_status := ''CANCELLED'', dd_version := dd_version d + 1\<rparr>) (ld_draws db)\<rparr>), Inr ()))"

definition cancel_draft :: "loan_db \<Rightarrow> nat \<Rightarrow> int \<Rightarrow> loan_db \<times> (string + unit)" where
  "cancel_draft db i data_version =
     (if data_version \<le> 0 then (db, Inl code_invalid_input)
      else case cancel_draft_tx db i data_version of
        (db1, Inl Stale_Version) \<Rightarrow> (db1, Inl code_conflict)
      | (db1, Inl e) \<Rightarrow> (db1, Inl (map_repo_error e))
      | (db1, Inr _) \<Rightarrow> (db1, Inr ()))"

section \<open>Submitting\<close>

text \<open>The requested amount of a contract: a sum in \<open>int64\<close>.\<close>

definition requested :: "(drawdown \<Rightarrow> bool) \<Rightarrow> drawdown list \<Rightarrow> int" where
  "requested p rows = foldl (\<lambda>t d. if p d then add64 t (dd_amount d) else t) 0 rows"

definition fits_exposure :: "loan_db \<Rightarrow> drawdown list \<Rightarrow> string \<Rightarrow> bool" where
  "fits_exposure db rows c =
     (case load_contract_exposure db c of
        Inl _ \<Rightarrow> False
      | Inr exposure \<Rightarrow> allows exposure (requested (\<lambda>d. dd_contract d = c) rows))"

text \<open>All exposures are read before the first is compared.\<close>

definition check_exposures :: "loan_db \<Rightarrow> drawdown list \<Rightarrow> string list \<Rightarrow> loan_error + unit" where
  "check_exposures db rows codes =
     (if list_ex (\<lambda>c. isl (load_contract_exposure db c)) codes then Inl Db_Error
      else if list_all (fits_exposure db rows) codes then Inr () else Inl Headroom_Exceeded)"

text \<open>The upsert of the reservations: one per row, an older one of the same row is overwritten.\<close>

definition hold_row :: "drawdown \<Rightarrow> reservation list \<Rightarrow> reservation list" where
  "hold_row d rs =
     (if \<exists>r\<in>set rs. rs_source r = dd_id d
      then upd (\<lambda>r. rs_source r = dd_id d)
             (\<lambda>r. r\<lparr>rs_contract := dd_contract d, rs_amount := dd_amount d, rs_status := ''HELD''\<rparr>) rs
      else rs @ [\<lparr>rs_contract = dd_contract d, rs_source = dd_id d, rs_amount = dd_amount d, rs_status = ''HELD''\<rparr>])"

definition validate_and_reserve_register_batch :: "loan_db \<Rightarrow> drawdown list \<Rightarrow> loan_error + loan_db" where
  "validate_and_reserve_register_batch db rows =
     (if \<exists>d\<in>set rows. dd_amount d \<le> 0 then Inl Code_Taken
      else if \<exists>d\<in>set rows. contract_by_code db (dd_contract d) = None then Inl Not_Found
      else if \<exists>d\<in>set rows. agreement_by_code db (dd_agreement d) = None then Inl Not_Found
      else if \<exists>d\<in>set rows. map_option la_contract (agreement_by_code db (dd_agreement d)) \<noteq> Some (dd_contract d)
      then Inl Code_Taken
      else bind_r (check_exposures db rows (remdups (map dd_contract rows))) (\<lambda>_.
        Inr (db\<lparr>ld_reservations := foldl (\<lambda>rs d. hold_row d rs) (ld_reservations db) rows\<rparr>)))"

definition fits_remainder :: "loan_db \<Rightarrow> drawdown list \<Rightarrow> drawdown list \<Rightarrow> nat \<Rightarrow> bool" where
  "fits_remainder db found rows s =
     (case (sum_complete_for_source db s, find (\<lambda>d. dd_id d = s) found) of
        (Inr completed, Some d) \<Rightarrow> requested (\<lambda>x. dd_source x = Some s) rows \<le> sub64 (dd_amount d) completed
      | _ \<Rightarrow> False)"

definition check_remainders :: "loan_db \<Rightarrow> drawdown list \<Rightarrow> drawdown list \<Rightarrow> nat list \<Rightarrow> loan_error + unit" where
  "check_remainders db found rows sources =
     (if list_ex (\<lambda>s. isl (sum_complete_for_source db s)) sources then Inl Db_Error
      else if list_all (fits_remainder db found rows) sources then Inr () else Inl Headroom_Exceeded)"

definition validate_complete_batch :: "loan_db \<Rightarrow> nat option \<Rightarrow> drawdown list \<Rightarrow> loan_error + unit" where
  "validate_complete_batch db source_batch rows =
     (case source_batch of
        None \<Rightarrow> Inl Code_Taken
      | Some sid \<Rightarrow>
        (case batch_by_id db sid of
           Inl e \<Rightarrow> Inl e
         | Inr sb \<Rightarrow>
           if db_status sb \<noteq> ''POSTED'' then Inl Code_Taken
           else if \<exists>d\<in>set rows. dd_source d = None \<or> dd_amount d < 0 then Inl Code_Taken
           else if \<exists>d\<in>set rows. agreement_by_code db (dd_agreement d) = None then Inl Not_Found
           else
             let found = [x \<leftarrow> ld_draws db. dd_batch x = Some sid \<and> dd_flow x = ''REGISTER'' \<and> dd_status x = ''POSTED'' \<and>
                   Some (dd_id x) \<in> set (map dd_source rows)]
             in if \<exists>d\<in>set rows. find (\<lambda>x. Some (dd_id x) = dd_source d) found = None then Inl Not_Found
                else if \<exists>d\<in>set rows. map_option dd_agreement (find (\<lambda>x. Some (dd_id x) = dd_source d) found)
                       \<noteq> Some (dd_agreement d) then Inl Code_Taken
                else check_remainders db found rows (remdups (List.map_filter dd_source rows))))"

definition queue_submission :: "nat \<Rightarrow> int \<Rightarrow> submission list \<Rightarrow> submission list" where
  "queue_submission i now ss =
     (if \<exists>s\<in>set ss. sb_batch s = i
      then upd (\<lambda>s. sb_batch s = i)
             (\<lambda>s. s\<lparr>sb_status := ''PENDING'', sb_attempts := 0, sb_next := now, sb_locked := None, sb_error := []\<rparr>) ss
      else ss @ [\<lparr>sb_batch = i, sb_status = ''PENDING'', sb_attempts = 0, sb_next = now, sb_locked = None, sb_error = []\<rparr>])"

definition submit_batch_tx :: "loan_db \<Rightarrow> nat \<Rightarrow> int \<Rightarrow> int \<Rightarrow> loan_db \<times> (loan_error + unit)" where
  "submit_batch_tx db i expected now =
     (case batch_by_id db i of
        Inl e \<Rightarrow> (db, Inl e)
      | Inr b \<Rightarrow>
        if db_status b = ''PENDING_APPROVAL'' then (db, Inr ())
        else if db_status b \<noteq> ''DRAFT'' \<and> db_status b \<noteq> ''SUBMIT_FAILED'' then (db, Inl Bad_Transition)
        else if expected \<le> 0 \<or> db_version b \<noteq> expected then (db, Inl Stale_Version)
        else case transition_ok workflow_machine (db_status b) ''PENDING_APPROVAL'' [] of
          Inl e \<Rightarrow> (db, Inl e)
        | Inr _ \<Rightarrow>
          let rows = batch_rows db i in
          if rows = [] then (db, Inl Code_Taken)
          else case (if db_flow b = ''REGISTER'' then validate_and_reserve_register_batch db rows
                     else if db_flow b = ''COMPLETE''
                     then bind_r (validate_complete_batch db (db_source b) rows) (\<lambda>_. Inr db)
                     else Inl Code_Taken) of
            Inl e \<Rightarrow> (db, Inl e)
          | Inr db1 \<Rightarrow>
            (batch_history i ''SUBMITTED'' (db_status b) ''PENDING_APPROVAL''
              (db1\<lparr>ld_batches := upd (\<lambda>x. db_id x = i \<and> db_status x = db_status b \<and> db_version x = expected)
                     (\<lambda>x. x\<lparr>db_status := ''PENDING_APPROVAL'', db_version := db_version x + 1\<rparr>) (ld_batches db1),
                   ld_draws := upd (\<lambda>d. dd_batch d = Some i \<and> dd_status d = ''DRAFT'')
                     (\<lambda>d. d\<lparr>dd_status := ''PENDING_APPROVAL'', dd_version := dd_version d + 1\<rparr>) (ld_draws db1),
                   ld_submissions := queue_submission i now (ld_submissions db1)\<rparr>), Inr ()))"

text \<open>
  The service compares the error with the sentinels by \<open>==\<close>: a wrapped \<open>ErrHeadroomExceeded\<close>, which is
  the only form the repository returns, is not equal to it.
\<close>

definition submit_batch :: "loan_db \<Rightarrow> nat \<Rightarrow> int \<Rightarrow> int \<Rightarrow> loan_db \<times> (string + unit)" where
  "submit_batch db i data_version now =
     (if data_version \<le> 0 then (db, Inl code_invalid_input)
      else case submit_batch_tx db i data_version now of
        (db1, Inl Stale_Version) \<Rightarrow> (db1, Inl code_conflict)
      | (db1, Inl e) \<Rightarrow> (db1, Inl (map_repo_error e))
      | (db1, Inr _) \<Rightarrow> (db1, Inr ()))"

end
