(* ===== verification/Loan_Batch_Run.thy ===== *)
theory Loan_Batch_Run
  imports Loan_Batches
begin

text \<open>
  What happens to a submitted batch of drawdowns: its check, decision and settlement
  (batch_disbursement_review.go), the queue of workflow submissions (batch_disbursement_submission.go
  and disbursement_submission_repo.go) and the headroom it leaves.
\<close>

section \<open>Checking\<close>

text \<open>
  A row of a COMPLETE batch is compared with the amount of its register less what was completed on the
  agreement, which counts the rows of the batch itself.
\<close>

definition check_batch_row :: "loan_db \<Rightarrow> drawdown \<Rightarrow> bool" where
  "check_batch_row db d =
     (if dd_flow d = ''COMPLETE'' then
        (if dd_closed d \<or> dd_amount d = 0 then True
         else case sum_complete_for_agreement db (dd_agreement d) of
           Inl _ \<Rightarrow> False
         | Inr completed \<Rightarrow>
           (case dd_source d of
              None \<Rightarrow> False
            | Some s \<Rightarrow> (case draw_by_id db s of None \<Rightarrow> False | Some sd \<Rightarrow> dd_amount d \<le> sub64 (dd_amount sd) completed)))
      else case load_contract_exposure db (dd_contract d) of
        Inl _ \<Rightarrow> False
      | Inr exposure \<Rightarrow> 0 \<le> headroom_minor exposure)"

definition check_batch :: "loan_db \<Rightarrow> nat \<Rightarrow> bool" where
  "check_batch db i =
     (case batch_by_id db i of
        Inl _ \<Rightarrow> False
      | Inr b \<Rightarrow> db_status b = ''PENDING_APPROVAL'' \<and> list_all (check_batch_row db) (batch_rows db i))"

section \<open>Deciding\<close>

definition batch_guard :: "nat \<Rightarrow> string \<Rightarrow> int \<Rightarrow> draw_batch \<Rightarrow> bool" where
  "batch_guard i status expected b =
     (db_id b = i \<and> db_status b = status \<and> (expected = 0 \<or> db_version b = expected))"

definition batch_version :: "loan_db \<Rightarrow> nat \<Rightarrow> int option" where
  "batch_version db i = map_option db_version (find (\<lambda>b. db_id b = i) (ld_batches db))"

definition set_batch_row_status ::
  "loan_db \<Rightarrow> nat \<Rightarrow> string \<Rightarrow> string \<Rightarrow> int \<Rightarrow> loan_error + loan_db" where
  "set_batch_row_status db i from_status to_status expected =
     (if \<exists>b\<in>set (ld_batches db). batch_guard i from_status expected b
      then Inr (db\<lparr>ld_batches := upd (batch_guard i from_status expected)
             (\<lambda>b. b\<lparr>db_status := to_status, db_version := db_version b + 1\<rparr>) (ld_batches db)\<rparr>)
      else Inl (if stale_version (batch_version db i) expected then Stale_Version
                else case batch_version db i of None \<Rightarrow> Not_Found | Some _ \<Rightarrow> Bad_Transition))"

definition enqueue_row_events :: "string \<Rightarrow> drawdown list \<Rightarrow> loan_db \<Rightarrow> loan_db" where
  "enqueue_row_events status rows db =
     foldl (\<lambda>db d. enqueue_draw_event db (dd_id d) status (dd_contract d) (dd_created_by d) (dd_updated_by d)) db rows"

definition in_batch :: "loan_db \<Rightarrow> nat \<Rightarrow> nat \<Rightarrow> bool" where
  "in_batch db i s = (\<exists>d\<in>set (ld_draws db). dd_id d = s \<and> dd_batch d = Some i)"

definition set_batch_status ::
  "loan_db \<Rightarrow> nat \<Rightarrow> string \<Rightarrow> string \<Rightarrow> string \<Rightarrow> int \<Rightarrow> loan_db \<times> (loan_error + unit)" where
  "set_batch_status db i from_status to_status reason expected =
     (case bind_r (transition_ok workflow_machine from_status to_status reason) (\<lambda>_.
        set_batch_row_status db i from_status to_status expected) of
        Inl e \<Rightarrow> (db, Inl e)
      | Inr db1 \<Rightarrow>
        if to_status = ''REJECTED'' \<or> to_status = ''CANCELLED'' then
          let db2 = db1\<lparr>ld_draws := upd (\<lambda>d. dd_batch d = Some i \<and> dd_status d \<notin> {''POSTED'', ''REJECTED'', ''CANCELLED''})
                (\<lambda>d. d\<lparr>dd_status := to_status, dd_version := dd_version d + 1\<rparr>) (ld_draws db1)\<rparr>;
              rows = (if to_status = ''REJECTED'' then [d \<leftarrow> batch_rows db2 i. dd_status d = to_status] else [])
          in (release_reservations (in_batch db2 i) (enqueue_row_events ''REJECTED'' rows db2), Inr ())
        else
          let rows = (if to_status = ''APPROVED'' then [d \<leftarrow> batch_rows db1 i. dd_status d = from_status] else []);
              db2 = db1\<lparr>ld_draws := upd (\<lambda>d. dd_batch d = Some i \<and> dd_status d = from_status)
                (\<lambda>d. d\<lparr>dd_status := to_status, dd_version := dd_version d + 1\<rparr>) (ld_draws db1)\<rparr>
          in (enqueue_row_events ''APPROVED'' rows db2, Inr ()))"

definition resolve_batch :: "loan_db \<Rightarrow> nat \<Rightarrow> string \<Rightarrow> string \<Rightarrow> int \<Rightarrow> loan_db \<times> (string + unit)" where
  "resolve_batch db i decision note expected =
     (case batch_by_id db i of
        Inl e \<Rightarrow> (db, Inl (map_repo_error e))
      | Inr b \<Rightarrow>
        (case draw_decision decision of
           None \<Rightarrow> (db, Inl code_invalid_input)
         | Some target \<Rightarrow>
           (case transition_ok workflow_machine (db_status b) target note of
              Inl e \<Rightarrow> (db, Inl (map_repo_error e))
            | Inr _ \<Rightarrow>
              (case set_batch_status db i (db_status b) target note expected of
                 (db1, Inl e) \<Rightarrow> (db1, Inl (map_repo_error e))
               | (db1, Inr _) \<Rightarrow> (db1, Inr ())))))"

section \<open>Settling\<close>

definition set_batch_posted :: "loan_db \<Rightarrow> nat \<Rightarrow> string \<Rightarrow> int \<Rightarrow> loan_db \<times> (loan_error + unit)" where
  "set_batch_posted db i journal expected =
     (case transition_ok workflow_machine ''APPROVED'' ''POSTED'' [] of
        Inl e \<Rightarrow> (db, Inl e)
      | Inr _ \<Rightarrow>
        if \<exists>b\<in>set (ld_batches db). batch_guard i ''APPROVED'' expected b
        then (db\<lparr>ld_batches := upd (batch_guard i ''APPROVED'' expected)
                (\<lambda>b. b\<lparr>db_status := ''POSTED'', db_journal := null_if_empty journal, db_version := db_version b + 1\<rparr>)
                (ld_batches db)\<rparr>, Inr ())
        else (db, Inl (if stale_version (batch_version db i) expected then Stale_Version else Not_Found)))"

text \<open>
  The rows are settled one by one, each in a transaction of its own and without a version guard. The
  error of a settlement is the one before \<open>mapRepoError\<close>, which the last statement does not pass.
\<close>

fun settle_register_rows :: "loan_db \<Rightarrow> drawdown list \<Rightarrow> string \<Rightarrow> string \<Rightarrow> loan_db \<times> (loan_error + unit)" where
  "settle_register_rows db [] journal actor = (db, Inr ())"
| "settle_register_rows db (d # ds) journal actor =
     (case settle_register_tx db (dd_id d) (dd_agreement d) (dd_amount d) journal actor 0 of
        (db1, Inl e) \<Rightarrow> (db1, Inl e)
      | (db1, Inr _) \<Rightarrow> settle_register_rows db1 ds journal actor)"

fun settle_complete_rows :: "loan_db \<Rightarrow> drawdown list \<Rightarrow> string \<Rightarrow> string \<Rightarrow> loan_db \<times> (loan_error + unit)" where
  "settle_complete_rows db [] journal actor = (db, Inr ())"
| "settle_complete_rows db (d # ds) journal actor =
     (case settle_complete_tx db (dd_id d) (dd_contract d) (dd_agreement d) (dd_amount d) journal actor 0 of
        (db1, Inl e) \<Rightarrow> (db1, Inl e)
      | (db1, Inr _) \<Rightarrow> settle_complete_rows db1 ds journal actor)"

fun close_contracts :: "loan_db \<Rightarrow> string list \<Rightarrow> loan_db \<times> (loan_error + unit)" where
  "close_contracts db [] = (db, Inr ())"
| "close_contracts db (c # cs) =
     (case close_contract_by_code db c of
        (db1, Inl e) \<Rightarrow> (db1, Inl e)
      | (db1, Inr _) \<Rightarrow> close_contracts db1 cs)"

definition approve_waiting_batch :: "loan_db \<Rightarrow> draw_batch \<Rightarrow> int \<Rightarrow> loan_db \<times> (loan_error + unit)" where
  "approve_waiting_batch db b expected =
     (if db_status b = ''PENDING_APPROVAL'' then set_batch_status db (db_id b) (db_status b) ''APPROVED'' [] expected
      else (db, Inr ()))"

definition settle_batch_register :: "loan_db \<Rightarrow> nat \<Rightarrow> string \<Rightarrow> string \<Rightarrow> int \<Rightarrow> loan_db \<times> (loan_error + unit)" where
  "settle_batch_register db i journal actor expected =
     (case batch_by_id db i of
        Inl e \<Rightarrow> (db, Inl e)
      | Inr b \<Rightarrow>
        if db_status b = ''POSTED'' then (db, Inr ())
        else case approve_waiting_batch db b expected of
          (db1, Inl e) \<Rightarrow> (db1, Inl e)
        | (db1, Inr _) \<Rightarrow>
          (case settle_register_rows db1 (batch_rows db1 i) journal actor of
             (db2, Inl e) \<Rightarrow> (db2, Inl e)
           | (db2, Inr _) \<Rightarrow> set_batch_posted db2 i journal expected))"

definition settle_batch_complete :: "loan_db \<Rightarrow> nat \<Rightarrow> string \<Rightarrow> string \<Rightarrow> int \<Rightarrow> loan_db \<times> (loan_error + unit)" where
  "settle_batch_complete db i journal actor expected =
     (case batch_by_id db i of
        Inl e \<Rightarrow> (db, Inl e)
      | Inr b \<Rightarrow>
        if db_status b = ''POSTED'' then (db, Inr ())
        else case approve_waiting_batch db b expected of
          (db1, Inl e) \<Rightarrow> (db1, Inl e)
        | (db1, Inr _) \<Rightarrow>
          (case settle_complete_rows db1 (batch_rows db1 i) journal actor of
             (db2, Inl e) \<Rightarrow> (db2, Inl e)
           | (db2, Inr _) \<Rightarrow>
             (case close_contracts db2 (map dd_contract (filter dd_closed (batch_rows db1 i))) of
                (db3, Inl e) \<Rightarrow> (db3, Inl e)
              | (db3, Inr _) \<Rightarrow> set_batch_posted db3 i journal expected)))"

definition settle_batch :: "loan_db \<Rightarrow> nat \<Rightarrow> string \<Rightarrow> string \<Rightarrow> int \<Rightarrow> loan_db \<times> (loan_error + unit)" where
  "settle_batch db i journal actor expected =
     (case batch_by_id db i of
        Inl e \<Rightarrow> (db, Inl e)
      | Inr b \<Rightarrow>
        if db_flow b = ''COMPLETE'' then settle_batch_complete db i journal actor expected
        else settle_batch_register db i journal actor expected)"

section \<open>The queue of workflow submissions\<close>

definition max_attempts :: int where "max_attempts = 8"
definition claim_size :: int where "claim_size = 10"

definition claim_limit :: "int \<Rightarrow> nat" where
  "claim_limit n = (if n \<le> 0 \<or> 50 < n then 10 else nat n)"

definition claimable :: "int \<Rightarrow> submission \<Rightarrow> bool" where
  "claimable now s \<longleftrightarrow>
     sb_status s = ''PENDING'' \<and> sb_next s \<le> now \<or>
     sb_status s = ''PROCESSING'' \<and> (case sb_locked s of None \<Rightarrow> False | Some t \<Rightarrow> t < now - 60)"

text \<open>The claimed items are in the order of creation, each with the attempts so far.\<close>

definition claim_submissions :: "loan_db \<Rightarrow> int \<Rightarrow> int \<Rightarrow> loan_db \<times> (nat \<times> int) list" where
  "claim_submissions db n now =
     (let items = take (claim_limit n) (filter (claimable now) (ld_submissions db));
          ids = map sb_batch items
      in (db\<lparr>ld_submissions := upd (\<lambda>s. sb_batch s \<in> set ids)
            (\<lambda>s. s\<lparr>sb_status := ''PROCESSING'', sb_locked := Some now\<rparr>) (ld_submissions db)\<rparr>,
          map (\<lambda>s. (sb_batch s, sb_attempts s)) items))"

definition processing :: "nat \<Rightarrow> submission \<Rightarrow> bool" where
  "processing i s \<longleftrightarrow> sb_batch s = i \<and> sb_status s = ''PROCESSING''"

definition complete_submission :: "loan_db \<Rightarrow> nat \<Rightarrow> string \<Rightarrow> loan_db \<times> (loan_error + unit)" where
  "complete_submission db i case_id =
     (let p = (\<lambda>b. db_id b = i \<and> db_status b = ''PENDING_APPROVAL'') in
      if \<exists>b\<in>set (ld_batches db). p b \<and> case_id \<noteq> [] \<and>
          (\<exists>x\<in>set (ld_batches db). db_id x \<noteq> i \<and> db_case x = Some case_id) then (db, Inl Db_Error)
      else if \<not> (\<exists>b\<in>set (ld_batches db). p b) then (db, Inl Stale_Version)
      else if \<not> (\<exists>s\<in>set (ld_submissions db). processing i s) then (db, Inl Stale_Version)
      else (batch_history i ''WORKFLOW_CASE_CREATED'' ''PENDING_APPROVAL'' ''PENDING_APPROVAL''
             (db\<lparr>ld_batches := upd p (\<lambda>b. b\<lparr>db_case := null_if_empty case_id, db_version := db_version b + 1\<rparr>) (ld_batches db),
                 ld_submissions := upd (processing i)
                   (\<lambda>s. s\<lparr>sb_status := ''DELIVERED'', sb_locked := None, sb_error := []\<rparr>) (ld_submissions db)\<rparr>), Inr ()))"

definition backoff_seconds :: "int \<Rightarrow> int" where
  "backoff_seconds attempts = min 300 (2 ^ nat (min attempts 8))"

definition fail_submission :: "loan_db \<Rightarrow> nat \<Rightarrow> string \<Rightarrow> int \<Rightarrow> int \<Rightarrow> loan_db \<times> (loan_error + unit)" where
  "fail_submission db i cause tries now =
     (case find (processing i) (ld_submissions db) of
        None \<Rightarrow> (db, Inl No_Rows)
      | Some s0 \<Rightarrow>
        let dead = (tries \<le> sb_attempts s0 + 1);
            db1 = db\<lparr>ld_submissions := upd (processing i)
              (\<lambda>s. s\<lparr>sb_attempts := sb_attempts s + 1, sb_status := (if tries \<le> sb_attempts s + 1 then ''DEAD'' else ''PENDING''),
                     sb_next := now + backoff_seconds (sb_attempts s), sb_locked := None, sb_error := cause\<rparr>)
              (ld_submissions db)\<rparr>
        in if dead then
             (batch_history i ''SUBMISSION_FAILED'' ''PENDING_APPROVAL'' ''SUBMIT_FAILED''
               (release_reservations (in_batch db1 i)
                 (db1\<lparr>ld_batches := upd (\<lambda>b. db_id b = i \<and> db_status b = ''PENDING_APPROVAL'')
                        (\<lambda>b. b\<lparr>db_status := ''SUBMIT_FAILED'', db_version := db_version b + 1\<rparr>) (ld_batches db1),
                      ld_draws := upd (\<lambda>d. dd_batch d = Some i \<and> dd_status d = ''PENDING_APPROVAL'')
                        (\<lambda>d. d\<lparr>dd_status := ''DRAFT'', dd_version := dd_version d + 1\<rparr>) (ld_draws db1)\<rparr>)), Inr ())
           else (batch_history i ''WORKFLOW_RETRY'' ''PENDING_APPROVAL'' ''PENDING_APPROVAL'' db1, Inr ()))"

text \<open>Every failure of an item is recorded with its text, here the code of the error.\<close>

definition process_submission :: "loan_workflow option \<Rightarrow> loan_db \<Rightarrow> nat \<Rightarrow> loan_db \<times> (string + unit)" where
  "process_submission workflow db i =
     (case workflow of
        None \<Rightarrow> (db, Inl code_internal)
      | Some w \<Rightarrow>
        (case batch_by_id db i of
           Inl e \<Rightarrow> (db, Inl (map_repo_error e))
         | Inr b \<Rightarrow>
           (case lw_create w (if db_flow b = ''COMPLETE'' then ''LNM_DISB_BATCH_COMPLETE_V2'' else ''LNM_DISB_BATCH_REGISTER_V2'')
               (dec_str i) of
              Inl e \<Rightarrow> (db, Inl e)
            | Inr (case_id, _) \<Rightarrow>
              if case_id = [] then (db, Inl code_internal)
              else case lw_submit w case_id of
                Inl e \<Rightarrow> (db, Inl e)
              | Inr _ \<Rightarrow>
                (case complete_submission db i case_id of
                   (db1, Inl e) \<Rightarrow> (db1, Inl (map_repo_error e))
                 | (db1, Inr _) \<Rightarrow> (db1, Inr ())))))"

fun process_items :: "loan_workflow option \<Rightarrow> loan_db \<Rightarrow> (nat \<times> int) list \<Rightarrow> int \<Rightarrow> loan_db" where
  "process_items workflow db [] now = db"
| "process_items workflow db ((i, attempts) # items) now =
     (case process_submission workflow db i of
        (db1, Inl cause) \<Rightarrow> process_items workflow (fst (fail_submission db1 i cause max_attempts now)) items now
      | (db1, Inr _) \<Rightarrow> process_items workflow db1 items now)"

definition process_outbox_once :: "loan_workflow option \<Rightarrow> loan_db \<Rightarrow> int \<Rightarrow> loan_db" where
  "process_outbox_once workflow db now =
     (case claim_submissions db claim_size now of (db1, items) \<Rightarrow> process_items workflow db1 items now)"

section \<open>Headroom\<close>

text \<open>\<open>calculateBatchHeadroom\<close>: contract, available before the batch, remaining after it.\<close>

definition calculate_batch_headroom ::
  "string \<Rightarrow> drawdown list \<Rightarrow> (string \<Rightarrow> contract_exposure) \<Rightarrow> (string \<times> int \<times> int) list" where
  "calculate_batch_headroom status rows exposures =
     map (\<lambda>c. let total_minor = requested (\<lambda>d. dd_contract d = c) rows;
                  remaining = headroom_minor (exposures c)
              in if status = ''DRAFT'' then (c, remaining, sub64 remaining total_minor)
                 else if status = ''PENDING_APPROVAL'' then (c, add64 remaining total_minor, remaining)
                 else (c, remaining, remaining))
       (dedup [] (map dd_contract rows))"

end
