(* ===== verification/Loan_Exposure.thy ===== *)
theory Loan_Exposure
  imports Loan_Batch_Run
begin

text \<open>
  The limit of a contract: what its agreements carry, disbursed or pending, and what is held for
  requests under way stays within the loan amount, whatever sequence of calls the service serves.
\<close>

section \<open>Exposure\<close>

definition used_of :: "loan_db \<Rightarrow> string \<Rightarrow> int" where
  "used_of db c = sum_list (contract_outstanding db c) + sum_list (contract_pending db c) + sum_list (contract_held db c)"

definition limit_of :: "loan_db \<Rightarrow> string \<Rightarrow> int" where
  "limit_of db c = (case contract_by_code db c of None \<Rightarrow> 0 | Some x \<Rightarrow> lc_amount x)"

text \<open>A row that the maker of a batch may still replace.\<close>

definition replaceable :: "drawdown \<Rightarrow> bool" where
  "replaceable d \<longleftrightarrow> dd_batch d \<noteq> None \<and> dd_status d = ''DRAFT''"

definition draw_key :: "drawdown \<Rightarrow> nat \<times> int \<times> string \<times> string" where
  "draw_key d = (dd_id d, dd_amount d, dd_contract d, dd_agreement d)"

definition held_for :: "loan_db \<Rightarrow> nat \<Rightarrow> bool" where
  "held_for db i = (\<exists>r\<in>set (ld_reservations db). rs_source r = i \<and> rs_status r = ''HELD'')"

text \<open>A held reservation is backed by a drawdown of the same contract and amount.\<close>

definition backed :: "loan_db \<Rightarrow> reservation \<Rightarrow> bool" where
  "backed db r \<longleftrightarrow> 0 < rs_amount r \<and>
     (\<exists>d\<in>set (ld_draws db). dd_id d = rs_source r \<and> dd_amount d = rs_amount r \<and> dd_contract d = rs_contract r \<and>
       \<not> replaceable d \<and> (\<exists>a\<in>set (ld_agreements db). la_code a = dd_agreement d \<and> la_contract a = rs_contract r))"

text \<open>No receipt has a negative principal: with that a receipt never adds to what is outstanding.\<close>

definition receipts_sound :: "loan_db \<Rightarrow> bool" where
  "receipts_sound db = list_all (\<lambda>r. 0 \<le> rc_principal r) (ld_receipts db)"

definition sound_keys :: "loan_db \<Rightarrow> bool" where
  "sound_keys db \<longleftrightarrow> distinct (map lc_code (ld_contracts db)) \<and> distinct (map la_code (ld_agreements db)) \<and>
     distinct (map dd_id (ld_draws db)) \<and> distinct (map rs_source (ld_reservations db)) \<and>
     list_all (\<lambda>d. dd_id d < ld_next db \<and> 0 \<le> dd_amount d) (ld_draws db) \<and>
     list_all (\<lambda>r. rs_source r < ld_next db) (ld_reservations db) \<and>
     list_all (\<lambda>c. 0 < lc_amount c \<and> in64 (lc_amount c) \<and> trim_space (lc_code c) = lc_code c) (ld_contracts db) \<and>
     list_all (\<lambda>a. 0 \<le> la_outstanding a \<and> 0 \<le> la_pending a) (ld_agreements db) \<and> receipts_sound db"

definition within_limits :: "loan_db \<Rightarrow> bool" where
  "within_limits db \<longleftrightarrow> sound_keys db \<and>
     (\<forall>r\<in>set (ld_reservations db). rs_status r = ''HELD'' \<longrightarrow> backed db r) \<and> (\<forall>c. used_of db c \<le> limit_of db c)"

lemma limits_sound: "within_limits db \<Longrightarrow> sound_keys db"
  by (simp add: within_limits_def)

lemma limits_receipts: "within_limits db \<Longrightarrow> receipts_sound db"
  by (simp add: within_limits_def sound_keys_def)

section \<open>Steps that leave the ledger alone\<close>

definition contract_key :: "loan_contract \<Rightarrow> string \<times> int" where
  "contract_key c = (lc_code c, lc_amount c)"

definition agreement_key :: "loan_agreement \<Rightarrow> string \<times> string \<times> int \<times> int" where
  "agreement_key a = (la_code a, la_contract a, la_outstanding a, la_pending a)"

definition reservation_kept :: "reservation \<Rightarrow> reservation \<Rightarrow> bool" where
  "reservation_kept r r' \<longleftrightarrow> rs_contract r' = rs_contract r \<and> rs_source r' = rs_source r \<and> rs_amount r' = rs_amount r \<and>
     (rs_status r' = ''HELD'' \<longrightarrow> rs_status r = ''HELD'')"

definition draw_kept :: "loan_db \<Rightarrow> drawdown \<Rightarrow> drawdown \<Rightarrow> bool" where
  "draw_kept db' d d' \<longleftrightarrow> draw_key d' = draw_key d \<and> (replaceable d' \<longrightarrow> replaceable d \<or> \<not> held_for db' (dd_id d))"

definition frame_step :: "loan_db \<Rightarrow> loan_db \<Rightarrow> bool" where
  "frame_step db db' \<longleftrightarrow> map contract_key (ld_contracts db') = map contract_key (ld_contracts db) \<and>
     map agreement_key (ld_agreements db') = map agreement_key (ld_agreements db) \<and>
     list_all2 (draw_kept db') (ld_draws db) (ld_draws db') \<and>
     list_all2 reservation_kept (ld_reservations db) (ld_reservations db') \<and> ld_next db \<le> ld_next db' \<and>
     ld_receipts db' = ld_receipts db"

lemma backedI:
  "0 < rs_amount r \<Longrightarrow> d \<in> set (ld_draws db) \<Longrightarrow>
   dd_id d = rs_source r \<and> dd_amount d = rs_amount r \<and> dd_contract d = rs_contract r \<Longrightarrow> \<not> replaceable d \<Longrightarrow>
   a \<in> set (ld_agreements db) \<Longrightarrow> la_code a = dd_agreement d \<Longrightarrow> la_contract a = rs_contract r \<Longrightarrow> backed db r"
  unfolding backed_def by blast

lemma map_key_set: "map f xs = map f ys \<Longrightarrow> x \<in> set xs \<Longrightarrow> \<exists>y\<in>set ys. f y = f x"
  by (metis image_iff list.set_map)

lemma map_through_key: "map f xs = map f ys \<Longrightarrow> (\<And>x. g x = h (f x)) \<Longrightarrow> map g xs = map g ys"
proof -
  assume e: "map f xs = map f ys" and g: "\<And>x. g x = h (f x)"
  have "map h (map f xs) = map h (map f ys)" using e by (rule arg_cong)
  moreover have "g = h \<circ> f" using g by (simp add: fun_eq_iff)
  ultimately show "map g xs = map g ys" by simp
qed

lemma list_all2_map_eq: "list_all2 P xs ys \<Longrightarrow> (\<And>x y. P x y \<Longrightarrow> f y = f x) \<Longrightarrow> map f ys = map f xs"
  by (induction rule: list_all2_induct) auto

lemma list_all2_mem1: "list_all2 P xs ys \<Longrightarrow> x \<in> set xs \<Longrightarrow> \<exists>y\<in>set ys. P x y"
  by (metis list_all2_conv_all_nth in_set_conv_nth)

lemma list_all2_mem2: "list_all2 P xs ys \<Longrightarrow> y \<in> set ys \<Longrightarrow> \<exists>x\<in>set xs. P x y"
  by (metis list_all2_conv_all_nth in_set_conv_nth)

lemma list_all2_upd: "list_all2 P xs (upd p f xs) \<longleftrightarrow> (\<forall>x\<in>set xs. P x (if p x then f x else x))"
  by (induction xs) (auto simp: upd_def)

lemma map_upd: "(\<And>x. p x \<Longrightarrow> g (f x) = g x) \<Longrightarrow> map g (upd p f xs) = map g xs"
  by (simp add: upd_def)

lemma set_upd: "set (upd p f xs) = (\<lambda>x. if p x then f x else x) ` set xs"
  by (simp add: upd_def)

lemma upd_none: "\<not> (\<exists>x\<in>set xs. p x) \<Longrightarrow> upd p f xs = xs"
  unfolding upd_def by (intro map_idI) auto

lemma find_map_key: "map f xs = map f ys \<Longrightarrow> map_option f (find (\<lambda>x. P (f x)) xs) = map_option f (find (\<lambda>y. P (f y)) ys)"
proof (induction xs arbitrary: ys)
  case (Cons x xs)
  then obtain y zs where "ys = y # zs" "f y = f x" "map f xs = map f zs" by (cases ys) auto
  then show ?case using Cons.IH [of zs] by auto
qed auto

lemma contract_key_limit:
  assumes "map contract_key (ld_contracts db') = map contract_key (ld_contracts db)"
  shows "limit_of db' c = limit_of db c"
proof -
  have e: "limit_of d c = (case map_option contract_key (find (\<lambda>x. fst (contract_key x) = c) (ld_contracts d)) of
      None \<Rightarrow> 0 | Some k \<Rightarrow> snd k)" for d
    by (simp add: limit_of_def contract_by_code_def contract_key_def split: option.splits)
  show ?thesis unfolding e by (simp only: find_map_key [OF assms, of "\<lambda>k. fst k = c"])
qed

lemma sum_by_key:
  "sum_list [h x. x \<leftarrow> xs, q x] = sum_list (map (\<lambda>x. if q x then h x else 0) xs)"
  by (induction xs) auto

lemma agreement_key_sums:
  assumes "map agreement_key (ld_agreements db') = map agreement_key (ld_agreements db)"
  shows "contract_outstanding db' c = contract_outstanding db c" "contract_pending db' c = contract_pending db c"
proof -
  have o: "contract_outstanding d c =
      concat (map (\<lambda>k. case k of (_, x, ost, _) \<Rightarrow> if x = c then [ost] else []) (map agreement_key (ld_agreements d)))"
    and p: "contract_pending d c =
      concat (map (\<lambda>k. case k of (_, x, _, pen) \<Rightarrow> if x = c then [pen] else []) (map agreement_key (ld_agreements d)))" for d
    by (simp_all add: contract_outstanding_def contract_pending_def agreement_key_def o_def)
  show "contract_outstanding db' c = contract_outstanding db c" "contract_pending db' c = contract_pending db c"
    unfolding o p by (simp_all only: assms)
qed

lemma held_sum: "sum_list (contract_held db c) =
    sum_list (map (\<lambda>r. if rs_contract r = c \<and> rs_status r = ''HELD'' then rs_amount r else 0) (ld_reservations db))"
  unfolding contract_held_def by (rule sum_by_key)

lemma list_all2_sum_le:
  fixes f g :: "'a \<Rightarrow> int"
  shows "list_all2 P xs ys \<Longrightarrow> (\<And>x y. x \<in> set xs \<Longrightarrow> P x y \<Longrightarrow> f y \<le> f x) \<Longrightarrow> sum_list (map f ys) \<le> sum_list (map f xs)"
proof (induction xs arbitrary: ys)
  case (Cons x xs)
  obtain y zs where ys: "ys = y # zs" "P x y" "list_all2 P xs zs" using Cons.prems(1) by (cases ys) auto
  have "f y \<le> f x" by (rule Cons.prems(2)) (simp_all add: ys)
  moreover have "sum_list (map f zs) \<le> sum_list (map f xs)"
    by (rule Cons.IH [OF ys(3)]) (rule Cons.prems(2), auto)
  ultimately show ?case by (simp add: ys)
qed auto

text \<open>
  What a step has to show: the keys stay, no backing row becomes replaceable, no reservation is held
  anew, and the exposure of no contract grows.
\<close>

definition agreement_kept :: "loan_agreement \<Rightarrow> loan_agreement \<Rightarrow> bool" where
  "agreement_kept a a' \<longleftrightarrow> la_code a' = la_code a \<and> la_contract a' = la_contract a \<and>
     0 \<le> la_outstanding a' \<and> 0 \<le> la_pending a'"

lemma move_ok:
  assumes ok: "within_limits db"
    and contracts: "map contract_key (ld_contracts db') = map contract_key (ld_contracts db)"
    and agreements: "list_all2 agreement_kept (ld_agreements db) (ld_agreements db')"
    and draws2: "list_all2 (draw_kept db') (ld_draws db) (ld_draws db')"
    and reservations: "list_all2 reservation_kept (ld_reservations db) (ld_reservations db')"
    and mono: "ld_next db \<le> ld_next db'" and rec: "receipts_sound db'"
    and used: "\<And>c. used_of db' c \<le> used_of db c"
  shows "within_limits db'"
proof -
  have sk: "sound_keys db" using ok by (simp add: within_limits_def)
  have draws: "map draw_key (ld_draws db') = map draw_key (ld_draws db)"
    by (rule list_all2_map_eq [OF draws2]) (simp add: draw_kept_def)
  have ids: "map dd_id (ld_draws db') = map dd_id (ld_draws db)"
    by (rule map_through_key [OF draws, where h = fst]) (simp add: draw_key_def)
  have sources: "map rs_source (ld_reservations db') = map rs_source (ld_reservations db)"
    by (rule list_all2_map_eq [OF reservations]) (simp add: reservation_kept_def)
  have codes: "map lc_code (ld_contracts db') = map lc_code (ld_contracts db)"
    by (rule map_through_key [OF contracts, where h = fst]) (simp add: contract_key_def)
  have acodes: "map la_code (ld_agreements db') = map la_code (ld_agreements db)"
    by (rule list_all2_map_eq [OF agreements]) (simp add: agreement_kept_def)
  have "dd_id d' < ld_next db' \<and> 0 \<le> dd_amount d'" if "d' \<in> set (ld_draws db')" for d'
    using map_key_set [OF draws that] sk mono by (auto simp: sound_keys_def list_all_iff draw_key_def)
  moreover have "rs_source r' < ld_next db'" if "r' \<in> set (ld_reservations db')" for r'
    using map_key_set [OF sources that] sk mono by (auto simp: sound_keys_def list_all_iff)
  moreover have "0 < lc_amount c' \<and> in64 (lc_amount c') \<and> trim_space (lc_code c') = lc_code c'"
    if "c' \<in> set (ld_contracts db')" for c'
    using map_key_set [OF contracts that] sk by (fastforce simp: sound_keys_def list_all_iff contract_key_def)
  moreover have "0 \<le> la_outstanding a' \<and> 0 \<le> la_pending a'" if "a' \<in> set (ld_agreements db')" for a'
    using list_all2_mem2 [OF agreements that] by (auto simp: agreement_kept_def)
  ultimately have sk': "sound_keys db'"
    using sk rec by (simp add: sound_keys_def ids sources codes acodes list_all_iff)
  have bk: "backed db' r'" if r': "r' \<in> set (ld_reservations db')" "rs_status r' = ''HELD''" for r'
  proof -
    obtain r where r: "r \<in> set (ld_reservations db)" "reservation_kept r r'"
      using list_all2_mem2 [OF reservations r'(1)] by blast
    then have "backed db r" using ok r'(2) by (auto simp: within_limits_def reservation_kept_def)
    then obtain d a where d: "d \<in> set (ld_draws db)" "dd_id d = rs_source r" "dd_amount d = rs_amount r"
        "dd_contract d = rs_contract r" "\<not> replaceable d" "0 < rs_amount r"
      and a: "a \<in> set (ld_agreements db)" "la_code a = dd_agreement d" "la_contract a = rs_contract r"
      by (auto simp: backed_def)
    obtain d' where d': "d' \<in> set (ld_draws db')" "draw_kept db' d d'" using list_all2_mem1 [OF draws2 d(1)] by blast
    have "held_for db' (dd_id d)" using r' r(2) d(2) by (auto simp: held_for_def reservation_kept_def)
    then have nr: "\<not> replaceable d'" using d'(2) d(5) by (auto simp: draw_kept_def)
    obtain a' where a': "a' \<in> set (ld_agreements db')" "agreement_kept a a'"
      using list_all2_mem1 [OF agreements a(1)] by blast
    have e: "dd_id d' = rs_source r' \<and> dd_amount d' = rs_amount r' \<and> dd_contract d' = rs_contract r'"
      "dd_agreement d' = dd_agreement d"
      using d d'(2) r(2) by (simp_all add: draw_kept_def draw_key_def reservation_kept_def)
    show ?thesis
    proof (rule backedI [OF _ d'(1) e(1) nr a'(1)])
      show "0 < rs_amount r'" using d(6) r(2) by (simp add: reservation_kept_def)
      show "la_code a' = dd_agreement d'" using a a'(2) e(2) by (simp add: agreement_kept_def)
      show "la_contract a' = rs_contract r'" using a a'(2) r(2) by (simp add: agreement_kept_def reservation_kept_def)
    qed
  qed
  have "used_of db' c \<le> limit_of db' c" for c
    using used [of c] ok contract_key_limit [OF contracts, of c] by (simp add: within_limits_def) (meson order_trans)
  then show ?thesis using sk' bk by (simp add: within_limits_def)
qed

lemma held_pos: "within_limits db \<Longrightarrow> r \<in> set (ld_reservations db) \<Longrightarrow> rs_status r = ''HELD'' \<Longrightarrow> 0 < rs_amount r"
  by (auto simp: within_limits_def backed_def)

lemma held_kept_le:
  assumes "within_limits db" "list_all2 reservation_kept (ld_reservations db) (ld_reservations db')"
  shows "sum_list (contract_held db' c) \<le> sum_list (contract_held db c)"
  unfolding held_sum
  by (rule list_all2_sum_le [OF assms(2)]) (use held_pos [OF assms(1)] in \<open>fastforce simp: reservation_kept_def\<close>)

lemma frame_step_ok:
  assumes "within_limits db" "frame_step db db'"
  shows "within_limits db'"
proof (rule move_ok [OF assms(1)])
  note k = assms(2) [unfolded frame_step_def]
  have ak: "map agreement_key (ld_agreements db') = map agreement_key (ld_agreements db)" using k by simp
  then have len: "length (ld_agreements db') = length (ld_agreements db)" using map_eq_imp_length_eq by blast
  show "list_all2 agreement_kept (ld_agreements db) (ld_agreements db')"
  proof (rule list_all2_all_nthI)
    fix n assume n: "n < length (ld_agreements db)"
    then have "agreement_key (ld_agreements db' ! n) = agreement_key (ld_agreements db ! n)"
      using arg_cong [OF ak, of "\<lambda>xs. xs ! n"] len by simp
    moreover have "0 \<le> la_outstanding (ld_agreements db ! n) \<and> 0 \<le> la_pending (ld_agreements db ! n)"
      using assms(1) n by (auto simp: within_limits_def sound_keys_def list_all_iff)
    ultimately show "agreement_kept (ld_agreements db ! n) (ld_agreements db' ! n)"
      by (auto simp: agreement_kept_def agreement_key_def)
  qed (use len in simp)
  show "used_of db' c \<le> used_of db c" for c
    using held_kept_le [OF assms(1), of db' c] k by (simp add: used_of_def agreement_key_sums [OF ak])
qed (use assms in \<open>simp_all add: frame_step_def within_limits_def sound_keys_def receipts_sound_def\<close>)

lemma frame_refl [simp]: "frame_step db db"
  by (auto simp: frame_step_def draw_kept_def reservation_kept_def list_all2_same)


text \<open>The rows of an UPDATE that keeps the keys.\<close>

lemma draws_kept_upd:
  assumes "\<And>d. draw_key (f d) = draw_key d"
    and "\<And>d. d \<in> set (ld_draws db) \<Longrightarrow> p d \<Longrightarrow> replaceable (f d) \<Longrightarrow> replaceable d \<or> \<not> held_for db' (dd_id d)"
  shows "list_all2 (draw_kept db') (ld_draws db) (upd p f (ld_draws db))"
  using assms by (auto simp: list_all2_upd draw_kept_def)

lemma draws_kept_same: "list_all2 (draw_kept db') xs xs"
  by (simp add: list_all2_same draw_kept_def)

lemma reservations_kept_same: "list_all2 reservation_kept xs xs"
  by (simp add: list_all2_same reservation_kept_def)

lemma reservations_kept_upd:
  assumes "\<And>r. reservation_kept r (f r)"
  shows "list_all2 reservation_kept xs (upd p f xs)"
  using assms by (auto simp: list_all2_upd) (simp add: reservation_kept_def)

lemma contracts_kept_upd:
  "(\<And>c. contract_key (f c) = contract_key c) \<Longrightarrow> map contract_key (upd p f xs) = map contract_key xs"
  by (rule map_upd)

lemma agreements_kept_upd:
  "(\<And>c. agreement_key (f c) = agreement_key c) \<Longrightarrow> map agreement_key (upd p f xs) = map agreement_key xs"
  by (rule map_upd)

lemmas keys = draw_key_def contract_key_def agreement_key_def reservation_kept_def

text \<open>A change of the status of drawdowns, of contracts and a release of reservations in one step.\<close>

lemma frame_rows:
  assumes "ld_contracts db' = upd pc fc (ld_contracts db)" "\<And>c. contract_key (fc c) = contract_key c"
    and "ld_agreements db' = ld_agreements db"
    and "ld_draws db' = upd pd fd (ld_draws db)" "\<And>d. draw_key (fd d) = draw_key d"
    and "\<And>d. d \<in> set (ld_draws db) \<Longrightarrow> pd d \<Longrightarrow> replaceable (fd d) \<Longrightarrow> replaceable d \<or> \<not> held_for db' (dd_id d)"
    and "ld_reservations db' = upd pr fr (ld_reservations db)" "\<And>r. reservation_kept r (fr r)"
    and "ld_next db \<le> ld_next db'" "ld_receipts db' = ld_receipts db"
  shows "frame_step db db'"
  unfolding frame_step_def assms(1,3,4,7,10)
  using draws_kept_upd [of fd db pd db', OF assms(5,6)] reservations_kept_upd [of fr, OF assms(8)] assms(2,9)
  by (simp add: contracts_kept_upd)

lemma upd_False [simp]: "upd (\<lambda>x. False) f xs = xs"
  by (simp add: upd_def)

text \<open>The tables that the limits do not read.\<close>

lemma frame_other:
  assumes "ld_contracts db' = ld_contracts db" "ld_agreements db' = ld_agreements db" "ld_draws db' = ld_draws db"
    and "ld_reservations db' = ld_reservations db" "ld_next db \<le> ld_next db'" "ld_receipts db' = ld_receipts db"
  shows "frame_step db db'"
  unfolding frame_step_def using assms by (simp add: draws_kept_same reservations_kept_same)

lemma enqueue_draw_event_rows [simp]:
  "ld_contracts (enqueue_draw_event db i s c x y) = ld_contracts db"
  "ld_agreements (enqueue_draw_event db i s c x y) = ld_agreements db"
  "ld_draws (enqueue_draw_event db i s c x y) = ld_draws db"
  "ld_reservations (enqueue_draw_event db i s c x y) = ld_reservations db"
  "ld_batches (enqueue_draw_event db i s c x y) = ld_batches db"
  "ld_receipts (enqueue_draw_event db i s c x y) = ld_receipts db"
  "ld_next (enqueue_draw_event db i s c x y) = ld_next db"
  by (simp_all add: enqueue_draw_event_def Let_def)

lemma batch_history_rows [simp]:
  "ld_contracts (batch_history i e f t db) = ld_contracts db"
  "ld_agreements (batch_history i e f t db) = ld_agreements db"
  "ld_draws (batch_history i e f t db) = ld_draws db"
  "ld_reservations (batch_history i e f t db) = ld_reservations db"
  "ld_batches (batch_history i e f t db) = ld_batches db"
  "ld_receipts (batch_history i e f t db) = ld_receipts db"
  "ld_next (batch_history i e f t db) = ld_next db"
  by (simp_all add: batch_history_def)

lemma release_rows [simp]:
  "ld_contracts (release_reservations p db) = ld_contracts db"
  "ld_agreements (release_reservations p db) = ld_agreements db"
  "ld_draws (release_reservations p db) = ld_draws db"
  "ld_batches (release_reservations p db) = ld_batches db"
  "ld_receipts (release_reservations p db) = ld_receipts db"
  "ld_next (release_reservations p db) = ld_next db"
  "ld_reservations (release_reservations p db) = upd (\<lambda>r. p (rs_source r) \<and> rs_status r = ''HELD'')
     (\<lambda>r. r\<lparr>rs_status := ''RELEASED''\<rparr>) (ld_reservations db)"
  by (simp_all add: release_reservations_def)

lemma enqueue_row_events_rows [simp]:
  "ld_contracts (enqueue_row_events s ds db) = ld_contracts db"
  "ld_agreements (enqueue_row_events s ds db) = ld_agreements db"
  "ld_draws (enqueue_row_events s ds db) = ld_draws db"
  "ld_reservations (enqueue_row_events s ds db) = ld_reservations db"
  "ld_batches (enqueue_row_events s ds db) = ld_batches db"
  "ld_receipts (enqueue_row_events s ds db) = ld_receipts db"
  "ld_next (enqueue_row_events s ds db) = ld_next db"
  unfolding enqueue_row_events_def by (induction ds arbitrary: db) simp_all

lemma released_kept: "reservation_kept r (r\<lparr>rs_status := ''RELEASED''\<rparr>)"
  "reservation_kept r (r\<lparr>rs_status := ''CONSUMED''\<rparr>)"
  by (simp_all add: reservation_kept_def)

section \<open>Single drawdowns\<close>

lemma set_draw_row_status_frame:
  assumes "set_draw_row_status db i a b actor expected = Inr db'" "b \<noteq> ''DRAFT''"
  shows "frame_step db db'"
proof (rule frame_rows [where pc = "\<lambda>c. False" and pr = "\<lambda>r. False" and fr = "\<lambda>r. r" and fc = "\<lambda>c. c"
      and pd = "draw_guard i a expected"
      and fd = "\<lambda>d. d\<lparr>dd_status := b, dd_updated_by := actor, dd_version := dd_version d + 1\<rparr>"])
qed (use assms in \<open>auto simp: set_draw_row_status_def keys replaceable_def split: if_splits\<close>)

lemma release_frame: "frame_step db (release_reservations p db)"
  by (rule frame_rows [where pc = "\<lambda>c. False" and fc = "\<lambda>c. c" and pd = "\<lambda>d. False" and fd = "\<lambda>d. d"])
     (auto simp: released_kept)

lemma frame_ok_other: "within_limits db \<Longrightarrow> ld_contracts db' = ld_contracts db \<Longrightarrow> ld_agreements db' = ld_agreements db \<Longrightarrow>
    ld_draws db' = ld_draws db \<Longrightarrow> ld_reservations db' = ld_reservations db \<Longrightarrow> ld_next db \<le> ld_next db' \<Longrightarrow>
    ld_receipts db' = ld_receipts db \<Longrightarrow> within_limits db'"
  by (rule frame_step_ok [OF _ frame_other])

lemma set_draw_status_ok:
  assumes "within_limits db" "b \<noteq> ''DRAFT''"
  shows "within_limits (fst (set_draw_status db i a b actor reason expected))"
proof (cases "bind_r (transition_ok workflow_machine a b reason) (\<lambda>_. set_draw_row_status db i a b actor expected)")
  case (Inl e)
  then have "fst (set_draw_status db i a b actor reason expected) = db"
    unfolding set_draw_status_def
    by (cases "transition_ok workflow_machine a b reason") (auto split: sum.splits)
  then show ?thesis using assms by simp
next
  case (Inr db1)
  then obtain u where t: "transition_ok workflow_machine a b reason = Inr u"
    and s: "set_draw_row_status db i a b actor expected = Inr db1" by (auto simp: bind_r_eq_Inr)
  have one: "within_limits db1" using frame_step_ok [OF assms(1) set_draw_row_status_frame [OF s assms(2)]] .
  then have two: "within_limits (release_reservations (\<lambda>s. s = i) db1)" by (rule frame_step_ok [OF _ release_frame])
  have "within_limits (enqueue_draw_event d j st c x y)" if "within_limits d" for d j st c x y
    by (rule frame_ok_other [OF that]) simp_all
  then show ?thesis unfolding set_draw_status_def t using s one two assms(1)
    by (simp add: Let_def split: option.split)
qed

lemma set_draw_case_ok:
  assumes "within_limits db"
  shows "within_limits (fst (set_draw_case_and_journal db i case_id case_code journal))"
proof -
  have "frame_step db (db\<lparr>ld_draws := upd (\<lambda>d. dd_id d = i)
      (\<lambda>d. d\<lparr>dd_case := null_if_empty case_id, dd_case_code := null_if_empty case_code,
             dd_journal := null_if_empty journal, dd_version := dd_version d + 1\<rparr>) (ld_draws db)\<rparr>)"
    by (rule frame_rows [where pc = "\<lambda>c. False" and pr = "\<lambda>r. False" and fr = "\<lambda>r. r" and fc = "\<lambda>c. c"
        and pd = "\<lambda>d. dd_id d = i"
        and fd = "\<lambda>d. d\<lparr>dd_case := null_if_empty case_id, dd_case_code := null_if_empty case_code,
             dd_journal := null_if_empty journal, dd_version := dd_version d + 1\<rparr>"])
       (auto simp: keys replaceable_def)
  then show ?thesis using frame_step_ok [OF assms] assms by (auto simp: set_draw_case_and_journal_def)
qed


section \<open>Moving amounts\<close>

lemma sum_upd_one:
  fixes g :: "'a \<Rightarrow> int"
  assumes "distinct xs" "x \<in> set xs" "\<And>y. y \<in> set xs \<Longrightarrow> p y \<longleftrightarrow> y = x"
  shows "sum_list (map g (upd p f xs)) = sum_list (map g xs) - g x + g (f x)"
  using assms
proof (induction xs)
  case (Cons y ys)
  show ?case
  proof (cases "y = x")
    case True
    then have "upd p f ys = ys" using Cons.prems by (intro upd_none) auto
    then show ?thesis using True Cons.prems by (simp add: upd_def)
  next
    case False
    then have "\<not> p y" "x \<in> set ys" using Cons.prems by auto
    then show ?thesis using Cons.IH Cons.prems by (simp add: upd_def)
  qed
qed simp

lemma distinct_key: "distinct (map k xs) \<Longrightarrow> x \<in> set xs \<Longrightarrow> y \<in> set xs \<Longrightarrow> k x = k y \<longleftrightarrow> x = y"
  by (auto simp: distinct_map inj_on_def)

lemma outstanding_sum: "sum_list (contract_outstanding db c) =
    sum_list (map (\<lambda>a. if la_contract a = c then la_outstanding a else 0) (ld_agreements db))"
  unfolding contract_outstanding_def by (rule sum_by_key)

lemma pending_sum: "sum_list (contract_pending db c) =
    sum_list (map (\<lambda>a. if la_contract a = c then la_pending a else 0) (ld_agreements db))"
  unfolding contract_pending_def by (rule sum_by_key)

lemma agreement_unique:
  assumes "within_limits db" "a \<in> set (ld_agreements db)" "b \<in> set (ld_agreements db)"
  shows "la_code a = la_code b \<longleftrightarrow> a = b" "distinct (ld_agreements db)"
  using assms distinct_key [of la_code "ld_agreements db"] by (auto simp: within_limits_def sound_keys_def distinct_map)

lemma agreements_upd_used:
  assumes "within_limits db" "a \<in> set (ld_agreements db)"
    and "ld_agreements db' = upd p f (ld_agreements db)" "\<And>b. b \<in> set (ld_agreements db) \<Longrightarrow> p b \<longleftrightarrow> b = a"
    and "la_contract (f a) = la_contract a"
  shows "sum_list (contract_outstanding db' c) + sum_list (contract_pending db' c) =
    sum_list (contract_outstanding db c) + sum_list (contract_pending db c) +
    (if la_contract a = c then la_outstanding (f a) + la_pending (f a) - (la_outstanding a + la_pending a) else 0)"
proof -
  note d = agreement_unique(2) [OF assms(1,2,2)]
  show ?thesis unfolding outstanding_sum pending_sum assms(3)
    by (simp only: sum_upd_one [OF d assms(2,4)]) (simp add: assms(5))
qed

lemma consumed_held:
  assumes "within_limits db" "r \<in> set (ld_reservations db)" "rs_status r = ''HELD''"
    and "ld_reservations db' = upd (\<lambda>x. rs_source x = rs_source r \<and> rs_status x = ''HELD'')
      (\<lambda>x. x\<lparr>rs_status := ''CONSUMED''\<rparr>) (ld_reservations db)"
  shows "sum_list (contract_held db' c) = sum_list (contract_held db c) - (if rs_contract r = c then rs_amount r else 0)"
proof -
  have d: "distinct (map rs_source (ld_reservations db))" using assms(1) by (simp add: within_limits_def sound_keys_def)
  have "rs_source x = rs_source r \<and> rs_status x = ''HELD'' \<longleftrightarrow> x = r" if "x \<in> set (ld_reservations db)" for x
    using distinct_key [OF d that assms(2)] assms(3) by auto
  then show ?thesis unfolding held_sum assms(4)
    using sum_upd_one [OF _ assms(2), of "\<lambda>x. rs_source x = rs_source r \<and> rs_status x = ''HELD''"] d assms(3)
    by (simp add: distinct_map)
qed

text \<open>The agreement and the amount behind a held reservation of a drawdown.\<close>

lemma backing:
  assumes "within_limits db" "r \<in> set (ld_reservations db)" "rs_status r = ''HELD''"
    and "d \<in> set (ld_draws db)" "dd_id d = rs_source r"
  obtains a where "a \<in> set (ld_agreements db)" "la_code a = dd_agreement d" "la_contract a = rs_contract r"
    "dd_amount d = rs_amount r" "0 < rs_amount r" "dd_contract d = rs_contract r"
proof -
  obtain d' a where w: "d' \<in> set (ld_draws db)" "dd_id d' = rs_source r" "dd_amount d' = rs_amount r"
      "dd_contract d' = rs_contract r"
      "a \<in> set (ld_agreements db)" "la_code a = dd_agreement d'" "la_contract a = rs_contract r" "0 < rs_amount r"
    using assms(1-3) by (auto simp: within_limits_def backed_def)
  have "d' = d" using distinct_key [of dd_id "ld_draws db" d' d] w(1,2) assms by (simp add: within_limits_def sound_keys_def)
  then show thesis using that w by blast
qed

lemma register_move:
  assumes ok: "within_limits db" and d: "d \<in> set (ld_draws db)" and agr: "agreement = dd_agreement d"
    and amt: "amount = dd_amount d"
    and r: "r \<in> set (ld_reservations db)" "rs_status r = ''HELD''" "rs_source r = dd_id d"
    and db': "map contract_key (ld_contracts db') = map contract_key (ld_contracts db)"
      "ld_agreements db' = upd (\<lambda>a. la_code a = agreement) (\<lambda>a. a\<lparr>la_pending := la_pending a + amount\<rparr>) (ld_agreements db)"
      "ld_draws db' = ld_draws db" "ld_next db' = ld_next db" "ld_receipts db' = ld_receipts db"
      "ld_reservations db' = upd (\<lambda>x. rs_source x = rs_source r \<and> rs_status x = ''HELD'')
         (\<lambda>x. x\<lparr>rs_status := ''CONSUMED''\<rparr>) (ld_reservations db)"
  shows "within_limits db'"
proof -
  obtain a where a: "a \<in> set (ld_agreements db)" "la_code a = dd_agreement d" "la_contract a = rs_contract r"
      "dd_amount d = rs_amount r" "0 < rs_amount r"
    using backing [OF ok r(1,2) d] r(3) by metis
  have one: "la_code b = agreement \<longleftrightarrow> b = a" if "b \<in> set (ld_agreements db)" for b
    using agreement_unique(1) [OF ok that a(1)] agr a(2) by simp
  have kept: "list_all2 reservation_kept (ld_reservations db) (ld_reservations db')"
    unfolding db'(6) by (rule reservations_kept_upd) (simp add: released_kept)
  have nn: "\<forall>b\<in>set (ld_agreements db). 0 \<le> la_outstanding b \<and> 0 \<le> la_pending b"
    using ok by (auto simp: within_limits_def sound_keys_def list_all_iff)
  have agk: "list_all2 agreement_kept (ld_agreements db) (ld_agreements db')"
    unfolding db'(2) list_all2_upd using nn a(4,5) amt by (auto simp: agreement_kept_def)
  have "used_of db' c = used_of db c" for c
    using agreements_upd_used [OF ok a(1) db'(2) one, of c] consumed_held [OF ok r(1,2) db'(6), of c] a(3,4) amt
    by (simp add: used_of_def)
  moreover have rec: "receipts_sound db'" using limits_sound [OF ok] db'(5) by (simp add: sound_keys_def receipts_sound_def)
  ultimately show ?thesis
    using move_ok [OF ok db'(1) agk _ kept] db'(3,4) draws_kept_same [of db' "ld_draws db"] by simp
qed

lemma complete_move:
  assumes ok: "within_limits db" and amt: "0 \<le> amount"
    and ex: "a \<in> set (ld_agreements db)" "la_code a = agreement" "amount \<le> la_pending a"
    and db': "map contract_key (ld_contracts db') = map contract_key (ld_contracts db)"
      "ld_agreements db' = upd (\<lambda>a. la_code a = agreement \<and> amount \<le> la_pending a)
         (\<lambda>a. a\<lparr>la_outstanding := la_outstanding a + amount, la_pending := la_pending a - amount\<rparr>) (ld_agreements db)"
      "ld_draws db' = ld_draws db" "ld_next db' = ld_next db" "ld_receipts db' = ld_receipts db"
      "ld_reservations db' = ld_reservations db"
  shows "within_limits db'"
proof -
  have one: "(la_code b = agreement \<and> amount \<le> la_pending b) \<longleftrightarrow> b = a" if "b \<in> set (ld_agreements db)" for b
    using agreement_unique(1) [OF ok that ex(1)] ex by auto
  have nn: "\<forall>b\<in>set (ld_agreements db). 0 \<le> la_outstanding b \<and> 0 \<le> la_pending b"
    using ok by (auto simp: within_limits_def sound_keys_def list_all_iff)
  have agk: "list_all2 agreement_kept (ld_agreements db) (ld_agreements db')"
    unfolding db'(2) list_all2_upd using nn amt by (auto simp: agreement_kept_def)
  have "contract_held db' c = contract_held db c" for c by (simp add: contract_held_def db'(6))
  then have "used_of db' c = used_of db c" for c
    using agreements_upd_used [OF ok ex(1) db'(2) one, of c] by (simp add: used_of_def)
  moreover have rec: "receipts_sound db'" using limits_sound [OF ok] db'(5) by (simp add: sound_keys_def receipts_sound_def)
  ultimately show ?thesis
    using move_ok [OF ok db'(1) agk] db'(3,4,6) draws_kept_same [of db' "ld_draws db"]
      reservations_kept_same [of "ld_reservations db"] by simp
qed

lemma shrink_move:
  assumes ok: "within_limits db" and ex: "a \<in> set (ld_agreements db)" "la_code a = agreement"
    and f: "agreement_kept a (f a)" "la_outstanding (f a) \<le> la_outstanding a" "la_pending (f a) = la_pending a"
    and db': "ld_contracts db' = ld_contracts db" "ld_agreements db' = upd (\<lambda>a. la_code a = agreement) f (ld_agreements db)"
      "ld_draws db' = ld_draws db" "ld_next db' = ld_next db" "ld_receipts db' = ld_receipts db"
      "ld_reservations db' = ld_reservations db"
  shows "within_limits db'"
proof -
  have one: "la_code b = agreement \<longleftrightarrow> b = a" if "b \<in> set (ld_agreements db)" for b
    using agreement_unique(1) [OF ok that ex(1)] ex by auto
  have "agreement_kept b b" if "b \<in> set (ld_agreements db)" for b
    using ok that by (auto simp: within_limits_def sound_keys_def list_all_iff agreement_kept_def)
  then have agk: "list_all2 agreement_kept (ld_agreements db) (ld_agreements db')"
    unfolding db'(2) list_all2_upd using one f(1) by simp
  have "contract_held db' c = contract_held db c" for c by (simp add: contract_held_def db'(6))
  moreover have "la_contract (f a) = la_contract a" using f(1) by (simp add: agreement_kept_def)
  ultimately have "used_of db' c \<le> used_of db c" for c
    using agreements_upd_used [OF ok ex(1) db'(2) one, of c] f(2,3) by (simp add: used_of_def)
  moreover have rec: "receipts_sound db'" using limits_sound [OF ok] db'(5) by (simp add: sound_keys_def receipts_sound_def)
  ultimately show ?thesis
    using move_ok [OF ok _ agk] db'(1,3,4,6) draws_kept_same [of db' "ld_draws db"]
      reservations_kept_same [of "ld_reservations db"] by simp
qed

lemma collect_move:
  assumes ok: "within_limits db" and amt: "0 \<le> p"
    and ex: "a \<in> set (ld_agreements db)" "la_code a = agreement"
    and db': "ld_contracts db' = ld_contracts db" "ld_agreements db' = upd (\<lambda>a. la_code a = agreement) (apply_receipt p q) (ld_agreements db)"
      "ld_draws db' = ld_draws db" "ld_next db' = ld_next db" "ld_receipts db' = ld_receipts db"
      "ld_reservations db' = ld_reservations db"
  shows "within_limits db'"
proof (rule shrink_move [OF ok ex _ _ _ db'])
  have "0 \<le> la_outstanding a" "0 \<le> la_pending a"
    using ok ex(1) by (auto simp: within_limits_def sound_keys_def list_all_iff)
  then show "agreement_kept a (apply_receipt p q a)" "la_outstanding (apply_receipt p q a) \<le> la_outstanding a"
    "la_pending (apply_receipt p q a) = la_pending a"
    using amt by (simp_all add: agreement_kept_def apply_receipt_def)
qed

end
