(* ===== verification/Loan_Calls.thy ===== *)
theory Loan_Calls
  imports Loan_Exposure
begin

text \<open>
  Every call of the loan service keeps the contracts within their limits; the calls are values, and a
  run of the service is a list of them.
\<close>

section \<open>Rows that come and go\<close>

lemma draws_only:
  assumes ok: "within_limits db"
    and same: "ld_contracts db' = ld_contracts db" "ld_agreements db' = ld_agreements db"
      "ld_reservations db' = ld_reservations db" "ld_next db \<le> ld_next db'" "ld_receipts db' = ld_receipts db"
    and ids: "distinct (map dd_id (ld_draws db'))"
    and rows: "\<forall>d\<in>set (ld_draws db'). dd_id d < ld_next db' \<and> 0 \<le> dd_amount d"
    and keep: "\<forall>d\<in>set (ld_draws db). \<not> replaceable d \<longrightarrow> d \<in> set (ld_draws db')"
  shows "within_limits db'"
proof -
  have "sound_keys db'" using ok ids rows same(4)
    by (auto simp: within_limits_def sound_keys_def same(1-3) list_all_iff receipts_sound_def same(5))
  moreover have "backed db' r" if "backed db r" for r
    using that keep by (auto simp: backed_def same(2))
  moreover have "used_of db' c = used_of db c" "limit_of db' c = limit_of db c" for c
    by (simp_all add: used_of_def limit_of_def contract_outstanding_def contract_pending_def contract_held_def
        contract_by_code_def same)
  ultimately show ?thesis using ok by (simp add: within_limits_def same(3))
qed

lemma insert_draw_shape:
  assumes ins: "insert_draw pgd db d = Inr (db1, i)"
  shows "\<exists>date. i = ld_next db \<and> 0 \<le> dd_amount d \<and> db1 = db\<lparr>ld_draws := ld_draws db @
      [d\<lparr>dd_id := ld_next db, dd_date := date, dd_status := ''DRAFT'', dd_version := 1\<rparr>], ld_next := ld_next db + 1\<rparr>"
proof -
  obtain date where p: "pgd (dd_date d) = Some date"
    using ins unfolding insert_draw_def by (cases "pgd (dd_date d)") simp_all
  have c: "\<not> dd_amount d < 0" "\<not> (dd_source d \<noteq> None \<and> draw_by_id db (the (dd_source d)) = None)"
    using ins unfolding insert_draw_def p by (simp_all split: if_split_asm)
  have eq: "(db\<lparr>ld_draws := ld_draws db @
      [d\<lparr>dd_id := ld_next db, dd_date := date, dd_status := ''DRAFT'', dd_version := 1\<rparr>], ld_next := ld_next db + 1\<rparr>,
      ld_next db) = (db1, i)"
    using ins by (simp only: insert_draw_def p option.case if_not_P [OF c(1)] if_not_P [OF c(2)] sum.inject)
  show ?thesis
    using arg_cong [OF eq, of fst] arg_cong [OF eq, of snd] c(1) unfolding fst_conv snd_conv
    by (intro exI [of _ date]) simp
qed

lemma insert_draw_ok:
  assumes ok: "within_limits db" and ins: "insert_draw pgd db d = Inr (db1, i)"
  shows "within_limits db1" "i = ld_next db" "ld_contracts db1 = ld_contracts db" "ld_agreements db1 = ld_agreements db"
    "ld_reservations db1 = ld_reservations db" "ld_next db1 = ld_next db + 1" "ld_batches db1 = ld_batches db"
    "\<exists>date. ld_draws db1 = ld_draws db @ [d\<lparr>dd_id := i, dd_date := date, dd_status := ''DRAFT'', dd_version := 1\<rparr>]"
    "ld_receipts db1 = ld_receipts db"
proof -
  obtain date where i: "i = ld_next db" and nn: "0 \<le> dd_amount d" and db1: "db1 = db\<lparr>ld_draws := ld_draws db @
      [d\<lparr>dd_id := ld_next db, dd_date := date, dd_status := ''DRAFT'', dd_version := 1\<rparr>], ld_next := ld_next db + 1\<rparr>"
    using insert_draw_shape [OF ins] by blast
  show "i = ld_next db" by (rule i)
  show "ld_contracts db1 = ld_contracts db" "ld_agreements db1 = ld_agreements db"
    "ld_reservations db1 = ld_reservations db" "ld_next db1 = ld_next db + 1" "ld_batches db1 = ld_batches db"
    "ld_receipts db1 = ld_receipts db" by (simp_all add: db1)
  have lt: "\<forall>x\<in>set (ld_draws db). dd_id x < ld_next db \<and> 0 \<le> dd_amount x" "distinct (map dd_id (ld_draws db))"
    using limits_sound [OF ok] by (simp_all add: sound_keys_def list_all_iff)
  have new: "ld_next db \<notin> dd_id ` set (ld_draws db)" using lt(1) by auto
  show "within_limits db1"
  proof (rule draws_only [OF ok])
    show "distinct (map dd_id (ld_draws db1))" using lt(2) new by (simp add: db1)
    show "\<forall>x\<in>set (ld_draws db1). dd_id x < ld_next db1 \<and> 0 \<le> dd_amount x"
      using lt(1) nn by (simp add: db1 less_Suc_eq)
  qed (simp_all add: db1)
  show "\<exists>date. ld_draws db1 = ld_draws db @ [d\<lparr>dd_id := i, dd_date := date, dd_status := ''DRAFT'', dd_version := 1\<rparr>]"
    by (simp add: db1 i) blast
qed

lemma insert_draws_ok:
  "within_limits db \<Longrightarrow> insert_draws pgd db ds = Inr db1 \<Longrightarrow> within_limits db1 \<and> ld_batches db1 = ld_batches db \<and>
    ld_receipts db1 = ld_receipts db"
proof (induction ds arbitrary: db)
  case (Cons d ds)
  then obtain db2 i where i: "insert_draw pgd db d = Inr (db2, i)" and r: "insert_draws pgd db2 ds = Inr db1"
    by (auto simp: bind_r_eq_Inr)
  show ?case using Cons.IH [OF insert_draw_ok(1) [OF Cons.prems(1) i] r] insert_draw_ok(7,9) [OF Cons.prems(1) i] by simp
qed simp

section \<open>Reserving\<close>

lemma sum_list_nonneg2: "(\<And>x. x \<in> set xs \<Longrightarrow> (0::int) \<le> x) \<Longrightarrow> 0 \<le> sum_list xs"
  by (induction xs) auto

lemma exposure_exact:
  assumes ok: "within_limits db" and e: "load_contract_exposure db c = Inr e"
  shows "headroom_minor e = limit_of db c - used_of db c" "contract_by_code db c \<noteq> None"
proof -
  obtain x where x: "contract_by_code db c = Some x" "ce_loan e = lc_amount x"
      "ce_outstanding e = sum_list (contract_outstanding db c)" "ce_pending e = sum_list (contract_pending db c)"
      "ce_reserved e = sum_list (contract_held db c)"
    using e by (auto simp: load_contract_exposure_def bind_r_eq_Inr scan_sum_def split: option.splits if_splits)
  have nn: "\<forall>a\<in>set (ld_agreements db). 0 \<le> la_outstanding a \<and> 0 \<le> la_pending a"
    using ok by (auto simp: within_limits_def sound_keys_def list_all_iff)
  have o: "0 \<le> sum_list (contract_outstanding db c)" "0 \<le> sum_list (contract_pending db c)"
    by (rule sum_list_nonneg2, use nn in \<open>auto simp: contract_outstanding_def contract_pending_def\<close>)+
  have h: "0 \<le> sum_list (contract_held db c)"
    by (rule sum_list_nonneg2) (use held_pos [OF ok] in \<open>force simp: contract_held_def\<close>)
  have "x \<in> set (ld_contracts db)" using x(1) unfolding contract_by_code_def by (blast dest: find_Some_in)
  then have b: "in64 (lc_amount x)" using ok by (auto simp: within_limits_def sound_keys_def list_all_iff)
  have "used_of db c \<le> limit_of db c" using ok by (simp add: within_limits_def)
  then have u: "used_of db c \<le> lc_amount x" by (simp add: limit_of_def x(1))
  have r1: "in64 (ce_outstanding e + ce_pending e)" "in64 (ce_outstanding e + ce_pending e + ce_reserved e)"
    "in64 (lc_amount x - (ce_outstanding e + ce_pending e + ce_reserved e))"
    using o h u b by (auto simp: x(3-5) used_of_def in64_def)
  show "headroom_minor e = limit_of db c - used_of db c"
    using r1 by (simp add: headroom_minor_def used_minor_def add64_eq sub64_eq x(1,2) limit_of_def)
       (simp add: used_of_def x(3-5))
  show "contract_by_code db c \<noteq> None" using x(1) by simp
qed

lemma reserve_ok:
  assumes ok: "within_limits db" and res: "reserve_contract_amount db c i amount = Inr db'"
    and d: "d \<in> set (ld_draws db)" "dd_id d = i" "dd_amount d = amount" "dd_contract d = c" "\<not> replaceable d"
    and a: "a \<in> set (ld_agreements db)" "la_code a = dd_agreement d" "la_contract a = c"
  shows "within_limits db'"
proof -
  obtain e where e: "load_contract_exposure db c = Inr e" "allows e amount"
      and fresh: "\<not> (\<exists>r\<in>set (ld_reservations db). rs_source r = i)"
      and db': "db' = db\<lparr>ld_reservations := ld_reservations db @
          [\<lparr>rs_contract = c, rs_source = i, rs_amount = amount, rs_status = ''HELD''\<rparr>]\<rparr>"
    using res by (auto simp: reserve_contract_amount_def bind_r_eq_Inr split: option.splits if_splits)
  have fit: "0 < amount" "used_of db c + amount \<le> limit_of db c"
    using e exposure_exact(1) [OF ok e(1)] by (auto simp: allows_def)
  have lt: "i < ld_next db" using ok d by (auto simp: within_limits_def sound_keys_def list_all_iff)
  have sk: "sound_keys db'" using ok fresh lt by (auto simp: within_limits_def sound_keys_def receipts_sound_def db')
  have "backed db' r" if "backed db r" for r using that by (simp add: backed_def db')
  moreover have "backed db' \<lparr>rs_contract = c, rs_source = i, rs_amount = amount, rs_status = ''HELD''\<rparr>"
    using d fit(1) by (intro backedI [of _ d _ a]) (use a in \<open>simp_all add: db'\<close>)
  moreover have "used_of db' x \<le> limit_of db' x" for x
  proof -
    have "used_of db' x = used_of db x + (if c = x then amount else 0)" "limit_of db' x = limit_of db x"
      by (simp_all add: used_of_def db' contract_outstanding_def contract_pending_def contract_held_def
          limit_of_def contract_by_code_def)
    then show ?thesis using fit(2) ok by (auto simp: within_limits_def)
  qed
  ultimately show ?thesis using sk ok by (auto simp: within_limits_def db')
qed

text \<open>The reservations of a batch, one row after the other.\<close>

definition held_in :: "reservation list \<Rightarrow> string \<Rightarrow> int" where
  "held_in rs c = sum_list (map (\<lambda>r. if rs_contract r = c \<and> rs_status r = ''HELD'' then rs_amount r else 0) rs)"

definition hold_of :: "drawdown \<Rightarrow> reservation" where
  "hold_of d = \<lparr>rs_contract = dd_contract d, rs_source = dd_id d, rs_amount = dd_amount d, rs_status = ''HELD''\<rparr>"

lemma held_in_nonneg_upd:
  assumes "\<And>r. r \<in> set rs \<Longrightarrow> rs_status r = ''HELD'' \<Longrightarrow> 0 < rs_amount r" "distinct (map rs_source rs)"
    and "\<exists>r\<in>set rs. rs_source r = dd_id d" "0 < dd_amount d"
  shows "held_in (upd (\<lambda>r. rs_source r = dd_id d)
      (\<lambda>r. r\<lparr>rs_contract := dd_contract d, rs_amount := dd_amount d, rs_status := ''HELD''\<rparr>) rs) c
    \<le> held_in rs c + (if dd_contract d = c then dd_amount d else 0)"
proof -
  obtain r where r: "r \<in> set rs" "rs_source r = dd_id d" using assms(3) by blast
  have one: "rs_source x = dd_id d \<longleftrightarrow> x = r" if "x \<in> set rs" for x
    using distinct_key [OF assms(2) that r(1)] r(2) by simp
  show ?thesis unfolding held_in_def
    using sum_upd_one [OF _ r(1), of "\<lambda>r. rs_source r = dd_id d"] one assms(1) [OF r(1)] assms(2,4)
    by (auto simp: distinct_map)
qed

lemma hold_row_facts:
  assumes "\<And>r. r \<in> set rs \<Longrightarrow> rs_status r = ''HELD'' \<Longrightarrow> 0 < rs_amount r" "distinct (map rs_source rs)" "0 < dd_amount d"
  shows "distinct (map rs_source (hold_row d rs))"
    "r \<in> set (hold_row d rs) \<Longrightarrow> rs_status r = ''HELD'' \<Longrightarrow> r \<in> set rs \<or> r = hold_of d"
    "r \<in> set (hold_row d rs) \<Longrightarrow> rs_status r = ''HELD'' \<Longrightarrow> 0 < rs_amount r"
    "r \<in> set (hold_row d rs) \<Longrightarrow> rs_source r = dd_id d \<or> rs_source r \<in> rs_source ` set rs"
    "held_in (hold_row d rs) c \<le> held_in rs c + (if dd_contract d = c then dd_amount d else 0)"
proof -
  show 1: "distinct (map rs_source (hold_row d rs))"
    using assms(2) by (auto simp: hold_row_def map_upd)
  show 2: "r \<in> set rs \<or> r = hold_of d" if "r \<in> set (hold_row d rs)" "rs_status r = ''HELD''" for r
    using that by (auto simp: hold_row_def hold_of_def set_upd split: if_splits)
  show "0 < rs_amount r" if "r \<in> set (hold_row d rs)" "rs_status r = ''HELD''" for r
    using 2 [OF that] assms(1,3) that(2) by (auto simp: hold_of_def)
  show "rs_source r = dd_id d \<or> rs_source r \<in> rs_source ` set rs" if "r \<in> set (hold_row d rs)" for r
    using that by (auto simp: hold_row_def set_upd split: if_splits)
  show "held_in (hold_row d rs) c \<le> held_in rs c + (if dd_contract d = c then dd_amount d else 0)"
    using held_in_nonneg_upd [OF assms(1,2) _ assms(3), of c] by (auto simp: hold_row_def) (auto simp: held_in_def)
qed

lemma hold_rows_facts:
  assumes "\<And>r. r \<in> set rs \<Longrightarrow> rs_status r = ''HELD'' \<Longrightarrow> 0 < rs_amount r" "distinct (map rs_source rs)"
    and "\<And>d. d \<in> set ds \<Longrightarrow> 0 < dd_amount d"
  shows "distinct (map rs_source (foldl (\<lambda>rs d. hold_row d rs) rs ds)) \<and>
    (\<forall>r\<in>set (foldl (\<lambda>rs d. hold_row d rs) rs ds). (rs_status r = ''HELD'' \<longrightarrow> r \<in> set rs \<or> r \<in> hold_of ` set ds) \<and>
       (rs_source r \<in> rs_source ` set rs \<or> rs_source r \<in> dd_id ` set ds)) \<and>
    held_in (foldl (\<lambda>rs d. hold_row d rs) rs ds) c \<le>
      held_in rs c + sum_list [dd_amount d. d \<leftarrow> ds, dd_contract d = c]"
  using assms
proof (induction ds arbitrary: rs)
  case (Cons d ds)
  have pos: "0 < dd_amount d" using Cons.prems(3) by simp
  note f = hold_row_facts [OF Cons.prems(1,2) pos]
  have ih: "distinct (map rs_source (foldl (\<lambda>rs d. hold_row d rs) (hold_row d rs) ds)) \<and>
    (\<forall>r\<in>set (foldl (\<lambda>rs d. hold_row d rs) (hold_row d rs) ds).
       (rs_status r = ''HELD'' \<longrightarrow> r \<in> set (hold_row d rs) \<or> r \<in> hold_of ` set ds) \<and>
       (rs_source r \<in> rs_source ` set (hold_row d rs) \<or> rs_source r \<in> dd_id ` set ds)) \<and>
    held_in (foldl (\<lambda>rs d. hold_row d rs) (hold_row d rs) ds) c \<le>
      held_in (hold_row d rs) c + sum_list [dd_amount d. d \<leftarrow> ds, dd_contract d = c]"
    by (rule Cons.IH) (use f(1,3) Cons.prems(3) in auto)
  have "(rs_status r = ''HELD'' \<longrightarrow> r \<in> set rs \<or> r \<in> hold_of ` set (d # ds)) \<and>
      (rs_source r \<in> rs_source ` set rs \<or> rs_source r \<in> dd_id ` set (d # ds))"
    if "r \<in> set (foldl (\<lambda>rs d. hold_row d rs) (hold_row d rs) ds)" for r
    using ih that f(2,4) by fastforce
  moreover have "held_in (foldl (\<lambda>rs d. hold_row d rs) (hold_row d rs) ds) c \<le>
      held_in (hold_row d rs) c + sum_list [dd_amount d. d \<leftarrow> ds, dd_contract d = c]" using ih by blast
  then have "held_in (foldl (\<lambda>rs d. hold_row d rs) (hold_row d rs) ds) c \<le>
      held_in rs c + sum_list [dd_amount d. d \<leftarrow> (d # ds), dd_contract d = c]"
    using f(5) [of c] by (cases "dd_contract d = c") simp_all
  ultimately show ?case using ih by simp
qed simp

section \<open>Calls on single drawdowns\<close>

lemma agreement_row: "agreement_by_code db code = Some a \<Longrightarrow> a \<in> set (ld_agreements db) \<and> la_code a = code"
  unfolding agreement_by_code_def by (drule find_Some_in)

lemma draw_by_id_row: "draw_by_id db i = Some d \<Longrightarrow> d \<in> set (ld_draws db) \<and> dd_id d = i"
  unfolding draw_by_id_def by (drule find_Some_in)

lemma contract_row: "contract_by_code db code = Some c \<Longrightarrow> c \<in> set (ld_contracts db) \<and> lc_code c = code"
  unfolding contract_by_code_def by (drule find_Some_in)

lemma get_draw_row: "get_draw db i = Inr d \<Longrightarrow> d \<in> set (ld_draws db) \<and> dd_id d = i"
  by (auto simp: get_draw_def split: option.splits dest: draw_by_id_row)

lemma create_with_reservation_ok:
  assumes ok: "within_limits db" and a: "agreement_by_code db (dd_agreement d) = Some a"
    and c: "la_contract a = trim_space (dd_contract d)" and b: "dd_batch d = None"
  shows "within_limits (fst (create_draw_with_reservation pgd db d))"
proof (cases "bind_r (insert_draw pgd db d) (\<lambda>(db1, i).
    bind_r (reserve_contract_amount db1 (dd_contract d) i (dd_amount d)) (\<lambda>db2. Inr (db2, i)))")
  case (Inl e)
  then show ?thesis using ok by (simp add: create_draw_with_reservation_def)
next
  case (Inr x)
  then obtain db1 i db2 where i: "insert_draw pgd db d = Inr (db1, i)"
    and r: "reserve_contract_amount db1 (dd_contract d) i (dd_amount d) = Inr db2" and x: "x = (db2, i)"
    by (auto simp: bind_r_eq_Inr)
  note f = insert_draw_ok [OF ok i]
  obtain date where dr: "ld_draws db1 = ld_draws db @
      [d\<lparr>dd_id := i, dd_date := date, dd_status := ''DRAFT'', dd_version := 1\<rparr>]" using f(8) by blast
  obtain cr where cr: "contract_by_code db1 (dd_contract d) = Some cr"
    using r by (cases "contract_by_code db1 (dd_contract d)") (auto simp: reserve_contract_amount_def)
  have "trim_space (lc_code cr) = lc_code cr"
    using limits_sound [OF f(1)] contract_row [OF cr] by (auto simp: sound_keys_def list_all_iff)
  then have trimmed: "trim_space (dd_contract d) = dd_contract d" using contract_row [OF cr] by simp
  have "within_limits db2"
  proof (rule reserve_ok [OF f(1) r])
    show "d\<lparr>dd_id := i, dd_date := date, dd_status := ''DRAFT'', dd_version := 1\<rparr> \<in> set (ld_draws db1)"
      by (simp add: dr)
    show "a \<in> set (ld_agreements db1)" using agreement_row [OF a] by (simp add: f(4))
    show "la_contract a = dd_contract d" using c trimmed by simp
  qed (use b agreement_row [OF a] in \<open>simp_all add: replaceable_def\<close>)
  then show ?thesis unfolding create_draw_with_reservation_def Inr x by simp
qed

lemma create_draw_row_ok:
  assumes "within_limits db"
  shows "within_limits (fst (create_draw_row pgd db d))"
  unfolding create_draw_row_def using insert_draw_ok(1) [OF assms, of pgd d] assms
  by (cases "insert_draw pgd db d") (auto split: prod.splits)

lemma create_draw_ok:
  assumes ok: "within_limits db"
  shows "within_limits (fst (create_draw pgd db actor inp))"
proof -
  have k: "dd_agreement (draw_row inp s actor) = di_agreement inp" "dd_contract (draw_row inp s actor) = di_contract inp"
    "dd_batch (draw_row inp s actor) = None" for s by (simp_all add: draw_row_def)
  have "within_limits (fst (case (if flow_or_register (di_flow inp) = ''REGISTER'' then create_draw_with_reservation
        else create_draw_row) pgd db (draw_row inp s actor) of
      (db1, Inl Headroom_Exceeded) \<Rightarrow> (db1, Inl code_invalid_input) | (db1, Inl e) \<Rightarrow> (db1, Inl (map_repo_error e))
    | (db1, Inr i) \<Rightarrow> (db1, Inr i)))"
    if "agreement_by_code db (di_agreement inp) = Some a" "la_contract a = trim_space (di_contract inp)" for s a
    using create_with_reservation_ok [OF ok, of "draw_row inp s actor" a pgd] that
      create_draw_row_ok [OF ok, of pgd "draw_row inp s actor"]
    by (auto simp: k split: prod.split sum.split loan_error.split)
  then show ?thesis using ok by (auto simp: create_draw_def Let_def split: option.split sum.split)
qed

lemma submit_draw_ok:
  assumes ok: "within_limits db"
  shows "within_limits (fst (submit_draw w db actor i expected))"
proof -
  have two: "within_limits (fst (set_draw_status db1 i s ''PENDING_APPROVAL'' actor [] expected))"
    if "within_limits db1" for db1 s by (rule set_draw_status_ok [OF that]) simp
  have "within_limits db1" if "set_draw_case_and_journal db i a b c = (db1, x)" for a b c db1 x
    using set_draw_case_ok [OF ok, of i a b c] that by simp
  moreover have "within_limits db2" if "within_limits db1" "set_draw_status db1 i s ''PENDING_APPROVAL'' actor [] expected = (db2, x)"
    for db1 s db2 x using two [OF that(1), of s] that(2) by simp
  ultimately show ?thesis using ok unfolding submit_draw_def
    by (auto split: sum.split option.split prod.split) blast+
qed

lemma decision_not_draft: "draw_decision x = Some t \<Longrightarrow> t \<noteq> ''DRAFT''"
  by (auto simp: draw_decision_def split: if_splits)

lemma resolve_draw_ok:
  assumes ok: "within_limits db"
  shows "within_limits (fst (resolve_draw db i decision actor reason expected))"
proof -
  have "within_limits db1" if "draw_decision decision = Some t" "set_draw_status db i s t actor reason expected = (db1, x)"
    for db1 s t x
    using set_draw_status_ok [OF ok, of t i s actor reason expected] decision_not_draft [of decision t] that by simp
  then show ?thesis using ok unfolding resolve_draw_def
    by (auto split: sum.split option.split prod.split)
qed

lemma gates: "settle_gate = Inr ()" "receipt_gate = Inr ()"
  "transition_ok contract_machine ''DISBURSED'' ''CLOSED'' [] = Inr ()"
  "transition_ok workflow_machine ''APPROVED'' ''POSTED'' [] = Inr ()"
  by code_simp+

definition posted_row :: "string \<Rightarrow> string \<Rightarrow> drawdown \<Rightarrow> drawdown" where
  "posted_row journal actor d =
     d\<lparr>dd_status := ''POSTED'', dd_journal := null_if_empty journal, dd_updated_by := actor, dd_version := dd_version d + 1\<rparr>"

lemma post_draw_row_eq:
  "post_draw_row db i journal actor expected = Inr (Some db1) \<Longrightarrow>
   db1 = db\<lparr>ld_draws := upd (draw_guard i ''APPROVED'' expected) (posted_row journal actor) (ld_draws db)\<rparr> \<and>
   (\<exists>d\<in>set (ld_draws db). draw_guard i ''APPROVED'' expected d)"
  by (auto simp: post_draw_row_def posted_row_def [abs_def] split: if_splits)

lemma post_draw_row_frame:
  assumes ok: "within_limits db" and p: "post_draw_row db i journal actor expected = Inr (Some db1)"
  shows "within_limits db1"
proof (rule frame_step_ok [OF ok])
  show "frame_step db db1"
    by (rule frame_rows [where pc = "\<lambda>c. False" and pr = "\<lambda>r. False" and fr = "\<lambda>r. r" and fc = "\<lambda>c. c"
        and pd = "draw_guard i ''APPROVED'' expected" and fd = "posted_row journal actor"])
       (use post_draw_row_eq [OF p] in \<open>auto simp: posted_row_def keys replaceable_def\<close>)
qed

lemma draw_key_row:
  assumes "map draw_key (ld_draws db1) = map draw_key (ld_draws db)" "d \<in> set (ld_draws db)"
  shows "\<exists>d1\<in>set (ld_draws db1). draw_key d1 = draw_key d"
  using map_key_set [of draw_key "ld_draws db" "ld_draws db1" d] assms by metis

lemma update_agreement_Some:
  "update_agreement db p f = Inr (Some db2) \<Longrightarrow>
   db2 = db\<lparr>ld_agreements := upd p f (ld_agreements db)\<rparr> \<and> (\<exists>a\<in>set (ld_agreements db). p a)"
  by (auto simp: update_agreement_def split: if_splits)

lemma disburse_contract_rows [simp]:
  "map contract_key (ld_contracts (disburse_contract db p)) = map contract_key (ld_contracts db)"
  "ld_agreements (disburse_contract db p) = ld_agreements db" "ld_draws (disburse_contract db p) = ld_draws db"
  "ld_reservations (disburse_contract db p) = ld_reservations db" "ld_next (disburse_contract db p) = ld_next db"
  "ld_receipts (disburse_contract db p) = ld_receipts db" "ld_batches (disburse_contract db p) = ld_batches db"
  by (simp_all add: disburse_contract_def map_upd contract_key_def)

lemma settle_register_tx_cases:
  assumes "settle_register_tx db i agreement amount journal actor expected = (db', Inr True)"
  obtains db1 p where "post_draw_row db i journal actor expected = Inr (Some db1)"
    "\<exists>r\<in>set (ld_reservations db1). rs_source r = i \<and> rs_status r = ''HELD''"
    "db' = (disburse_contract (db1\<lparr>ld_agreements := upd (\<lambda>a. la_code a = agreement)
        (\<lambda>a. a\<lparr>la_pending := la_pending a + amount\<rparr>) (ld_agreements db1)\<rparr>) p)
      \<lparr>ld_reservations := upd (\<lambda>r. rs_source r = i \<and> rs_status r = ''HELD'')
        (\<lambda>r. r\<lparr>rs_status := ''CONSUMED''\<rparr>) (ld_reservations db1)\<rparr>"
proof -
  obtain db1 where p1: "post_draw_row db i journal actor expected = Inr (Some db1)"
    by (cases "post_draw_row db i journal actor expected")
       (use assms in \<open>auto simp: settle_register_tx_def gates split: option.splits\<close>)
  obtain db2 where u: "update_agreement db1 (\<lambda>a. la_code a = agreement) (\<lambda>a. a\<lparr>la_pending := la_pending a + amount\<rparr>)
      = Inr (Some db2)"
    using assms by (auto simp: settle_register_tx_def gates p1 bind_r_def split: sum.splits option.splits)
  let ?p = "\<lambda>c. \<exists>d\<in>set (ld_draws db2). dd_id d = i \<and> dd_contract d = lc_code c"
  have db2: "db2 = db1\<lparr>ld_agreements := upd (\<lambda>a. la_code a = agreement)
        (\<lambda>a. a\<lparr>la_pending := la_pending a + amount\<rparr>) (ld_agreements db1)\<rparr>" using update_agreement_Some [OF u] by simp
  have rs: "ld_reservations db2 = ld_reservations db1" by (simp add: db2)
  have h: "\<exists>r\<in>set (ld_reservations db1). rs_source r = i \<and> rs_status r = ''HELD''"
    using assms by (simp add: settle_register_tx_def gates p1 u Let_def rs split: if_split_asm)
  then have "db' = (disburse_contract db2 ?p)\<lparr>ld_reservations := upd (\<lambda>r. rs_source r = i \<and> rs_status r = ''HELD'')
        (\<lambda>r. r\<lparr>rs_status := ''CONSUMED''\<rparr>) (ld_reservations db1)\<rparr>"
    using assms by (simp add: settle_register_tx_def gates p1 u Let_def rs split: if_split_asm)
  then show thesis using that [OF p1 h, of ?p] db2 by simp
qed

lemma tx_unchanged:
  "snd (case x of Inl e \<Rightarrow> (db, Inl e) | Inr None \<Rightarrow> (db, Inr False) | Inr (Some db1) \<Rightarrow> (db1, Inr True)) \<noteq> Inr True \<Longrightarrow>
   fst (case x of Inl e \<Rightarrow> (db, Inl e) | Inr None \<Rightarrow> (db, Inr False) | Inr (Some db1) \<Rightarrow> (db1, Inr True)) = db"
  by (auto split: sum.splits option.splits)

lemma settle_register_tx_ok:
  assumes ok: "within_limits db" and d: "d \<in> set (ld_draws db)" "dd_id d = i" "dd_agreement d = agreement" "dd_amount d = amount"
  shows "within_limits (fst (settle_register_tx db i agreement amount journal actor expected))"
proof (cases "snd (settle_register_tx db i agreement amount journal actor expected) = Inr True")
  case False
  then have "fst (settle_register_tx db i agreement amount journal actor expected) = db"
    unfolding settle_register_tx_def by (rule tx_unchanged)
  then show ?thesis using ok by simp
next
  case True
  obtain db' where e: "settle_register_tx db i agreement amount journal actor expected = (db', Inr True)"
    by (rule that) (use True in \<open>simp add: prod_eq_iff\<close>)
  obtain db1 p where p1: "post_draw_row db i journal actor expected = Inr (Some db1)"
    and h: "\<exists>r\<in>set (ld_reservations db1). rs_source r = i \<and> rs_status r = ''HELD''"
    and db': "db' = (disburse_contract (db1\<lparr>ld_agreements := upd (\<lambda>a. la_code a = agreement)
        (\<lambda>a. a\<lparr>la_pending := la_pending a + amount\<rparr>) (ld_agreements db1)\<rparr>) p)
      \<lparr>ld_reservations := upd (\<lambda>r. rs_source r = i \<and> rs_status r = ''HELD'')
        (\<lambda>r. r\<lparr>rs_status := ''CONSUMED''\<rparr>) (ld_reservations db1)\<rparr>"
    by (rule settle_register_tx_cases [OF e])
  have ok1: "within_limits db1" by (rule post_draw_row_frame [OF ok p1])
  have "map draw_key (ld_draws db1) = map draw_key (ld_draws db)"
    using post_draw_row_eq [OF p1] by (simp add: map_upd posted_row_def draw_key_def)
  from draw_key_row [OF this d(1)] obtain d1 where d1: "d1 \<in> set (ld_draws db1)" "draw_key d1 = draw_key d" by blast
  obtain r where r: "r \<in> set (ld_reservations db1)" "rs_status r = ''HELD''" "rs_source r = i" using h by blast
  have "within_limits db'"
    by (rule register_move [OF ok1 d1(1) _ _ r(1,2)]) (use d d1(2) r(3) in \<open>simp_all add: db' draw_key_def\<close>)
  then show ?thesis by (simp add: e)
qed

lemma settle_complete_tx_cases:
  assumes "settle_complete_tx db i contract agreement amount journal actor expected = (db', Inr True)"
  obtains db1 p a where "post_draw_row db i journal actor expected = Inr (Some db1)"
    "a \<in> set (ld_agreements db1)" "la_code a = agreement" "amount \<le> la_pending a"
    "db' = disburse_contract (db1\<lparr>ld_agreements := upd (\<lambda>a. la_code a = agreement \<and> amount \<le> la_pending a)
        (\<lambda>a. a\<lparr>la_outstanding := la_outstanding a + amount, la_pending := la_pending a - amount\<rparr>) (ld_agreements db1)\<rparr>) p"
proof -
  obtain db1 where p1: "post_draw_row db i journal actor expected = Inr (Some db1)"
    by (cases "post_draw_row db i journal actor expected")
       (use assms in \<open>auto simp: settle_complete_tx_def gates split: option.splits\<close>)
  obtain db2 where u: "update_agreement db1 (\<lambda>a. la_code a = agreement \<and> amount \<le> la_pending a)
      (\<lambda>a. a\<lparr>la_outstanding := la_outstanding a + amount, la_pending := la_pending a - amount\<rparr>) = Inr (Some db2)"
    using assms by (auto simp: settle_complete_tx_def gates p1 bind_r_def split: sum.splits option.splits)
  note u2 = update_agreement_Some [OF u]
  obtain a where a: "a \<in> set (ld_agreements db1)" "la_code a = agreement" "amount \<le> la_pending a" using u2 by blast
  show thesis
    by (rule that [OF p1 a, of "\<lambda>c. lc_code c = contract \<and>
        (\<exists>d\<in>set (ld_draws db2). dd_contract d = lc_code c \<and> dd_flow d = ''COMPLETE'' \<and> dd_status d = ''POSTED'')"])
       (use assms u2 in \<open>simp add: settle_complete_tx_def gates p1 u\<close>)
qed

lemma settle_complete_tx_ok:
  assumes ok: "within_limits db" and nn: "0 \<le> amount"
  shows "within_limits (fst (settle_complete_tx db i contract agreement amount journal actor expected))"
proof (cases "snd (settle_complete_tx db i contract agreement amount journal actor expected) = Inr True")
  case False
  then have "fst (settle_complete_tx db i contract agreement amount journal actor expected) = db"
    unfolding settle_complete_tx_def by (rule tx_unchanged)
  then show ?thesis using ok by simp
next
  case True
  obtain db' where e: "settle_complete_tx db i contract agreement amount journal actor expected = (db', Inr True)"
    by (rule that) (use True in \<open>simp add: prod_eq_iff\<close>)
  obtain db1 p a where p1: "post_draw_row db i journal actor expected = Inr (Some db1)"
    and a: "a \<in> set (ld_agreements db1)" "la_code a = agreement" "amount \<le> la_pending a"
    and db': "db' = disburse_contract (db1\<lparr>ld_agreements := upd (\<lambda>a. la_code a = agreement \<and> amount \<le> la_pending a)
        (\<lambda>a. a\<lparr>la_outstanding := la_outstanding a + amount, la_pending := la_pending a - amount\<rparr>) (ld_agreements db1)\<rparr>) p"
    by (rule settle_complete_tx_cases [OF e])
  have ok1: "within_limits db1" by (rule post_draw_row_frame [OF ok p1])
  have "within_limits db'"
    by (rule complete_move [OF ok1 nn a]) (simp_all add: db')
  then show ?thesis by (simp add: e)
qed

lemma approve_if_waiting_ok:
  "within_limits db \<Longrightarrow> within_limits (fst (approve_if_waiting db d actor expected))"
  unfolding approve_if_waiting_def using set_draw_status_ok by simp


lemma set_draw_row_status_draws:
  "set_draw_row_status db i a b actor expected = Inr db1 \<Longrightarrow>
   ld_draws db1 = upd (draw_guard i a expected)
     (\<lambda>d. d\<lparr>dd_status := b, dd_updated_by := actor, dd_version := dd_version d + 1\<rparr>) (ld_draws db) \<and>
   ld_agreements db1 = ld_agreements db \<and> ld_receipts db1 = ld_receipts db \<and> ld_batches db1 = ld_batches db \<and>
   ld_next db1 = ld_next db"
  by (auto simp: set_draw_row_status_def split: if_splits)

lemma set_draw_status_draws:
  assumes "set_draw_status db i a b actor reason expected = (db1, x)"
  shows "(db1 = db \<and> isl x) \<or> (x = Inr () \<and> transition_ok workflow_machine a b reason = Inr () \<and>
      ld_draws db1 = upd (draw_guard i a expected)
        (\<lambda>d. d\<lparr>dd_status := b, dd_updated_by := actor, dd_version := dd_version d + 1\<rparr>) (ld_draws db) \<and>
      ld_agreements db1 = ld_agreements db \<and> ld_receipts db1 = ld_receipts db \<and> ld_batches db1 = ld_batches db \<and>
      ld_next db1 = ld_next db)"
proof (cases "transition_ok workflow_machine a b reason")
  case (Inl e)
  have "(db, Inl e) = (db1, x)" using assms unfolding set_draw_status_def Inl bind_r_simps sum.case .
  then show ?thesis by auto
next
  case (Inr u)
  have t: "transition_ok workflow_machine a b reason = Inr ()" using Inr by simp
  show ?thesis
  proof (cases "set_draw_row_status db i a b actor expected")
    case (Inl e)
    then show ?thesis using assms by (auto simp: set_draw_status_def t split: if_split_asm)
  next
    case (Inr db2)
    note f = set_draw_row_status_draws [OF Inr]
    let ?r = "set_draw_status db i a b actor reason expected"
    have "(fst ?r = db \<and> isl (snd ?r)) \<or> (snd ?r = Inr () \<and> ld_draws (fst ?r) = ld_draws db2 \<and>
        ld_agreements (fst ?r) = ld_agreements db2 \<and> ld_receipts (fst ?r) = ld_receipts db2 \<and>
        ld_batches (fst ?r) = ld_batches db2 \<and> ld_next (fst ?r) = ld_next db2)"
      by (simp add: set_draw_status_def t Inr Let_def split: option.split)
    then show ?thesis unfolding assms fst_conv snd_conv using f t by simp
  qed
qed

lemma approve_draws:
  assumes "approve_if_waiting db d actor expected = (db1, x)"
  shows "map draw_key (ld_draws db1) = map draw_key (ld_draws db)"
proof (cases "dd_status d = ''PENDING_APPROVAL''")
  case True
  then have e: "set_draw_status db (dd_id d) (dd_status d) ''APPROVED'' actor [] expected = (db1, x)"
    using assms by (simp add: approve_if_waiting_def)
  show ?thesis using set_draw_status_draws [OF e] by (auto simp: map_upd draw_key_def)
next
  case False
  then show ?thesis using assms by (simp add: approve_if_waiting_def)
qed

lemma settle_register_ok:
  assumes ok: "within_limits db"
  shows "within_limits (fst (settle_register db i journal actor expected))"
proof (cases "get_draw db i")
  case (Inr d)
  obtain db1 x where a: "approve_if_waiting db d actor expected = (db1, x)" by fastforce
  have ok1: "within_limits db1" using approve_if_waiting_ok [OF ok, of d actor expected] a by simp
  obtain d1 where d1: "d1 \<in> set (ld_draws db1)" "draw_key d1 = draw_key d"
    using draw_key_row [OF approve_draws [OF a]] get_draw_row [OF Inr] by blast
  have "within_limits (fst (settle_register_tx db1 (dd_id d) (dd_agreement d) (dd_amount d) journal actor expected))"
    by (rule settle_register_tx_ok [OF ok1 d1(1)]) (use d1(2) in \<open>simp_all add: draw_key_def\<close>)
  then show ?thesis using ok1 by (cases x) (auto simp: settle_register_def Inr a split: prod.split sum.split)
qed (use ok in \<open>simp add: settle_register_def\<close>)

lemma settle_complete_ok:
  assumes ok: "within_limits db"
  shows "within_limits (fst (settle_complete db i journal actor expected))"
proof (cases "get_draw db i")
  case (Inr d)
  obtain db1 x where a: "approve_if_waiting db d actor expected = (db1, x)" by fastforce
  have ok1: "within_limits db1" using approve_if_waiting_ok [OF ok, of d actor expected] a by simp
  have "0 \<le> dd_amount d" using get_draw_row [OF Inr] limits_sound [OF ok] by (auto simp: sound_keys_def list_all_iff)
  then have "within_limits (fst (settle_complete_tx db1 (dd_id d) (dd_contract d) (dd_agreement d) (dd_amount d) journal actor expected))"
    by (rule settle_complete_tx_ok [OF ok1])
  then show ?thesis using ok1 by (cases x) (auto simp: settle_complete_def Inr a split: prod.split sum.split)
qed (use ok in \<open>simp add: settle_complete_def\<close>)

lemma settle_draw_ok: "within_limits db \<Longrightarrow> within_limits (fst (settle_draw db i journal actor expected))"
  unfolding settle_draw_def using settle_register_ok settle_complete_ok by (auto split: sum.split)

section \<open>Receipts\<close>

lemma receipts_sound_upd: "receipts_sound db \<Longrightarrow> (\<And>r. rc_principal (f r) = rc_principal r) \<Longrightarrow>
    ld_receipts db1 = upd p f (ld_receipts db) \<Longrightarrow> receipts_sound db1"
  by (auto simp: receipts_sound_def list_all_iff set_upd)

lemma books_receipts:
  assumes ok: "within_limits db" and same: "ld_contracts db1 = ld_contracts db" "ld_agreements db1 = ld_agreements db"
    "ld_draws db1 = ld_draws db" "ld_reservations db1 = ld_reservations db" "ld_next db \<le> ld_next db1"
    and rec: "receipts_sound db1"
  shows "within_limits db1"
proof (rule move_ok [OF ok])
  show "list_all2 agreement_kept (ld_agreements db) (ld_agreements db1)"
    using limits_sound [OF ok] unfolding same(2) by (auto simp: list_all2_same agreement_kept_def sound_keys_def list_all_iff)
  show "used_of db1 c \<le> used_of db c" for c
    by (simp add: used_of_def contract_outstanding_def contract_pending_def contract_held_def same)
qed (use same rec in \<open>simp_all add: draws_kept_same reservations_kept_same\<close>)

lemma insert_receipt_ok:
  assumes "within_limits db" "insert_receipt pgd db r = Inr (db1, i)"
  shows "within_limits db1"
proof -
  obtain date where p: "pgd (rc_date r) = Some date"
    using assms(2) unfolding insert_receipt_def by (cases "pgd (rc_date r)") simp_all
  have c: "0 \<le> rc_principal r" and e: "ld_contracts db1 = ld_contracts db" "ld_agreements db1 = ld_agreements db"
      "ld_draws db1 = ld_draws db" "ld_reservations db1 = ld_reservations db" "ld_next db1 = ld_next db + 1"
    and rc: "ld_receipts db1 = ld_receipts db @ [r\<lparr>rc_id := ld_next db, rc_date := date, rc_status := ''DRAFT'', rc_version := 1\<rparr>]"
    using assms(2) unfolding insert_receipt_def p by (clarsimp split: if_split_asm)+
  have "receipts_sound db1" using limits_receipts [OF assms(1)] c by (simp add: receipts_sound_def rc)
  then show ?thesis using books_receipts [OF assms(1) e(1-4)] by (simp add: e(5))
qed

lemma insert_receipts_ok: "within_limits db \<Longrightarrow> insert_receipts pgd db rs = Inr db1 \<Longrightarrow> within_limits db1"
  by (induction rs arbitrary: db) (auto simp: bind_r_eq_Inr dest: insert_receipt_ok)

lemma set_receipt_status_ok:
  assumes "within_limits db"
  shows "within_limits (fst (set_receipt_status db i a b actor reason expected))"
proof -
  have "within_limits (db\<lparr>ld_receipts := upd p (\<lambda>r. r\<lparr>rc_status := b, rc_updated_by := Some actor, rc_version := rc_version r + 1\<rparr>)
      (ld_receipts db)\<rparr>)" for p
    by (rule books_receipts [OF assms]; simp?)
       (rule receipts_sound_upd [of db "\<lambda>r. r\<lparr>rc_status := b, rc_updated_by := Some actor, rc_version := rc_version r + 1\<rparr>" _ p],
        use limits_receipts [OF assms] in simp_all)
  then show ?thesis using assms by (auto simp: set_receipt_status_def split: sum.split)
qed

lemma set_receipt_case_ok:
  assumes "within_limits db"
  shows "within_limits (fst (set_receipt_case_and_journal db i a b c))"
proof -
  have "within_limits (db\<lparr>ld_receipts := upd p (\<lambda>r. r\<lparr>rc_case := null_if_empty a, rc_case_code := null_if_empty b,
                     rc_journal := null_if_empty c, rc_version := rc_version r + 1\<rparr>) (ld_receipts db)\<rparr>)" for p
    by (rule books_receipts [OF assms]; simp?)
       (rule receipts_sound_upd [of db "\<lambda>r. r\<lparr>rc_case := null_if_empty a, rc_case_code := null_if_empty b,
                     rc_journal := null_if_empty c, rc_version := rc_version r + 1\<rparr>" _ p],
        use limits_receipts [OF assms] in simp_all)
  then show ?thesis using assms by (auto simp: set_receipt_case_and_journal_def)
qed

lemma update_collected_ok:
  assumes ok: "within_limits db" and p: "0 \<le> p" and u: "update_collected db agreement p q = Inr (Some db1)"
  shows "within_limits db1"
proof -
  have u2: "update_agreement db (\<lambda>a. la_code a = agreement) (apply_receipt p q) = Inr (Some db1)"
    using u by (auto simp: update_collected_def split: if_splits)
  obtain a where a: "a \<in> set (ld_agreements db)" "la_code a = agreement"
    and db1: "db1 = db\<lparr>ld_agreements := upd (\<lambda>a. la_code a = agreement) (apply_receipt p q) (ld_agreements db)\<rparr>"
    using update_agreement_Some [OF u2] by blast
  from collect_move [OF ok p a, of db1 q] show "within_limits db1" by (simp add: db1)
qed

lemma settle_receipt_tx_ok:
  assumes ok: "within_limits db"
  shows "within_limits (fst (settle_receipt_tx db i journal actor expected))"
proof (cases "find (receipt_guard i ''APPROVED'' expected) (ld_receipts db)")
  case None
  then show ?thesis using ok by (auto simp: settle_receipt_tx_def gates split: option.split)
next
  case (Some r)
  let ?f = "\<lambda>r. r\<lparr>rc_status := ''POSTED'', rc_journal := null_if_empty journal,
                        rc_updated_by := null_if_empty actor, rc_version := rc_version r + 1\<rparr>"
  let ?db1 = "db\<lparr>ld_receipts := upd (receipt_guard i ''APPROVED'' expected) ?f (ld_receipts db)\<rparr>"
  have p: "0 \<le> rc_principal r" using find_Some_in [OF Some] limits_receipts [OF ok]
    by (auto simp: receipts_sound_def list_all_iff)
  have ok1: "within_limits ?db1"
    by (rule books_receipts [OF ok]; simp?)
       (rule receipts_sound_upd [of db ?f _ "receipt_guard i ''APPROVED'' expected"], use limits_receipts [OF ok] in simp_all)
  show ?thesis using update_collected_ok [OF ok1 p, of "rc_agreement r" "rc_interest r"] ok
    unfolding settle_receipt_tx_def gates sum.case Some option.case Let_def
    by (auto split: sum.split option.split)
qed

lemma create_receipt_ok: "within_limits db \<Longrightarrow> within_limits (fst (create_receipt pgd db actor inp))"
  unfolding create_receipt_def by (auto split: option.split sum.split prod.split dest: insert_receipt_ok)

lemma submit_receipt_ok:
  assumes ok: "within_limits db"
  shows "within_limits (fst (submit_receipt w db actor i expected))"
proof -
  have one: "within_limits db1" if "set_receipt_case_and_journal db i a b c = (db1, x)" for a b c db1 x
    using set_receipt_case_ok [OF ok, of i a b c] that by simp
  have two: "within_limits db2" if "within_limits db1" "set_receipt_status db1 i s t actor r expected = (db2, x)" for db1 s t r db2 x
    using set_receipt_status_ok [OF that(1), of i s t actor r expected] that(2) by simp
  show ?thesis using ok unfolding submit_receipt_def
    by (auto split: sum.split option.split prod.split dest: one two [OF one])
qed

lemma resolve_receipt_ok:
  assumes ok: "within_limits db"
  shows "within_limits (fst (resolve_receipt db i decision actor reason expected))"
proof -
  have two: "within_limits db2" if "set_receipt_status db i s t actor r expected = (db2, x)" for s t r db2 x
    using set_receipt_status_ok [OF ok, of i s t actor r expected] that by simp
  show ?thesis using ok unfolding resolve_receipt_def
    by (auto split: sum.split option.split prod.split dest: two)
qed

lemma settle_receipt_ok:
  assumes ok: "within_limits db"
  shows "within_limits (fst (settle_receipt db i journal actor expected))"
proof -
  have one: "within_limits db1" if "set_receipt_status db i s t actor r expected = (db1, x)" for s t r db1 x
    using set_receipt_status_ok [OF ok, of i s t actor r expected] that by simp
  have two: "within_limits db2" if "within_limits db1" "settle_receipt_tx db1 i journal actor expected = (db2, x)" for db1 db2 x
    using settle_receipt_tx_ok [OF that(1), of i journal actor expected] that(2) by simp
  show ?thesis using ok unfolding settle_receipt_def
    by (auto split: sum.split option.split prod.split if_split_asm dest: one two [OF one] two [OF ok])
qed

end
