(* ===== verification/Loan_Limits.thy ===== *)
theory Loan_Limits
  imports Loan_Calls
begin

text \<open>
  Batches, contracts and the queue keep the contracts within their limits; with the single calls that
  makes every run of the service do so.
\<close>

section \<open>Batches\<close>

lemma create_draw_batch_tx_ok:
  assumes ok: "within_limits db"
  shows "within_limits (fst (create_draw_batch_tx pgd db b rows))"
proof (cases "pgd (db_date b)")
  case None
  then show ?thesis using ok by (simp add: create_draw_batch_tx_def)
next
  case (Some date)
  let ?db1 = "db\<lparr>ld_batches := ld_batches db @ [b\<lparr>db_id := ld_next db, db_date := date, db_version := 1\<rparr>],
                ld_next := ld_next db + 1\<rparr>"
  let ?rows = "map (\<lambda>d. d\<lparr>dd_batch := Some (ld_next db)\<rparr>) rows"
  have ok1: "within_limits ?db1" by (rule frame_ok_other [OF ok]) simp_all
  show ?thesis
  proof (cases "insert_draws pgd ?db1 ?rows")
    case (Inl e)
    then show ?thesis using ok by (simp add: create_draw_batch_tx_def Some)
  next
    case (Inr db2)
    have "within_limits db2" using insert_draws_ok [OF ok1 Inr] by simp
    then have "within_limits (batch_history (ld_next db) ''CREATED'' [] ''DRAFT'' db2)"
      by (rule frame_ok_other) simp_all
    then show ?thesis using Inr by (simp add: create_draw_batch_tx_def Some)
  qed
qed

lemma create_batch_register_ok:
  "within_limits db \<Longrightarrow> within_limits (fst (create_batch_register pgd db actor txn_date method lines))"
  unfolding create_batch_register_def
  using create_draw_batch_tx_ok [of db pgd "draft_header ''REGISTER'' None txn_date ''VND'' actor (batch_total rows)" rows for rows]
  by (auto split: sum.split prod.split loan_error.split) (metis fst_conv)+

lemma create_batch_complete_ok:
  "within_limits db \<Longrightarrow> within_limits (fst (create_batch_complete pgd db actor source_id txn_date method lines))"
  unfolding create_batch_complete_def
  by (auto split: option.split sum.split prod.split) (metis fst_conv create_draw_batch_tx_ok)+

lemma update_draft_tx_ok:
  assumes ok: "within_limits db"
  shows "within_limits (fst (update_draft_tx pgd db i expected txn_date rows))"
proof (cases "pgd txn_date = None \<or> \<not> (\<exists>b\<in>set (ld_batches db). draft_guard i expected b)")
  case True
  then show ?thesis using ok by (auto simp: update_draft_tx_def split: option.split)
next
  case False
  then obtain date where p: "pgd txn_date = Some date" and g: "\<exists>b\<in>set (ld_batches db). draft_guard i expected b" by auto
  let ?db1 = "db\<lparr>ld_batches := upd (draft_guard i expected)
                     (\<lambda>b. b\<lparr>db_date := date, db_total := batch_total rows, db_version := db_version b + 1\<rparr>) (ld_batches db),
                   ld_draws := [d \<leftarrow> ld_draws db. \<not> (dd_batch d = Some i \<and> dd_status d = ''DRAFT'')]\<rparr>"
  have ok1: "within_limits ?db1"
  proof (rule draws_only [OF ok])
    show "distinct (map dd_id (ld_draws ?db1))" using limits_sound [OF ok] by (simp add: sound_keys_def distinct_map_filter)
    show "\<forall>d\<in>set (ld_draws ?db1). dd_id d < ld_next ?db1 \<and> 0 \<le> dd_amount d"
      using limits_sound [OF ok] by (simp add: sound_keys_def list_all_iff)
    show "\<forall>d\<in>set (ld_draws db). \<not> replaceable d \<longrightarrow> d \<in> set (ld_draws ?db1)" by (auto simp: replaceable_def)
  qed simp_all
  show ?thesis
  proof (cases "insert_draws pgd ?db1 (map (\<lambda>d. d\<lparr>dd_batch := Some i\<rparr>) rows)")
    case (Inl e)
    then show ?thesis using ok p g by (simp add: update_draft_tx_def Let_def)
  next
    case (Inr db2)
    have "within_limits db2" using insert_draws_ok [OF ok1 Inr] by simp
    then have "within_limits (batch_history i ''UPDATED'' ''DRAFT'' ''DRAFT'' db2)" by (rule frame_ok_other) simp_all
    then show ?thesis using p g Inr by (simp add: update_draft_tx_def Let_def)
  qed
qed

lemma update_draft_ok:
  "within_limits db \<Longrightarrow> within_limits (fst (update_draft pgd db actor i data_version txn_date method lines))"
  unfolding update_draft_def
  by (auto split: option.split sum.split prod.split) (metis fst_conv update_draft_tx_ok)+

lemma status_frame:
  assumes "ld_contracts db' = ld_contracts db" "ld_agreements db' = ld_agreements db"
    "ld_reservations db' = ld_reservations db" "ld_next db' = ld_next db" "ld_receipts db' = ld_receipts db"
    and "ld_draws db' = upd p (\<lambda>d. d\<lparr>dd_status := t, dd_version := dd_version d + 1\<rparr>) (ld_draws db)" "t \<noteq> ''DRAFT''"
  shows "frame_step db db'"
  by (rule frame_rows [where pc = "\<lambda>c. False" and pr = "\<lambda>r. False" and fr = "\<lambda>r. r" and fc = "\<lambda>c. c"
        and pd = p and fd = "\<lambda>d. d\<lparr>dd_status := t, dd_version := dd_version d + 1\<rparr>"])
     (use assms in \<open>auto simp: keys replaceable_def\<close>)

lemma cancel_draft_ok:
  assumes ok: "within_limits db"
  shows "within_limits (fst (cancel_draft db i data_version))"
proof -
  have "within_limits (fst (cancel_draft_tx db i data_version))"
    unfolding cancel_draft_tx_def using ok frame_step_ok [OF ok status_frame [where t = "''CANCELLED''"]]
    by (auto intro!: frame_ok_other [OF frame_step_ok [OF ok status_frame [where t = "''CANCELLED''"]]])
  then show ?thesis using ok unfolding cancel_draft_def
    by (auto split: sum.split prod.split loan_error.split)
qed

lemma requested_sum: "in64 t \<Longrightarrow> foldl (\<lambda>t d. if p d then add64 t (dd_amount d) else t) t rows =
    i64 (t + sum_list [dd_amount d. d \<leftarrow> rows, p d])"
proof (induction rows arbitrary: t)
  case Nil
  then show ?case by (simp add: i64_id)
next
  case (Cons d rows)
  have "i64 (add64 t (dd_amount d) + x) = i64 (t + (dd_amount d + x))" for x
    by (simp only: add64_def i64_i64_add) (simp add: add.assoc)
  then show ?case using Cons by simp
qed

lemma hold_rows_member:
  assumes "\<And>r. r \<in> set rs \<Longrightarrow> rs_status r = ''HELD'' \<Longrightarrow> 0 < rs_amount r" "distinct (map rs_source rs)"
    and "\<And>d. d \<in> set ds \<Longrightarrow> 0 < dd_amount d"
  shows "r \<in> set (foldl (\<lambda>rs d. hold_row d rs) rs ds) \<Longrightarrow> rs_status r = ''HELD'' \<Longrightarrow> r \<in> set rs \<or> r \<in> hold_of ` set ds"
    "r \<in> set (foldl (\<lambda>rs d. hold_row d rs) rs ds) \<Longrightarrow> rs_source r \<in> rs_source ` set rs \<or> rs_source r \<in> dd_id ` set ds"
    "distinct (map rs_source (foldl (\<lambda>rs d. hold_row d rs) rs ds))"
    "held_in (foldl (\<lambda>rs d. hold_row d rs) rs ds) c \<le> held_in rs c + sum_list [dd_amount d. d \<leftarrow> ds, dd_contract d = c]"
  using hold_rows_facts [of rs ds c, OF assms] by blast+

lemma reserve_rows_ok:
  assumes ok: "within_limits db"
    and rows: "\<And>d. d \<in> set ds \<Longrightarrow> 0 < dd_amount d \<and> (\<exists>x\<in>set (ld_draws db). draw_key x = draw_key d \<and> \<not> replaceable x) \<and>
      (\<exists>a\<in>set (ld_agreements db). la_code a = dd_agreement d \<and> la_contract a = dd_contract d)"
    and fit: "\<And>c. used_of db c + sum_list [dd_amount d. d \<leftarrow> ds, dd_contract d = c] \<le> limit_of db c"
    and db': "db' = db\<lparr>ld_reservations := foldl (\<lambda>rs d. hold_row d rs) (ld_reservations db) ds\<rparr>"
  shows "within_limits db'"
proof -
  note sk = limits_sound [OF ok]
  have d: "distinct (map rs_source (ld_reservations db))" using sk by (simp add: sound_keys_def)
  have pos: "0 < dd_amount x" if "x \<in> set ds" for x using rows [OF that] by blast
  have lt: "dd_id x < ld_next db" if "x \<in> set ds" for x
    using rows [OF that] sk by (auto simp: sound_keys_def list_all_iff draw_key_def)
  have src: "rs_source r < ld_next db" if r: "r \<in> set (ld_reservations db')" for r
  proof -
    have "rs_source r \<in> rs_source ` set (ld_reservations db) \<or> rs_source r \<in> dd_id ` set ds"
      using hold_rows_member(2) [OF held_pos [OF ok] d pos] r unfolding db' by simp
    then show ?thesis using lt sk by (auto simp: sound_keys_def list_all_iff)
  qed
  have dist: "distinct (map rs_source (ld_reservations db'))"
    using hold_rows_member(3) [OF held_pos [OF ok] d pos] by (simp add: db')
  have sk': "sound_keys db'" using sk dist src by (simp add: sound_keys_def db' list_all_iff receipts_sound_def)
  have bk: "backed db' r" if r: "r \<in> set (ld_reservations db')" "rs_status r = ''HELD''" for r
  proof (cases "r \<in> set (ld_reservations db)")
    case True
    then have "backed db r" using ok r(2) by (simp add: within_limits_def)
    then show ?thesis by (simp add: backed_def db')
  next
    case False
    then obtain x where x: "x \<in> set ds" "r = hold_of x"
      using hold_rows_member(1) [of "ld_reservations db" ds r, OF held_pos [OF ok] d pos] r unfolding db' by auto
    obtain y a where "y \<in> set (ld_draws db)" "draw_key y = draw_key x" "\<not> replaceable y"
      "a \<in> set (ld_agreements db)" "la_code a = dd_agreement x" "la_contract a = dd_contract x" using rows [OF x(1)] by blast
    then show ?thesis using pos [OF x(1)] by (intro backedI [of _ y _ a]) (simp_all add: x(2) hold_of_def db' draw_key_def)
  qed
  have "used_of db' c \<le> limit_of db' c" for c
  proof -
    have "sum_list (contract_held db' c) \<le> sum_list (contract_held db c) + sum_list [dd_amount d. d \<leftarrow> ds, dd_contract d = c]"
      using hold_rows_member(4) [of "ld_reservations db" ds c, OF held_pos [OF ok] d pos] by (simp add: held_sum db' held_in_def)
    moreover have "contract_outstanding db' c = contract_outstanding db c" "contract_pending db' c = contract_pending db c"
      "limit_of db' c = limit_of db c"
      by (simp_all add: contract_outstanding_def contract_pending_def limit_of_def contract_by_code_def db')
    ultimately show ?thesis using fit [of c] by (simp add: used_of_def)
  qed
  then show ?thesis using sk' bk by (simp add: within_limits_def)
qed

text \<open>The rows of a batch ask for sums that fit 64 bits.\<close>

definition batch_fits :: "loan_db \<Rightarrow> nat \<Rightarrow> bool" where
  "batch_fits db i =
     list_all (\<lambda>d. in64 (sum_list [dd_amount x. x \<leftarrow> batch_rows db i, dd_contract x = dd_contract d])) (batch_rows db i)"

lemma submitted_rows:
  assumes ok: "within_limits db" and fits: "batch_fits db i"
    and v: "validate_and_reserve_register_batch db (batch_rows db i) = Inr db1"
  shows "db1 = db\<lparr>ld_reservations := foldl (\<lambda>rs d. hold_row d rs) (ld_reservations db) (batch_rows db i)\<rparr>"
    "\<And>d. d \<in> set (batch_rows db i) \<Longrightarrow> 0 < dd_amount d \<and>
      (\<exists>a\<in>set (ld_agreements db). la_code a = dd_agreement d \<and> la_contract a = dd_contract d)"
    "\<And>c. used_of db c + sum_list [dd_amount d. d \<leftarrow> batch_rows db i, dd_contract d = c] \<le> limit_of db c"
proof -
  let ?rows = "batch_rows db i"
  have v1: "\<not> (\<exists>d\<in>set ?rows. dd_amount d \<le> 0)"
    "\<not> (\<exists>d\<in>set ?rows. map_option la_contract (agreement_by_code db (dd_agreement d)) \<noteq> Some (dd_contract d))"
    "check_exposures db ?rows (remdups (map dd_contract ?rows)) = Inr ()"
    and v2: "db1 = db\<lparr>ld_reservations := foldl (\<lambda>rs d. hold_row d rs) (ld_reservations db) ?rows\<rparr>"
    using v unfolding validate_and_reserve_register_batch_def by (simp_all add: bind_r_eq_Inr split: if_split_asm)
  show "db1 = db\<lparr>ld_reservations := foldl (\<lambda>rs d. hold_row d rs) (ld_reservations db) ?rows\<rparr>" by (rule v2)
  show "0 < dd_amount d \<and> (\<exists>a\<in>set (ld_agreements db). la_code a = dd_agreement d \<and> la_contract a = dd_contract d)"
    if "d \<in> set ?rows" for d
  proof -
    have "map_option la_contract (agreement_by_code db (dd_agreement d)) = Some (dd_contract d)" using v1(2) that by blast
    then obtain a where "agreement_by_code db (dd_agreement d) = Some a" "la_contract a = dd_contract d" by auto
    then show ?thesis using agreement_row v1(1) that by (meson linorder_not_le)
  qed
  show "used_of db c + sum_list [dd_amount d. d \<leftarrow> ?rows, dd_contract d = c] \<le> limit_of db c" for c
  proof (cases "c \<in> set (map dd_contract ?rows)")
    case True
    have "list_all (fits_exposure db ?rows) (remdups (map dd_contract ?rows))"
      using v1(3) by (simp add: check_exposures_def split: if_split_asm)
    then have "fits_exposure db ?rows c" using True by (auto simp: list_all_iff)
    then obtain e where e: "load_contract_exposure db c = Inr e" "allows e (requested (\<lambda>d. dd_contract d = c) ?rows)"
      by (auto simp: fits_exposure_def split: sum.splits)
    have "in64 (sum_list [dd_amount d. d \<leftarrow> ?rows, dd_contract d = c])"
      using fits True by (auto simp: batch_fits_def list_all_iff)
    then have "requested (\<lambda>d. dd_contract d = c) ?rows = sum_list [dd_amount d. d \<leftarrow> ?rows, dd_contract d = c]"
      unfolding requested_def by (subst requested_sum) (simp_all add: in64_def i64_id)
    then show ?thesis using e exposure_exact(1) [OF ok e(1)] by (simp add: allows_def)
  next
    case False
    then have e: "[dd_amount d. d \<leftarrow> ?rows, dd_contract d = c] = []" by auto
    show ?thesis unfolding e using ok by (simp add: within_limits_def)
  qed
qed

lemma submit_batch_tx_ok:
  assumes ok: "within_limits db" and fits: "batch_fits db i"
  shows "within_limits (fst (submit_batch_tx db i expected now))"
proof -
  have main: "within_limits (batch_history i ''SUBMITTED'' st ''PENDING_APPROVAL''
              (db1\<lparr>ld_batches := bs,
                   ld_draws := upd (\<lambda>d. dd_batch d = Some i \<and> dd_status d = ''DRAFT'')
                     (\<lambda>d. d\<lparr>dd_status := ''PENDING_APPROVAL'', dd_version := dd_version d + 1\<rparr>) (ld_draws db1),
                   ld_submissions := ss\<rparr>))"
    if v: "validate_and_reserve_register_batch db (batch_rows db i) = Inr db1 \<or> db1 = db" for st db1 bs ss
  proof -
    let ?dbA = "db\<lparr>ld_draws := upd (\<lambda>d. dd_batch d = Some i \<and> dd_status d = ''DRAFT'')
                     (\<lambda>d. d\<lparr>dd_status := ''PENDING_APPROVAL'', dd_version := dd_version d + 1\<rparr>) (ld_draws db)\<rparr>"
    have okA: "within_limits ?dbA"
      by (rule frame_step_ok [OF ok status_frame [where t = "''PENDING_APPROVAL''"
            and p = "\<lambda>d. dd_batch d = Some i \<and> dd_status d = ''DRAFT''"]]) simp_all
    show ?thesis
    proof (cases "db1 = db")
      case True
      then show ?thesis by (intro frame_ok_other [OF okA]) simp_all
    next
      case False
      then have v': "validate_and_reserve_register_batch db (batch_rows db i) = Inr db1" using v by blast
      note f = submitted_rows [OF ok fits v']
      have u: "used_of ?dbA c = used_of db c" "limit_of ?dbA c = limit_of db c" for c
        by (simp_all add: used_of_def contract_outstanding_def contract_pending_def contract_held_def limit_of_def
            contract_by_code_def)
      have "within_limits (?dbA\<lparr>ld_reservations := foldl (\<lambda>rs d. hold_row d rs) (ld_reservations ?dbA) (batch_rows db i)\<rparr>)"
      proof (rule reserve_rows_ok [OF okA _ _ refl])
        fix d assume d: "d \<in> set (batch_rows db i)"
        then have dd: "d \<in> set (ld_draws db)" "dd_batch d = Some i" by (auto simp: batch_rows_def)
        have "\<exists>x\<in>set (ld_draws ?dbA). draw_key x = draw_key d \<and> \<not> replaceable x"
        proof (cases "dd_status d = ''DRAFT''")
          case True
          then show ?thesis using dd
            by (intro bexI [of _ "d\<lparr>dd_status := ''PENDING_APPROVAL'', dd_version := dd_version d + 1\<rparr>"])
               (auto simp: draw_key_def replaceable_def set_upd intro!: image_eqI [of _ _ d])
        next
          case False
          then show ?thesis using dd
            by (intro bexI [of _ d]) (auto simp: replaceable_def set_upd intro!: image_eqI [of _ _ d])
        qed
        then show "0 < dd_amount d \<and> (\<exists>x\<in>set (ld_draws ?dbA). draw_key x = draw_key d \<and> \<not> replaceable x) \<and>
            (\<exists>a\<in>set (ld_agreements ?dbA). la_code a = dd_agreement d \<and> la_contract a = dd_contract d)"
          using f(2) [OF d] by simp
      qed (unfold u, rule f(3))
      then show ?thesis by (rule frame_ok_other) (simp_all add: f(1))
    qed
  qed
  show ?thesis using ok unfolding submit_batch_tx_def Let_def
    by (auto split: sum.split if_split_asm simp: bind_r_eq_Inr intro!: main)
qed

lemma submit_batch_ok:
  assumes "within_limits db" "batch_fits db i"
  shows "within_limits (fst (submit_batch db i v now))"
  unfolding submit_batch_def using submit_batch_tx_ok [OF assms, of v now] assms(1)
  by (auto split: prod.split sum.split loan_error.split)

end
