(* ===== verification/Loan_Queue_Limits.thy ===== *)
theory Loan_Queue_Limits
  imports Loan_Limits
begin

text \<open>
  The decision and settlement of batches, the queue of submissions, the batches of receipts and the
  calls on contracts and agreements keep the contracts within their limits.
\<close>

section \<open>Deciding and settling batches of drawdowns\<close>

lemma batches_only: "within_limits db \<Longrightarrow> within_limits (db\<lparr>ld_batches := bs\<rparr>)"
  by (rule frame_ok_other) simp_all

lemma release_ok: "within_limits db \<Longrightarrow> within_limits (release_reservations p db)"
  by (rule frame_step_ok [OF _ release_frame])

lemma row_events_ok: "within_limits db \<Longrightarrow> within_limits (enqueue_row_events s rows db)"
  by (rule frame_ok_other) simp_all

lemma status_rows_ok:
  "within_limits db \<Longrightarrow> t \<noteq> ''DRAFT'' \<Longrightarrow>
   within_limits (db\<lparr>ld_draws := upd p (\<lambda>d. d\<lparr>dd_status := t, dd_version := dd_version d + 1\<rparr>) (ld_draws db)\<rparr>)"
  by (rule frame_step_ok [OF _ status_frame [where p = p and t = t]]) simp_all

lemma set_batch_row_status_eq:
  "set_batch_row_status db i a b v = Inr db1 \<Longrightarrow> \<exists>bs. db1 = db\<lparr>ld_batches := bs\<rparr>"
  by (auto simp: set_batch_row_status_def split: if_split_asm)

lemma set_batch_status_ok:
  assumes ok: "within_limits db" and t: "t \<noteq> ''DRAFT''"
  shows "within_limits (fst (set_batch_status db i a t reason v))"
proof (cases "bind_r (transition_ok workflow_machine a t reason) (\<lambda>_. set_batch_row_status db i a t v)")
  case (Inl e)
  then show ?thesis using ok by (simp add: set_batch_status_def)
next
  case (Inr db1)
  then obtain bs where "db1 = db\<lparr>ld_batches := bs\<rparr>" using set_batch_row_status_eq by (fastforce simp: bind_r_eq_Inr)
  then have ok1: "within_limits db1" using batches_only [OF ok] by simp
  show ?thesis unfolding set_batch_status_def Inr sum.case Let_def
    by (simp add: release_ok row_events_ok status_rows_ok [OF ok1 t])
qed

lemma resolve_batch_ok:
  assumes ok: "within_limits db"
  shows "within_limits (fst (resolve_batch db i decision reason v))"
proof -
  have "within_limits db1" if "draw_decision decision = Some t" "set_batch_status db i s t reason v = (db1, x)" for db1 s t x
    using set_batch_status_ok [OF ok, of t i s reason v] decision_not_draft [of decision t] that by simp
  then show ?thesis using ok unfolding resolve_batch_def
    by (auto split: sum.split option.split prod.split)
qed

lemma set_batch_posted_ok: "within_limits db \<Longrightarrow> within_limits (fst (set_batch_posted db i journal v))"
  unfolding set_batch_posted_def gates sum.case by (simp add: batches_only)

lemma post_draw_keys:
  "post_draw_row db i journal actor v = Inr (Some db1) \<Longrightarrow> map draw_key (ld_draws db1) = map draw_key (ld_draws db)"
  using post_draw_row_eq [of db i journal actor v db1] by (simp add: map_upd posted_row_def draw_key_def)

lemma settle_register_tx_same:
  "snd (settle_register_tx db i agreement amount journal actor v) \<noteq> Inr True \<Longrightarrow>
   fst (settle_register_tx db i agreement amount journal actor v) = db"
  unfolding settle_register_tx_def by (rule tx_unchanged)

lemma settle_register_tx_keys:
  assumes "settle_register_tx db i agreement amount journal actor v = (db1, x)"
  shows "map draw_key (ld_draws db1) = map draw_key (ld_draws db)"
proof (cases "x = Inr True")
  case True
  note e = assms [unfolded True]
  show ?thesis by (rule settle_register_tx_cases [OF e]) (simp add: post_draw_keys)
next
  case False
  then have "fst (settle_register_tx db i agreement amount journal actor v) = db"
    by (intro settle_register_tx_same) (simp add: assms)
  then show ?thesis using assms by simp
qed

lemma settle_complete_tx_same:
  "snd (settle_complete_tx db i contract agreement amount journal actor v) \<noteq> Inr True \<Longrightarrow>
   fst (settle_complete_tx db i contract agreement amount journal actor v) = db"
  unfolding settle_complete_tx_def by (rule tx_unchanged)

lemma settle_complete_tx_keys:
  assumes "settle_complete_tx db i contract agreement amount journal actor v = (db1, x)"
  shows "map draw_key (ld_draws db1) = map draw_key (ld_draws db)"
proof (cases "x = Inr True")
  case True
  note e = assms [unfolded True]
  show ?thesis by (rule settle_complete_tx_cases [OF e]) (simp add: post_draw_keys)
next
  case False
  then have "fst (settle_complete_tx db i contract agreement amount journal actor v) = db"
    by (intro settle_complete_tx_same) (simp add: assms)
  then show ?thesis using assms by simp
qed

lemma settle_register_rows_ok:
  assumes "within_limits db" "\<forall>d\<in>set ds. draw_key d \<in> draw_key ` set (ld_draws db)"
  shows "within_limits (fst (settle_register_rows db ds journal actor))"
  using assms
proof (induction ds arbitrary: db)
  case (Cons d ds)
  obtain db1 x where e: "settle_register_tx db (dd_id d) (dd_agreement d) (dd_amount d) journal actor 0 = (db1, x)" by fastforce
  obtain d0 where d0: "d0 \<in> set (ld_draws db)" "draw_key d0 = draw_key d" using Cons.prems(2) by fastforce
  have ok1: "within_limits db1"
    using settle_register_tx_ok [OF Cons.prems(1) d0(1), of "dd_id d" "dd_agreement d" "dd_amount d" journal actor 0] d0(2) e
    by (simp add: draw_key_def)
  have "draw_key ` set (ld_draws db1) = draw_key ` set (ld_draws db)"
    using arg_cong [OF settle_register_tx_keys [OF e], of set] by simp
  then have "within_limits (fst (settle_register_rows db1 ds journal actor))"
    using Cons.prems(2) by (intro Cons.IH [OF ok1]) simp
  then show ?case using ok1 by (cases x) (simp_all add: e)
qed simp

lemma settle_complete_rows_ok:
  assumes "within_limits db" "\<forall>d\<in>set ds. 0 \<le> dd_amount d"
  shows "within_limits (fst (settle_complete_rows db ds journal actor))"
  using assms
proof (induction ds arbitrary: db)
  case (Cons d ds)
  obtain db1 x where e: "settle_complete_tx db (dd_id d) (dd_contract d) (dd_agreement d) (dd_amount d) journal actor 0 = (db1, x)"
    by fastforce
  have ok1: "within_limits db1"
    using settle_complete_tx_ok [OF Cons.prems(1), of "dd_amount d" "dd_id d" "dd_contract d" "dd_agreement d" journal actor 0]
      Cons.prems(2) e by simp
  have "within_limits (fst (settle_complete_rows db1 ds journal actor))"
    using Cons.prems(2) by (intro Cons.IH [OF ok1]) simp
  then show ?case using ok1 by (cases x) (simp_all add: e)
qed simp

lemma contract_rows_ok:
  assumes ok: "within_limits db" and k: "\<And>c. contract_key (f c) = contract_key c"
  shows "within_limits (db\<lparr>ld_contracts := upd p f (ld_contracts db)\<rparr>)"
  by (rule frame_step_ok [OF ok frame_rows [where pc = p and fc = f and pr = "\<lambda>r. False" and fr = "\<lambda>r. r"
        and pd = "\<lambda>d. False" and fd = "\<lambda>d. d"]]) (simp_all add: k reservation_kept_def)

lemma close_contract_ok: "within_limits db \<Longrightarrow> within_limits (fst (close_contract_by_code db c))"
  unfolding close_contract_by_code_def gates sum.case by (simp add: contract_rows_ok contract_key_def)

lemma close_contracts_ok: "within_limits db \<Longrightarrow> within_limits (fst (close_contracts db cs))"
proof (induction cs arbitrary: db)
  case (Cons c cs)
  obtain db1 x where e: "close_contract_by_code db c = (db1, x)" by fastforce
  have "within_limits db1" using close_contract_ok [OF Cons.prems, of c] e by simp
  then show ?case using Cons.IH by (cases x) (simp_all add: e)
qed simp

lemma approve_batch_ok:
  "within_limits db \<Longrightarrow> approve_waiting_batch db b v = (db1, x) \<Longrightarrow> within_limits db1"
  using set_batch_status_ok [of db "''APPROVED''" "db_id b" "db_status b" "[]" v]
  by (simp add: approve_waiting_batch_def split: if_split_asm)

lemma settle_batch_register_ok:
  assumes ok: "within_limits db"
  shows "within_limits (fst (settle_batch_register db i journal actor v))"
proof -
  have two: "within_limits db2"
    if "within_limits db1" "settle_register_rows db1 (batch_rows db1 i) journal actor = (db2, x)" for db1 db2 x
    using settle_register_rows_ok [OF that(1), of "batch_rows db1 i" journal actor] that(2) by (simp add: batch_rows_def)
  show ?thesis using ok unfolding settle_batch_register_def
    by (auto split: sum.split prod.split dest: approve_batch_ok [OF ok] two [OF approve_batch_ok [OF ok]]
        intro!: set_batch_posted_ok)
qed

lemma settle_batch_complete_ok:
  assumes ok: "within_limits db"
  shows "within_limits (fst (settle_batch_complete db i journal actor v))"
proof -
  have two: "within_limits db2"
    if "within_limits db1" "settle_complete_rows db1 (batch_rows db1 i) journal actor = (db2, x)" for db1 db2 x
    using settle_complete_rows_ok [OF that(1), of "batch_rows db1 i" journal actor] that(2) limits_sound [OF that(1)]
    by (simp add: batch_rows_def sound_keys_def list_all_iff)
  have three: "within_limits db3" if "within_limits db2" "close_contracts db2 cs = (db3, x)" for db2 db3 cs x
    using close_contracts_ok [OF that(1), of cs] that(2) by simp
  show ?thesis using ok unfolding settle_batch_complete_def
    by (auto split: sum.split prod.split dest: approve_batch_ok [OF ok] two [OF approve_batch_ok [OF ok]]
        three [OF two [OF approve_batch_ok [OF ok]]] intro!: set_batch_posted_ok)
qed

lemma settle_batch_ok: "within_limits db \<Longrightarrow> within_limits (fst (settle_batch db i journal actor v))"
  unfolding settle_batch_def using settle_batch_register_ok settle_batch_complete_ok by (auto split: sum.split)

section \<open>The queue\<close>

lemma claim_ok: "within_limits db \<Longrightarrow> within_limits (fst (claim_submissions db n now))"
  unfolding claim_submissions_def Let_def by (simp add: frame_ok_other)

lemma complete_submission_ok: "within_limits db \<Longrightarrow> within_limits (fst (complete_submission db i case_id))"
  unfolding complete_submission_def Let_def by (auto simp: frame_ok_other)

lemma submissions_only: "within_limits db \<Longrightarrow> within_limits (db\<lparr>ld_submissions := ss\<rparr>)"
  by (rule frame_ok_other) simp_all

lemma history_ok: "within_limits db \<Longrightarrow> within_limits (batch_history i e a b db)"
  by (rule frame_ok_other) simp_all

text \<open>A batch that gives up makes its rows editable again and releases everything held for them.\<close>

lemma give_up_ok:
  assumes ok: "within_limits db" and s: "s = in_batch db i"
  shows "within_limits (release_reservations s (db\<lparr>ld_batches := bs,
      ld_draws := upd (\<lambda>d. dd_batch d = Some i \<and> dd_status d = ''PENDING_APPROVAL'')
        (\<lambda>d. d\<lparr>dd_status := ''DRAFT'', dd_version := dd_version d + 1\<rparr>) (ld_draws db)\<rparr>))" (is "within_limits ?db'")
proof (rule frame_step_ok [OF ok])
  have free: "\<not> held_for ?db' (dd_id d)" if "d \<in> set (ld_draws db)" "dd_batch d = Some i" for d
    using that by (auto simp: held_for_def s in_batch_def release_reservations_def upd_def)
  show "frame_step db ?db'"
    by (rule frame_rows [where pc = "\<lambda>c. False" and fc = "\<lambda>c. c"
          and pr = "\<lambda>r. s (rs_source r) \<and> rs_status r = ''HELD''" and fr = "\<lambda>r. r\<lparr>rs_status := ''RELEASED''\<rparr>"
          and pd = "\<lambda>d. dd_batch d = Some i \<and> dd_status d = ''PENDING_APPROVAL''"
          and fd = "\<lambda>d. d\<lparr>dd_status := ''DRAFT'', dd_version := dd_version d + 1\<rparr>"])
       (use free in \<open>auto simp: release_reservations_def draw_key_def released_kept\<close>)
qed

lemma fail_submission_ok:
  assumes ok: "within_limits db"
  shows "within_limits (fst (fail_submission db i cause tries now))"
proof (cases "find (processing i) (ld_submissions db)")
  case None
  then show ?thesis using ok by (simp add: fail_submission_def)
next
  case (Some s0)
  have ok1: "within_limits (db\<lparr>ld_submissions := ss\<rparr>)" for ss by (rule submissions_only [OF ok])
  show ?thesis unfolding fail_submission_def Some option.case Let_def
    using give_up_ok [OF ok1 refl] history_ok [OF ok1] history_ok [OF give_up_ok [OF ok1 refl]] by simp
qed

lemma process_submission_ok:
  assumes ok: "within_limits db"
  shows "within_limits (fst (process_submission w db i))"
proof -
  have "within_limits db1" if "complete_submission db i c = (db1, x)" for c db1 x
    using complete_submission_ok [OF ok, of i c] that by simp
  then show ?thesis using ok unfolding process_submission_def
    by (auto split: option.split sum.split prod.split)
qed

lemma process_items_ok: "within_limits db \<Longrightarrow> within_limits (process_items w db items now)"
proof (induction w db items now rule: process_items.induct)
  case (2 w db i attempts items now)
  obtain db1 x where e: "process_submission w db i = (db1, x)" by fastforce
  have "within_limits db1" using process_submission_ok [OF 2(3), of w i] e by simp
  then show ?case using 2(1) [OF e [symmetric]] 2(2) [OF e [symmetric]] fail_submission_ok e by (cases x) simp_all
qed simp

lemma process_outbox_ok: "within_limits db \<Longrightarrow> within_limits (process_outbox_once w db now)"
  unfolding process_outbox_once_def using claim_ok [of db claim_size now] process_items_ok by (auto split: prod.split)

end
