(* ===== verification/Loan_Books.thy ===== *)
theory Loan_Books
  imports Loan_Queue_Limits
begin

text \<open>
  The calls of the loan service as one datatype, a run as a list of calls, and what a run keeps: the
  limit of every contract.
\<close>

section \<open>Contracts and agreements\<close>

lemma code_char_no_space: "code_char c \<Longrightarrow> \<not> is_space c"
  by (auto simp: code_char_def code_start_def is_space_def Let_def)

lemma dropWhile_none: "list_all (\<lambda>c. \<not> p c) s \<Longrightarrow> dropWhile p s = s"
  by (cases s) simp_all

lemma code_pattern_trimmed:
  assumes "code_pattern s"
  shows "trim_space s = s"
proof -
  have "list_all code_char s" using assms by (auto simp: code_pattern_def code_char_def split: list.splits)
  then have a: "list_all (\<lambda>c. \<not> is_space c) s" using code_char_no_space by (auto simp: list_all_iff)
  then have "list_all (\<lambda>c. \<not> is_space c) (rev s)" by (simp add: list_all_iff)
  then show ?thesis by (simp add: trim_space_def dropWhile_none a)
qed

lemma find_append_one: "find p (xs @ [y]) = (case find p xs of None \<Rightarrow> if p y then Some y else None | Some x \<Rightarrow> Some x)"
  by (induction xs) simp_all

lemma backed_mono:
  "backed db r \<Longrightarrow> set (ld_draws db) \<subseteq> set (ld_draws db') \<Longrightarrow> set (ld_agreements db) \<subseteq> set (ld_agreements db') \<Longrightarrow> backed db' r"
  unfolding backed_def by blast

lemma create_contract_row_ok:
  assumes ok: "within_limits db" and amt: "0 < lc_amount c" "in64 (lc_amount c)" and tr: "trim_space (lc_code c) = lc_code c"
  shows "within_limits (fst (create_contract_row pgd db c))"
proof -
  have "within_limits (db\<lparr>ld_contracts := ld_contracts db @ [c\<lparr>lc_date := d, lc_maturity := m\<rparr>]\<rparr>)" (is "within_limits ?db'")
    if new: "\<not> (\<exists>x\<in>set (ld_contracts db). lc_code x = lc_code c)" for d m
  proof -
    have "sound_keys ?db'" using limits_sound [OF ok] new amt tr
      by (auto simp: sound_keys_def receipts_sound_def)
    moreover have "backed ?db' r" if "r \<in> set (ld_reservations db)" "rs_status r = ''HELD''" for r
      using that ok by (auto simp: within_limits_def intro: backed_mono [of db])
    moreover have "used_of ?db' x = used_of db x" for x
      by (simp add: used_of_def contract_outstanding_def contract_pending_def contract_held_def)
    moreover have "limit_of db x \<le> limit_of ?db' x" for x
      using amt by (auto simp: limit_of_def contract_by_code_def find_append_one split: option.split)
    ultimately show ?thesis using ok by (auto simp: within_limits_def) (meson order_trans)
  qed
  then show ?thesis using ok unfolding create_contract_row_def
    by (auto split: option.split)
qed

lemma create_contract_ok:
  assumes ok: "within_limits db" and amt: "in64 (lc_amount inp)"
  shows "within_limits (fst (create_contract pgd db i inp))"
proof -
  have "within_limits db1" if "\<not> lc_amount inp \<le> 0" "code_pattern (lc_code inp)"
    "create_contract_row pgd db (inp\<lparr>lc_id := i, lc_status := ''DRAFT'', lc_org := [], lc_case := None\<rparr>) = (db1, x)" for db1 x
    using create_contract_row_ok [OF ok, of "inp\<lparr>lc_id := i, lc_status := ''DRAFT'', lc_org := [], lc_case := None\<rparr>" pgd]
      that amt code_pattern_trimmed [OF that(2)] by simp
  then show ?thesis using ok unfolding create_contract_def
    by (auto split: prod.split sum.split)
qed

lemma workflow_case_ok: "within_limits db \<Longrightarrow> within_limits (fst (set_contract_workflow_case db i case_id))"
  unfolding set_contract_workflow_case_def Let_def by (simp add: contract_rows_ok contract_key_def)

lemma submit_contract_ok:
  assumes ok: "within_limits db"
  shows "within_limits (fst (submit_contract w db i))"
proof -
  have "within_limits db1" if "set_contract_workflow_case db j c = (db1, x)" for j c db1 x
    using workflow_case_ok [OF ok, of j c] that by simp
  then show ?thesis using ok unfolding submit_contract_def
    by (auto split: option.split sum.split prod.split)
qed

lemma set_contract_status_ok:
  assumes ok: "within_limits db"
  shows "within_limits (fst (set_contract_status db i s reason))"
proof -
  have "within_limits (fst (update_contract_status db j a b))" for j a b
    unfolding update_contract_status_def using ok by (simp add: contract_rows_ok contract_key_def)
  then have "within_limits db1" if "update_contract_status db j a b = (db1, x)" for j a b db1 x
    using that by (metis fst_conv)
  then show ?thesis using ok unfolding set_contract_status_def
    by (auto split: option.split sum.split prod.split)
qed

text \<open>A revision keeps the limits when no revised contract has more than the new amount in use.\<close>

definition revision_fits :: "loan_db \<Rightarrow> string \<Rightarrow> int \<Rightarrow> bool" where
  "revision_fits db i amount \<longleftrightarrow> in64 amount \<and> list_all (\<lambda>c. lc_id c \<noteq> i \<or> used_of db (lc_code c) \<le> amount) (ld_contracts db)"

lemma update_contract_row_ok:
  assumes ok: "within_limits db" and amt: "0 < amount" and fits: "revision_fits db i amount"
  shows "within_limits (fst (update_contract_row pgd db i amount cd md e))"
proof -
  define p :: "loan_contract \<Rightarrow> bool" where "p = (\<lambda>c. lc_id c = i \<and> lc_status c \<in> {''DRAFT'', ''PENDING_APPROVAL'', ''REJECTED''})"
  have "within_limits (db\<lparr>ld_contracts := upd p f (ld_contracts db)\<rparr>)" (is "within_limits ?db'")
    if f: "\<And>c. lc_code (f c) = lc_code c \<and> lc_amount (f c) = amount" for f :: "loan_contract \<Rightarrow> loan_contract"
  proof -
    have codes: "map lc_code (upd p f (ld_contracts db)) = map lc_code (ld_contracts db)" by (simp add: map_upd f)
    have rows: "0 < lc_amount c \<and> in64 (lc_amount c) \<and> trim_space (lc_code c) = lc_code c"
      if "c \<in> set (upd p f (ld_contracts db))" for c
      using that limits_sound [OF ok] amt fits
      by (auto simp: set_upd f sound_keys_def list_all_iff revision_fits_def split: if_split_asm)
    have sk: "sound_keys ?db'" using limits_sound [OF ok] rows codes
      by (simp add: sound_keys_def list_all_iff receipts_sound_def)
    have bk: "backed ?db' r" if "r \<in> set (ld_reservations db)" "rs_status r = ''HELD''" for r
      using that ok by (auto simp: within_limits_def intro: backed_mono [of db])
    have us: "used_of ?db' x = used_of db x" for x
      by (simp add: used_of_def contract_outstanding_def contract_pending_def contract_held_def)
    have fm: "find (\<lambda>c. lc_code c = x) (upd p f cs) = map_option (\<lambda>c. if p c then f c else c) (find (\<lambda>c. lc_code c = x) cs)"
      for x cs by (induction cs) (simp_all add: upd_def f)
    have "used_of db x \<le> limit_of ?db' x" for x
    proof (cases "contract_by_code db x")
      case None
      have l: "limit_of ?db' x = 0" using None by (simp add: limit_of_def contract_by_code_def fm)
      have "used_of db x \<le> limit_of db x" using ok by (simp add: within_limits_def)
      then show ?thesis using None unfolding l by (simp add: limit_of_def)
    next
      case (Some c)
      have c: "c \<in> set (ld_contracts db)" "lc_code c = x" using contract_row [OF Some] by simp_all
      have l: "limit_of ?db' x = lc_amount (if p c then f c else c)"
        using Some by (simp add: limit_of_def contract_by_code_def fm)
      have u: "used_of db x \<le> lc_amount c" using ok Some by (auto simp: within_limits_def limit_of_def split: option.splits)
      show ?thesis using u c fits unfolding l by (auto simp: f p_def revision_fits_def list_all_iff)
    qed
    then show ?thesis using sk bk us by (simp add: within_limits_def)
  qed
  then show ?thesis using ok unfolding update_contract_row_def Let_def p_def
    by (auto split: option.split)
qed

lemma update_contract_ok:
  assumes ok: "within_limits db" and fits: "revision_fits db i amount"
  shows "within_limits (fst (update_contract pgd first db i amount rate term cd md e))"
proof -
  have "within_limits db1" if "validate_contract_update first amount rate term cd md = Inr y"
    "update_contract_row pgd db i amount cd md e1 = (db1, x)" for y e1 db1 x
  proof -
    have "0 < amount" using that(1) by (auto simp: validate_contract_update_def split: if_split_asm)
    then show ?thesis using update_contract_row_ok [OF ok _ fits, of pgd cd md e1] that(2) by simp
  qed
  then show ?thesis using ok unfolding update_contract_def
    by (auto split: option.split sum.split prod.split loan_error.split)
qed

lemma create_agreement_ok:
  assumes ok: "within_limits db"
  shows "within_limits (fst (create_agreement pgd db inp amount dd md))"
proof -
  have "within_limits (fst (create_agreement_row pgd db a0 dd md))" if z: "la_outstanding a0 = 0" for a0
  proof -
    have "within_limits (db\<lparr>ld_agreements := ld_agreements db @ [a]\<rparr>)" (is "within_limits ?db'")
      if new: "\<not> (\<exists>x\<in>set (ld_agreements db). la_code x = la_code a)" and a: "la_outstanding a = 0" "la_pending a = 0" for a
    proof -
      have "sound_keys ?db'" using limits_sound [OF ok] new a by (auto simp: sound_keys_def receipts_sound_def)
      moreover have "backed ?db' r" if "r \<in> set (ld_reservations db)" "rs_status r = ''HELD''" for r
        using that ok by (auto simp: within_limits_def intro: backed_mono [of db])
      moreover have "used_of ?db' x = used_of db x" for x
        by (simp add: used_of_def contract_outstanding_def contract_pending_def contract_held_def a)
      moreover have "limit_of ?db' x = limit_of db x" for x by (simp add: limit_of_def contract_by_code_def)
      ultimately show ?thesis using ok by (simp add: within_limits_def)
    qed
    then show ?thesis using ok z by (simp add: create_agreement_row_def Let_def)
  qed
  then have "within_limits db1" if "create_agreement_row pgd db (inp\<lparr>la_outstanding := 0\<rparr>) dd md = (db1, x)" for db1 x
    using that by (metis fst_conv loan_agreement.select_convs(3) loan_agreement.surjective loan_agreement.update_convs(3))
  then show ?thesis using ok unfolding create_agreement_def
    by (auto split: prod.split sum.split)
qed

section \<open>Batches of receipts\<close>

lemma receipt_rows_ok:
  assumes ok: "within_limits db" and f: "\<And>r. rc_principal (f r) = rc_principal r"
  shows "within_limits (db\<lparr>ld_receipt_batches := bs, ld_receipts := upd p f (ld_receipts db)\<rparr>)"
  by (rule books_receipts [OF ok]; simp?) (rule receipts_sound_upd [OF limits_receipts [OF ok], of f _ p], simp_all add: f)

lemma receipt_batches_only: "within_limits db \<Longrightarrow> within_limits (db\<lparr>ld_receipt_batches := bs\<rparr>)"
  by (rule frame_ok_other) simp_all

lemma create_receipt_batch_tx_ok:
  "within_limits db \<Longrightarrow> create_receipt_batch_tx pgd pgu db b rows = Inr db1 \<Longrightarrow> within_limits db1"
  by (auto simp: create_receipt_batch_tx_def split: if_split_asm option.splits
      intro: insert_receipts_ok [OF receipt_batches_only])

lemma set_receipt_batch_case_ok:
  "within_limits db \<Longrightarrow> set_receipt_batch_case db i c = (db1, x) \<Longrightarrow> within_limits db1"
  by (auto simp: set_receipt_batch_case_def receipt_batches_only split: if_split_asm)

lemma set_receipt_batch_status_ok:
  assumes ok: "within_limits db" and e: "set_receipt_batch_status db i a b reason v = (db1, x)"
  shows "within_limits db1"
proof -
  have "within_limits (fst (set_receipt_batch_status db i a b reason v))"
    unfolding set_receipt_batch_status_def using ok by (auto simp: receipt_rows_ok split: sum.split)
  then show ?thesis by (simp add: e)
qed

lemma submit_receipt_batch_ok:
  assumes ok: "within_limits db"
  shows "within_limits (fst (submit_receipt_batch w db b v))"
  using ok unfolding submit_receipt_batch_def
  by (auto split: option.split sum.split prod.split dest: set_receipt_batch_case_ok [OF ok]
      set_receipt_batch_status_ok [OF set_receipt_batch_case_ok [OF ok]])

lemma create_receipt_batch_ok:
  assumes ok: "within_limits db"
  shows "within_limits (fst (create_receipt_batch pgd pgu w db hex actor d m lines v))"
proof -
  have "within_limits db2" if "within_limits db1" "submit_receipt_batch w db1 b v = (db2, x)" for db1 b db2 x
    using submit_receipt_batch_ok [OF that(1), of w b v] that(2) by simp
  then show ?thesis using ok unfolding create_receipt_batch_def Let_def
    by (auto split: sum.split prod.split dest: create_receipt_batch_tx_ok [OF ok])
qed

lemma resolve_receipt_batch_ok:
  assumes ok: "within_limits db"
  shows "within_limits (fst (resolve_receipt_batch pgu db i decision reason v))"
  using ok unfolding resolve_receipt_batch_def
  by (auto split: option.split sum.split prod.split dest: set_receipt_batch_status_ok [OF ok])

lemma settle_receipt_row_ok:
  assumes ok: "within_limits db" and p: "0 \<le> rc_principal r"
  shows "within_limits (fst (settle_receipt_row db r journal actor))"
proof -
  have one: "within_limits db1" if "set_receipt_case_and_journal db i a b c = (db1, x)" for i a b c db1 x
    using set_receipt_case_ok [OF ok, of i a b c] that by simp
  have two: "within_limits db2" if "within_limits db1" "set_receipt_status db1 i s t act rs v = (db2, x)" for db1 i s t act rs v db2 x
    using set_receipt_status_ok [OF that(1), of i s t act rs v] that(2) by simp
  show ?thesis using ok unfolding settle_receipt_row_def
    by (auto split: option.split sum.split prod.split dest: one two [OF one] update_collected_ok [OF two [OF one] p])
qed

lemma settle_receipt_rows_ok:
  assumes "within_limits db" "\<forall>r\<in>set rs. 0 \<le> rc_principal r"
  shows "within_limits (fst (settle_receipt_rows db rs journal actor))"
  using assms
proof (induction rs arbitrary: db)
  case (Cons r rs)
  obtain db1 x where e: "settle_receipt_row db r journal actor = (db1, x)" by fastforce
  have ok1: "within_limits db1" using settle_receipt_row_ok [OF Cons.prems(1), of r journal actor] Cons.prems(2) e by simp
  have "within_limits (fst (settle_receipt_rows db1 rs journal actor))"
    using Cons.prems(2) by (intro Cons.IH [OF ok1]) simp
  then show ?case using ok1 by (cases x) (simp_all add: e)
qed simp

lemma receipt_batch_posted_ok: "within_limits db \<Longrightarrow> within_limits (fst (set_receipt_batch_posted db i journal v))"
  unfolding set_receipt_batch_posted_def gates sum.case by (simp add: receipt_batches_only)

lemma settle_receipt_batch_ok:
  assumes ok: "within_limits db"
  shows "within_limits (fst (settle_receipt_batch pgu db i journal actor v))"
proof -
  have one: "within_limits db1"
    if "(if cb_status b = ''PENDING_APPROVAL'' then set_receipt_batch_status db i (cb_status b) ''APPROVED'' [] v
         else (db, Inr ())) = (db1, x)" for b db1 x
    using that ok by (auto split: if_split_asm dest: set_receipt_batch_status_ok [OF ok])
  have two: "within_limits db2"
    if "within_limits db1" "settle_receipt_rows db1 (receipt_batch_rows db1 i) journal actor = (db2, x)" for db1 db2 x
  proof -
    have "\<forall>r\<in>set (receipt_batch_rows db1 i). 0 \<le> rc_principal r"
      using limits_receipts [OF that(1)] by (auto simp: receipts_sound_def list_all_iff receipt_batch_rows_def)
    then show ?thesis using settle_receipt_rows_ok [OF that(1), of "receipt_batch_rows db1 i" journal actor] that(2) by simp
  qed
  show ?thesis
  proof (cases "receipt_batch_by_id pgu db i")
    case (Inl e)
    then show ?thesis using ok by (simp add: settle_receipt_batch_def)
  next
    case (Inr b)
    obtain db1 x where e: "(if cb_status b = ''PENDING_APPROVAL'' then set_receipt_batch_status db i (cb_status b) ''APPROVED'' [] v
         else (db, Inr ())) = (db1, x)" by fastforce
    obtain db2 y where e2: "settle_receipt_rows db1 (receipt_batch_rows db1 i) journal actor = (db2, y)" by fastforce
    show ?thesis using ok one [OF e] two [OF one [OF e] e2] receipt_batch_posted_ok [OF two [OF one [OF e] e2]]
      unfolding settle_receipt_batch_def Inr sum.case e prod.case e2 by (auto split: sum.split)
  qed
qed

end
