(* ===== verification/Loan_Adjustments.thy ===== *)
theory Loan_Adjustments
  imports Loan_Calls
begin

text \<open>
  The adjustments of a loan (apps/loan-service/internal/service/adjustment_service.go with
  adjustment_repo.go and the list of kinds of libs/go/arda-grpc/client/loan): eleven kinds of request
  that go through one workflow and of which some change an agreement when they are approved. The
  state has the agreement's outstanding and collected amounts, its debt group and status. A rate change,
  a restructure or a waiver writes the rate, the maturity and the repayment schedule instead, which no
  modelled call reads and the state leaves out: whether those statements fail, and with which error,
  is a parameter.
\<close>

section \<open>Kinds\<close>

definition code_invalid_json :: string where "code_invalid_json = ''validation.invalid_json''"

definition adjustment_kinds :: "string list" where
  "adjustment_kinds =
     [''debt-change'', ''rate-change'', ''restructure'', ''waiver'', ''writeoff'', ''recovery'', ''fund-check'',
      ''revenue-allocation'', ''vfu-fee-allocation'', ''off-balance-export'', ''mortgage-adjust'']"

text \<open>Every kind has a table of its own; a row of the model carries its kind.\<close>

definition resolve_kind :: "string \<Rightarrow> string + unit" where
  "resolve_kind kind = (if kind \<in> set adjustment_kinds then Inr () else Inl code_not_found)"

definition case_type_for_kind :: "string \<Rightarrow> string" where
  "case_type_for_kind kind =
     ''LNM_'' @ to_upper (map (\<lambda>c. if c = CHR ''-'' then CHR ''_'' else c) kind) @ ''_V2''"

definition kind_short_prefix :: "string \<Rightarrow> string" where
  "kind_short_prefix kind = ''lnm'' @ takeWhile (\<lambda>c. c \<noteq> CHR ''-'') kind"

section \<open>Statements\<close>

definition adjustment_by_id :: "loan_db \<Rightarrow> string \<Rightarrow> string \<Rightarrow> adjustment option" where
  "adjustment_by_id db kind i = find (\<lambda>a. aj_kind a = kind \<and> aj_id a = i) (ld_adjustments db)"

definition create_adjustment_row ::
  "(string \<Rightarrow> string option) \<Rightarrow> loan_db \<Rightarrow> adjustment \<Rightarrow> loan_db \<times> (loan_error + unit)" where
  "create_adjustment_row pgd db a =
     (if adjustment_by_id db (aj_kind a) (aj_id a) \<noteq> None then (db, Inl Db_Error)
      else case (case aj_date a of None \<Rightarrow> Some None | Some d \<Rightarrow> map_option Some (pgd d)) of
        None \<Rightarrow> (db, Inl Db_Error)
      | Some date \<Rightarrow>
          (db\<lparr>ld_adjustments := ld_adjustments db @
             [a\<lparr>aj_date := date, aj_case := None, aj_note := None, aj_decided_by := None\<rparr>]\<rparr>, Inr ()))"

definition adjustment_guard :: "string \<Rightarrow> string \<Rightarrow> string \<Rightarrow> adjustment \<Rightarrow> bool" where
  "adjustment_guard kind i status a \<longleftrightarrow> aj_kind a = kind \<and> aj_id a = i \<and> aj_status a = status"

definition set_adjustment_workflow_case ::
  "loan_db \<Rightarrow> string \<Rightarrow> string \<Rightarrow> string \<Rightarrow> loan_db \<times> (loan_error + unit)" where
  "set_adjustment_workflow_case db kind i case_id =
     (if \<exists>a\<in>set (ld_adjustments db). adjustment_guard kind i ''DRAFT'' a
      then (db\<lparr>ld_adjustments := upd (adjustment_guard kind i ''DRAFT'')
              (\<lambda>a. a\<lparr>aj_case := Some case_id, aj_status := ''PENDING''\<rparr>) (ld_adjustments db)\<rparr>, Inr ())
      else (db, Inl Not_Found))"

text \<open>
  What an approved adjustment does. A write-off and a recovery take their amount off what is
  outstanding, \<open>GREATEST(outstanding - amount, 0)\<close>; a write-off that leaves nothing ends the agreement,
  and a recovery counts as collected principal. An update that finds no agreement is no error.
\<close>

definition write_off :: "int \<Rightarrow> loan_agreement \<Rightarrow> loan_agreement" where
  "write_off amount a =
     a\<lparr>la_outstanding := max (la_outstanding a - amount) 0,
       la_status := (if max (la_outstanding a - amount) 0 = 0 then ''CLOSED'' else la_status a)\<rparr>"

definition recover :: "int \<Rightarrow> loan_agreement \<Rightarrow> loan_agreement" where
  "recover amount a =
     a\<lparr>la_outstanding := max (la_outstanding a - amount) 0, la_coln_principal := la_coln_principal a + amount\<rparr>"

definition adjust_agreement ::
  "loan_db \<Rightarrow> string \<Rightarrow> int \<Rightarrow> (loan_agreement \<Rightarrow> loan_agreement) \<Rightarrow> loan_error + loan_db" where
  "adjust_agreement db agreement amount f =
     (if \<exists>a\<in>set (ld_agreements db). la_code a = agreement \<and>
         \<not> (in64 (la_outstanding a - amount) \<and> in64 (la_coln_principal (f a)))
      then Inl Db_Error
      else Inr (db\<lparr>ld_agreements := upd (\<lambda>a. la_code a = agreement) f (ld_agreements db)\<rparr>))"

definition payload_string :: "adjustment \<Rightarrow> string \<Rightarrow> string" where
  "payload_string a key = (case map_of (aj_payload a) key of Some (P_Text s) \<Rightarrow> trim_space s | _ \<Rightarrow> [])"

definition apply_adjustment_side_effect ::
  "(adjustment \<Rightarrow> loan_error option) \<Rightarrow> loan_db \<Rightarrow> adjustment \<Rightarrow> loan_error + loan_db" where
  "apply_adjustment_side_effect rest db a =
     (let kind = aj_kind a in
      case aj_agreement a of
        None \<Rightarrow> Inr db
      | Some agreement \<Rightarrow>
        if agreement = [] then Inr db
        else if kind = ''debt-change'' then
          (let to_group = payload_string a ''to_debt_group_code'' in
           if to_group = [] then Inr db
           else Inr (db\<lparr>ld_agreements := upd (\<lambda>x. la_code x = agreement) (\<lambda>x. x\<lparr>la_group := to_group\<rparr>)
                  (ld_agreements db)\<rparr>))
        else if kind = ''writeoff'' then
          (case aj_amount a of
             None \<Rightarrow> Inr db | Some amount \<Rightarrow> adjust_agreement db agreement amount (write_off amount))
        else if kind = ''recovery'' then
          (case aj_amount a of
             None \<Rightarrow> Inr db | Some amount \<Rightarrow> adjust_agreement db agreement amount (recover amount))
        else if kind \<in> {''rate-change'', ''restructure'', ''waiver''} then
          (case rest a of Some e \<Rightarrow> Inl e | None \<Rightarrow> Inr db)
        else Inr db)"

text \<open>
  A decision is applied to a PENDING row with its effect in one transaction; when no row is pending,
  a decision that has already been taken is a success.
\<close>

definition resolve_adjustment_tx ::
  "(adjustment \<Rightarrow> loan_error option) \<Rightarrow> loan_db \<Rightarrow> string \<Rightarrow> string \<Rightarrow> string \<Rightarrow> string \<Rightarrow> string \<Rightarrow> loan_db \<times> (loan_error + unit)" where
  "resolve_adjustment_tx rest db kind i decision decided_by note =
     (case adjustment_decision_status decision of
        Inl _ \<Rightarrow> (db, Inl Db_Error)
      | Inr status \<Rightarrow>
        (case find (adjustment_guard kind i ''PENDING'') (ld_adjustments db) of
           None \<Rightarrow>
             (case adjustment_by_id db kind i of
                None \<Rightarrow> (db, Inl Not_Found)
              | Some a \<Rightarrow>
                (case check_adjustment_replay (aj_status a) status of
                   Inl _ \<Rightarrow> (db, Inl Not_Pending) | Inr _ \<Rightarrow> (db, Inr ())))
         | Some a \<Rightarrow>
           let f = (\<lambda>a. a\<lparr>aj_status := status, aj_decided_by := Some decided_by, aj_note := Some note\<rparr>);
               db1 = db\<lparr>ld_adjustments := upd (adjustment_guard kind i ''PENDING'') f (ld_adjustments db)\<rparr>
           in if status \<noteq> ''ACTIVE'' then (db1, Inr ())
              else case apply_adjustment_side_effect rest db1 (f a) of
                Inl e \<Rightarrow> (db, Inl e) | Inr db2 \<Rightarrow> (db2, Inr ())))"

section \<open>Calls\<close>

text \<open>What a kind asks of its request; \<open>payload\<close> is \<open>None\<close> when it is not a JSON object.\<close>

definition validate_kind_payload ::
  "string \<Rightarrow> adjustment \<Rightarrow> (string \<times> payload_value) list option \<Rightarrow> string + (string \<times> payload_value) list" where
  "validate_kind_payload kind inp payload0 =
     (case payload0 of
        None \<Rightarrow> Inl code_invalid_json
      | Some payload \<Rightarrow>
        let has = (\<lambda>key. map_of payload key \<noteq> None \<and> map_of payload key \<noteq> Some P_Null);
            missing =
              (if kind = ''debt-change'' then \<not> has ''to_debt_group_code''
               else if kind = ''rate-change'' then \<not> has ''new_rate''
               else if kind = ''restructure'' then \<not> has ''new_term'' \<or> \<not> has ''new_maturity_date''
               else if kind = ''waiver'' then aj_amount inp = None \<and> \<not> has ''waiver_percent''
               else if kind = ''writeoff'' then aj_amount inp = None \<or> \<not> has ''reason''
               else if kind = ''recovery'' then aj_amount inp = None \<or> aj_agreement inp = None
               else if kind = ''fund-check'' then \<not> has ''result''
               else if kind = ''revenue-allocation'' \<or> kind = ''vfu-fee-allocation'' then aj_amount inp = None
               else if kind = ''off-balance-export'' then \<not> has ''reason''
               else False)
        in if missing then Inl code_required else Inr payload)"

definition create_adjustment ::
  "(string \<Rightarrow> string option) \<Rightarrow> loan_db \<Rightarrow> string \<Rightarrow> string \<Rightarrow> string \<Rightarrow> adjustment \<Rightarrow> (string \<times> payload_value) list option \<Rightarrow>
   loan_db \<times> (string + string)" where
  "create_adjustment pgd db hex kind created_by inp payload0 =
     (case resolve_kind kind of
        Inl e \<Rightarrow> (db, Inl e)
      | Inr _ \<Rightarrow>
        if trim_space (aj_contract inp) = [] \<or> \<not> code_pattern (aj_contract inp) then (db, Inl code_required)
        else case validate_kind_payload kind inp payload0 of
          Inl e \<Rightarrow> (db, Inl e)
        | Inr payload \<Rightarrow>
          let i = kind_short_prefix kind @ ''_'' @ hex in
          (case create_adjustment_row pgd db (inp\<lparr>aj_kind := kind, aj_id := i, aj_payload := payload,
               aj_status := ''DRAFT'', aj_created_by := created_by\<rparr>) of
             (db1, Inl e) \<Rightarrow> (db1, Inl (map_repo_error e)) | (db1, Inr _) \<Rightarrow> (db1, Inr i)))"

definition get_adjustment :: "loan_db \<Rightarrow> string \<Rightarrow> string \<Rightarrow> string + adjustment" where
  "get_adjustment db kind i =
     (case resolve_kind kind of
        Inl e \<Rightarrow> Inl e
      | Inr _ \<Rightarrow>
        (case adjustment_by_id db kind i of None \<Rightarrow> Inl (map_repo_error Not_Found) | Some a \<Rightarrow> Inr a))"

definition submit_adjustment ::
  "loan_workflow option \<Rightarrow> loan_db \<Rightarrow> string \<Rightarrow> string \<Rightarrow> loan_db \<times> (string + adjustment)" where
  "submit_adjustment workflow db kind i =
     (case resolve_kind kind of
        Inl e \<Rightarrow> (db, Inl e)
      | Inr _ \<Rightarrow>
        (case workflow of
           None \<Rightarrow> (db, Inl code_internal)
         | Some w \<Rightarrow>
           (case get_adjustment db kind i of
              Inl e \<Rightarrow> (db, Inl e)
            | Inr a \<Rightarrow>
              if aj_status a \<noteq> ''DRAFT'' then (db, Inl code_invalid_input)
              else case start_case w (case_type_for_kind kind) (aj_id a) of
                Inl e \<Rightarrow> (db, Inl e)
              | Inr (case_id, _) \<Rightarrow>
                (case set_adjustment_workflow_case db kind (aj_id a) case_id of
                   (db1, Inl e) \<Rightarrow> (db1, Inl (map_repo_error e))
                 | (db1, Inr _) \<Rightarrow> (db1, get_adjustment db1 kind i)))))"

definition check_adjustment :: "loan_db \<Rightarrow> string \<Rightarrow> string \<Rightarrow> bool" where
  "check_adjustment db kind i =
     (case get_adjustment db kind i of Inl _ \<Rightarrow> False | Inr a \<Rightarrow> aj_status a = ''PENDING'')"

definition resolve_adjustment ::
  "(adjustment \<Rightarrow> loan_error option) \<Rightarrow> loan_db \<Rightarrow> string \<Rightarrow> string \<Rightarrow> string \<Rightarrow> string \<Rightarrow> string \<Rightarrow> loan_db \<times> (string + unit)" where
  "resolve_adjustment rest db kind i decision decided_by note =
     (case resolve_kind kind of
        Inl e \<Rightarrow> (db, Inl e)
      | Inr _ \<Rightarrow>
        (case resolve_adjustment_tx rest db kind i decision decided_by note of
           (db1, Inl e) \<Rightarrow> (db1, Inl (map_repo_error e)) | (db1, Inr _) \<Rightarrow> (db1, Inr ())))"

section \<open>Adjustments and the limit\<close>

text \<open>
  The service does not look at the sign of the amount: a negative write-off or recovery adds to what
  is outstanding.
\<close>

definition adjustment_fits :: "loan_db \<Rightarrow> string \<Rightarrow> string \<Rightarrow> bool" where
  "adjustment_fits db kind i \<longleftrightarrow>
     (kind = ''writeoff'' \<or> kind = ''recovery'' \<longrightarrow>
       list_all (\<lambda>a. case aj_amount a of None \<Rightarrow> True | Some m \<Rightarrow> 0 \<le> m)
         [a \<leftarrow> ld_adjustments db. aj_kind a = kind \<and> aj_id a = i])"

lemma adjustments_ok: "within_limits db \<Longrightarrow> within_limits (db\<lparr>ld_adjustments := xs\<rparr>)"
  using books_receipts [of db "db\<lparr>ld_adjustments := xs\<rparr>"] limits_receipts [of db] by (simp add: receipts_sound_def)

lemma create_adjustment_ok:
  "within_limits db \<Longrightarrow> within_limits (fst (create_adjustment pgd db hex kind user inp payload))"
  by (auto simp: create_adjustment_def create_adjustment_row_def Let_def adjustments_ok
      split: sum.split option.split prod.split)

lemma submit_adjustment_ok: "within_limits db \<Longrightarrow> within_limits (fst (submit_adjustment w db kind i))"
  by (auto simp: submit_adjustment_def set_adjustment_workflow_case_def adjustments_ok
      split: sum.split option.split prod.split if_split_asm)

lemma agreements_upd_ok:
  assumes ok: "within_limits db"
    and f: "\<And>a. 0 \<le> la_outstanding a \<Longrightarrow> 0 \<le> la_pending a \<Longrightarrow>
      agreement_kept a (f a) \<and> la_outstanding (f a) \<le> la_outstanding a \<and> la_pending (f a) = la_pending a"
  shows "within_limits (db\<lparr>ld_agreements := upd (\<lambda>a. la_code a = agreement) f (ld_agreements db)\<rparr>)"
proof (cases "\<exists>a\<in>set (ld_agreements db). la_code a = agreement")
  case True
  then obtain a where a: "a \<in> set (ld_agreements db)" "la_code a = agreement" by blast
  have "0 \<le> la_outstanding a" "0 \<le> la_pending a"
    using ok a(1) by (auto simp: within_limits_def sound_keys_def list_all_iff)
  then show ?thesis using shrink_move [OF ok a, of f] f by simp
next
  case False
  then show ?thesis using ok by (simp add: upd_none)
qed

lemma side_effect_ok:
  assumes ok: "within_limits db" and e: "apply_adjustment_side_effect rest db a = Inr db1"
    and m: "\<And>m. aj_kind a = ''writeoff'' \<or> aj_kind a = ''recovery'' \<Longrightarrow> aj_amount a = Some m \<Longrightarrow> 0 \<le> m"
  shows "within_limits db1"
proof -
  have group: "within_limits (db\<lparr>ld_agreements := upd (\<lambda>x. la_code x = c) (\<lambda>x. x\<lparr>la_group := g\<rparr>) (ld_agreements db)\<rparr>)" for c g
    by (rule agreements_upd_ok [OF ok]) (simp add: agreement_kept_def)
  have less: "within_limits db2" if "adjust_agreement db c n f = Inr db2" "0 \<le> n" "f = write_off n \<or> f = recover n" for c n f db2
  proof -
    have "db2 = db\<lparr>ld_agreements := upd (\<lambda>a. la_code a = c) f (ld_agreements db)\<rparr>"
      using that(1) by (simp add: adjust_agreement_def split: if_split_asm)
    then show ?thesis
      using agreements_upd_ok [OF ok, of f c] that(2,3) by (auto simp: agreement_kept_def write_off_def recover_def)
  qed
  show ?thesis
  proof (cases "aj_kind a = ''writeoff'' \<or> aj_kind a = ''recovery''")
    case True
    then show ?thesis using e ok m less
      by (auto simp: apply_adjustment_side_effect_def Let_def split: option.splits if_split_asm)
  next
    case False
    then show ?thesis using e ok group
      by (auto simp: apply_adjustment_side_effect_def Let_def split: option.splits if_split_asm)
  qed
qed

lemma resolve_adjustment_ok:
  assumes ok: "within_limits db" and fits: "adjustment_fits db kind i"
  shows "within_limits (fst (resolve_adjustment rest db kind i decision user note))"
proof -
  have "within_limits (fst (resolve_adjustment_tx rest db kind i decision user note))"
  proof (cases "find (adjustment_guard kind i ''PENDING'') (ld_adjustments db)")
    case (Some a)
    then have a: "a \<in> set (ld_adjustments db)" "aj_kind a = kind" "aj_id a = i"
      using find_Some_in [OF Some] by (auto simp: adjustment_guard_def)
    have pos: "0 \<le> m" if "kind = ''writeoff'' \<or> kind = ''recovery''" "aj_amount a = Some m" for m
      using fits a that by (force simp: adjustment_fits_def list_all_iff)
    have eff: "within_limits db2"
      if "apply_adjustment_side_effect rest (db\<lparr>ld_adjustments := xs\<rparr>)
        (a\<lparr>aj_status := st, aj_decided_by := Some user, aj_note := Some note\<rparr>) = Inr db2" for xs st db2
      by (rule side_effect_ok [OF adjustments_ok [OF ok] that]) (use pos a in auto)
    then show ?thesis using ok
      by (auto simp: resolve_adjustment_tx_def Some Let_def adjustments_ok split: sum.split)
  qed (use ok in \<open>auto simp: resolve_adjustment_tx_def split: sum.split option.split\<close>)
  then show ?thesis using ok by (auto simp: resolve_adjustment_def split: sum.split prod.split)
qed

section \<open>A decision is applied once\<close>

lemma side_effect_rows [simp]:
  "apply_adjustment_side_effect rest db a = Inr db1 \<Longrightarrow> ld_adjustments db1 = ld_adjustments db"
  by (auto simp: apply_adjustment_side_effect_def adjust_agreement_def Let_def split: option.splits if_split_asm)

lemma decided_gone:
  "(\<And>a. aj_status (f a) \<noteq> ''PENDING'') \<Longrightarrow>
   find (adjustment_guard kind i ''PENDING'') (upd (adjustment_guard kind i ''PENDING'') f xs) = None"
  by (induction xs) (auto simp: upd_def adjustment_guard_def)

text \<open>The retry of a decision that has been applied answers success and changes nothing, whatever the parameter is then.\<close>

theorem adjustment_applied_once:
  assumes tx: "resolve_adjustment_tx rest db kind i decision user note = (db1, Inr ())"
    and keys: "distinct (map (\<lambda>a. (aj_kind a, aj_id a)) (ld_adjustments db))"
  shows "resolve_adjustment_tx rest2 db1 kind i decision user2 note2 = (db1, Inr ())"
proof (cases "find (adjustment_guard kind i ''PENDING'') (ld_adjustments db)")
  case None
  then have "db1 = db" using tx by (auto simp: resolve_adjustment_tx_def split: sum.splits option.splits)
  then show ?thesis using tx None by (auto simp: resolve_adjustment_tx_def split: sum.splits option.splits)
next
  case (Some a)
  then have a: "a \<in> set (ld_adjustments db)" "aj_kind a = kind" "aj_id a = i" "adjustment_guard kind i ''PENDING'' a"
    using find_Some_in [OF Some] by (auto simp: adjustment_guard_def)
  obtain st where st: "adjustment_decision_status decision = Inr st"
    using tx by (cases "adjustment_decision_status decision") (auto simp: resolve_adjustment_tx_def)
  then have np: "st \<noteq> ''PENDING''" by (auto simp: adjustment_decision_status_def Let_def split: if_split_asm)
  let ?f = "\<lambda>a. a\<lparr>aj_status := st, aj_decided_by := Some user, aj_note := Some note\<rparr>"
  have rows: "ld_adjustments db1 = upd (adjustment_guard kind i ''PENDING'') ?f (ld_adjustments db)"
    using tx by (auto simp: resolve_adjustment_tx_def st Some Let_def split: if_split_asm sum.splits)
  have "find (adjustment_guard kind i ''PENDING'') (ld_adjustments db1) = None"
    unfolding rows by (rule decided_gone) (simp add: np)
  moreover have "find (\<lambda>a. aj_kind a = kind \<and> aj_id a = i) (ld_adjustments db) = Some a"
  proof -
    obtain b where b: "find (\<lambda>a. aj_kind a = kind \<and> aj_id a = i) (ld_adjustments db) = Some b"
      using a(1-3) find_None_iff [of "\<lambda>a. aj_kind a = kind \<and> aj_id a = i" "ld_adjustments db"] by (metis not_None_eq)
    then have "b \<in> set (ld_adjustments db)" "aj_kind b = kind \<and> aj_id b = i" using find_Some_in [OF b] by simp_all
    moreover have "inj_on (\<lambda>a. (aj_kind a, aj_id a)) (set (ld_adjustments db))" using keys by (simp add: distinct_map)
    ultimately have "b = a" using inj_onD [of "\<lambda>a. (aj_kind a, aj_id a)" _ b a] a(1-3) by simp
    then show ?thesis using b by simp
  qed
  ultimately show ?thesis
    using a(4) by (simp add: resolve_adjustment_tx_def st adjustment_by_id_def rows find_upd check_adjustment_replay_def)
qed

end
