(* ===== verification/Loan_Runs.thy ===== *)
theory Loan_Runs
  imports Loan_Books Loan_Adjustments
begin

text \<open>
  The calls of the loan service as one datatype, and a run as a list of calls on the rows of a tenant
  that starts with nothing. Every call carries what it got from outside: the answers of the workflow
  service, the time and the random part of an id.
\<close>

section \<open>Calls\<close>

datatype loan_call =
    Create_Contract string loan_contract
  | Submit_Contract "loan_workflow option" string
  | Set_Contract_Status string string string
  | Update_Contract bool string int rat int string string string
  | Create_Agreement loan_agreement int string string
  | Create_Draw string draw_input
  | Submit_Draw "loan_workflow option" string nat int
  | Resolve_Draw nat string string string int
  | Settle_Draw nat string string int
  | Create_Receipt string receipt
  | Submit_Receipt "loan_workflow option" string nat int
  | Resolve_Receipt nat string string string int
  | Settle_Receipt nat string string int
  | Create_Receipt_Batch "loan_workflow option" string string string string "receipt_line list" int
  | Resolve_Receipt_Batch string string string int
  | Settle_Receipt_Batch string string string int
  | Create_Batch_Register string string string "batch_input list"
  | Create_Batch_Complete string "nat option" string string "batch_input list"
  | Update_Draft string nat int string string "batch_input list"
  | Cancel_Draft nat int
  | Submit_Batch nat int int
  | Resolve_Batch nat string string int
  | Settle_Batch nat string string int
  | Process_Outbox "loan_workflow option" int
  | Create_Adjustment string string string adjustment "(string \<times> payload_value) list option"
  | Submit_Adjustment "loan_workflow option" string string
  | Resolve_Adjustment "adjustment \<Rightarrow> loan_error option" string string string string string

fun run_call :: "(string \<Rightarrow> string option) \<Rightarrow> (string \<Rightarrow> bool) \<Rightarrow> loan_db \<Rightarrow> loan_call \<Rightarrow> loan_db" where
  "run_call pgd pgu db (Create_Contract i inp) = fst (create_contract pgd db i inp)"
| "run_call pgd pgu db (Submit_Contract w i) = fst (submit_contract w db i)"
| "run_call pgd pgu db (Set_Contract_Status i s r) = fst (set_contract_status db i s r)"
| "run_call pgd pgu db (Update_Contract f i m r t cd md e) = fst (update_contract pgd f db i m r t cd md e)"
| "run_call pgd pgu db (Create_Agreement a m dd md) = fst (create_agreement pgd db a m dd md)"
| "run_call pgd pgu db (Create_Draw u inp) = fst (create_draw pgd db u inp)"
| "run_call pgd pgu db (Submit_Draw w u i v) = fst (submit_draw w db u i v)"
| "run_call pgd pgu db (Resolve_Draw i d u r v) = fst (resolve_draw db i d u r v)"
| "run_call pgd pgu db (Settle_Draw i j u v) = fst (settle_draw db i j u v)"
| "run_call pgd pgu db (Create_Receipt u inp) = fst (create_receipt pgd db u inp)"
| "run_call pgd pgu db (Submit_Receipt w u i v) = fst (submit_receipt w db u i v)"
| "run_call pgd pgu db (Resolve_Receipt i d u r v) = fst (resolve_receipt db i d u r v)"
| "run_call pgd pgu db (Settle_Receipt i j u v) = fst (settle_receipt db i j u v)"
| "run_call pgd pgu db (Create_Receipt_Batch w h u d m ls v) = fst (create_receipt_batch pgd pgu w db h u d m ls v)"
| "run_call pgd pgu db (Resolve_Receipt_Batch i d r v) = fst (resolve_receipt_batch pgu db i d r v)"
| "run_call pgd pgu db (Settle_Receipt_Batch i j u v) = fst (settle_receipt_batch pgu db i j u v)"
| "run_call pgd pgu db (Create_Batch_Register u d m ls) = fst (create_batch_register pgd db u d m ls)"
| "run_call pgd pgu db (Create_Batch_Complete u s d m ls) = fst (create_batch_complete pgd db u s d m ls)"
| "run_call pgd pgu db (Update_Draft u i v d m ls) = fst (update_draft pgd db u i v d m ls)"
| "run_call pgd pgu db (Cancel_Draft i v) = fst (cancel_draft db i v)"
| "run_call pgd pgu db (Submit_Batch i v now) = fst (submit_batch db i v now)"
| "run_call pgd pgu db (Resolve_Batch i d r v) = fst (resolve_batch db i d r v)"
| "run_call pgd pgu db (Settle_Batch i j u v) = fst (settle_batch db i j u v)"
| "run_call pgd pgu db (Process_Outbox w now) = process_outbox_once w db now"
| "run_call pgd pgu db (Create_Adjustment h k u inp p) = fst (create_adjustment pgd db h k u inp p)"
| "run_call pgd pgu db (Submit_Adjustment w k i) = fst (submit_adjustment w db k i)"
| "run_call pgd pgu db (Resolve_Adjustment rest k i d u n) = fst (resolve_adjustment rest db k i d u n)"

definition run_calls :: "(string \<Rightarrow> string option) \<Rightarrow> (string \<Rightarrow> bool) \<Rightarrow> loan_db \<Rightarrow> loan_call list \<Rightarrow> loan_db" where
  "run_calls pgd pgu db calls = foldl (run_call pgd pgu) db calls"

definition no_rows :: "approval_limit list \<Rightarrow> loan_db" where
  "no_rows limits =
     \<lparr>ld_contracts = [], ld_agreements = [], ld_draws = [], ld_reservations = [], ld_receipts = [], ld_batches = [],
      ld_receipt_batches = [], ld_submissions = [], ld_events = [], ld_history = [], ld_limits = limits,
      ld_adjustments = [], ld_next = 1\<rparr>"

section \<open>The limit\<close>

text \<open>
  Three things the service leaves open: the sums that a submitted batch asks for are computed in 64 bits
  and may wrap, the revision of a contract does not look at what is already in use, and the amount of a
  write-off or a recovery may be negative.
\<close>

fun call_fits :: "loan_db \<Rightarrow> loan_call \<Rightarrow> bool" where
  "call_fits db (Create_Contract i inp) = in64 (lc_amount inp)"
| "call_fits db (Update_Contract f i m r t cd md e) = revision_fits db i m"
| "call_fits db (Submit_Batch i v now) = batch_fits db i"
| "call_fits db (Resolve_Adjustment rest k i d u n) = adjustment_fits db k i"
| "call_fits db _ = True"

text \<open>An invariant of single calls, which keep it when they fit, is one of runs whose calls all fit.\<close>

fun every_step :: "('s \<Rightarrow> 'c \<Rightarrow> 's) \<Rightarrow> ('s \<Rightarrow> 'c \<Rightarrow> bool) \<Rightarrow> 's \<Rightarrow> 'c list \<Rightarrow> bool" where
  "every_step step fits s [] = True"
| "every_step step fits s (c # cs) = (fits s c \<and> every_step step fits (step s c) cs)"

locale call_invariant =
  fixes step :: "'s \<Rightarrow> 'c \<Rightarrow> 's" and fits :: "'s \<Rightarrow> 'c \<Rightarrow> bool" and inv :: "'s \<Rightarrow> bool"
  assumes step_keeps: "inv s \<Longrightarrow> fits s c \<Longrightarrow> inv (step s c)"
begin

lemma run_keeps: "inv s \<Longrightarrow> every_step step fits s cs \<Longrightarrow> inv (foldl step s cs)"
  by (induction cs arbitrary: s) (simp_all add: step_keeps)

end

definition run_fits :: "(string \<Rightarrow> string option) \<Rightarrow> (string \<Rightarrow> bool) \<Rightarrow> loan_db \<Rightarrow> loan_call list \<Rightarrow> bool" where
  "run_fits pgd pgu = every_step (run_call pgd pgu) call_fits"

lemma run_call_ok: "within_limits db \<Longrightarrow> call_fits db c \<Longrightarrow> within_limits (run_call pgd pgu db c)"
  by (cases c)
     (simp_all add: create_contract_ok submit_contract_ok set_contract_status_ok update_contract_ok create_agreement_ok
       create_draw_ok submit_draw_ok resolve_draw_ok settle_draw_ok create_receipt_ok submit_receipt_ok resolve_receipt_ok
       settle_receipt_ok create_receipt_batch_ok resolve_receipt_batch_ok settle_receipt_batch_ok create_batch_register_ok
       create_batch_complete_ok update_draft_ok cancel_draft_ok submit_batch_ok resolve_batch_ok settle_batch_ok
       process_outbox_ok create_adjustment_ok submit_adjustment_ok resolve_adjustment_ok)

interpretation limits: call_invariant "run_call pgd pgu" call_fits within_limits for pgd pgu
  by unfold_locales (rule run_call_ok)

lemma run_calls_ok: "within_limits db \<Longrightarrow> run_fits pgd pgu db cs \<Longrightarrow> within_limits (run_calls pgd pgu db cs)"
  unfolding run_calls_def run_fits_def by (rule limits.run_keeps)

lemma no_rows_ok: "within_limits (no_rows limits)"
  by (simp add: within_limits_def sound_keys_def receipts_sound_def no_rows_def used_of_def contract_outstanding_def
      contract_pending_def contract_held_def limit_of_def contract_by_code_def)

text \<open>C3. The limit of a contract. Whatever calls the loan service serves, starting with no rows (contracts and agreements opened and revised, drawdowns and receipts created, submitted, decided and settled, singly or in batches, the queue worked off, adjustments created, submitted and decided), what the agreements of a contract carry, disbursed or pending, plus what is held for drawdowns under way, never exceeds the amount of the contract. Three things that the service does not check have to hold of the calls of the run: the amount of a contract is a 64-bit number and the 64-bit sum of a submitted batch does not wrap, no contract is revised below what is in use, and no write-off or recovery of a negative amount is decided.\<close>

theorem exposure_within_limit:
  assumes "run_fits pgd pgu (no_rows limits) calls"
  shows "used_of (run_calls pgd pgu (no_rows limits) calls) c \<le> limit_of (run_calls pgd pgu (no_rows limits) calls) c"
  using run_calls_ok [OF no_rows_ok assms] by (simp add: within_limits_def)

definition sample_contract :: loan_contract where
  "sample_contract = \<lparr>lc_id = [], lc_code = ''C1'', lc_amount = 100, lc_status = [], lc_employee = [], lc_customer = ''K'',
     lc_product = [], lc_org = [], lc_case = None, lc_date = ''d'', lc_maturity = ''d''\<rparr>"

definition sample_agreement :: loan_agreement where
  "sample_agreement = \<lparr>la_code = ''A1'', la_contract = ''C1'', la_outstanding = 0, la_pending = 0, la_coln_principal = 0,
     la_coln_interest = 0, la_group = [], la_plan = [], la_status = []\<rparr>"

definition sample_draw :: "int \<Rightarrow> draw_input" where
  "sample_draw m = \<lparr>di_contract = ''C1'', di_agreement = ''A1'', di_date = ''2025-01-01'', di_amount = m, di_currency = [],
     di_fund = [], di_flow = [], di_source = None\<rparr>"

definition sample_workflow :: loan_workflow where
  "sample_workflow = \<lparr>lw_create = (\<lambda>t i. Inr (''case'' @ i, [])), lw_submit = (\<lambda>c. Inr ())\<rparr>"

text \<open>A drawdown of 60 is settled, a batch asks for 30 more, another drawdown of 20 no longer fits.\<close>

definition sample_calls :: "loan_call list" where
  "sample_calls =
     [Create_Contract ''1'' sample_contract, Create_Agreement sample_agreement 100 ''d'' ''d'',
      Create_Draw ''u'' (sample_draw 60), Submit_Draw (Some sample_workflow) ''u'' 1 0,
      Resolve_Draw 1 ''APPROVE'' ''v'' [] 0, Settle_Draw 1 ''J'' ''v'' 0,
      Create_Batch_Register ''u'' ''2025-01-01'' ''CASH''
        [\<lparr>bi_contract = ''C1'', bi_agreement = ''A1'', bi_amount = 30, bi_closed = False\<rparr>],
      Submit_Batch 2 1 0, Create_Draw ''u'' (sample_draw 20)]"

theorem exposure_within_limit_witness:
  "used_of (run_calls Some (\<lambda>s. True) (no_rows []) sample_calls) ''C1'' \<le>
     limit_of (run_calls Some (\<lambda>s. True) (no_rows []) sample_calls) ''C1'' \<and>
   used_of (run_calls Some (\<lambda>s. True) (no_rows []) sample_calls) ''C1'' = 90 \<and>
   limit_of (run_calls Some (\<lambda>s. True) (no_rows []) sample_calls) ''C1'' = 100 \<and>
   map dd_status (ld_draws (run_calls Some (\<lambda>s. True) (no_rows []) sample_calls)) = [''POSTED'', ''PENDING_APPROVAL'']"
proof -
  have "run_fits Some (\<lambda>s. True) (no_rows []) sample_calls" by code_simp
  moreover have "used_of (run_calls Some (\<lambda>s. True) (no_rows []) sample_calls) ''C1'' = 90" by code_simp
  moreover have "limit_of (run_calls Some (\<lambda>s. True) (no_rows []) sample_calls) ''C1'' = 100" by code_simp
  moreover have "map dd_status (ld_draws (run_calls Some (\<lambda>s. True) (no_rows []) sample_calls)) =
      [''POSTED'', ''PENDING_APPROVAL'']" by code_simp
  ultimately show ?thesis using exposure_within_limit [of Some "\<lambda>s. True" "[]" sample_calls "''C1''"] by blast
qed

text \<open>
  A recovery of -50 adds 50 to what is outstanding, on top of the 90 in use: the service checks neither
  the sign of the amount nor the limit.
\<close>

definition sample_recovery :: "int \<Rightarrow> loan_call list" where
  "sample_recovery m =
     [Create_Adjustment ''h'' ''recovery'' ''u''
        \<lparr>aj_kind = [], aj_id = [], aj_contract = ''C1'', aj_agreement = Some ''A1'', aj_date = None, aj_amount = Some m,
         aj_payload = [], aj_status = [], aj_case = None, aj_note = None, aj_decided_by = None, aj_created_by = []\<rparr> (Some []),
      Submit_Adjustment (Some sample_workflow) ''recovery'' ''lnmrecovery_h'',
      Resolve_Adjustment (\<lambda>a. None) ''recovery'' ''lnmrecovery_h'' ''APPROVE'' ''v'' []]"

lemma negative_recovery_breaks_limit:
  "used_of (run_calls Some (\<lambda>s. True) (no_rows []) (sample_calls @ sample_recovery (-50))) ''C1'' = 140 \<and>
   limit_of (run_calls Some (\<lambda>s. True) (no_rows []) (sample_calls @ sample_recovery (-50))) ''C1'' = 100"
  by code_simp

section \<open>Sample states\<close>

text \<open>The whole sample run, and the same run up to the point where the first drawdown waits.\<close>

definition busy_books :: loan_db where
  "busy_books = run_calls Some (\<lambda>s. True) (no_rows []) sample_calls"

lemma busy_books_ok: "within_limits busy_books"
proof -
  have "run_fits Some (\<lambda>s. True) (no_rows []) sample_calls" by code_simp
  then show ?thesis unfolding busy_books_def by (rule run_calls_ok [OF no_rows_ok])
qed

definition waiting_books :: loan_db where
  "waiting_books = run_calls Some (\<lambda>s. True) (no_rows []) (take 4 sample_calls)"

lemma waiting_books_ok: "within_limits waiting_books"
proof -
  have "run_fits Some (\<lambda>s. True) (no_rows []) (take 4 sample_calls)" by code_simp
  then show ?thesis unfolding waiting_books_def by (rule run_calls_ok [OF no_rows_ok])
qed

end
