(* ===== verification/Loan_Settling.thy ===== *)
theory Loan_Settling
  imports Loan_Runs
begin

text \<open>
  Settling drawdowns and batches, and what the version guard makes of it.
\<close>

section \<open>Rows by id\<close>

lemma draw_unique:
  assumes "distinct (map dd_id (ld_draws db))" "draw_by_id db i = Some d"
  shows "(\<exists>x\<in>set (ld_draws db). draw_guard i s v x) \<longleftrightarrow> draw_guard i s v d"
proof -
  have "x = d" if "x \<in> set (ld_draws db)" "dd_id x = i" for x
    using distinct_key [OF assms(1) that(1), of d] draw_by_id_row [OF assms(2)] that(2) by simp
  then show ?thesis using draw_by_id_row [OF assms(2)] by (auto simp: draw_guard_def)
qed

lemma draw_by_id_upd:
  "(\<And>d. dd_id (f d) = dd_id d) \<Longrightarrow>
   draw_by_id (db\<lparr>ld_draws := upd p f (ld_draws db)\<rparr>) i = map_option (\<lambda>d. if p d then f d else d) (draw_by_id db i)"
  by (simp add: draw_by_id_def find_upd)

lemma draw_by_id_event [simp]: "draw_by_id (enqueue_draw_event db j s c x y) i = draw_by_id db i"
  by (simp add: draw_by_id_def)

section \<open>A row that is not approved\<close>

text \<open>The statement that posts a row: what a row in another status or at another version gives.\<close>

lemma post_other:
  assumes "distinct (map dd_id (ld_draws db))" "draw_by_id db i = Some d" "\<not> draw_guard i ''APPROVED'' v d"
  shows "post_draw_row db i journal actor v = (if stale_version (Some (dd_version d)) v then Inl Stale_Version else Inr None)"
  using draw_unique [OF assms(1,2), of "''APPROVED''" v] assms(2,3) by (simp add: post_draw_row_def)

lemma settle_tx_other:
  assumes "distinct (map dd_id (ld_draws db))" "draw_by_id db i = Some d" "\<not> draw_guard i ''APPROVED'' v d"
  shows "settle_register_tx db i agreement amount journal actor v =
      (if stale_version (Some (dd_version d)) v then (db, Inl Stale_Version) else (db, Inr False))"
    "settle_complete_tx db i contract agreement amount journal actor v =
      (if stale_version (Some (dd_version d)) v then (db, Inl Stale_Version) else (db, Inr False))"
  by (simp_all add: settle_register_tx_def settle_complete_tx_def gates post_other [OF assms])

lemma settle_draw_other:
  assumes "distinct (map dd_id (ld_draws db))" "draw_by_id db i = Some d" "dd_status d \<noteq> ''PENDING_APPROVAL''"
    "\<not> draw_guard i ''APPROVED'' v d"
  shows "settle_draw db i journal actor v =
    (if stale_version (Some (dd_version d)) v then (db, Inl code_conflict) else (db, Inr ()))"
proof -
  have i: "dd_id d = i" using draw_by_id_row [OF assms(2)] by simp
  show ?thesis using assms(3)
    by (simp add: settle_draw_def settle_register_def settle_complete_def get_draw_def assms(2) i approve_if_waiting_def
        settle_tx_other [OF assms(1,2,4)] map_repo_error_def)
qed

text \<open>C37. Settling is done once, and also reported when it was not done. On a drawdown that is neither waiting nor approved a call changes nothing at all. Without a version, or under the version of the row, it answers success: that makes the retry of a posted drawdown harmless, but a rejected, cancelled or draft drawdown is answered as settled as well. Under any other version it is a conflict.\<close>

theorem settle_other_answers_success:
  assumes "distinct (map dd_id (ld_draws db))" "draw_by_id db i = Some d"
    and "dd_status d \<notin> {''PENDING_APPROVAL'', ''APPROVED''}"
  shows "settle_draw db i journal actor v = (db, if 0 < v \<and> dd_version d \<noteq> v then Inl code_conflict else Inr ())"
  using settle_draw_other [OF assms(1,2)] assms(3) by (simp add: draw_guard_def stale_version_def)

lemma waiting_row:
  "draw_by_id waiting_books 1 = Some (hd (ld_draws waiting_books))"
  "dd_status (hd (ld_draws waiting_books)) = ''PENDING_APPROVAL''" "held_for waiting_books 1"
  "dd_contract (hd (ld_draws waiting_books)) = ''C1''" "dd_amount (hd (ld_draws waiting_books)) = 60"
  "dd_version (hd (ld_draws waiting_books)) = 3" "distinct (map dd_id (ld_draws waiting_books))"
  "used_of waiting_books ''C1'' = 60"
  by code_simp+

text \<open>The sample run has settled the first drawdown.\<close>

theorem settle_other_answers_success_witness:
  "settle_draw busy_books 1 ''J2'' ''w'' 0 = (busy_books, Inr ()) \<and>
   map_option dd_status (draw_by_id busy_books 1) = Some ''POSTED''"
proof -
  have d: "draw_by_id busy_books 1 = Some (hd (ld_draws busy_books))" "dd_status (hd (ld_draws busy_books)) = ''POSTED''"
    by code_simp+
  have dist: "distinct (map dd_id (ld_draws busy_books))" using limits_sound [OF busy_books_ok] by (simp add: sound_keys_def)
  have "settle_draw busy_books 1 ''J2'' ''w'' 0 = (busy_books, Inr ())"
    using settle_other_answers_success [OF dist d(1), of "''J2''" "''w''" 0] by (simp add: d(2))
  moreover have "map_option dd_status (draw_by_id busy_books 1) = Some ''POSTED''" unfolding d(1) by (simp add: d(2))
  ultimately show ?thesis by blast
qed

section \<open>The version guard\<close>

lemma approve_waiting:
  assumes dist: "distinct (map dd_id (ld_draws db))" and d: "draw_by_id db i = Some d" "dd_status d = ''PENDING_APPROVAL''"
    and v: "v = 0 \<or> dd_version d = v"
  shows "\<exists>db1. approve_if_waiting db d actor v = (db1, Inr ()) \<and>
      draw_by_id db1 i = Some (d\<lparr>dd_status := ''APPROVED'', dd_updated_by := actor, dd_version := dd_version d + 1\<rparr>) \<and>
      distinct (map dd_id (ld_draws db1)) \<and> ld_agreements db1 = ld_agreements db \<and> ld_reservations db1 = ld_reservations db"
proof -
  have i: "dd_id d = i" using draw_by_id_row [OF d(1)] by simp
  have t: "transition_ok workflow_machine ''PENDING_APPROVAL'' ''APPROVED'' [] = Inr ()" by code_simp
  have g: "draw_guard i ''PENDING_APPROVAL'' v d" using i d(2) v by (simp add: draw_guard_def)
  let ?db1 = "db\<lparr>ld_draws := upd (draw_guard i ''PENDING_APPROVAL'' v)
             (\<lambda>d. d\<lparr>dd_status := ''APPROVED'', dd_updated_by := actor, dd_version := dd_version d + 1\<rparr>) (ld_draws db)\<rparr>"
  have s: "set_draw_row_status db i ''PENDING_APPROVAL'' ''APPROVED'' actor v = Inr ?db1"
    using draw_unique [OF dist d(1), of "''PENDING_APPROVAL''" v] g by (simp add: set_draw_row_status_def)
  have r: "draw_by_id ?db1 i = Some (d\<lparr>dd_status := ''APPROVED'', dd_updated_by := actor, dd_version := dd_version d + 1\<rparr>)"
    by (subst draw_by_id_upd) (simp_all add: d(1) g)
  have dist1: "distinct (map dd_id (ld_draws ?db1))" using dist by (simp add: map_upd)
  show ?thesis unfolding approve_if_waiting_def d(2) i
    using r dist1 by (simp add: set_draw_status_def t s Let_def)
qed

text \<open>C38. A drawdown settled with the version that the checker saw is never settled. The call approves the waiting row first, which makes its version one more, in a transaction that stays; the posting then fails as a conflict because of that version, and so does every retry: the drawdown remains APPROVED, its agreement as it was, and its reservation held.\<close>

theorem versioned_settlement_never_completes:
  assumes dist: "distinct (map dd_id (ld_draws db))" and d: "draw_by_id db i = Some d" "dd_status d = ''PENDING_APPROVAL''"
    and v: "0 < v" "dd_version d = v"
  shows "\<exists>db1. settle_draw db i journal actor v = (db1, Inl code_conflict) \<and>
      settle_draw db1 i journal2 actor2 v = (db1, Inl code_conflict) \<and>
      map_option dd_status (draw_by_id db1 i) = Some ''APPROVED'' \<and>
      ld_agreements db1 = ld_agreements db \<and> ld_reservations db1 = ld_reservations db"
proof -
  obtain db1 where a: "approve_if_waiting db d actor v = (db1, Inr ())"
    and r: "draw_by_id db1 i = Some (d\<lparr>dd_status := ''APPROVED'', dd_updated_by := actor, dd_version := dd_version d + 1\<rparr>)"
    and k: "distinct (map dd_id (ld_draws db1))" "ld_agreements db1 = ld_agreements db" "ld_reservations db1 = ld_reservations db"
    using approve_waiting [OF dist d, of v actor] v by blast
  have i: "dd_id d = i" using draw_by_id_row [OF d(1)] by simp
  have ng: "\<not> draw_guard i ''APPROVED'' v (d\<lparr>dd_status := ''APPROVED'', dd_updated_by := actor, dd_version := dd_version d + 1\<rparr>)"
    using v by (simp add: draw_guard_def)
  have "settle_draw db i journal actor v = (db1, Inl code_conflict)"
    using a v by (simp add: settle_draw_def settle_register_def settle_complete_def get_draw_def d(1) i
        settle_tx_other [OF k(1) r ng] stale_version_def map_repo_error_def)
  moreover have "settle_draw db1 i journal2 actor2 v = (db1, Inl code_conflict)"
    using settle_draw_other [OF k(1) r _ ng, of journal2 actor2] v by (simp add: stale_version_def)
  ultimately show ?thesis using r k(2,3) by (intro exI [of _ db1]) simp
qed

theorem versioned_settlement_never_completes_witness:
  "\<exists>db1. settle_draw waiting_books 1 ''J'' ''w'' 3 = (db1, Inl code_conflict) \<and>
     settle_draw db1 1 ''J'' ''w'' 3 = (db1, Inl code_conflict) \<and>
     map_option dd_status (draw_by_id db1 1) = Some ''APPROVED''"
  using versioned_settlement_never_completes [OF waiting_row(7,1,2), of 3 "''J''" "''w''" "''J''" "''w''"] waiting_row(6)
  by auto

section \<open>Batches\<close>

lemma post_draw_batches: "post_draw_row db i journal actor v = Inr (Some db1) \<Longrightarrow> ld_batches db1 = ld_batches db"
  by (drule post_draw_row_eq) simp

lemma settle_register_rows_batches:
  "settle_register_rows db ds journal actor = (db1, x) \<Longrightarrow> ld_batches db1 = ld_batches db"
proof (induction ds arbitrary: db)
  case (Cons d ds)
  obtain db2 y where e: "settle_register_tx db (dd_id d) (dd_agreement d) (dd_amount d) journal actor 0 = (db2, y)" by fastforce
  have "ld_batches db2 = ld_batches db"
  proof (cases "y = Inr True")
    case True
    show ?thesis by (rule settle_register_tx_cases [OF e [unfolded True]]) (simp add: post_draw_batches)
  next
    case False
    then show ?thesis using settle_register_tx_same [of db "dd_id d" "dd_agreement d" "dd_amount d" journal actor 0] e by simp
  qed
  then show ?case using Cons by (cases y) (auto simp: e)
qed simp

lemma settle_complete_rows_batches:
  "settle_complete_rows db ds journal actor = (db1, x) \<Longrightarrow> ld_batches db1 = ld_batches db"
proof (induction ds arbitrary: db)
  case (Cons d ds)
  obtain db2 y where e: "settle_complete_tx db (dd_id d) (dd_contract d) (dd_agreement d) (dd_amount d) journal actor 0 = (db2, y)"
    by fastforce
  have "ld_batches db2 = ld_batches db"
  proof (cases "y = Inr True")
    case True
    show ?thesis by (rule settle_complete_tx_cases [OF e [unfolded True]]) (simp add: post_draw_batches)
  next
    case False
    then show ?thesis
      using settle_complete_tx_same [of db "dd_id d" "dd_contract d" "dd_agreement d" "dd_amount d" journal actor 0] e by simp
  qed
  then show ?case using Cons by (cases y) (auto simp: e)
qed simp

lemma close_contracts_batches: "close_contracts db cs = (db1, x) \<Longrightarrow> ld_batches db1 = ld_batches db"
proof (induction cs arbitrary: db)
  case (Cons c cs)
  obtain db2 y where e: "close_contract_by_code db c = (db2, y)" by fastforce
  have "ld_batches db2 = ld_batches db" using e by (auto simp: close_contract_by_code_def split: sum.splits if_splits)
  then show ?case using Cons by (cases y) (auto simp: e)
qed simp

lemma set_batch_status_batches:
  assumes "set_batch_status db i a b reason v = (db1, Inr ())"
  shows "ld_batches db1 = upd (batch_guard i a v) (\<lambda>b'. b'\<lparr>db_status := b, db_version := db_version b' + 1\<rparr>) (ld_batches db)"
  using assms by (auto simp: set_batch_status_def set_batch_row_status_def bind_r_eq_Inr Let_def split: sum.splits if_splits)

lemma approved_batch_moved:
  assumes dist: "distinct (map db_id (ld_batches db))" and b: "batch_by_id db i = Inr b" and v: "v \<noteq> 0"
    and a: "set_batch_status db i s ''APPROVED'' [] v = (db1, Inr ())" "s \<noteq> ''APPROVED''"
  shows "\<not> (\<exists>x\<in>set (ld_batches db1). batch_guard i ''APPROVED'' v x)"
proof -
  have "find (\<lambda>x. db_id x = i) (ld_batches db) = Some b" using b by (auto simp: batch_by_id_def split: option.splits)
  then have bi: "b \<in> set (ld_batches db)" "db_id b = i" using find_Some_in by fastforce+
  obtain y where "y \<in> set (ld_batches db)" "batch_guard i s v y"
    using a by (auto simp: set_batch_status_def set_batch_row_status_def bind_r_eq_Inr split: sum.splits if_splits)
  then have g: "batch_guard i s v b" using distinct_key [OF dist _ bi(1), of y] bi(2) by (auto simp: batch_guard_def)
  have "x = b" if "x \<in> set (ld_batches db)" "db_id x = i" for x using distinct_key [OF dist that(1) bi(1)] that(2) bi(2) by simp
  then show ?thesis using g v unfolding set_batch_status_batches [OF a(1)]
    by (auto simp: set_upd batch_guard_def split: if_splits)
qed

text \<open>C39. A batch settled with the version that the checker saw is never posted. Whatever its rows do, the call ends in an error: either the version is not that of the batch, or the approval within the call has made it one more and the header cannot be marked POSTED any more, though every row may have been.\<close>

theorem versioned_batch_never_completes:
  assumes dist: "distinct (map db_id (ld_batches db))" and b: "batch_by_id db i = Inr b"
    and waiting: "db_status b = ''PENDING_APPROVAL''" and v: "v \<noteq> 0"
  shows "isl (snd (settle_batch db i journal actor v))"
proof -
  have bi: "db_id b = i" using b by (auto simp: batch_by_id_def split: option.splits dest: find_Some_in)
  obtain db1 x where a: "set_batch_status db i ''PENDING_APPROVAL'' ''APPROVED'' [] v = (db1, x)" by fastforce
  have aw: "approve_waiting_batch db b v = (db1, x)" using waiting bi a by (simp add: approve_waiting_batch_def)
  show ?thesis
  proof (cases x)
    case (Inl e)
    then show ?thesis using b waiting aw by (simp add: settle_batch_def settle_batch_register_def settle_batch_complete_def)
  next
    case (Inr u)
    have a': "set_batch_status db i ''PENDING_APPROVAL'' ''APPROVED'' [] v = (db1, Inr ())" using a Inr by simp
    have none: "\<not> (\<exists>y\<in>set (ld_batches db1). batch_guard i ''APPROVED'' v y)"
      by (rule approved_batch_moved [OF dist b v a']) simp
    have stop: "isl (snd (set_batch_posted db2 i journal v))" if "ld_batches db2 = ld_batches db1" for db2
      using none by (simp add: set_batch_posted_def gates that)
    have r: "isl (snd (settle_batch_register db i journal actor v))"
      using b waiting aw Inr stop
      by (auto simp: settle_batch_register_def dest: settle_register_rows_batches split: prod.split sum.split)
    have c: "isl (snd (settle_batch_complete db i journal actor v))"
      using b waiting aw Inr stop
      by (auto simp: settle_batch_complete_def dest!: settle_complete_rows_batches close_contracts_batches
          split: prod.split sum.split)
    show ?thesis using r c b by (simp add: settle_batch_def)
  qed
qed

text \<open>The batch of the sample run, at its version, with its one row: the row is posted, the header is not.\<close>

theorem versioned_batch_never_completes_witness:
  "isl (snd (settle_batch busy_books 2 ''J'' ''w'' 2)) \<and>
   map dd_status (batch_rows (fst (settle_batch busy_books 2 ''J'' ''w'' 2)) 2) = [''POSTED''] \<and>
   map db_status (ld_batches (fst (settle_batch busy_books 2 ''J'' ''w'' 2))) = [''APPROVED'']"
proof -
  have b: "distinct (map db_id (ld_batches busy_books))" "batch_by_id busy_books 2 = Inr (hd (ld_batches busy_books))"
    "db_status (hd (ld_batches busy_books)) = ''PENDING_APPROVAL''" by code_simp+
  have "isl (snd (settle_batch busy_books 2 ''J'' ''w'' 2))"
    by (rule versioned_batch_never_completes [OF b]) simp
  moreover have "map dd_status (batch_rows (fst (settle_batch busy_books 2 ''J'' ''w'' 2)) 2) = [''POSTED'']" by code_simp
  moreover have "map db_status (ld_batches (fst (settle_batch busy_books 2 ''J'' ''w'' 2))) = [''APPROVED'']" by code_simp
  ultimately show ?thesis by blast
qed

end
