(* ===== verification/Loan_Facts.thy ===== *)
theory Loan_Facts
  imports Loan_Settling
begin

text \<open>
  What single calls of the loan service answer in the states it reaches: when a drawdown is granted,
  what a refusal gives back, and where the checks and settlements of batches go wrong.
\<close>

section \<open>Granting\<close>

lemma exposure_readable:
  assumes ok: "within_limits db" and c: "contract_by_code db c \<noteq> None"
  shows "\<exists>e. load_contract_exposure db c = Inr e"
proof -
  obtain x where x: "contract_by_code db c = Some x" using c by blast
  have nn: "\<forall>a\<in>set (ld_agreements db). 0 \<le> la_outstanding a \<and> 0 \<le> la_pending a"
    using ok by (auto simp: within_limits_def sound_keys_def list_all_iff)
  have o: "0 \<le> sum_list (contract_outstanding db c)" "0 \<le> sum_list (contract_pending db c)"
    by (rule sum_list_nonneg2, use nn in \<open>auto simp: contract_outstanding_def contract_pending_def\<close>)+
  have h: "0 \<le> sum_list (contract_held db c)"
    by (rule sum_list_nonneg2) (use held_pos [OF ok] in \<open>force simp: contract_held_def\<close>)
  have "in64 (lc_amount x)" using contract_row [OF x] limits_sound [OF ok] by (auto simp: sound_keys_def list_all_iff)
  moreover have "used_of db c \<le> lc_amount x" using ok x by (auto simp: within_limits_def limit_of_def split: option.splits)
  ultimately have "in64 (sum_list (contract_outstanding db c))" "in64 (sum_list (contract_pending db c))"
    "in64 (sum_list (contract_held db c))" using o h by (auto simp: used_of_def in64_def)
  then show ?thesis using x by (simp add: load_contract_exposure_def scan_sum_def)
qed

lemma no_source_held:
  assumes "within_limits db"
  shows "\<not> (\<exists>r\<in>set (ld_reservations db). rs_source r = ld_next db)"
  using limits_sound [OF assms] by (auto simp: sound_keys_def list_all_iff)

lemma reserve_exact:
  assumes ok: "within_limits db" and c: "contract_by_code db c \<noteq> None" and pos: "0 < amount"
    and fresh: "\<not> (\<exists>r\<in>set (ld_reservations db). rs_source r = i)"
  shows "reserve_contract_amount db c i amount =
    (if used_of db c + amount \<le> limit_of db c
     then Inr (db\<lparr>ld_reservations := ld_reservations db @
            [\<lparr>rs_contract = c, rs_source = i, rs_amount = amount, rs_status = ''HELD''\<rparr>]\<rparr>)
     else Inl Headroom_Exceeded)"
proof -
  obtain e where e: "load_contract_exposure db c = Inr e" using exposure_readable [OF ok c] by blast
  have "allows e amount \<longleftrightarrow> used_of db c + amount \<le> limit_of db c"
    using exposure_exact(1) [OF ok e] pos by (auto simp: allows_def)
  then show ?thesis using e fresh c by (auto simp: reserve_contract_amount_def)
qed

text \<open>What a request for a REGISTER drawdown answers: the row and its hold, or a refusal and the state it had.\<close>

lemma register_answer:
  assumes ok: "within_limits db" and flow: "flow_or_register (di_flow inp) = ''REGISTER''" and src: "di_source inp = None"
    and contract: "contract_by_code db (di_contract inp) = Some cr" "di_contract inp \<noteq> []"
    and agreement: "agreement_by_code db (di_agreement inp) = Some a" "la_contract a = di_contract inp"
      "trim_space (di_agreement inp) \<noteq> []"
    and amount: "0 < di_amount inp" and date: "is_valid_iso_date (di_date inp)" "pgd (di_date inp) = Some date"
  shows "create_draw pgd db actor inp =
    (if used_of db (di_contract inp) + di_amount inp \<le> limit_of db (di_contract inp)
     then (db\<lparr>ld_draws := ld_draws db @
               [(draw_row inp None actor)\<lparr>dd_id := ld_next db, dd_date := date, dd_status := ''DRAFT'', dd_version := 1\<rparr>],
             ld_next := ld_next db + 1,
             ld_reservations := ld_reservations db @ [\<lparr>rs_contract = di_contract inp, rs_source = ld_next db,
               rs_amount = di_amount inp, rs_status = ''HELD''\<rparr>]\<rparr>, Inr (ld_next db))
     else (db, Inl code_invalid_input))"
proof -
  let ?d = "draw_row inp None actor"
  let ?new = "?d\<lparr>dd_id := ld_next db, dd_date := date, dd_status := ''DRAFT'', dd_version := 1\<rparr>"
  let ?db1 = "db\<lparr>ld_draws := ld_draws db @ [?new], ld_next := ld_next db + 1\<rparr>"
  have tr: "trim_space (di_contract inp) = di_contract inp"
    using contract_row [OF contract(1)] limits_sound [OF ok] by (auto simp: sound_keys_def list_all_iff)
  have ins: "insert_draw pgd db ?d = Inr (?db1, ld_next db)"
    using date amount by (simp add: insert_draw_def draw_row_def)
  note f = insert_draw_ok [OF ok ins]
  have c1: "contract_by_code ?db1 (di_contract inp) \<noteq> None" using contract(1) by (simp add: contract_by_code_def)
  have u1: "used_of ?db1 x = used_of db x" "limit_of ?db1 x = limit_of db x" for x
    by (simp_all add: used_of_def contract_outstanding_def contract_pending_def contract_held_def limit_of_def contract_by_code_def)
  have fresh: "\<not> (\<exists>r\<in>set (ld_reservations ?db1). rs_source r = ld_next db)" using no_source_held [OF ok] by simp
  note r = reserve_exact [OF f(1) c1 amount fresh, unfolded u1]
  have e: "create_draw pgd db actor inp =
      (case create_draw_with_reservation pgd db ?d of
         (db1, Inl Headroom_Exceeded) \<Rightarrow> (db1, Inl code_invalid_input)
       | (db1, Inl e) \<Rightarrow> (db1, Inl (map_repo_error e)) | (db1, Inr i) \<Rightarrow> (db1, Inr i))"
    using contract agreement amount date(1) by (simp add: create_draw_def tr check_draw_flow_def flow src)
  have dc: "dd_contract ?d = di_contract inp" "dd_amount ?d = di_amount inp" by (simp_all add: draw_row_def)
  show ?thesis
    unfolding e create_draw_with_reservation_def ins bind_r_simps prod.case dc r by simp
qed

text \<open>C36. Exactly what fits is granted. In every state within the limits, a REGISTER drawdown on an agreement of its contract, with a positive amount and dates that the service and the database accept, is created if and only if the amount fits beside what the contract has in use; then precisely this amount is added to it, and otherwise the request is refused as invalid and no row changes.\<close>

theorem register_created_iff_fits:
  assumes ok: "within_limits db" and flow: "flow_or_register (di_flow inp) = ''REGISTER''" and src: "di_source inp = None"
    and contract: "contract_by_code db (di_contract inp) = Some cr" "di_contract inp \<noteq> []"
    and agreement: "agreement_by_code db (di_agreement inp) = Some a" "la_contract a = di_contract inp"
      "trim_space (di_agreement inp) \<noteq> []"
    and amount: "0 < di_amount inp" and date: "is_valid_iso_date (di_date inp)" "pgd (di_date inp) = Some date"
  shows "snd (create_draw pgd db actor inp) =
      (if used_of db (di_contract inp) + di_amount inp \<le> limit_of db (di_contract inp)
       then Inr (ld_next db) else Inl code_invalid_input) \<and>
    used_of (fst (create_draw pgd db actor inp)) c =
      used_of db c + (if c = di_contract inp \<and> used_of db c + di_amount inp \<le> limit_of db c then di_amount inp else 0) \<and>
    (limit_of db (di_contract inp) < used_of db (di_contract inp) + di_amount inp \<longrightarrow>
      fst (create_draw pgd db actor inp) = db)"
  unfolding register_answer [of db inp cr a pgd date actor, OF assms]
  by (simp add: used_of_def contract_outstanding_def contract_pending_def contract_held_def)

text \<open>After the sample run 90 of 100 are in use: 10 more are granted, 11 are not.\<close>

theorem register_created_iff_fits_witness:
  "snd (create_draw Some busy_books ''u'' (sample_draw 10)) = Inr (ld_next busy_books) \<and>
   snd (create_draw Some busy_books ''u'' (sample_draw 11)) = Inl code_invalid_input"
proof -
  have f: "flow_or_register (di_flow (sample_draw m)) = ''REGISTER''" "di_source (sample_draw m) = None"
    "di_contract (sample_draw m) = ''C1''" "di_contract (sample_draw m) \<noteq> []" "trim_space (di_agreement (sample_draw m)) \<noteq> []"
    "is_valid_iso_date (di_date (sample_draw m))" "di_amount (sample_draw m) = m" "di_agreement (sample_draw m) = ''A1''"
    "Some (di_date (sample_draw m)) = Some ''2025-01-01''" for m
    by (simp_all add: sample_draw_def flow_or_register_def trim_space_def is_space_def is_valid_iso_date_def)
  have c: "contract_by_code busy_books ''C1'' = Some (hd (ld_contracts busy_books))"
    "agreement_by_code busy_books ''A1'' = Some (hd (ld_agreements busy_books))"
    "la_contract (hd (ld_agreements busy_books)) = ''C1''" by code_simp+
  have u: "used_of busy_books ''C1'' = 90" "limit_of busy_books ''C1'' = 100" by code_simp+
  have e: "snd (create_draw Some busy_books ''u'' (sample_draw m)) =
      (if 90 + m \<le> 100 then Inr (ld_next busy_books) else Inl code_invalid_input)" if "0 < m" for m
    using register_created_iff_fits [OF busy_books_ok f(1,2), of m "hd (ld_contracts busy_books)" "hd (ld_agreements busy_books)"
        Some "''2025-01-01''" "''u''"] that f c u by simp
  show ?thesis using e [of 10] e [of 11] by simp
qed

section \<open>Giving back\<close>

lemma released_held:
  assumes ok: "within_limits db" and r: "r \<in> set (ld_reservations db)" "rs_status r = ''HELD''" "rs_source r = i"
    and rs: "rs' = upd (\<lambda>x. rs_source x = i \<and> rs_status x = ''HELD'') (\<lambda>x. x\<lparr>rs_status := ''RELEASED''\<rparr>) (ld_reservations db)"
  shows "held_in rs' c = held_in (ld_reservations db) c - (if rs_contract r = c then rs_amount r else 0)"
proof -
  have d: "distinct (map rs_source (ld_reservations db))" using limits_sound [OF ok] by (simp add: sound_keys_def)
  have "rs_source x = i \<and> rs_status x = ''HELD'' \<longleftrightarrow> x = r" if "x \<in> set (ld_reservations db)" for x
    using distinct_key [OF d that r(1)] r(2,3) by auto
  then show ?thesis unfolding held_in_def rs
    using sum_upd_one [OF _ r(1), of "\<lambda>x. rs_source x = i \<and> rs_status x = ''HELD''"] d r(2) by (simp add: distinct_map)
qed

lemma released_none:
  assumes "\<not> held_for db i"
    and "rs' = upd (\<lambda>x. rs_source x = i \<and> rs_status x = ''HELD'') (\<lambda>x. x\<lparr>rs_status := ''RELEASED''\<rparr>) (ld_reservations db)"
  shows "held_in rs' c = held_in (ld_reservations db) c"
proof -
  have "rs' = ld_reservations db"
    using assms by (auto simp: held_for_def upd_def intro!: map_idI)
  then show ?thesis by simp
qed

text \<open>C7. A refusal gives back exactly what was held. In a state within the limits, when a drawdown that waits for its decision is rejected or cancelled with a reason, under no version or the row's own, the call succeeds and the row gets that status. If a reservation is held for the drawdown (a REGISTER that reserved its amount), its contract has precisely the amount of the drawdown less in use; if none is (a COMPLETE), nothing in use changes; no other contract is touched.\<close>

theorem refusal_gives_back:
  assumes ok: "within_limits db" and d: "draw_by_id db i = Some d" "dd_status d = ''PENDING_APPROVAL''"
    and decision: "draw_decision decision = Some t" "t \<in> {''REJECTED'', ''CANCELLED''}" "trim_space reason \<noteq> []"
    and v: "v = 0 \<or> dd_version d = v"
  shows "snd (resolve_draw db i decision actor reason v) = Inr () \<and>
    map_option dd_status (draw_by_id (fst (resolve_draw db i decision actor reason v)) i) = Some t \<and>
    used_of (fst (resolve_draw db i decision actor reason v)) c =
      used_of db c - (if held_for db i \<and> dd_contract d = c then dd_amount d else 0)"
proof -
  have i: "dd_id d = i" "d \<in> set (ld_draws db)" using draw_by_id_row [OF d(1)] by simp_all
  have dist: "distinct (map dd_id (ld_draws db))" using limits_sound [OF ok] by (simp add: sound_keys_def)
  have tk: "transition_ok workflow_machine ''PENDING_APPROVAL'' t reason = Inr ()"
    using decision(2,3) by (auto simp: transition_ok_def can_transition_def machine_simps)
  let ?f = "\<lambda>d. d\<lparr>dd_status := t, dd_updated_by := actor, dd_version := dd_version d + 1\<rparr>"
  let ?db1 = "db\<lparr>ld_draws := upd (draw_guard i ''PENDING_APPROVAL'' v) ?f (ld_draws db)\<rparr>"
  have g: "draw_guard i ''PENDING_APPROVAL'' v d" using i d(2) v by (simp add: draw_guard_def)
  have s: "set_draw_row_status db i ''PENDING_APPROVAL'' t actor v = Inr ?db1"
    using draw_unique [OF dist d(1), of "''PENDING_APPROVAL''" v] g by (simp add: set_draw_row_status_def)
  let ?db2 = "release_reservations (\<lambda>s. s = i) ?db1"
  have r: "draw_by_id ?db1 i = Some (?f d)" by (subst draw_by_id_upd) (simp_all add: d(1) g)
  then have r2: "draw_by_id ?db2 i = Some (?f d)" by (simp add: draw_by_id_def)
  have set_eq: "set_draw_status db i ''PENDING_APPROVAL'' t actor reason v =
      (enqueue_draw_event ?db2 i t (dd_contract d) (dd_created_by d) actor, Inr ())"
    using decision(2) r2 by (auto simp: set_draw_status_def tk s Let_def)
  have e: "resolve_draw db i decision actor reason v =
      (enqueue_draw_event ?db2 i t (dd_contract d) (dd_created_by d) actor, Inr ())"
    by (simp add: resolve_draw_def get_draw_def d decision(1) tk set_eq)
  have one: "snd (resolve_draw db i decision actor reason v) = Inr ()" by (simp add: e)
  have two: "map_option dd_status (draw_by_id (fst (resolve_draw db i decision actor reason v)) i) = Some t"
    using r2 by (simp add: e)
  have three: "used_of (fst (resolve_draw db i decision actor reason v)) c =
      used_of db c - (if held_for db i \<and> dd_contract d = c then dd_amount d else 0)"
  proof (cases "held_for db i")
    case True
    then obtain x where x: "x \<in> set (ld_reservations db)" "rs_status x = ''HELD''" "rs_source x = i"
      by (auto simp: held_for_def)
    have "rs_contract x = dd_contract d" "rs_amount x = dd_amount d"
      using backing [OF ok x(1,2) i(2)] i(1) x(3) by metis+
    then show ?thesis using True released_held [OF ok x refl, of c]
      by (simp add: e used_of_def contract_outstanding_def contract_pending_def held_sum held_in_def)
  next
    case False
    then show ?thesis using released_none [OF False refl, of c]
      by (simp add: e used_of_def contract_outstanding_def contract_pending_def held_sum held_in_def)
  qed
  show ?thesis using one two three by blast
qed

theorem refusal_gives_back_witness:
  "used_of waiting_books ''C1'' = 60 \<and> used_of (fst (resolve_draw waiting_books 1 ''REJECT'' ''v'' ''no'' 3)) ''C1'' = 0"
proof -
  have d: "draw_decision ''REJECT'' = Some ''REJECTED''" "''REJECTED'' \<in> {''REJECTED'', ''CANCELLED''}" "trim_space ''no'' \<noteq> []"
    by code_simp+
  show ?thesis
    using refusal_gives_back [OF waiting_books_ok waiting_row(1,2) d, of 3 "''v''" "''C1''"] waiting_row by simp
qed

end
