(* ===== verification/Loan_Batch_Facts.thy ===== *)
theory Loan_Batch_Facts
  imports Loan_Settling
begin

text \<open>
  Where the checks of batches go wrong: the remainder that counts the rows of the batch itself, the
  batch of receipts that no database accepts, and the refusal that is answered as an internal error.
\<close>

section \<open>The remainder of a COMPLETE batch\<close>

lemma sum_at_least:
  fixes f :: "'a \<Rightarrow> int"
  assumes "\<And>x. x \<in> set xs \<Longrightarrow> 0 \<le> f x" "x \<in> set xs" "p x"
  shows "f x \<le> sum_list [f x. x \<leftarrow> xs, p x]"
  using assms
proof (induction xs)
  case (Cons y ys)
  have nn: "0 \<le> sum_list [f x. x \<leftarrow> ys, p x]" using Cons.prems(1) by (intro sum_list_nonneg2) auto
  show ?case
  proof (cases "y = x")
    case True
    then show ?thesis using nn Cons.prems(3) by simp
  next
    case False
    then have "f x \<le> sum_list [f x. x \<leftarrow> ys, p x]" using Cons by simp
    then show ?thesis using Cons.prems(1) [of y] by simp
  qed
qed simp

text \<open>C40. The check of a submitted COMPLETE batch counts the batch itself. A waiting row that does not close its register is compared with the register less everything completed on the agreement, in which the row is already included: such a row of more than half of its register never passes, however much of the register is left (a closing row is not compared).\<close>

theorem complete_check_counts_itself:
  assumes ok: "sound_keys db" and d: "d \<in> set (ld_draws db)" "dd_flow d = ''COMPLETE''" "dd_status d = ''PENDING_APPROVAL''"
    and row: "\<not> dd_closed d" "dd_source d = Some s" "draw_by_id db s = Some sd" "in64 (dd_amount sd)"
    and half: "dd_amount sd < 2 * dd_amount d"
  shows "\<not> check_batch_row db d"
proof -
  have nn: "0 \<le> dd_amount x" if "x \<in> set (ld_draws db)" for x using ok that by (auto simp: sound_keys_def list_all_iff)
  have sd: "0 \<le> dd_amount sd" using nn draw_by_id_row [OF row(3)] by blast
  show ?thesis
  proof (cases "sum_complete_for_agreement db (dd_agreement d)")
    case (Inl e)
    then show ?thesis using d(2) row(1) half sd by (auto simp: check_batch_row_def)
  next
    case (Inr completed)
    let ?p = "\<lambda>x. dd_agreement x = dd_agreement d \<and> dd_flow x = ''COMPLETE'' \<and>
       dd_status x \<in> {''PENDING_APPROVAL'', ''APPROVED'', ''POSTED''}"
    have c: "completed = sum_list [dd_amount x. x \<leftarrow> ld_draws db, ?p x]" "in64 completed"
      using Inr by (auto simp: sum_complete_for_agreement_def scan_sum_def split: if_splits)
    have "dd_amount d \<le> sum_list [dd_amount x. x \<leftarrow> ld_draws db, ?p x]"
      by (rule sum_at_least [OF nn d(1)]) (simp_all add: d)
    then have le: "dd_amount d \<le> completed" using c(1) by simp
    then have "in64 (dd_amount sd - completed)" using sd row(4) c(2) half by (auto simp: in64_def)
    then have "sub64 (dd_amount sd) completed = dd_amount sd - completed" by (rule sub64_eq)
    then show ?thesis using Inr d(2) row half le sd by (auto simp: check_batch_row_def)
  qed
qed

text \<open>Of a posted register of 60 nothing is completed: a batch of 30 passes its check, one of 40 does not.\<close>

definition half_books :: "int \<Rightarrow> loan_db" where
  "half_books m = run_calls Some (\<lambda>s. True) (no_rows [])
     [Create_Contract ''1'' sample_contract, Create_Agreement sample_agreement 100 ''d'' ''d'',
      Create_Batch_Register ''u'' ''2025-01-01'' ''CASH''
        [\<lparr>bi_contract = ''C1'', bi_agreement = ''A1'', bi_amount = 60, bi_closed = False\<rparr>],
      Submit_Batch 1 1 0, Resolve_Batch 1 ''APPROVE'' [] 0, Settle_Batch 1 ''J'' ''v'' 0,
      Create_Batch_Complete ''u'' (Some 1) ''2025-01-01'' ''CASH''
        [\<lparr>bi_contract = ''C1'', bi_agreement = ''A1'', bi_amount = m, bi_closed = False\<rparr>],
      Submit_Batch 3 1 0]"

theorem complete_check_counts_itself_witness:
  "map db_status (ld_batches (half_books 40)) = [''POSTED'', ''PENDING_APPROVAL''] \<and>
   \<not> check_batch (half_books 40) 3 \<and> check_batch (half_books 30) 3"
proof -
  let ?db = "half_books 40"
  have w: "within_limits ?db" unfolding half_books_def by (rule run_calls_ok [OF no_rows_ok]) code_simp
  have r: "batch_rows ?db 3 = [ld_draws ?db ! 1]" "1 < length (ld_draws ?db)"
    "dd_flow (ld_draws ?db ! 1) = ''COMPLETE''" "dd_status (ld_draws ?db ! 1) = ''PENDING_APPROVAL''"
    "\<not> dd_closed (ld_draws ?db ! 1)" "dd_source (ld_draws ?db ! 1) = Some 2" "draw_by_id ?db 2 = Some (ld_draws ?db ! 0)"
    "dd_amount (ld_draws ?db ! 0) = 60" "dd_amount (ld_draws ?db ! 1) = 40" by code_simp+
  have "\<not> check_batch_row ?db (ld_draws ?db ! 1)"
    by (rule complete_check_counts_itself [OF limits_sound [OF w] _ r(3-7)]) (use r in \<open>simp_all add: in64_def\<close>)
  then have "\<not> check_batch ?db 3" by (simp add: check_batch_def r(1) split: sum.split)
  moreover have "map db_status (ld_batches ?db) = [''POSTED'', ''PENDING_APPROVAL'']" "check_batch (half_books 30) 3"
    by code_simp+
  ultimately show ?thesis by blast
qed

section \<open>Batches of receipts\<close>

text \<open>What a text of a UUID is made of, in any of the forms that the database reads.\<close>

definition uuid_char :: "char \<Rightarrow> bool" where
  "uuid_char c \<longleftrightarrow> c \<in> set ''0123456789abcdefABCDEF-{}''"

text \<open>No batch of receipts is ever created. The id of its header is a prefix and random digits, while the column is a UUID: as far as the database reads as a UUID only texts of hexadecimal digits, hyphens and braces, every call ends in an error and changes nothing, whatever its rows.\<close>

theorem receipt_batch_never_created:
  assumes uuid: "\<And>s. pgu s \<Longrightarrow> list_all uuid_char s"
  shows "fst (create_receipt_batch pgd pgu workflow db hex actor txn_date method lines v) = db \<and>
    isl (snd (create_receipt_batch pgd pgu workflow db hex actor txn_date method lines v))"
proof -
  have "\<not> list_all uuid_char (new_id ''colbatch'' hex)" by (simp add: new_id_def uuid_char_def)
  then have "\<not> pgu (new_id ''colbatch'' hex)" using uuid by blast
  then have "create_receipt_batch_tx pgd pgu db b rows = Inl Db_Error" if "cb_id b = new_id ''colbatch'' hex" for b rows
    using that by (simp add: create_receipt_batch_tx_def)
  then show ?thesis by (simp add: create_receipt_batch_def Let_def split: sum.split)
qed

text \<open>A receipt of 10 on the agreement of the sample run, in a batch and alone.\<close>

theorem receipt_batch_never_created_witness:
  "let lines = [\<lparr>rl_contract = ''C1'', rl_agreement = ''A1'', rl_principal = 0, rl_interest = 10, rl_overdue = 0\<rparr>];
       r = create_receipt_batch Some (list_all uuid_char) (Some sample_workflow) busy_books ''0f'' ''u'' ''2025-01-01'' ''CASH'' lines 0
   in fst r = busy_books \<and> snd r = Inl code_internal \<and> check_receipt_lines busy_books lines = Inr lines"
proof -
  let ?lines = "[\<lparr>rl_contract = ''C1'', rl_agreement = ''A1'', rl_principal = 0, rl_interest = 10, rl_overdue = 0\<rparr>]"
  let ?r = "create_receipt_batch Some (list_all uuid_char) (Some sample_workflow) busy_books ''0f'' ''u'' ''2025-01-01'' ''CASH'' ?lines 0"
  have "fst ?r = busy_books" using receipt_batch_never_created [of "list_all uuid_char"] by blast
  moreover have "snd ?r = Inl code_internal" by code_simp
  moreover have "check_receipt_lines busy_books ?lines = Inr ?lines" by code_simp
  ultimately show ?thesis unfolding Let_def by blast
qed

section \<open>Refusals and failures\<close>

text \<open>
  A batch that does not fit is refused with an internal error, a single drawdown with an invalid
  input: the service compares the wrapped error of the repository with the bare one.
\<close>

lemma batch_refusal_is_internal:
  "snd (submit_batch_tx db i v now) = Inl Headroom_Exceeded \<Longrightarrow> 0 < v \<Longrightarrow> snd (submit_batch db i v now) = Inl code_internal"
  by (auto simp: submit_batch_def map_repo_error_def split: prod.splits)

text \<open>
  A submission that fails for the last time is given up: it is DEAD, the rows that waited are drafts
  again, and nothing is held for any row of the batch.
\<close>

lemma given_up_batch_is_free:
  assumes "find (processing i) (ld_submissions db) = Some s" "tries \<le> sb_attempts s + 1"
  shows "let db1 = fst (fail_submission db i cause tries now) in
    snd (fail_submission db i cause tries now) = Inr () \<and>
    (\<forall>d\<in>set (batch_rows db1 i). dd_status d \<noteq> ''PENDING_APPROVAL'' \<and> \<not> held_for db1 (dd_id d))"
proof -
  let ?sources = "in_batch (db\<lparr>ld_submissions := upd (processing i)
              (\<lambda>s. s\<lparr>sb_attempts := sb_attempts s + 1, sb_status := (if tries \<le> sb_attempts s + 1 then ''DEAD'' else ''PENDING''),
                     sb_next := now + backoff_seconds (sb_attempts s), sb_locked := None, sb_error := cause\<rparr>)
              (ld_submissions db)\<rparr>) i"
  have "ld_draws (fst (fail_submission db i cause tries now)) =
      upd (\<lambda>d. dd_batch d = Some i \<and> dd_status d = ''PENDING_APPROVAL'')
        (\<lambda>d. d\<lparr>dd_status := ''DRAFT'', dd_version := dd_version d + 1\<rparr>) (ld_draws db)"
    and "ld_reservations (fst (fail_submission db i cause tries now)) =
      upd (\<lambda>r. ?sources (rs_source r) \<and> rs_status r = ''HELD'') (\<lambda>r. r\<lparr>rs_status := ''RELEASED''\<rparr>) (ld_reservations db)"
    and "snd (fail_submission db i cause tries now) = Inr ()"
    using assms by (simp_all add: fail_submission_def Let_def)
  then show ?thesis unfolding Let_def
    by (auto simp: batch_rows_def set_upd held_for_def in_batch_def split: if_split_asm)
qed

end
