(* ===== verification/Loan_Conservation.thy ===== *)
theory Loan_Conservation
  imports Loan_Runs
begin

text \<open>
  What is pending on an agreement is what was registered and not yet completed: the pending balance
  always equals the posted REGISTER drawdowns of the agreement less the posted COMPLETE ones.
\<close>

section \<open>The books\<close>

definition posted_of :: "(string \<Rightarrow> bool) \<Rightarrow> loan_db \<Rightarrow> string \<Rightarrow> int" where
  "posted_of flow db code =
     sum_list (map (\<lambda>d. if dd_agreement d = code \<and> dd_status d = ''POSTED'' \<and> flow (dd_flow d) then dd_amount d else 0)
       (ld_draws db))"

definition registered_of :: "loan_db \<Rightarrow> string \<Rightarrow> int" where
  "registered_of = posted_of (\<lambda>f. f \<noteq> ''COMPLETE'')"

definition completed_of :: "loan_db \<Rightarrow> string \<Rightarrow> int" where
  "completed_of = posted_of (\<lambda>f. f = ''COMPLETE'')"

text \<open>Beside the balances: ids are used once, and the rows of a batch have its flow.\<close>

definition keyed_rows :: "loan_db \<Rightarrow> bool" where
  "keyed_rows db \<longleftrightarrow> distinct (map dd_id (ld_draws db)) \<and> (\<forall>d\<in>set (ld_draws db). dd_id d < ld_next db) \<and>
     distinct (map db_id (ld_batches db)) \<and> (\<forall>b\<in>set (ld_batches db). db_id b < ld_next db) \<and>
     distinct (map la_code (ld_agreements db)) \<and>
     (\<forall>d\<in>set (ld_draws db). \<forall>i. dd_batch d = Some i \<longrightarrow> (\<exists>b\<in>set (ld_batches db). db_id b = i \<and> db_flow b = dd_flow d)) \<and>
     (\<forall>d\<in>set (ld_draws db). dd_status d = ''POSTED'' \<longrightarrow> (\<exists>a\<in>set (ld_agreements db). la_code a = dd_agreement d))"

definition books_balanced :: "loan_db \<Rightarrow> bool" where
  "books_balanced db \<longleftrightarrow> keyed_rows db \<and>
     (\<forall>a\<in>set (ld_agreements db). la_pending a = registered_of db (la_code a) - completed_of db (la_code a))"

lemma balanced_keyed: "books_balanced db \<Longrightarrow> keyed_rows db"
  by (simp add: books_balanced_def)

section \<open>Steps that leave the books alone\<close>

definition row_key :: "drawdown \<Rightarrow> nat \<times> int \<times> string \<times> string \<times> nat option" where
  "row_key d = (dd_id d, dd_amount d, dd_agreement d, dd_flow d, dd_batch d)"

definition posted_key :: "drawdown \<Rightarrow> (nat \<times> int \<times> string \<times> string \<times> nat option) \<times> bool" where
  "posted_key d = (row_key d, dd_status d = ''POSTED'')"

definition batch_key :: "draw_batch \<Rightarrow> nat \<times> string" where
  "batch_key b = (db_id b, db_flow b)"

definition pending_key :: "loan_agreement \<Rightarrow> string \<times> int" where
  "pending_key a = (la_code a, la_pending a)"

definition same_books :: "loan_db \<Rightarrow> loan_db \<Rightarrow> bool" where
  "same_books db db' \<longleftrightarrow> map posted_key (ld_draws db') = map posted_key (ld_draws db) \<and>
     map batch_key (ld_batches db') = map batch_key (ld_batches db) \<and>
     map pending_key (ld_agreements db') = map pending_key (ld_agreements db) \<and> ld_next db \<le> ld_next db'"

lemmas book_keys = row_key_def posted_key_def batch_key_def pending_key_def

lemma posted_of_key: "map posted_key (ld_draws db') = map posted_key (ld_draws db) \<Longrightarrow> posted_of p db' c = posted_of p db c"
  unfolding posted_of_def
  by (rule arg_cong [of _ _ sum_list], rule map_through_key [where f = posted_key and
        h = "\<lambda>k. case k of ((i, m, a, f, b), s) \<Rightarrow> if a = c \<and> s \<and> p f then m else 0"]) (simp_all add: book_keys)

lemma same_books_keyed:
  assumes k: "keyed_rows db" and s: "same_books db db'"
  shows "keyed_rows db'"
proof -
  have e: "map posted_key (ld_draws db') = map posted_key (ld_draws db)" "map batch_key (ld_batches db') = map batch_key (ld_batches db)"
    "map pending_key (ld_agreements db') = map pending_key (ld_agreements db)" "ld_next db \<le> ld_next db'"
    using s by (auto simp: same_books_def)
  have ids: "map dd_id (ld_draws db') = map dd_id (ld_draws db)"
    by (rule map_through_key [OF e(1), where h = "\<lambda>k. fst (fst k)"]) (simp add: book_keys)
  have bids: "map db_id (ld_batches db') = map db_id (ld_batches db)"
    by (rule map_through_key [OF e(2), where h = fst]) (simp add: book_keys)
  have codes: "map la_code (ld_agreements db') = map la_code (ld_agreements db)"
    by (rule map_through_key [OF e(3), where h = fst]) (simp add: book_keys)
  have lt: "dd_id d < ld_next db'" if "d \<in> set (ld_draws db')" for d
    using map_key_set [OF ids that] k e(4) by (auto simp: keyed_rows_def)
  have blt: "db_id b < ld_next db'" if "b \<in> set (ld_batches db')" for b
    using map_key_set [OF bids that] k e(4) by (auto simp: keyed_rows_def)
  have fl: "\<exists>b\<in>set (ld_batches db'). db_id b = i \<and> db_flow b = dd_flow d" if d: "d \<in> set (ld_draws db')" "dd_batch d = Some i" for d i
  proof -
    obtain x where x: "x \<in> set (ld_draws db)" "posted_key x = posted_key d" using map_key_set [OF e(1) d(1)] by blast
    then obtain b where b: "b \<in> set (ld_batches db)" "db_id b = i" "db_flow b = dd_flow x"
      using k d(2) by (fastforce simp: keyed_rows_def book_keys)
    obtain y where "y \<in> set (ld_batches db')" "batch_key y = batch_key b" using map_key_set [OF e(2) [symmetric] b(1)] by blast
    then show ?thesis using b x(2) by (auto simp: book_keys)
  qed
  have ag: "\<exists>a\<in>set (ld_agreements db'). la_code a = dd_agreement d" if d: "d \<in> set (ld_draws db')" "dd_status d = ''POSTED''" for d
  proof -
    obtain x where x: "x \<in> set (ld_draws db)" "posted_key x = posted_key d" using map_key_set [OF e(1) d(1)] by blast
    then obtain a where a: "a \<in> set (ld_agreements db)" "la_code a = dd_agreement x"
      using k d(2) by (fastforce simp: keyed_rows_def book_keys)
    obtain y where "y \<in> set (ld_agreements db')" "la_code y = la_code a" using map_key_set [OF codes [symmetric] a(1)] by blast
    then show ?thesis using a x(2) by (auto simp: book_keys)
  qed
  show ?thesis using k lt blt fl ag by (simp add: keyed_rows_def ids bids codes)
qed

lemma same_books_balanced:
  assumes b: "books_balanced db" and s: "same_books db db'"
  shows "books_balanced db'"
proof -
  have "la_pending a = registered_of db' (la_code a) - completed_of db' (la_code a)" if a: "a \<in> set (ld_agreements db')" for a
  proof -
    obtain x where "x \<in> set (ld_agreements db)" "pending_key x = pending_key a"
      using map_key_set [of pending_key "ld_agreements db'" "ld_agreements db", OF _ a] s by (auto simp: same_books_def)
    then show ?thesis using b posted_of_key [of db' db] s
      by (auto simp: books_balanced_def registered_of_def completed_of_def book_keys same_books_def)
  qed
  then show ?thesis using same_books_keyed [OF balanced_keyed [OF b] s] by (simp add: books_balanced_def)
qed

lemma same_books_refl [simp]: "same_books db db"
  by (simp add: same_books_def)

lemma same_books_trans: "same_books a b \<Longrightarrow> same_books b c \<Longrightarrow> same_books a c"
  by (simp add: same_books_def)

lemma same_books_other: "ld_draws db' = ld_draws db \<Longrightarrow> ld_batches db' = ld_batches db \<Longrightarrow>
    ld_agreements db' = ld_agreements db \<Longrightarrow> ld_next db \<le> ld_next db' \<Longrightarrow> same_books db db'"
  by (simp add: same_books_def)

text \<open>Rows that change their status, but not to or from POSTED.\<close>

lemma map_upd_in: "(\<And>x. x \<in> set xs \<Longrightarrow> p x \<Longrightarrow> g (f x) = g x) \<Longrightarrow> map g (upd p f xs) = map g xs"
  by (simp add: upd_def)

lemma same_books_rows:
  assumes "ld_draws db' = upd p f (ld_draws db)" "\<And>d. d \<in> set (ld_draws db) \<Longrightarrow> p d \<Longrightarrow> posted_key (f d) = posted_key d"
    and "ld_batches db' = upd q g (ld_batches db)" "\<And>b. batch_key (g b) = batch_key b"
    and "ld_agreements db' = ld_agreements db" "ld_next db \<le> ld_next db'"
  shows "same_books db db'"
  using assms by (simp add: same_books_def map_upd_in)

section \<open>Statuses\<close>

lemma status_posted_key:
  "dd_status d \<noteq> ''POSTED'' \<Longrightarrow> t \<noteq> ''POSTED'' \<Longrightarrow> row_key d' = row_key d \<Longrightarrow> dd_status d' = t \<Longrightarrow> posted_key d' = posted_key d"
  by (simp add: posted_key_def)

text \<open>No guarded move but the reversal starts at POSTED.\<close>

lemma moves_not_from_posted:
  "transition_ok workflow_machine a b reason = Inr u \<Longrightarrow> b \<noteq> ''REVERSED'' \<Longrightarrow> a \<noteq> ''POSTED''"
  by (auto simp: transition_ok_def can_transition_def machine_simps split: sum.splits option.splits if_splits)

lemma set_draw_status_books:
  assumes e: "set_draw_status db i a b actor reason v = (db1, x)" and b: "b \<notin> {''POSTED'', ''REVERSED''}"
  shows "same_books db db1"
proof -
  have key: "posted_key (d\<lparr>dd_status := b, dd_updated_by := actor, dd_version := dd_version d + 1\<rparr>) = posted_key d"
    if "draw_guard i a v d" "a \<noteq> ''POSTED''" for d
    using that b by (simp add: draw_guard_def book_keys)
  have "same_books db db1"
    if "ld_draws db1 = upd (draw_guard i a v) (\<lambda>d. d\<lparr>dd_status := b, dd_updated_by := actor, dd_version := dd_version d + 1\<rparr>)
        (ld_draws db)" "ld_agreements db1 = ld_agreements db" "ld_batches db1 = ld_batches db" "ld_next db1 = ld_next db"
      "a \<noteq> ''POSTED''"
    by (rule same_books_rows [where q = "\<lambda>b. False" and g = "\<lambda>b. b" and p = "draw_guard i a v"
          and f = "\<lambda>d. d\<lparr>dd_status := b, dd_updated_by := actor, dd_version := dd_version d + 1\<rparr>"])
       (use that key in simp_all)
  then show ?thesis using set_draw_status_draws [OF e] moves_not_from_posted [of a b reason] b by auto
qed

lemma decision_target: "draw_decision x = Some t \<Longrightarrow> t \<notin> {''POSTED'', ''REVERSED''}"
  by (auto simp: draw_decision_def split: if_splits)

lemma set_draw_case_books: "set_draw_case_and_journal db i a b c = (db1, x) \<Longrightarrow> same_books db db1"
  by (auto simp: set_draw_case_and_journal_def book_keys split: if_split_asm
      intro!: same_books_rows [where q = "\<lambda>b. False" and g = "\<lambda>b. b"])

lemma approve_books: "approve_if_waiting db d actor v = (db1, x) \<Longrightarrow> same_books db db1"
  by (auto simp: approve_if_waiting_def split: if_split_asm intro: set_draw_status_books)

lemma submit_draw_books: "same_books db (fst (submit_draw w db actor i v))"
  unfolding submit_draw_def
  by (auto split: sum.split option.split prod.split dest!: set_draw_case_books set_draw_status_books
      intro: same_books_trans)

lemma resolve_draw_books: "same_books db (fst (resolve_draw db i decision actor reason v))"
  unfolding resolve_draw_def
  by (auto split: sum.split option.split prod.split dest!: decision_target intro: set_draw_status_books)

lemma same_books_status:
  assumes "ld_draws db' = upd p (\<lambda>d. d\<lparr>dd_status := t, dd_version := dd_version d + 1\<rparr>) (ld_draws db)"
    and "\<And>d. p d \<Longrightarrow> dd_status d \<noteq> ''POSTED''" "t \<noteq> ''POSTED''"
    and "ld_batches db' = ld_batches db" "ld_agreements db' = ld_agreements db" "ld_next db' = ld_next db"
  shows "same_books db db'"
  by (rule same_books_rows [where q = "\<lambda>b. False" and g = "\<lambda>b. b" and p = p
        and f = "\<lambda>d. d\<lparr>dd_status := t, dd_version := dd_version d + 1\<rparr>"]) (use assms in \<open>simp_all add: book_keys\<close>)

lemma set_batch_status_books:
  assumes e: "set_batch_status db i a b reason v = (db1, x)" and b: "b \<notin> {''POSTED'', ''REVERSED''}"
  shows "same_books db db1"
proof (cases "bind_r (transition_ok workflow_machine a b reason) (\<lambda>_. set_batch_row_status db i a b v)")
  case (Inl err)
  then show ?thesis using e by (auto simp: set_batch_status_def)
next
  case (Inr db2)
  then have a: "a \<noteq> ''POSTED''" using moves_not_from_posted [of a b reason] b by (auto simp: bind_r_eq_Inr)
  have one: "same_books db db2" using Inr
    by (auto simp: bind_r_eq_Inr set_batch_row_status_def book_keys split: if_split_asm
        intro!: same_books_rows [where p = "\<lambda>d. False" and f = "\<lambda>d. d" and q = "batch_guard i a v"
          and g = "\<lambda>x. x\<lparr>db_status := b, db_version := db_version x + 1\<rparr>"])
  have "same_books db2 (fst (set_batch_status db i a b reason v))"
  proof (cases "b = ''REJECTED'' \<or> b = ''CANCELLED''")
    case True
    show ?thesis
      by (rule same_books_status [where t = b
            and p = "\<lambda>d. dd_batch d = Some i \<and> dd_status d \<notin> {''POSTED'', ''REJECTED'', ''CANCELLED''}"])
         (use True b in \<open>simp_all add: set_batch_status_def Inr Let_def\<close>)
  next
    case False
    show ?thesis
      by (rule same_books_status [where t = b and p = "\<lambda>d. dd_batch d = Some i \<and> dd_status d = a"])
         (use False a b in \<open>simp_all add: set_batch_status_def Inr Let_def\<close>)
  qed
  then have "same_books db2 db1" by (simp add: e)
  with one show ?thesis by (rule same_books_trans)
qed

lemma resolve_batch_books: "same_books db (fst (resolve_batch db i decision reason v))"
  unfolding resolve_batch_def
  by (auto split: sum.split option.split prod.split dest!: decision_target intro: set_batch_status_books)

lemma approve_batch_books: "approve_waiting_batch db b v = (db1, x) \<Longrightarrow> same_books db db1"
  by (auto simp: approve_waiting_batch_def split: if_split_asm intro: set_batch_status_books)

lemma batch_posted_books: "set_batch_posted db i journal v = (db1, x) \<Longrightarrow> same_books db db1"
  by (auto simp: set_batch_posted_def gates book_keys split: if_split_asm
      intro!: same_books_rows [where p = "\<lambda>d. False" and f = "\<lambda>d. d" and q = "batch_guard i ''APPROVED'' v"
        and g = "\<lambda>b. b\<lparr>db_status := ''POSTED'', db_journal := null_if_empty journal, db_version := db_version b + 1\<rparr>"])

section \<open>Posting\<close>

text \<open>Posting a row adds its amount to what is posted for its agreement and flow, and nothing else.\<close>

lemma post_draw_posted:
  assumes k: "keyed_rows db" and p: "post_draw_row db i journal actor v = Inr (Some db1)"
    and d: "d \<in> set (ld_draws db)" "dd_id d = i"
  shows "posted_of q db1 c = posted_of q db c + (if dd_agreement d = c \<and> q (dd_flow d) then dd_amount d else 0)"
proof -
  note e = post_draw_row_eq [OF p]
  have dist: "distinct (map dd_id (ld_draws db))" using k by (simp add: keyed_rows_def)
  obtain x where x: "x \<in> set (ld_draws db)" "draw_guard i ''APPROVED'' v x" using e by blast
  then have xd: "x = d" using distinct_key [OF dist x(1) d(1)] d(2) by (simp add: draw_guard_def)
  have one: "draw_guard i ''APPROVED'' v y \<longleftrightarrow> y = d" if "y \<in> set (ld_draws db)" for y
    using distinct_key [OF dist that d(1)] d(2) x(2) xd by (auto simp: draw_guard_def)
  have st: "dd_status d \<noteq> ''POSTED''" using x(2) xd by (simp add: draw_guard_def)
  have dr: "ld_draws db1 = upd (draw_guard i ''APPROVED'' v) (posted_row journal actor) (ld_draws db)" using e by simp
  show ?thesis unfolding posted_of_def dr
    using sum_upd_one [OF _ d(1) one, of "\<lambda>d. if dd_agreement d = c \<and> dd_status d = ''POSTED'' \<and> q (dd_flow d) then dd_amount d else 0"
        "posted_row journal actor"] dist st by (simp add: distinct_map posted_row_def)
qed

lemma post_draw_keyed:
  assumes k: "keyed_rows db" and p: "post_draw_row db i journal actor v = Inr (Some db1)"
    and d: "d \<in> set (ld_draws db)" "dd_id d = i" and a: "a \<in> set (ld_agreements db)" "la_code a = dd_agreement d"
  shows "keyed_rows db1"
proof -
  have db1: "db1 = db\<lparr>ld_draws := upd (draw_guard i ''APPROVED'' v) (posted_row journal actor) (ld_draws db)\<rparr>"
    using post_draw_row_eq [OF p] by simp
  have dist: "distinct (map dd_id (ld_draws db))" using k by (simp add: keyed_rows_def)
  have ids: "map dd_id (ld_draws db1) = map dd_id (ld_draws db)" by (simp add: db1 map_upd posted_row_def)
  have rows: "\<exists>x\<in>set (ld_draws db). row_key x = row_key y \<and> (dd_status y = ''POSTED'' \<longrightarrow> dd_status x = ''POSTED'' \<or> x = d)"
    if y: "y \<in> set (ld_draws db1)" for y
  proof -
    obtain x where x: "x \<in> set (ld_draws db)" "y = (if draw_guard i ''APPROVED'' v x then posted_row journal actor x else x)"
      using y by (auto simp: db1 set_upd)
    have "x = d" if "draw_guard i ''APPROVED'' v x"
      using distinct_key [OF dist x(1) d(1)] d(2) that by (simp add: draw_guard_def)
    then show ?thesis using x by (intro bexI [OF _ x(1)]) (auto simp: row_key_def posted_row_def)
  qed
  have "dd_id y < ld_next db1" if "y \<in> set (ld_draws db1)" for y
    using rows [OF that] k by (auto simp: keyed_rows_def row_key_def db1)
  moreover have "\<exists>b\<in>set (ld_batches db1). db_id b = j \<and> db_flow b = dd_flow y"
    if "y \<in> set (ld_draws db1)" "dd_batch y = Some j" for y j
    using rows [OF that(1)] that(2) k by (auto simp: keyed_rows_def row_key_def db1)
  moreover have "\<exists>a\<in>set (ld_agreements db1). la_code a = dd_agreement y"
    if y: "y \<in> set (ld_draws db1)" "dd_status y = ''POSTED''" for y
  proof -
    obtain x where x: "x \<in> set (ld_draws db)" "dd_agreement y = dd_agreement x" "dd_status x = ''POSTED'' \<or> x = d"
      using rows [OF y(1)] y(2) by (auto simp: row_key_def)
    have ag: "\<forall>d\<in>set (ld_draws db). dd_status d = ''POSTED'' \<longrightarrow> (\<exists>a\<in>set (ld_agreements db). la_code a = dd_agreement d)"
      using k by (simp add: keyed_rows_def)
    show ?thesis using x(3) ag x(1) a unfolding x(2) by (auto simp: db1)
  qed
  ultimately show ?thesis using k by (simp add: keyed_rows_def ids) (simp add: db1)
qed

text \<open>The balance moves with the posting when both concern the same agreement.\<close>

lemma posting_balanced:
  assumes b: "books_balanced db" and p: "post_draw_row db i journal actor v = Inr (Some db1)"
    and d: "d \<in> set (ld_draws db)" "dd_id d = i"
    and a: "a \<in> set (ld_agreements db)" "la_code a = dd_agreement d"
    and draws: "ld_draws db' = ld_draws db1" "ld_batches db' = ld_batches db1" "ld_next db' = ld_next db1"
    and ags: "ld_agreements db' = upd g f (ld_agreements db)" "\<And>x. x \<in> set (ld_agreements db) \<Longrightarrow> g x \<longleftrightarrow> x = a"
      "la_code (f a) = la_code a"
      "la_pending (f a) = la_pending a + (if dd_flow d = ''COMPLETE'' then - dd_amount d else dd_amount d)"
  shows "books_balanced db'"
proof -
  note k = balanced_keyed [OF b]
  have k1: "keyed_rows db1" by (rule post_draw_keyed [OF k p d a])
  have codes: "map la_code (ld_agreements db') = map la_code (ld_agreements db)"
    unfolding ags(1) by (rule map_upd_in) (simp add: ags(2,3))
  have ag1: "ld_agreements db1 = ld_agreements db" using post_draw_row_eq [OF p] by simp
  have sub: "\<exists>x\<in>set (ld_agreements db'). la_code x = la_code y" if "y \<in> set (ld_agreements db)" for y
    using map_key_set [OF codes [symmetric] that] .
  have k': "keyed_rows db'"
    unfolding keyed_rows_def draws codes
    using k1 sub unfolding keyed_rows_def ag1 by (auto; fastforce)
  have bal: "la_pending y = registered_of db' (la_code y) - completed_of db' (la_code y)" if y: "y \<in> set (ld_agreements db')" for y
  proof -
    obtain x where x: "x \<in> set (ld_agreements db)" "y = (if g x then f x else x)" using y by (auto simp: ags(1) set_upd)
    have px: "la_pending x = registered_of db (la_code x) - completed_of db (la_code x)" using b x(1) by (simp add: books_balanced_def)
    have po: "posted_of q db' c = posted_of q db c + (if dd_agreement d = c \<and> q (dd_flow d) then dd_amount d else 0)" for q c
      using post_draw_posted [OF k p d, of q c] by (simp add: posted_of_def draws(1))
    have same: "la_code x = dd_agreement d \<longleftrightarrow> x = a"
      using distinct_key [of la_code "ld_agreements db" x a] k x(1) a by (simp add: keyed_rows_def)
    show ?thesis
    proof (cases "x = a")
      case True
      then have "y = f a" using x ags(2) by simp
      then show ?thesis using px ags(3,4) a(2) True by (simp add: registered_of_def completed_of_def po)
    next
      case False
      then have "y = x" using x ags(2) by simp
      then show ?thesis using px False same by (auto simp: registered_of_def completed_of_def po)
    qed
  qed
  show ?thesis using k' bal by (simp add: books_balanced_def)
qed

lemma settle_register_tx_balanced:
  assumes b: "books_balanced db" and d: "d \<in> set (ld_draws db)" "dd_id d = i" "dd_agreement d = agreement" "dd_amount d = amount"
    and flow: "dd_flow d \<noteq> ''COMPLETE''"
  shows "books_balanced (fst (settle_register_tx db i agreement amount journal actor v))"
proof (cases "snd (settle_register_tx db i agreement amount journal actor v) = Inr True")
  case False
  then show ?thesis using b settle_register_tx_same [OF False] by simp
next
  case True
  obtain db' where e: "settle_register_tx db i agreement amount journal actor v = (db', Inr True)"
    by (rule that) (use True in \<open>simp add: prod_eq_iff\<close>)
  obtain db1 p where p1: "post_draw_row db i journal actor v = Inr (Some db1)"
    and db': "db' = (disburse_contract (db1\<lparr>ld_agreements := upd (\<lambda>a. la_code a = agreement)
        (\<lambda>a. a\<lparr>la_pending := la_pending a + amount\<rparr>) (ld_agreements db1)\<rparr>) p)
      \<lparr>ld_reservations := upd (\<lambda>r. rs_source r = i \<and> rs_status r = ''HELD'')
        (\<lambda>r. r\<lparr>rs_status := ''CONSUMED''\<rparr>) (ld_reservations db1)\<rparr>"
    by (rule settle_register_tx_cases [OF e])
  have ag1: "ld_agreements db1 = ld_agreements db" using post_draw_row_eq [OF p1] by simp
  obtain a where a: "a \<in> set (ld_agreements db)" "la_code a = agreement"
    using True p1 ag1 by (auto simp: settle_register_tx_def gates update_agreement_def split: if_split_asm)
  have one: "la_code x = agreement \<longleftrightarrow> x = a" if "x \<in> set (ld_agreements db)" for x
    using distinct_key [of la_code "ld_agreements db" x a] balanced_keyed [OF b] that a by (simp add: keyed_rows_def)
  have "books_balanced db'"
    by (rule posting_balanced [where f = "\<lambda>a. a\<lparr>la_pending := la_pending a + amount\<rparr>", OF b p1 d(1,2) a(1) _ _ _ _ _ one]) (use a d flow in \<open>simp_all add: db' ag1\<close>)
  then show ?thesis by (simp add: e)
qed

lemma settle_complete_tx_balanced:
  assumes b: "books_balanced db" and d: "d \<in> set (ld_draws db)" "dd_id d = i" "dd_agreement d = agreement" "dd_amount d = amount"
    and flow: "dd_flow d = ''COMPLETE''"
  shows "books_balanced (fst (settle_complete_tx db i contract agreement amount journal actor v))"
proof (cases "snd (settle_complete_tx db i contract agreement amount journal actor v) = Inr True")
  case False
  then show ?thesis using b settle_complete_tx_same [OF False] by simp
next
  case True
  obtain db' where e: "settle_complete_tx db i contract agreement amount journal actor v = (db', Inr True)"
    by (rule that) (use True in \<open>simp add: prod_eq_iff\<close>)
  obtain db1 p a where p1: "post_draw_row db i journal actor v = Inr (Some db1)"
    and a: "a \<in> set (ld_agreements db1)" "la_code a = agreement" "amount \<le> la_pending a"
    and db': "db' = disburse_contract (db1\<lparr>ld_agreements := upd (\<lambda>a. la_code a = agreement \<and> amount \<le> la_pending a)
        (\<lambda>a. a\<lparr>la_outstanding := la_outstanding a + amount, la_pending := la_pending a - amount\<rparr>) (ld_agreements db1)\<rparr>) p"
    by (rule settle_complete_tx_cases [OF e])
  have ag1: "ld_agreements db1 = ld_agreements db" using post_draw_row_eq [OF p1] by simp
  have one: "(la_code x = agreement \<and> amount \<le> la_pending x) \<longleftrightarrow> x = a" if "x \<in> set (ld_agreements db)" for x
    using distinct_key [of la_code "ld_agreements db" x a] balanced_keyed [OF b] that a ag1 by (auto simp: keyed_rows_def)
  have "books_balanced db'"
    by (rule posting_balanced [where f = "\<lambda>a. a\<lparr>la_outstanding := la_outstanding a + amount, la_pending := la_pending a - amount\<rparr>",
          OF b p1 d(1,2) _ _ _ _ _ _ one]) (use a d flow in \<open>simp_all add: db' ag1\<close>)
  then show ?thesis by (simp add: e)
qed

end
