(* ===== verification/Loan_Pending.thy ===== *)
theory Loan_Pending
  imports Loan_Conservation
begin

text \<open>Every call keeps the books balanced, and what that says of a run.\<close>

section \<open>Settling\<close>

lemma same_rows: "same_books db db1 \<Longrightarrow> row_key ` set (ld_draws db1) = row_key ` set (ld_draws db)"
proof -
  assume "same_books db db1"
  then have "map posted_key (ld_draws db1) = map posted_key (ld_draws db)" by (simp add: same_books_def)
  then have "map row_key (ld_draws db1) = map row_key (ld_draws db)"
    by (rule map_through_key [where h = fst]) (simp add: posted_key_def)
  from arg_cong [OF this, of set] show ?thesis by simp
qed

lemma post_draw_rows:
  assumes "post_draw_row db i journal actor v = Inr (Some db1)"
  shows "row_key ` set (ld_draws db1) = row_key ` set (ld_draws db)"
proof -
  have "map row_key (ld_draws db1) = map row_key (ld_draws db)"
    using post_draw_row_eq [OF assms] by (simp add: map_upd row_key_def posted_row_def)
  from arg_cong [OF this, of set] show ?thesis by simp
qed

lemma settle_register_tx_rows:
  assumes "settle_register_tx db i agreement amount journal actor v = (db1, x)"
  shows "row_key ` set (ld_draws db1) = row_key ` set (ld_draws db)"
proof (cases "x = Inr True")
  case True
  show ?thesis by (rule settle_register_tx_cases [OF assms [unfolded True]]) (simp add: post_draw_rows)
next
  case False
  then show ?thesis using settle_register_tx_same [of db i agreement amount journal actor v] assms by simp
qed

lemma settle_complete_tx_rows:
  assumes "settle_complete_tx db i contract agreement amount journal actor v = (db1, x)"
  shows "row_key ` set (ld_draws db1) = row_key ` set (ld_draws db)"
proof (cases "x = Inr True")
  case True
  show ?thesis by (rule settle_complete_tx_cases [OF assms [unfolded True]]) (simp add: post_draw_rows)
next
  case False
  then show ?thesis using settle_complete_tx_same [of db i contract agreement amount journal actor v] assms by simp
qed

lemma row_in:
  assumes "row_key d \<in> row_key ` set (ld_draws db)"
  obtains x where "x \<in> set (ld_draws db)" "dd_id x = dd_id d" "dd_agreement x = dd_agreement d" "dd_amount x = dd_amount d"
    "dd_flow x = dd_flow d" "dd_batch x = dd_batch d"
  using assms by (auto simp: row_key_def)

lemma settle_draw_balanced:
  assumes b: "books_balanced db"
  shows "books_balanced (fst (settle_draw db i journal actor v))"
proof (cases "get_draw db i")
  case (Inl e)
  then show ?thesis using b by (simp add: settle_draw_def)
next
  case (Inr d)
  have d: "d \<in> set (ld_draws db)" "dd_id d = i" using get_draw_row [OF Inr] by simp_all
  obtain db1 x where a: "approve_if_waiting db d actor v = (db1, x)" by fastforce
  note s = approve_books [OF a]
  have b1: "books_balanced db1" by (rule same_books_balanced [OF b s])
  obtain d1 where d1: "d1 \<in> set (ld_draws db1)" "dd_id d1 = dd_id d" "dd_agreement d1 = dd_agreement d"
      "dd_amount d1 = dd_amount d" "dd_flow d1 = dd_flow d"
  proof (rule row_in [of d db1])
    show "row_key d \<in> row_key ` set (ld_draws db1)" using d(1) by (simp add: same_rows [OF s])
  qed blast
  show ?thesis
  proof (cases "dd_flow d = ''COMPLETE''")
    case True
    have "books_balanced (fst (settle_complete_tx db1 i (dd_contract d) (dd_agreement d) (dd_amount d) journal actor v))"
      by (rule settle_complete_tx_balanced [OF b1 d1(1)]) (use d1 d True in simp_all)
    then show ?thesis using b1 True
      by (cases x) (auto simp: settle_draw_def Inr settle_complete_def a d(2) flow_or_register_def split: prod.split sum.split)
  next
    case False
    have "books_balanced (fst (settle_register_tx db1 i (dd_agreement d) (dd_amount d) journal actor v))"
      by (rule settle_register_tx_balanced [OF b1 d1(1)]) (use d1 d False in simp_all)
    then show ?thesis using b1 False
      by (cases x) (auto simp: settle_draw_def Inr settle_register_def a d(2) flow_or_register_def split: prod.split sum.split)
  qed
qed

lemma settle_register_rows_balanced:
  assumes "books_balanced db" "\<forall>d\<in>set ds. row_key d \<in> row_key ` set (ld_draws db) \<and> dd_flow d \<noteq> ''COMPLETE''"
  shows "books_balanced (fst (settle_register_rows db ds journal actor))"
  using assms
proof (induction ds arbitrary: db)
  case (Cons d ds)
  obtain db1 x where e: "settle_register_tx db (dd_id d) (dd_agreement d) (dd_amount d) journal actor 0 = (db1, x)" by fastforce
  obtain y where y: "y \<in> set (ld_draws db)" "dd_id y = dd_id d" "dd_agreement y = dd_agreement d" "dd_amount y = dd_amount d"
      "dd_flow y = dd_flow d"
  proof (rule row_in [of d db])
    show "row_key d \<in> row_key ` set (ld_draws db)" using Cons.prems(2) by simp
  qed blast
  have "books_balanced (fst (settle_register_tx db (dd_id d) (dd_agreement d) (dd_amount d) journal actor 0))"
    by (rule settle_register_tx_balanced [OF Cons.prems(1) y(1-4)]) (use y(5) Cons.prems(2) in simp)
  then have b1: "books_balanced db1" by (simp add: e)
  have "books_balanced (fst (settle_register_rows db1 ds journal actor))"
    using Cons.prems(2) settle_register_tx_rows [OF e] by (intro Cons.IH [OF b1]) simp
  then show ?case using b1 by (cases x) (simp_all add: e)
qed simp

lemma settle_complete_rows_balanced:
  assumes "books_balanced db" "\<forall>d\<in>set ds. row_key d \<in> row_key ` set (ld_draws db) \<and> dd_flow d = ''COMPLETE''"
  shows "books_balanced (fst (settle_complete_rows db ds journal actor))"
  using assms
proof (induction ds arbitrary: db)
  case (Cons d ds)
  obtain db1 x where e: "settle_complete_tx db (dd_id d) (dd_contract d) (dd_agreement d) (dd_amount d) journal actor 0 = (db1, x)"
    by fastforce
  obtain y where y: "y \<in> set (ld_draws db)" "dd_id y = dd_id d" "dd_agreement y = dd_agreement d" "dd_amount y = dd_amount d"
      "dd_flow y = dd_flow d"
  proof (rule row_in [of d db])
    show "row_key d \<in> row_key ` set (ld_draws db)" using Cons.prems(2) by simp
  qed blast
  have "books_balanced (fst (settle_complete_tx db (dd_id d) (dd_contract d) (dd_agreement d) (dd_amount d) journal actor 0))"
    by (rule settle_complete_tx_balanced [OF Cons.prems(1) y(1-4)]) (use y(5) Cons.prems(2) in simp)
  then have b1: "books_balanced db1" by (simp add: e)
  have "books_balanced (fst (settle_complete_rows db1 ds journal actor))"
    using Cons.prems(2) settle_complete_tx_rows [OF e] by (intro Cons.IH [OF b1]) simp
  then show ?case using b1 by (cases x) (simp_all add: e)
qed simp

lemma close_contracts_books: "close_contracts db cs = (db1, x) \<Longrightarrow> same_books db db1"
proof (induction cs arbitrary: db)
  case (Cons c cs)
  obtain db2 y where e: "close_contract_by_code db c = (db2, y)" by fastforce
  have "same_books db db2" using e
    by (auto simp: close_contract_by_code_def gates split: if_split_asm intro!: same_books_other)
  then show ?case using Cons by (cases y) (auto simp: e intro: same_books_trans)
qed simp

lemma batch_row_flow:
  assumes k: "keyed_rows db" and b: "batch_by_id db i = Inr b" and d: "d \<in> set (batch_rows db i)"
  shows "dd_flow d = db_flow b"
proof -
  have "find (\<lambda>x. db_id x = i) (ld_batches db) = Some b" using b by (auto simp: batch_by_id_def split: option.splits)
  then have bi: "b \<in> set (ld_batches db)" "db_id b = i" using find_Some_in by fastforce+
  obtain c where c: "c \<in> set (ld_batches db)" "db_id c = i" "db_flow c = dd_flow d"
    using k d by (fastforce simp: keyed_rows_def batch_rows_def)
  have "c = b" using distinct_key [of db_id "ld_batches db" c b] k c(1,2) bi by (simp add: keyed_rows_def)
  then show ?thesis using c(3) by simp
qed

lemma batch_by_id_same:
  assumes "same_books db db1" "batch_by_id db i = Inr b"
  shows "\<exists>b1. batch_by_id db1 i = Inr b1 \<and> db_flow b1 = db_flow b"
proof -
  have "map_option batch_key (find (\<lambda>x. fst (batch_key x) = i) (ld_batches db1)) =
      map_option batch_key (find (\<lambda>x. fst (batch_key x) = i) (ld_batches db))"
    using find_map_key [of batch_key "ld_batches db1" "ld_batches db" "\<lambda>k. fst k = i"] assms(1) by (simp add: same_books_def)
  then show ?thesis using assms(2) by (auto simp: batch_by_id_def batch_key_def split: option.splits)
qed

lemma settle_batch_balanced:
  assumes b: "books_balanced db"
  shows "books_balanced (fst (settle_batch db i journal actor v))"
proof (cases "batch_by_id db i")
  case (Inl e)
  then show ?thesis using b by (simp add: settle_batch_def)
next
  case (Inr ba)
  obtain db1 x where a: "approve_waiting_batch db ba v = (db1, x)" by fastforce
  note s = approve_batch_books [OF a]
  have b1: "books_balanced db1" by (rule same_books_balanced [OF b s])
  obtain c where c: "batch_by_id db1 i = Inr c" "db_flow c = db_flow ba" using batch_by_id_same [OF s Inr] by blast
  have flow: "dd_flow d = db_flow ba" if "d \<in> set (batch_rows db1 i)" for d
    using batch_row_flow [OF balanced_keyed [OF b1] c(1) that] c(2) by simp
  have rows: "row_key d \<in> row_key ` set (ld_draws db1)" if "d \<in> set (batch_rows db1 i)" for d
    using that by (simp add: batch_rows_def)
  have post: "books_balanced (fst (set_batch_posted db2 i journal v))" if "books_balanced db2" for db2
    using same_books_balanced [OF that batch_posted_books [of db2 i journal v]] by (metis prod.collapse)
  show ?thesis
  proof (cases "db_flow ba = ''COMPLETE''")
    case True
    obtain db2 y where r: "settle_complete_rows db1 (batch_rows db1 i) journal actor = (db2, y)" by fastforce
    have b2: "books_balanced db2"
      using settle_complete_rows_balanced [OF b1, of "batch_rows db1 i" journal actor] flow rows True r by simp
    obtain db3 z where cc: "close_contracts db2 (map dd_contract (filter dd_closed (batch_rows db1 i))) = (db3, z)" by fastforce
    have b3: "books_balanced db3" by (rule same_books_balanced [OF b2 close_contracts_books [OF cc]])
    show ?thesis using b b1 b2 b3 post [OF b3] True
      by (cases x; cases y; cases z) (simp_all add: settle_batch_def Inr settle_batch_complete_def a r cc)
  next
    case False
    obtain db2 y where r: "settle_register_rows db1 (batch_rows db1 i) journal actor = (db2, y)" by fastforce
    have b2: "books_balanced db2"
      using settle_register_rows_balanced [OF b1, of "batch_rows db1 i" journal actor] flow rows False r by simp
    show ?thesis using b b1 b2 post [OF b2] False
      by (cases x; cases y) (simp_all add: settle_batch_def Inr settle_batch_register_def a r)
  qed
qed

section \<open>Rows that come and go\<close>

text \<open>A new row is no posted one; its batch, if any, has its flow.\<close>

lemma insert_draw_balanced:
  assumes b: "books_balanced db" and e: "insert_draw pgd db d = Inr (db1, i)"
    and f: "\<And>j. dd_batch d = Some j \<Longrightarrow> \<exists>b\<in>set (ld_batches db). db_id b = j \<and> db_flow b = dd_flow d"
  shows "books_balanced db1" "ld_batches db1 = ld_batches db" "ld_agreements db1 = ld_agreements db"
proof -
  obtain date where db1: "db1 = db\<lparr>ld_draws := ld_draws db @
      [d\<lparr>dd_id := ld_next db, dd_date := date, dd_status := ''DRAFT'', dd_version := 1\<rparr>], ld_next := ld_next db + 1\<rparr>"
    using insert_draw_shape [OF e] by blast
  have "keyed_rows db1" using balanced_keyed [OF b] f by (fastforce simp: keyed_rows_def db1 less_Suc_eq)
  moreover have "posted_of q db1 c = posted_of q db c" for q c by (simp add: posted_of_def db1)
  ultimately show "books_balanced db1" using b by (simp add: books_balanced_def registered_of_def completed_of_def) (simp add: db1)
  show "ld_batches db1 = ld_batches db" "ld_agreements db1 = ld_agreements db" by (simp_all add: db1)
qed

lemma insert_draws_balanced:
  "books_balanced db \<Longrightarrow> insert_draws pgd db ds = Inr db1 \<Longrightarrow>
   (\<And>d j. d \<in> set ds \<Longrightarrow> dd_batch d = Some j \<Longrightarrow> \<exists>b\<in>set (ld_batches db). db_id b = j \<and> db_flow b = dd_flow d) \<Longrightarrow> books_balanced db1"
proof (induction ds arbitrary: db)
  case (Cons d ds)
  then obtain db2 i where i: "insert_draw pgd db d = Inr (db2, i)" and r: "insert_draws pgd db2 ds = Inr db1"
    by (auto simp: bind_r_eq_Inr)
  note f = insert_draw_balanced [OF Cons.prems(1) i, OF Cons.prems(3)]
  have "books_balanced db2" by (rule f(1)) simp_all
  moreover have "ld_batches db2 = ld_batches db" by (rule f(2)) simp_all
  ultimately show ?case using r Cons.prems(3) by (intro Cons.IH [of db2]) simp_all
qed simp

lemma check_lines_all: "check_lines f ls = Inr ds \<Longrightarrow> (\<And>l d. f l = Inr d \<Longrightarrow> q d) \<Longrightarrow> d \<in> set ds \<Longrightarrow> q d"
  by (induction ls arbitrary: ds) (auto simp: bind_r_eq_Inr)

lemma line_flows:
  "register_line db date actor l = Inr d \<Longrightarrow> dd_flow d = ''REGISTER''"
  "complete_line db sources date currency actor l = Inr d \<Longrightarrow> dd_flow d = ''COMPLETE''"
  "update_register_line db b date actor l = Inr d \<Longrightarrow> dd_flow d = db_flow b"
  "update_complete_line b sources date actor l = Inr d \<Longrightarrow> dd_flow d = db_flow b"
  by (auto simp: register_line_def complete_line_def update_register_line_def update_complete_line_def Let_def batch_row_def
      split: option.splits sum.splits if_split_asm)

lemma history_books: "same_books db (batch_history i e a b db)"
  by (rule same_books_other) simp_all

lemma create_draw_batch_tx_balanced:
  assumes b: "books_balanced db" and rows: "\<And>d. d \<in> set rows \<Longrightarrow> dd_flow d = db_flow ba"
  shows "books_balanced (fst (create_draw_batch_tx pgd db ba rows))"
proof (cases "pgd (db_date ba)")
  case None
  then show ?thesis using b by (simp add: create_draw_batch_tx_def)
next
  case (Some date)
  let ?db1 = "db\<lparr>ld_batches := ld_batches db @ [ba\<lparr>db_id := ld_next db, db_date := date, db_version := 1\<rparr>],
                ld_next := ld_next db + 1\<rparr>"
  have "keyed_rows ?db1" using balanced_keyed [OF b] by (fastforce simp: keyed_rows_def less_Suc_eq)
  moreover have "posted_of q ?db1 c = posted_of q db c" for q c by (simp add: posted_of_def)
  ultimately have b1: "books_balanced ?db1" using b by (simp add: books_balanced_def registered_of_def completed_of_def)
  show ?thesis
  proof (cases "insert_draws pgd ?db1 (map (\<lambda>d. d\<lparr>dd_batch := Some (ld_next db)\<rparr>) rows)")
    case (Inl e)
    then show ?thesis using b by (simp add: create_draw_batch_tx_def Some)
  next
    case (Inr db2)
    have "books_balanced db2" by (rule insert_draws_balanced [OF b1 Inr]) (use rows in auto)
    then have "books_balanced (batch_history (ld_next db) ''CREATED'' [] ''DRAFT'' db2)" by (rule same_books_balanced [OF _ history_books])
    then show ?thesis using Inr by (simp add: create_draw_batch_tx_def Some)
  qed
qed

lemma create_batch_register_balanced:
  assumes b: "books_balanced db"
  shows "books_balanced (fst (create_batch_register pgd db actor txn_date method lines))"
proof -
  have "books_balanced db1" if c: "check_lines (register_line db txn_date actor) lines = Inr rows"
    and e: "create_draw_batch_tx pgd db (draft_header ''REGISTER'' None txn_date ''VND'' actor (batch_total rows)) rows = (db1, x)"
    for rows db1 x
  proof -
    have "books_balanced (fst (create_draw_batch_tx pgd db (draft_header ''REGISTER'' None txn_date ''VND'' actor (batch_total rows)) rows))"
      by (rule create_draw_batch_tx_balanced [OF b]) (use check_lines_all [OF c line_flows(1)] in \<open>simp add: draft_header_def\<close>)
    then show ?thesis by (simp add: e)
  qed
  then show ?thesis using b unfolding create_batch_register_def
    by (auto split: sum.split prod.split loan_error.split)
qed

lemma create_batch_complete_balanced:
  assumes b: "books_balanced db"
  shows "books_balanced (fst (create_batch_complete pgd db actor source_id txn_date method lines))"
proof -
  have "books_balanced db1" if c: "check_lines (complete_line db sources txn_date cur actor) lines = Inr rows"
    and e: "create_draw_batch_tx pgd db (draft_header ''COMPLETE'' sid txn_date cur actor (batch_total rows)) rows = (db1, x)"
    for sources cur sid rows db1 x
  proof -
    have "books_balanced (fst (create_draw_batch_tx pgd db (draft_header ''COMPLETE'' sid txn_date cur actor (batch_total rows)) rows))"
      by (rule create_draw_batch_tx_balanced [OF b]) (use check_lines_all [OF c line_flows(2)] in \<open>simp add: draft_header_def\<close>)
    then show ?thesis by (simp add: e)
  qed
  then show ?thesis using b unfolding create_batch_complete_def
    by (auto split: sum.split prod.split option.split)
qed

lemma sum_filter:
  fixes g :: "'a \<Rightarrow> int"
  shows "(\<And>x. \<not> p x \<Longrightarrow> g x = 0) \<Longrightarrow> sum_list (map g (filter p xs)) = sum_list (map g xs)"
  by (induction xs) auto

lemma update_draft_tx_balanced:
  assumes b: "books_balanced db" and ba: "batch_by_id db i = Inr ba" and rows: "\<And>d. d \<in> set rows \<Longrightarrow> dd_flow d = db_flow ba"
  shows "books_balanced (fst (update_draft_tx pgd db i expected txn_date rows))"
proof (cases "pgd txn_date = None \<or> \<not> (\<exists>b\<in>set (ld_batches db). draft_guard i expected b)")
  case True
  then show ?thesis using b by (auto simp: update_draft_tx_def split: option.split)
next
  case False
  then obtain date where p: "pgd txn_date = Some date" and g: "\<exists>b\<in>set (ld_batches db). draft_guard i expected b" by auto
  let ?f = "\<lambda>b. b\<lparr>db_date := date, db_total := batch_total rows, db_version := db_version b + 1\<rparr>"
  let ?db0 = "db\<lparr>ld_draws := [d \<leftarrow> ld_draws db. \<not> (dd_batch d = Some i \<and> dd_status d = ''DRAFT'')]\<rparr>"
  let ?db1 = "db\<lparr>ld_batches := upd (draft_guard i expected) ?f (ld_batches db),
                   ld_draws := [d \<leftarrow> ld_draws db. \<not> (dd_batch d = Some i \<and> dd_status d = ''DRAFT'')]\<rparr>"
  have "keyed_rows ?db0" using balanced_keyed [OF b] by (simp add: keyed_rows_def distinct_map_filter)
  moreover have "posted_of q ?db0 c = posted_of q db c" for q c
    unfolding posted_of_def by (simp, rule sum_filter) auto
  ultimately have b0: "books_balanced ?db0" using b by (simp add: books_balanced_def registered_of_def completed_of_def)
  have b1: "books_balanced ?db1"
    by (rule same_books_balanced [OF b0 same_books_rows [where p = "\<lambda>d. False" and f = "\<lambda>d. d"
          and q = "draft_guard i expected" and g = ?f]]) (simp_all add: batch_key_def)
  obtain b1' where fl: "batch_by_id ?db1 i = Inr b1'" "db_flow b1' = db_flow ba"
  proof -
    have "map batch_key (ld_batches ?db1) = map batch_key (ld_batches db)" by (simp add: map_upd batch_key_def)
    from find_map_key [OF this, of "\<lambda>k. fst k = i"] show thesis using ba that
      by (auto simp: batch_by_id_def batch_key_def split: option.splits)
  qed
  have inb: "b1' \<in> set (ld_batches ?db1)" "db_id b1' = i"
    using fl(1) find_Some_in [of "\<lambda>b. db_id b = i" "ld_batches ?db1" b1'] by (auto simp: batch_by_id_def split: option.splits)
  show ?thesis
  proof (cases "insert_draws pgd ?db1 (map (\<lambda>d. d\<lparr>dd_batch := Some i\<rparr>) rows)")
    case (Inl e)
    then show ?thesis using b p g by (simp add: update_draft_tx_def Let_def)
  next
    case (Inr db2)
    have "books_balanced db2"
    proof (rule insert_draws_balanced [OF b1 Inr])
      fix d j assume "d \<in> set (map (\<lambda>d. d\<lparr>dd_batch := Some i\<rparr>) rows)" "dd_batch d = Some j"
      then have "j = i" "dd_flow d = db_flow ba" using rows by auto
      then show "\<exists>b\<in>set (ld_batches ?db1). db_id b = j \<and> db_flow b = dd_flow d"
        using inb fl(2) by (intro bexI [OF _ inb(1)]) simp
    qed
    then have "books_balanced (batch_history i ''UPDATED'' ''DRAFT'' ''DRAFT'' db2)" by (rule same_books_balanced [OF _ history_books])
    then show ?thesis using p g Inr by (simp add: update_draft_tx_def Let_def)
  qed
qed

lemma update_draft_balanced:
  assumes b: "books_balanced db"
  shows "books_balanced (fst (update_draft pgd db actor i data_version txn_date method lines))"
proof (cases "batch_by_id db i")
  case (Inl e)
  then show ?thesis using b by (simp add: update_draft_def)
next
  case (Inr ba)
  let ?lines = "if db_flow ba = ''REGISTER'' then check_lines (update_register_line db ba txn_date actor) lines
      else check_lines (update_complete_line ba (case db_source ba of None \<Rightarrow> [] | Some s \<Rightarrow> batch_rows db s) txn_date actor) lines"
  show ?thesis
  proof (cases ?lines)
    case (Inl e)
    then show ?thesis using b Inr by (simp add: update_draft_def)
  next
    case rows: (Inr rows)
    have "dd_flow d = db_flow ba" if d: "d \<in> set rows" for d
    proof (cases "db_flow ba = ''REGISTER''")
      case True
      then have r: "check_lines (update_register_line db ba txn_date actor) lines = Inr rows" using rows by simp
      show ?thesis by (rule check_lines_all [OF r _ d]) (rule line_flows(3))
    next
      case False
      then have r: "check_lines (update_complete_line ba (case db_source ba of None \<Rightarrow> [] | Some s \<Rightarrow> batch_rows db s)
          txn_date actor) lines = Inr rows" using rows by simp
      show ?thesis by (rule check_lines_all [OF r _ d]) (rule line_flows(4))
    qed
    then have "books_balanced (fst (update_draft_tx pgd db i data_version txn_date rows))"
      by (rule update_draft_tx_balanced [OF b Inr])
    then show ?thesis using b unfolding update_draft_def Inr sum.case rows
      by (auto split: prod.split sum.split)
  qed
qed

lemma cancel_draft_books: "same_books db (fst (cancel_draft db i data_version))"
proof -
  have "same_books db (fst (cancel_draft_tx db i data_version))"
    unfolding cancel_draft_tx_def
    by (simp, intro impI same_books_rows [where q = "draft_guard i data_version"
        and g = "\<lambda>b. b\<lparr>db_status := ''CANCELLED'', db_version := db_version b + 1\<rparr>"
        and p = "\<lambda>d. dd_batch d = Some i \<and> dd_status d = ''DRAFT''"
        and f = "\<lambda>d. d\<lparr>dd_status := ''CANCELLED'', dd_version := dd_version d + 1\<rparr>"]) (simp_all add: book_keys)
  then show ?thesis unfolding cancel_draft_def
    by (auto split: sum.split prod.split loan_error.split)
qed

section \<open>The other calls\<close>

lemma create_draw_balanced:
  assumes b: "books_balanced db"
  shows "books_balanced (fst (create_draw pgd db actor inp))"
proof -
  have row: "books_balanced (fst (create_draw_row pgd db (draw_row inp s actor)))" for s
  proof (cases "insert_draw pgd db (draw_row inp s actor)")
    case (Inr x)
    then show ?thesis using insert_draw_balanced(1) [OF b, of pgd "draw_row inp s actor" "fst x" "snd x"]
      by (cases x) (simp add: create_draw_row_def draw_row_def)
  qed (use b in \<open>simp add: create_draw_row_def\<close>)
  have res: "books_balanced (fst (create_draw_with_reservation pgd db (draw_row inp s actor)))" for s
  proof (cases "bind_r (insert_draw pgd db (draw_row inp s actor)) (\<lambda>(db1, i).
      bind_r (reserve_contract_amount db1 (dd_contract (draw_row inp s actor)) i (dd_amount (draw_row inp s actor))) (\<lambda>db2. Inr (db2, i)))")
    case (Inl e)
    then show ?thesis using b by (simp add: create_draw_with_reservation_def)
  next
    case (Inr x)
    then obtain db1 i db2 where i: "insert_draw pgd db (draw_row inp s actor) = Inr (db1, i)"
      and r: "reserve_contract_amount db1 (dd_contract (draw_row inp s actor)) i (dd_amount (draw_row inp s actor)) = Inr db2"
      and x: "x = (db2, i)" by (auto simp: bind_r_eq_Inr)
    have "books_balanced db1" by (rule insert_draw_balanced(1) [OF b i]) (simp add: draw_row_def)
    moreover have "same_books db1 db2" using r
      by (auto simp: reserve_contract_amount_def bind_r_eq_Inr split: option.splits if_split_asm intro!: same_books_other)
    ultimately have "books_balanced db2" by (rule same_books_balanced)
    then show ?thesis unfolding create_draw_with_reservation_def Inr x by simp
  qed
  have k: "books_balanced (fst (case r of (db1, Inl Headroom_Exceeded) \<Rightarrow> (db1, Inl code_invalid_input)
      | (db1, Inl e) \<Rightarrow> (db1, Inl (map_repo_error e)) | (db1, Inr i) \<Rightarrow> (db1, Inr i)))"
    if "books_balanced (fst r)" for r :: "loan_db \<times> (loan_error + nat)"
    using that by (auto split: prod.split sum.split loan_error.split)
  show ?thesis unfolding create_draw_def Let_def
    using b row res by (auto split: option.split sum.split intro!: k)
qed

lemma create_agreement_balanced:
  assumes b: "books_balanced db"
  shows "books_balanced (fst (create_agreement pgd db inp amount dd md))"
proof -
  have "books_balanced (fst (create_agreement_row pgd db a0 dd md))" for a0
  proof -
    have "books_balanced (db\<lparr>ld_agreements := ld_agreements db @ [a]\<rparr>)" (is "books_balanced ?db'")
      if new: "\<not> (\<exists>x\<in>set (ld_agreements db). la_code x = la_code a)" and a: "la_pending a = 0" for a
    proof -
      have k: "keyed_rows ?db'" using balanced_keyed [OF b] new by (auto simp: keyed_rows_def)
      have p: "posted_of q ?db' c = posted_of q db c" for q c by (simp add: posted_of_def)
      have "posted_of q db (la_code a) = 0" for q
      proof -
        have "dd_agreement d \<noteq> la_code a" if "d \<in> set (ld_draws db)" "dd_status d = ''POSTED''" for d
          using balanced_keyed [OF b] that new by (fastforce simp: keyed_rows_def)
        then have "map (\<lambda>d. if dd_agreement d = la_code a \<and> dd_status d = ''POSTED'' \<and> q (dd_flow d) then dd_amount d else 0)
            (ld_draws db) = map (\<lambda>d. 0) (ld_draws db)" by auto
        then show ?thesis unfolding posted_of_def by (simp only: sum_list_0)
      qed
      then show ?thesis using k b a by (auto simp: books_balanced_def registered_of_def completed_of_def p)
    qed
    then show ?thesis using b by (simp add: create_agreement_row_def Let_def)
  qed
  then have "books_balanced db1" if "create_agreement_row pgd db a0 dd md = (db1, x)" for a0 db1 x
    using that by (metis fst_conv)
  then show ?thesis using b unfolding create_agreement_def
    by (auto split: prod.split sum.split)
qed

lemma contract_books:
  "same_books db (fst (create_contract pgd db i c))" "same_books db (fst (submit_contract w db i))"
  "same_books db (fst (set_contract_status db i st reason))"
  "same_books db (fst (update_contract pgd first db i amount rate term cd md e))"
  by (auto simp: create_contract_def create_contract_row_def submit_contract_def set_contract_workflow_case_def
      set_contract_status_def update_contract_status_def update_contract_def update_contract_row_def Let_def
      split: option.split sum.split prod.split loan_error.split if_split_asm intro!: same_books_other)

lemma receipts_books:
  "same_books db db1 \<Longrightarrow> same_books db (db1\<lparr>ld_receipts := rs\<rparr>)"
  by (simp add: same_books_def)

lemma update_collected_books: "update_collected db agreement p q = Inr (Some db1) \<Longrightarrow> same_books db db1"
  by (auto simp: update_collected_def update_agreement_def same_books_def map_upd pending_key_def apply_receipt_def
      split: if_split_asm)

lemma insert_receipt_books: "insert_receipt pgd db r = Inr (db1, i) \<Longrightarrow> same_books db db1"
  by (auto simp: insert_receipt_def split: option.splits if_split_asm intro!: same_books_other)

lemma insert_receipts_books: "insert_receipts pgd db rs = Inr db1 \<Longrightarrow> same_books db db1"
  by (induction rs arbitrary: db) (auto simp: bind_r_eq_Inr dest!: insert_receipt_books intro: same_books_trans)

lemma receipt_statements_books:
  "set_receipt_status db i a b actor reason v = (db1, x) \<Longrightarrow> same_books db db1"
  "set_receipt_case_and_journal db i c1 c2 c3 = (db1, x) \<Longrightarrow> same_books db db1"
  "set_receipt_batch_case db k c = (db1, y) \<Longrightarrow> same_books db db1"
  "set_receipt_batch_status db k a b reason v = (db1, y) \<Longrightarrow> same_books db db1"
  "set_receipt_batch_posted db k journal v = (db1, y) \<Longrightarrow> same_books db db1"
  by (auto simp: set_receipt_status_def set_receipt_case_and_journal_def set_receipt_batch_case_def set_receipt_batch_status_def
      set_receipt_batch_posted_def split: sum.splits if_split_asm intro!: same_books_other)

lemma settle_receipt_tx_books:
  assumes "settle_receipt_tx db i journal actor v = (db1, x)"
  shows "same_books db db1"
proof (cases "find (receipt_guard i ''APPROVED'' v) (ld_receipts db)")
  case None
  then show ?thesis using assms by (auto simp: settle_receipt_tx_def gates split: option.splits if_split_asm)
next
  case (Some r)
  show ?thesis using assms unfolding settle_receipt_tx_def gates sum.case Some option.case Let_def
    by (auto split: sum.splits option.splits dest!: update_collected_books simp: same_books_def)
qed

lemma single_receipt_books:
  "same_books db (fst (create_receipt pgd db actor inp))" "same_books db (fst (submit_receipt w db actor i v))"
  "same_books db (fst (resolve_receipt db i decision actor reason v))" "same_books db (fst (settle_receipt db i journal actor v))"
  subgoal by (auto simp: create_receipt_def split: option.split sum.split prod.split dest!: insert_receipt_books)
  subgoal by (auto simp: submit_receipt_def split: option.split sum.split prod.split dest!: receipt_statements_books
      intro: same_books_trans)
  subgoal by (auto simp: resolve_receipt_def split: option.split sum.split prod.split dest!: receipt_statements_books)
  subgoal by (auto simp: settle_receipt_def split: sum.split prod.split if_split_asm
      dest!: receipt_statements_books settle_receipt_tx_books intro: same_books_trans)
  done

lemma settle_receipt_row_books: "settle_receipt_row db r journal actor = (db1, x) \<Longrightarrow> same_books db db1"
  by (auto simp: settle_receipt_row_def split: sum.splits prod.splits option.splits
      dest!: receipt_statements_books update_collected_books intro: same_books_trans)

lemma settle_receipt_rows_books: "settle_receipt_rows db rs journal actor = (db1, x) \<Longrightarrow> same_books db db1"
  by (induction rs arbitrary: db) (auto split: prod.splits sum.splits dest!: settle_receipt_row_books intro: same_books_trans)

lemma batch_receipt_books:
  "same_books db (fst (create_receipt_batch pgd pgu w db hex actor d m lines v))"
  "same_books db (fst (resolve_receipt_batch pgu db k decision reason v))"
  "same_books db (fst (settle_receipt_batch pgu db k journal actor v))"
proof -
  have tx: "same_books db db1" if "create_receipt_batch_tx pgd pgu db b rows = Inr db1" for b rows db1
    using that by (auto simp: create_receipt_batch_tx_def same_books_def split: if_split_asm option.splits dest!: insert_receipts_books)
  have sub: "same_books db1 db2" if "submit_receipt_batch w db1 b v = (db2, x)" for db1 b db2 x
    using that by (auto simp: submit_receipt_batch_def split: option.splits sum.splits prod.splits
        dest!: receipt_statements_books intro: same_books_trans)
  show "same_books db (fst (create_receipt_batch pgd pgu w db hex actor d m lines v))"
    by (auto simp: create_receipt_batch_def Let_def split: sum.split prod.split dest!: tx sub intro: same_books_trans)
  show "same_books db (fst (resolve_receipt_batch pgu db k decision reason v))"
    by (auto simp: resolve_receipt_batch_def split: option.split sum.split prod.split dest!: receipt_statements_books)
  show "same_books db (fst (settle_receipt_batch pgu db k journal actor v))"
  proof (cases "receipt_batch_by_id pgu db k")
    case (Inl e)
    then show ?thesis by (simp add: settle_receipt_batch_def)
  next
    case (Inr b)
    obtain db1 x where e: "(if cb_status b = ''PENDING_APPROVAL'' then set_receipt_batch_status db k (cb_status b) ''APPROVED'' [] v
         else (db, Inr ())) = (db1, x)" by fastforce
    obtain db2 y where e2: "settle_receipt_rows db1 (receipt_batch_rows db1 k) journal actor = (db2, y)" by fastforce
    obtain db3 z where e3: "set_receipt_batch_posted db2 k journal v = (db3, z)" by fastforce
    have 1: "same_books db db1" using e by (auto split: if_split_asm dest: receipt_statements_books)
    have 2: "same_books db db2" by (rule same_books_trans [OF 1 settle_receipt_rows_books [OF e2]])
    have 3: "same_books db db3" by (rule same_books_trans [OF 2 receipt_statements_books(5) [OF e3]])
    show ?thesis using 1 2 3 unfolding settle_receipt_batch_def Inr sum.case e prod.case e2 e3 by (auto split: sum.split)
  qed
qed

section \<open>Submitting and the queue\<close>

lemma submit_batch_books: "same_books db (fst (submit_batch db i v now))"
proof -
  have res: "\<exists>rs. db1 = db\<lparr>ld_reservations := rs\<rparr>" if "validate_and_reserve_register_batch db rows = Inr db1" for rows db1
    using that by (auto simp: validate_and_reserve_register_batch_def bind_r_eq_Inr split: if_split_asm)
  have keep: "same_books db (batch_history i ''SUBMITTED'' st ''PENDING_APPROVAL''
      (db1\<lparr>ld_batches := upd p (\<lambda>x. x\<lparr>db_status := ''PENDING_APPROVAL'', db_version := db_version x + 1\<rparr>) (ld_batches db1),
           ld_draws := upd (\<lambda>d. dd_batch d = Some i \<and> dd_status d = ''DRAFT'')
             (\<lambda>d. d\<lparr>dd_status := ''PENDING_APPROVAL'', dd_version := dd_version d + 1\<rparr>) (ld_draws db1),
           ld_submissions := ss\<rparr>))"
    if r: "\<exists>rs. db1 = db\<lparr>ld_reservations := rs\<rparr>" for st p db1 ss
  proof -
    obtain rs where "db1 = db\<lparr>ld_reservations := rs\<rparr>" using r by blast
    then show ?thesis
      by (intro same_books_rows [where q = p and g = "\<lambda>x. x\<lparr>db_status := ''PENDING_APPROVAL'', db_version := db_version x + 1\<rparr>"
          and p = "\<lambda>d. dd_batch d = Some i \<and> dd_status d = ''DRAFT''"
          and f = "\<lambda>d. d\<lparr>dd_status := ''PENDING_APPROVAL'', dd_version := dd_version d + 1\<rparr>"]) (simp_all add: book_keys)
  qed
  have same: "\<exists>rs. db = db\<lparr>ld_reservations := rs\<rparr>" by (rule exI [of _ "ld_reservations db"]) simp
  have "same_books db (fst (submit_batch_tx db i v now))" unfolding submit_batch_tx_def Let_def
    by (auto split: sum.split if_split_asm simp: bind_r_eq_Inr intro!: keep same dest: res)
  then show ?thesis unfolding submit_batch_def by (auto split: prod.split sum.split loan_error.split)
qed

lemma queue_books: "same_books db (db\<lparr>ld_submissions := ss\<rparr>)"
  by (rule same_books_other) simp_all

lemma complete_submission_books: "complete_submission db i c = (db1, x) \<Longrightarrow> same_books db db1"
  by (auto simp: complete_submission_def Let_def same_books_def map_upd batch_key_def split: if_split_asm)

lemma fail_submission_books: "same_books db (fst (fail_submission db i cause tries now))"
proof (cases "find (processing i) (ld_submissions db)")
  case None
  then show ?thesis by (simp add: fail_submission_def)
next
  case (Some s0)
  have key: "map posted_key (upd (\<lambda>d. dd_batch d = Some i \<and> dd_status d = ''PENDING_APPROVAL'')
      (\<lambda>d. d\<lparr>dd_status := ''DRAFT'', dd_version := dd_version d + 1\<rparr>) (ld_draws db)) = map posted_key (ld_draws db)"
    by (rule map_upd_in) (simp add: book_keys)
  show ?thesis unfolding fail_submission_def Some option.case Let_def
    by (simp add: same_books_def key map_upd batch_key_def)
qed

lemma process_submission_books: "same_books db (fst (process_submission w db i))"
  unfolding process_submission_def
  by (auto split: option.split sum.split prod.split dest: complete_submission_books)

lemma process_items_books: "same_books db (process_items w db items now)"
proof (induction w db items now rule: process_items.induct)
  case (2 w db i attempts items now)
  obtain db1 x where e: "process_submission w db i = (db1, x)" by fastforce
  have one: "same_books db db1" using process_submission_books [of db w i] e by simp
  show ?case
  proof (cases x)
    case (Inl cause)
    show ?thesis using 2(1) [OF e [symmetric] Inl] same_books_trans [OF one fail_submission_books]
      by (simp add: e Inl) (metis same_books_trans)
  next
    case (Inr u)
    show ?thesis using 2(2) [OF e [symmetric] Inr] one by (simp add: e Inr) (metis same_books_trans)
  qed
qed simp

lemma process_outbox_books: "same_books db (process_outbox_once w db now)"
proof -
  have "same_books db (fst (claim_submissions db claim_size now))" by (simp add: claim_submissions_def Let_def queue_books)
  then show ?thesis unfolding process_outbox_once_def
    using process_items_books same_books_trans by (auto split: prod.split)
qed

section \<open>Adjustments\<close>

lemma adjustments_books: "same_books db (db\<lparr>ld_adjustments := xs\<rparr>)"
  by (rule same_books_other) simp_all

lemma agreement_upd_books:
  "(\<And>a. la_code (f a) = la_code a \<and> la_pending (f a) = la_pending a) \<Longrightarrow>
   same_books db (db\<lparr>ld_agreements := upd p f (ld_agreements db)\<rparr>)"
  by (simp add: same_books_def map_upd pending_key_def)

lemma side_effect_books: "apply_adjustment_side_effect rest db a = Inr db1 \<Longrightarrow> same_books db db1"
  by (auto simp: apply_adjustment_side_effect_def adjust_agreement_def write_off_def recover_def Let_def
      split: option.splits if_split_asm intro!: agreement_upd_books)

lemma adjustment_books:
  "same_books db (fst (create_adjustment pgd db h k u inp p))" "same_books db (fst (submit_adjustment w db k i))"
  "same_books db (fst (resolve_adjustment rest db k i d u n))"
  subgoal by (auto simp: create_adjustment_def create_adjustment_row_def Let_def split: sum.split option.split prod.split
      intro: adjustments_books)
  subgoal by (auto simp: submit_adjustment_def set_adjustment_workflow_case_def split: sum.split option.split prod.split if_split_asm
      intro: adjustments_books)
  subgoal by (auto simp: resolve_adjustment_def resolve_adjustment_tx_def Let_def
      split: sum.splits option.splits prod.split if_split_asm intro: adjustments_books
      dest!: side_effect_books dest: same_books_trans [OF adjustments_books])
  done

section \<open>Runs\<close>

lemma run_call_balanced: "books_balanced db \<Longrightarrow> books_balanced (run_call pgd pgu db c)"
  by (cases c)
     (simp_all add: settle_draw_balanced settle_batch_balanced create_batch_register_balanced create_batch_complete_balanced
       update_draft_balanced create_draw_balanced create_agreement_balanced same_books_balanced [OF _ contract_books(1)]
       same_books_balanced [OF _ contract_books(2)] same_books_balanced [OF _ contract_books(3)]
       same_books_balanced [OF _ contract_books(4)] same_books_balanced [OF _ submit_draw_books]
       same_books_balanced [OF _ resolve_draw_books] same_books_balanced [OF _ single_receipt_books(1)]
       same_books_balanced [OF _ single_receipt_books(2)] same_books_balanced [OF _ single_receipt_books(3)]
       same_books_balanced [OF _ single_receipt_books(4)] same_books_balanced [OF _ batch_receipt_books(1)]
       same_books_balanced [OF _ batch_receipt_books(2)] same_books_balanced [OF _ batch_receipt_books(3)]
       same_books_balanced [OF _ cancel_draft_books] same_books_balanced [OF _ submit_batch_books]
       same_books_balanced [OF _ resolve_batch_books] same_books_balanced [OF _ process_outbox_books]
       same_books_balanced [OF _ adjustment_books(1)] same_books_balanced [OF _ adjustment_books(2)]
       same_books_balanced [OF _ adjustment_books(3)])

interpretation books: call_invariant "run_call pgd pgu" "\<lambda>db c. True" books_balanced for pgd pgu
  by unfold_locales (rule run_call_balanced)

lemma every_step_True: "every_step step (\<lambda>s c. True) s cs"
  by (induction cs arbitrary: s) simp_all

lemma run_calls_balanced: "books_balanced db \<Longrightarrow> books_balanced (run_calls pgd pgu db cs)"
  unfolding run_calls_def by (rule books.run_keeps [OF _ every_step_True])

lemma no_rows_balanced: "books_balanced (no_rows limits)"
  by (simp add: books_balanced_def keyed_rows_def no_rows_def)

text \<open>C4. What is pending on an agreement is exactly what was registered and not completed. After any calls of the loan service, starting with no rows, the pending balance of every agreement equals the sum of its posted REGISTER drawdowns less the sum of its posted COMPLETE drawdowns, singly or in batches, whatever was rejected, retried, given up or failed in between: every settlement moves the balance once, by the amount of its row.\<close>

theorem pending_is_registered_less_completed:
  assumes "a \<in> set (ld_agreements (run_calls pgd pgu (no_rows limits) calls))"
  shows "la_pending a = registered_of (run_calls pgd pgu (no_rows limits) calls) (la_code a) -
    completed_of (run_calls pgd pgu (no_rows limits) calls) (la_code a)"
  using run_calls_balanced [OF no_rows_balanced, of pgd pgu limits calls] assms by (simp add: books_balanced_def)

text \<open>A posted batch of 60, of which a batch of 25 is completed, settled twice.\<close>

definition settled_twice :: loan_db where
  "settled_twice = run_calls Some (\<lambda>s. True) (no_rows [])
     [Create_Contract ''1'' sample_contract, Create_Agreement sample_agreement 100 ''d'' ''d'',
      Create_Batch_Register ''u'' ''2025-01-01'' ''CASH''
        [\<lparr>bi_contract = ''C1'', bi_agreement = ''A1'', bi_amount = 60, bi_closed = False\<rparr>],
      Submit_Batch 1 1 0, Resolve_Batch 1 ''APPROVE'' [] 0, Settle_Batch 1 ''J'' ''v'' 0, Settle_Batch 1 ''J'' ''v'' 0,
      Create_Batch_Complete ''u'' (Some 1) ''2025-01-01'' ''CASH''
        [\<lparr>bi_contract = ''C1'', bi_agreement = ''A1'', bi_amount = 25, bi_closed = False\<rparr>],
      Submit_Batch 3 1 0, Resolve_Batch 3 ''APPROVE'' [] 0, Settle_Batch 3 ''J2'' ''v'' 0, Settle_Draw 4 ''J2'' ''v'' 0]"

theorem pending_is_registered_less_completed_witness:
  "la_pending (hd (ld_agreements settled_twice)) = registered_of settled_twice ''A1'' - completed_of settled_twice ''A1'' \<and>
   registered_of settled_twice ''A1'' = 60 \<and> completed_of settled_twice ''A1'' = 25"
proof -
  have a: "hd (ld_agreements settled_twice) \<in> set (ld_agreements settled_twice)" "la_code (hd (ld_agreements settled_twice)) = ''A1''"
    by code_simp+
  have s: "registered_of settled_twice ''A1'' = 60" "completed_of settled_twice ''A1'' = 25" by code_simp+
  have "la_pending (hd (ld_agreements settled_twice)) = registered_of settled_twice ''A1'' - completed_of settled_twice ''A1''"
    using pending_is_registered_less_completed [OF a(1) [unfolded settled_twice_def], folded settled_twice_def] a(2) by simp
  then show ?thesis using s by blast
qed

end
