(* ===== verification/Deposit_Interest.thy ===== *)
theory Deposit_Interest
  imports Decimal Go_Date
begin

text \<open>
  The deposit interest calculator (apps/deposit-service/internal/interest/calculator.go): a
  half-open range of days is cut at every balance and rate point, each slice accrues on its own and
  the total is rounded once. Dates are midnights, hence day numbers; decimals are rationals and
  \<open>dr\<close> is the decimal library's \<open>DivRound\<close>.
\<close>

section \<open>Points, input and result\<close>

definition dep_round_half_up :: string where "dep_round_half_up = ''CM163.001''"
definition dep_round_up :: string where "dep_round_up = ''CM163.002''"
definition dep_round_down :: string where "dep_round_down = ''CM163.003''"

record balance_point =
  bp_date :: int
  bp_balance :: rat

record rate_point =
  rt_date :: int
  rt_rate :: rat

record calc_input =
  ci_from :: int
  ci_to :: int
  ci_rate :: rat
  ci_denominator :: int
  ci_round_no :: int
  ci_round_type :: string
  ci_points :: "balance_point list"
  ci_rate_points :: "rate_point list"

record calc_segment =
  cs_from :: int
  cs_to :: int
  cs_days :: int
  cs_balance :: rat
  cs_rate :: rat
  cs_amount :: rat

record calc_result =
  cr_days :: int
  cr_raw :: rat
  cr_rounded :: rat
  cr_segments :: "calc_segment list"

section \<open>Rounding\<close>

definition floor_rat :: "rat \<Rightarrow> int" where
  "floor_rat x = \<lfloor>x\<rfloor>"

definition ceil_rat :: "rat \<Rightarrow> int" where
  "ceil_rat x = (let f = floor_rat x in if of_int f = x then f else f + 1)"

definition half_up_rat :: "rat \<Rightarrow> int" where
  "half_up_rat x = (if 0 \<le> x then floor_rat (x + 1/2) else - floor_rat (- x + 1/2))"

definition apply_round :: "rat \<Rightarrow> int \<Rightarrow> string \<Rightarrow> rat" where
  "apply_round amount round_no round_type =
     (if round_no \<le> 0 then amount
      else let q = amount / of_int round_no;
               n = (if round_type = dep_round_up then ceil_rat q
                    else if round_type = dep_round_down then floor_rat q
                    else half_up_rat q)
           in of_int n * of_int round_no)"

section \<open>Slices\<close>

definition compute_interest :: "(rat \<Rightarrow> rat \<Rightarrow> nat \<Rightarrow> rat) \<Rightarrow> rat \<Rightarrow> int \<Rightarrow> rat \<Rightarrow> int \<Rightarrow> rat" where
  "compute_interest dr balance days rate denominator =
     (if balance = 0 \<or> rate = 0 \<or> days \<le> 0 then 0
      else dr (dr (balance * of_int days * rate) 100 10) (of_int denominator) 10)"

definition normalize_points :: "balance_point list \<Rightarrow> balance_point list" where
  "normalize_points points = sort_key bp_date points"

definition normalize_rate_points :: "rate_point list \<Rightarrow> rate_point list" where
  "normalize_rate_points points = sort_key rt_date points"

text \<open>The cuts, sorted, that lie after the boundary before them.\<close>

fun after_last :: "int \<Rightarrow> int list \<Rightarrow> int list" where
  "after_last b [] = []"
| "after_last b (c # cs) = (if b < c then c # after_last c cs else after_last b cs)"

definition build_boundaries :: "int \<Rightarrow> int \<Rightarrow> balance_point list \<Rightarrow> rate_point list \<Rightarrow> int list" where
  "build_boundaries from_day to_day points rate_points =
     (let cuts = sort ([bp_date p. p \<leftarrow> points, from_day < bp_date p \<and> bp_date p < to_day] @
                       [rt_date p. p \<leftarrow> rate_points, from_day < rt_date p \<and> rt_date p < to_day])
      in from_day # after_last from_day cuts @ [to_day])"

fun scan_balance :: "int \<Rightarrow> rat \<Rightarrow> balance_point list \<Rightarrow> rat" where
  "scan_balance day balance [] = balance"
| "scan_balance day balance (p # ps) =
     (if day < bp_date p then balance else scan_balance day (bp_balance p) ps)"

definition balance_at :: "balance_point list \<Rightarrow> int \<Rightarrow> rat" where
  "balance_at points day = scan_balance day 0 points"

fun scan_rate :: "int \<Rightarrow> rat \<Rightarrow> rate_point list \<Rightarrow> rat" where
  "scan_rate day rate [] = rate"
| "scan_rate day rate (p # ps) =
     (if day < rt_date p then rate else scan_rate day (rt_rate p) ps)"

definition rate_at :: "rate_point list \<Rightarrow> int \<Rightarrow> rat \<Rightarrow> rat" where
  "rate_at points day fallback = scan_rate day fallback points"

fun slices ::
  "(rat \<Rightarrow> rat \<Rightarrow> nat \<Rightarrow> rat) \<Rightarrow> balance_point list \<Rightarrow> rate_point list \<Rightarrow> rat \<Rightarrow> int \<Rightarrow> int list \<Rightarrow> calc_segment list" where
  "slices dr points rate_points fallback denominator (a # b # rest) =
     (let days = sub_days b a;
          balance = balance_at points a;
          rate = rate_at rate_points a fallback
      in if days \<le> 0 then slices dr points rate_points fallback denominator (b # rest)
         else \<lparr>cs_from = a, cs_to = b, cs_days = days, cs_balance = balance, cs_rate = rate,
               cs_amount = compute_interest dr balance days rate denominator\<rparr> #
              slices dr points rate_points fallback denominator (b # rest))"
| "slices dr points rate_points fallback denominator _ = []"

definition base_denominator :: "calc_input \<Rightarrow> int" where
  "base_denominator inp = (if ci_denominator inp \<le> 0 then 365 else ci_denominator inp)"

definition calculate :: "(rat \<Rightarrow> rat \<Rightarrow> nat \<Rightarrow> rat) \<Rightarrow> calc_input \<Rightarrow> calc_result" where
  "calculate dr inp =
     (if ci_to inp \<le> ci_from inp then \<lparr>cr_days = 0, cr_raw = 0, cr_rounded = 0, cr_segments = []\<rparr>
      else
        let points = normalize_points (ci_points inp);
            rate_points = normalize_rate_points (ci_rate_points inp);
            boundaries = build_boundaries (ci_from inp) (ci_to inp) points rate_points;
            segments = slices dr points rate_points (ci_rate inp) (base_denominator inp) boundaries;
            raw = sum_list (map cs_amount segments)
        in \<lparr>cr_days = sub_days (ci_to inp) (ci_from inp), cr_raw = raw,
            cr_rounded = apply_round raw (ci_round_no inp) (ci_round_type inp), cr_segments = segments\<rparr>)"

section \<open>The calculation day by day\<close>

definition day_balance :: "calc_input \<Rightarrow> int \<Rightarrow> rat" where
  "day_balance inp d = balance_at (normalize_points (ci_points inp)) d"

definition day_rate :: "calc_input \<Rightarrow> int \<Rightarrow> rat" where
  "day_rate inp d = rate_at (normalize_rate_points (ci_rate_points inp)) d (ci_rate inp)"

definition day_interest :: "calc_input \<Rightarrow> int \<Rightarrow> rat" where
  "day_interest inp d = day_balance inp d * day_rate inp d / (100 * of_int (base_denominator inp))"

definition days_interest :: "calc_input \<Rightarrow> int \<Rightarrow> int \<Rightarrow> rat" where
  "days_interest inp a b = sum_list (map (day_interest inp) [a..b - 1])"

section \<open>Lemmas\<close>

lemma scan_balance_same:
  assumes "\<forall>p\<in>set ps. \<not> (a < bp_date p \<and> bp_date p \<le> d)" "a \<le> d"
  shows "scan_balance d x ps = scan_balance a x ps"
  using assms by (induction ps arbitrary: x) auto

lemma scan_rate_same:
  assumes "\<forall>p\<in>set ps. \<not> (a < rt_date p \<and> rt_date p \<le> d)" "a \<le> d"
  shows "scan_rate d x ps = scan_rate a x ps"
  using assms by (induction ps arbitrary: x) auto

text \<open>What the boundaries are for: nothing changes strictly inside a slice.\<close>

fun quiet :: "int set \<Rightarrow> int list \<Rightarrow> bool" where
  "quiet D (a # b # rest) \<longleftrightarrow> a < b \<and> (\<forall>d\<in>D. \<not> (a < d \<and> d < b)) \<and> quiet D (b # rest)"
| "quiet D _ \<longleftrightarrow> True"

lemma after_last_quiet:
  assumes "sorted cs" "\<forall>c\<in>set cs. c < t" "f < t" "\<forall>d\<in>D. f < d \<and> d < t \<longrightarrow> d \<in> set cs"
  shows "quiet D (f # after_last f cs @ [t])"
  using assms
proof (induction cs arbitrary: f)
  case Nil
  then show ?case by auto
next
  case (Cons c cs)
  show ?case
  proof (cases "f < c")
    case True
    have "\<forall>d\<in>D. c < d \<and> d < t \<longrightarrow> d \<in> set cs" using Cons.prems(4) True by auto
    then have "quiet D (c # after_last c cs @ [t])" using Cons.prems by (intro Cons.IH) auto
    moreover have "\<not> (f < d \<and> d < c)" if "d \<in> D" for d
      using Cons.prems(1,2,4) that by fastforce
    ultimately show ?thesis using True by auto
  next
    case False
    have "\<forall>d\<in>D. f < d \<and> d < t \<longrightarrow> d \<in> set cs" using Cons.prems(4) False by auto
    moreover have "sorted cs" "\<forall>c\<in>set cs. c < t" using Cons.prems by auto
    ultimately have "quiet D (f # after_last f cs @ [t])" using Cons.prems(3) by (intro Cons.IH) auto
    then show ?thesis using False by simp
  qed
qed

lemma boundaries_quiet:
  assumes "f < t"
  shows "quiet (bp_date ` set ps \<union> rt_date ` set rs) (build_boundaries f t ps rs)"
  unfolding build_boundaries_def Let_def
  by (rule after_last_quiet) (use assms in auto)

lemma upto_split: "a \<le> b \<Longrightarrow> b \<le> c \<Longrightarrow> [a..c - 1] = [a..b - 1] @ [b..c - 1]" for a b c :: int
  using upto_split1 [of a b "c - 1"] by (cases "b = c") auto

lemma compute_interest_near:
  assumes "decimal_lib dr rt" "0 < den" "0 < days"
  shows "\<bar>compute_interest dr b days r den - of_int days * (b * r / (100 * of_int den))\<bar> \<le> 1 / 10 ^ 10"
proof (cases "b = 0 \<or> r = 0")
  case True
  then show ?thesis by (auto simp: compute_interest_def)
next
  case False
  let ?x = "dr (b * of_int days * r) 100 10"
  let ?D = "of_int den :: rat"
  have D: "1 \<le> ?D" using assms(2) by simp
  have c: "compute_interest dr b days r den = dr ?x ?D 10"
    using False assms(3) by (simp add: compute_interest_def)
  have 1: "\<bar>?x - b * of_int days * r / 100\<bar> \<le> 1 / (2 * 10 ^ 10)"
    by (rule decimal_lib.div_error [OF assms(1)]) simp
  have 2: "\<bar>dr ?x ?D 10 - ?x / ?D\<bar> \<le> 1 / (2 * 10 ^ 10)"
    by (rule decimal_lib.div_error [OF assms(1)]) (use D in auto)
  have g: "\<bar>x / ?D - y / ?D\<bar> = \<bar>x - y\<bar> / ?D" for x y
    using D by (simp flip: diff_divide_distrib)
  have "\<bar>?x / ?D - b * of_int days * r / 100 / ?D\<bar> = \<bar>?x - b * of_int days * r / 100\<bar> / ?D" by (rule g)
  also have "\<dots> \<le> \<bar>?x - b * of_int days * r / 100\<bar> / 1" using D by (intro divide_left_mono) auto
  also have "\<dots> \<le> 1 / (2 * 10 ^ 10)" using 1 by simp
  finally have 3: "\<bar>?x / ?D - b * of_int days * r / 100 / ?D\<bar> \<le> 1 / (2 * 10 ^ 10)" .
  have eq: "of_int days * (b * r / (100 * ?D)) = b * of_int days * r / 100 / ?D" by simp
  have "\<bar>dr ?x ?D 10 - of_int days * (b * r / (100 * ?D))\<bar> \<le>
      \<bar>dr ?x ?D 10 - ?x / ?D\<bar> + \<bar>?x / ?D - b * of_int days * r / 100 / ?D\<bar>"
    unfolding eq by linarith
  also have "\<dots> \<le> 1 / (2 * 10 ^ 10) + 1 / (2 * 10 ^ 10)" by (rule add_mono [OF 2 3])
  finally show ?thesis unfolding c by simp
qed

lemma day_interest_quiet:
  assumes "\<forall>d\<in>bp_date ` set (normalize_points (ci_points inp)) \<union> rt_date ` set (normalize_rate_points (ci_rate_points inp)). \<not> (a < d \<and> d < b)"
    and "a \<le> d" "d < b"
  shows "day_interest inp d = day_interest inp a"
proof -
  have "day_balance inp d = day_balance inp a"
    unfolding day_balance_def balance_at_def by (rule scan_balance_same) (use assms in auto)
  moreover have "day_rate inp d = day_rate inp a"
    unfolding day_rate_def rate_at_def by (rule scan_rate_same) (use assms in auto)
  ultimately show ?thesis by (simp add: day_interest_def)
qed

abbreviation "change_days inp \<equiv>
  bp_date ` set (normalize_points (ci_points inp)) \<union> rt_date ` set (normalize_rate_points (ci_rate_points inp))"

abbreviation "slices_of dr inp \<equiv>
  slices dr (normalize_points (ci_points inp)) (normalize_rate_points (ci_rate_points inp)) (ci_rate inp) (base_denominator inp)"

text \<open>Consecutive slices from \<open>a\<close> to \<open>b\<close>.\<close>

fun chained :: "int \<Rightarrow> int \<Rightarrow> calc_segment list \<Rightarrow> bool" where
  "chained a b [] \<longleftrightarrow> a = b"
| "chained a b (s # ss) \<longleftrightarrow> cs_from s = a \<and> a < cs_to s \<and> cs_days s = cs_to s - a \<and> chained (cs_to s) b ss"

lemma base_denominator_pos: "0 < base_denominator inp"
  by (simp add: base_denominator_def)

lemma quiet_mono: "quiet D (a # bs) \<Longrightarrow> a \<le> last (a # bs)"
proof (induction bs arbitrary: a)
  case (Cons b bs)
  then have "a < b" "b \<le> last (b # bs)" by auto
  then show ?case by simp
qed simp

lemma slices_total:
  assumes "decimal_lib dr rt" "quiet (change_days inp) (a # bs)" "last (a # bs) - a \<le> 106751"
  shows "chained a (last (a # bs)) (slices_of dr inp (a # bs)) \<and>
    \<bar>sum_list (map cs_amount (slices_of dr inp (a # bs))) - days_interest inp a (last (a # bs))\<bar>
      \<le> of_nat (length (slices_of dr inp (a # bs))) / 10 ^ 10"
  using assms(2,3)
proof (induction bs arbitrary: a)
  case Nil
  then show ?case by (simp add: days_interest_def)
next
  case (Cons b bs)
  let ?e = "last (b # bs)"
  have q: "a < b" "\<forall>d\<in>change_days inp. \<not> (a < d \<and> d < b)" "quiet (change_days inp) (b # bs)"
    using Cons.prems(1) by auto
  have be: "b \<le> ?e" by (rule quiet_mono [OF q(3)])
  have le: "last (a # b # bs) = ?e" by simp
  have d: "sub_days b a = b - a" by (rule sub_days_eq) (use Cons.prems(2) q(1) be le in linarith)
  have IH: "chained b ?e (slices_of dr inp (b # bs))"
    "\<bar>sum_list (map cs_amount (slices_of dr inp (b # bs))) - days_interest inp b ?e\<bar>
      \<le> of_nat (length (slices_of dr inp (b # bs))) / 10 ^ 10"
    using Cons.IH [OF q(3)] Cons.prems(2) q(1) le by auto
  let ?m = "compute_interest dr (day_balance inp a) (b - a) (day_rate inp a) (base_denominator inp)"
  have sl: "slices_of dr inp (a # b # bs) =
      \<lparr>cs_from = a, cs_to = b, cs_days = b - a, cs_balance = day_balance inp a, cs_rate = day_rate inp a,
       cs_amount = ?m\<rparr> # slices_of dr inp (b # bs)"
    using q(1) by (simp add: d Let_def day_balance_def day_rate_def)
  have same: "map (day_interest inp) [a..b - 1] = map (\<lambda>_. day_interest inp a) [a..b - 1]"
  proof (rule map_cong [OF refl])
    fix d assume "d \<in> set [a..b - 1]"
    then have "a \<le> d" "d < b" by simp_all
    then show "day_interest inp d = day_interest inp a" by (rule day_interest_quiet [OF q(2)])
  qed
  have first: "days_interest inp a b = of_int (b - a) * day_interest inp a"
    unfolding days_interest_def same map_replicate_const length_upto sum_list_replicate
    using q(1) by (simp del: of_int_diff)
  have "[a..?e - 1] = [a..b - 1] @ [b..?e - 1]" by (rule upto_split) (use q(1) be in auto)
  then have split: "days_interest inp a ?e = days_interest inp a b + days_interest inp b ?e"
    by (simp add: days_interest_def)
  have near: "\<bar>?m - days_interest inp a b\<bar> \<le> 1 / 10 ^ 10"
    unfolding first day_interest_def
    by (rule compute_interest_near [OF assms(1) base_denominator_pos]) (use q(1) in simp)
  have "\<bar>(?m + S) - (A + B)\<bar> \<le> \<bar>?m - A\<bar> + \<bar>S - B\<bar>" for S A B :: rat by simp
  from order_trans [OF this add_mono [OF near IH(2)]]
  have "\<bar>(?m + sum_list (map cs_amount (slices_of dr inp (b # bs)))) - (days_interest inp a b + days_interest inp b ?e)\<bar>
      \<le> of_nat (length (slices_of dr inp (a # b # bs))) / 10 ^ 10"
    unfolding sl by (simp add: add_divide_distrib)
  then show ?case unfolding le split using IH(1) q(1) sl by simp
qed

lemma rounding_functions: "floor_rat x = \<lfloor>x\<rfloor>" "ceil_rat x = \<lceil>x\<rceil>" "half_up_rat x = half_away x"
  using rat_ceil_eq [of x] rat_half_up_eq [of x]
  by (simp_all only: floor_rat_def ceil_rat_def half_up_rat_def rat_ceil_def rat_half_up_def rat_floor_def)

lemma apply_round_whole: "0 < n \<Longrightarrow> \<exists>k. apply_round x n ty = of_int (k * n)"
  by (auto simp: apply_round_def Let_def)

lemma apply_round_near: "0 < n \<Longrightarrow> \<bar>apply_round x n ty - x\<bar> \<le> of_int n"
proof -
  assume n: "0 < n"
  let ?q = "x / of_int n"
  let ?k = "if ty = dep_round_up then ceil_rat ?q else if ty = dep_round_down then floor_rat ?q else half_up_rat ?q"
  have "\<bar>of_int ?k - ?q\<bar> \<le> 1"
  proof -
    have "\<bar>y\<bar> \<le> 1" if "2 * \<bar>y\<bar> \<le> 1" for y :: rat
    proof -
      have "0 \<le> \<bar>y\<bar>" by simp
      with that show ?thesis by linarith
    qed
    from this [OF half_away_near] have "\<bar>of_int (half_away ?q) - ?q\<bar> \<le> 1" .
    moreover have "\<bar>of_int \<lfloor>?q\<rfloor> - ?q\<bar> \<le> 1" "\<bar>of_int \<lceil>?q\<rceil> - ?q\<bar> \<le> 1" by linarith+
    ultimately show ?thesis unfolding rounding_functions by (simp only: split: if_split) simp
  qed
  then have "\<bar>of_int ?k - ?q\<bar> * of_int n \<le> 1 * of_int n" using n by (intro mult_right_mono) auto
  moreover have "\<bar>of_int ?k - ?q\<bar> * of_int n = \<bar>(of_int ?k - ?q) * of_int n\<bar>" using n by (simp add: abs_mult)
  moreover have "(of_int ?k - ?q) * of_int n = of_int ?k * of_int n - x" using n by (simp add: left_diff_distrib)
  ultimately have "\<bar>of_int ?k * of_int n - x\<bar> \<le> of_int n" by simp
  moreover have "apply_round x n ty = of_int ?k * of_int n" using n by (simp add: apply_round_def Let_def)
  ultimately show ?thesis by simp
qed

section \<open>Properties\<close>

text \<open>C18. The deposit calculator agrees with counting day by day: over a non-empty half-open range of at most
  106751 days the slices follow one another from the first day to the last without a gap or an overlap, the
  day count is the length of the range, and the raw interest differs from the sum over the days of balance
  times rate over 100 times the denominator by at most one unit of the tenth decimal per slice; an empty
  range accrues nothing.\<close>

theorem deposit_interest_daily:
  assumes "decimal_lib dr rt" "ci_to inp - ci_from inp \<le> 106751"
  shows "(ci_from inp < ci_to inp \<longrightarrow>
      cr_days (calculate dr inp) = ci_to inp - ci_from inp \<and>
      chained (ci_from inp) (ci_to inp) (cr_segments (calculate dr inp)) \<and>
      \<bar>cr_raw (calculate dr inp) - days_interest inp (ci_from inp) (ci_to inp)\<bar>
        \<le> of_nat (length (cr_segments (calculate dr inp))) / 10 ^ 10) \<and>
    (ci_to inp \<le> ci_from inp \<longrightarrow> cr_raw (calculate dr inp) = 0 \<and> cr_segments (calculate dr inp) = [])"
proof (intro conjI impI)
  assume lt: "ci_from inp < ci_to inp"
  let ?ps = "normalize_points (ci_points inp)" and ?rs = "normalize_rate_points (ci_rate_points inp)"
  obtain bs where bs: "build_boundaries (ci_from inp) (ci_to inp) ?ps ?rs = ci_from inp # bs"
    "last (ci_from inp # bs) = ci_to inp"
    by (simp add: build_boundaries_def Let_def)
  have q: "quiet (change_days inp) (ci_from inp # bs)" using boundaries_quiet [OF lt, of ?ps ?rs] bs(1) by simp
  note st = slices_total [OF assms(1) q, unfolded bs(2), OF assms(2)]
  have c: "calculate dr inp = \<lparr>cr_days = sub_days (ci_to inp) (ci_from inp),
      cr_raw = sum_list (map cs_amount (slices_of dr inp (ci_from inp # bs))),
      cr_rounded = apply_round (sum_list (map cs_amount (slices_of dr inp (ci_from inp # bs)))) (ci_round_no inp) (ci_round_type inp),
      cr_segments = slices_of dr inp (ci_from inp # bs)\<rparr>"
    using lt bs(1) unfolding calculate_def Let_def by simp
  show "cr_days (calculate dr inp) = ci_to inp - ci_from inp"
    unfolding c using sub_days_eq [of "ci_to inp" "ci_from inp"] lt assms(2) by simp
  show "chained (ci_from inp) (ci_to inp) (cr_segments (calculate dr inp))" unfolding c using st by simp
  show "\<bar>cr_raw (calculate dr inp) - days_interest inp (ci_from inp) (ci_to inp)\<bar>
      \<le> of_nat (length (cr_segments (calculate dr inp))) / 10 ^ 10" unfolding c using st by simp
qed (simp_all add: calculate_def)

definition demo_calc :: calc_input where
  "demo_calc = \<lparr>ci_from = 0, ci_to = 365, ci_rate = 6, ci_denominator = 0, ci_round_no = 1,
     ci_round_type = dep_round_half_up,
     ci_points = [\<lparr>bp_date = 0, bp_balance = 1000000\<rparr>, \<lparr>bp_date = 100, bp_balance = 2000000\<rparr>],
     ci_rate_points = [\<lparr>rt_date = 200, rt_rate = 5\<rparr>]\<rparr>"

theorem deposit_interest_daily_witness:
  "chained 0 365 (cr_segments (calculate div_half_away demo_calc)) \<and>
   map cs_days (cr_segments (calculate div_half_away demo_calc)) = [100, 100, 165]"
proof
  show "chained 0 365 (cr_segments (calculate div_half_away demo_calc))"
    using deposit_interest_daily [OF dec.decimal_lib_axioms, of demo_calc] by (simp add: demo_calc_def)
  show "map cs_days (cr_segments (calculate div_half_away demo_calc)) = [100, 100, 165]" by code_simp
qed

end
