(* ===== verification/Deposit_Db.thy ===== *)
theory Deposit_Db
  imports Deposit_Interest "HOL-Library.List_Lexorder" "HOL-Library.Char_ord" "HOL-Library.Product_Lexorder"
begin

text \<open>
  The rows of the deposit service that interest works on, and the repository's statements on them
  (apps/deposit-service/internal/repository/deposit_repo.go). The state holds the rows of one
  tenant; every statement filters by tenant. A statement is one transaction; BIGINT arithmetic that
  leaves 64 bits is an error of the database. Row ids are generated by the database: here the
  position of the row, which is never deleted.
\<close>

section \<open>Rows\<close>

record savings =
  sv_id :: string
  sv_code :: string
  sv_product :: string
  sv_open :: string
  sv_principal :: int
  sv_accrued :: int
  sv_currency :: string
  sv_org :: string
  sv_status :: string
  sv_version :: int
  sv_customer :: string
  sv_maturity :: string
  sv_journal :: "string option"

record accrual =
  ac_id :: nat
  ac_savings :: string
  ac_code :: string
  ac_from :: string
  ac_to :: string
  ac_days :: int
  ac_base :: int
  ac_rate :: rat
  ac_amount :: int
  ac_status :: string
  ac_journal :: "string option"

record interest_op =
  io_id :: nat
  io_savings :: string
  io_code :: string
  io_type :: string
  io_amount :: int
  io_status :: string
  io_effective :: "string option"
  io_case :: "string option"
  io_journal :: "string option"
  io_actor :: string
  io_created :: string

record deposit_txn =
  tx_savings :: string
  tx_type :: string
  tx_status :: string
  tx_date :: string
  tx_amount :: int
  tx_currency :: string
  tx_journal :: "string option"
  tx_key :: "string option"
  tx_actor :: string

record interest_rate =
  ir_product :: "string option"
  ir_term :: int
  ir_denominator :: int
  ir_rate :: rat
  ir_effective :: string
  ir_active :: bool

record product =
  pr_code :: string
  pr_rate :: rat
  pr_round_no :: "int option"
  pr_round_type :: "string option"
  pr_id :: string
  pr_term :: int
  pr_currency :: string
  pr_active :: bool

text \<open>
  What the JSON payload of a rate request decodes to, and the request; \<open>None\<close> is a payload that does
  not decode.
\<close>

record rate_payload =
  py_product :: string
  py_term :: int
  py_denominator :: int
  py_rate :: rat
  py_effective :: string

record rate_request =
  rq_id :: nat
  rq_type :: string
  rq_payload :: "rate_payload option"
  rq_status :: string
  rq_case :: "string option"
  rq_creator :: string
  rq_version :: int

record deposit_db =
  db_savings :: "savings list"
  db_accruals :: "accrual list"
  db_ops :: "interest_op list"
  db_txns :: "deposit_txn list"
  db_rates :: "interest_rate list"
  db_products :: "product list"
  db_rate_requests :: "rate_request list"

definition err_not_active :: string where "err_not_active = ''savings is not ACTIVE''"
definition err_op_state :: string where "err_op_state = ''interest op is not in the expected state''"
definition err_accrued :: string where "err_accrued = ''accrued interest is insufficient''"
definition err_bigint :: string where "err_bigint = ''bigint out of range''"
definition err_check :: string where "err_check = ''check constraint''"
definition err_unique :: string where "err_unique = ''unique constraint''"
definition err_date :: string where "err_date = ''invalid input syntax for type date''"
definition err_no_rows :: string where "err_no_rows = ''sql: no rows in result set''"

section \<open>Queries\<close>

text \<open>A DATE comparison \<open>a < b\<close> on the ISO texts of the rows.\<close>

definition date_lt :: "string \<Rightarrow> string \<Rightarrow> bool" where
  "date_lt a b \<longleftrightarrow> iso_day a < iso_day b"

fun max_date :: "string list \<Rightarrow> string" where
  "max_date [] = []"
| "max_date (d # ds) = (let m = max_date ds in if ds = [] \<or> date_lt m d then d else m)"

definition savings_by_code :: "deposit_db \<Rightarrow> string \<Rightarrow> savings option" where
  "savings_by_code db code = find (\<lambda>s. sv_code s = code) (db_savings db)"

definition active_savings :: "deposit_db \<Rightarrow> savings list" where
  "active_savings db = sort_key sv_code [s \<leftarrow> db_savings db. sv_status s = ''ACTIVE'']"

definition product_by_code :: "deposit_db \<Rightarrow> string \<Rightarrow> product option" where
  "product_by_code db code = find (\<lambda>p. pr_code p = code) (db_products db)"

definition first_pending_accrual :: "deposit_db \<Rightarrow> string \<Rightarrow> accrual option" where
  "first_pending_accrual db sid =
     (case sort_key (\<lambda>a. iso_day (ac_to a)) [a \<leftarrow> db_accruals db. ac_savings a = sid \<and> ac_status a \<noteq> ''POSTED''] of
        [] \<Rightarrow> None | a # _ \<Rightarrow> Some a)"

definition last_accrual_period :: "deposit_db \<Rightarrow> string \<Rightarrow> string" where
  "last_accrual_period db sid =
     max_date [ac_to a. a \<leftarrow> db_accruals db,
       ac_savings a = sid \<and> (ac_status a = ''POSTED'' \<or> ac_journal a \<noteq> None)]"

definition interest_period_start :: "deposit_db \<Rightarrow> string \<Rightarrow> string" where
  "interest_period_start db sid =
     max_date (List.map_filter io_effective [p \<leftarrow> db_ops db. io_savings p = sid \<and>
       (io_type p = ''PAY'' \<or> io_type p = ''CAPITALIZE'') \<and> (io_status p = ''POSTING'' \<or> io_status p = ''POSTED'')])"

definition sum_period_accruals :: "deposit_db \<Rightarrow> string \<Rightarrow> string \<Rightarrow> string + int" where
  "sum_period_accruals db sid period_start =
     (let s = sum_list [ac_amount a. a \<leftarrow> db_accruals db, ac_savings a = sid \<and> \<not> date_lt (ac_from a) period_start]
      in if in64 s then Inr s else Inl err_bigint)"

definition posted_top_ups :: "deposit_db \<Rightarrow> string \<Rightarrow> string \<Rightarrow> deposit_txn list" where
  "posted_top_ups db sid from_date =
     sort_key (\<lambda>t. iso_day (tx_date t))
       [t \<leftarrow> db_txns db. tx_savings t = sid \<and> tx_type t = ''TOP_UP_POSTED'' \<and> tx_status t = ''POSTED'' \<and>
         \<not> date_lt (tx_date t) from_date]"

text \<open>
  \<open>ORDER BY (product_code = $3) DESC\<close>: the comparison with a NULL product is NULL, and PostgreSQL
  puts NULL first in a descending order.
\<close>

definition eq_rank :: "'a option \<Rightarrow> 'a option \<Rightarrow> int" where
  "eq_rank a b = (case (a, b) of (Some x, Some y) \<Rightarrow> if x = y then 1 else 2 | _ \<Rightarrow> 0)"

definition rate_candidates :: "deposit_db \<Rightarrow> string \<Rightarrow> int \<Rightarrow> interest_rate list" where
  "rate_candidates db product_code term_months =
     [r \<leftarrow> db_rates db. ir_active r \<and>
       (ir_product r = None \<or> null_if_empty product_code \<noteq> None \<and> ir_product r = null_if_empty product_code) \<and>
       (ir_term r = term_months \<or> ir_term r = 0)]"

definition find_effective_rate :: "deposit_db \<Rightarrow> string \<Rightarrow> int \<Rightarrow> string \<Rightarrow> interest_rate option" where
  "find_effective_rate db product_code term_months on_date =
     (case sort_key (\<lambda>r. (eq_rank (ir_product r) (null_if_empty product_code),
                       eq_rank (Some (ir_term r)) (Some term_months), - iso_day (ir_effective r)))
         [r \<leftarrow> rate_candidates db product_code term_months. \<not> date_lt on_date (ir_effective r)] of
        [] \<Rightarrow> None | r # _ \<Rightarrow> Some r)"

definition rate_change_dates :: "deposit_db \<Rightarrow> string \<Rightarrow> int \<Rightarrow> string \<Rightarrow> string \<Rightarrow> string list" where
  "rate_change_dates db product_code term_months after through =
     sort_key iso_day (remdups [ir_effective r. r \<leftarrow> rate_candidates db product_code term_months,
       date_lt after (ir_effective r) \<and> \<not> date_lt through (ir_effective r)])"

section \<open>Accrual rows\<close>

text \<open>\<open>CreateAccrual\<close>: the staged row, or \<open>None\<close> when the period was staged before.\<close>

definition create_accrual :: "deposit_db \<Rightarrow> accrual \<Rightarrow> deposit_db \<times> accrual option" where
  "create_accrual db a =
     (if \<exists>x\<in>set (db_accruals db). ac_savings x = ac_savings a \<and> ac_to x = ac_to a then (db, None)
      else let row = a\<lparr>ac_id := length (db_accruals db), ac_status := ''PENDING'', ac_journal := None\<rparr>
           in (db\<lparr>db_accruals := db_accruals db @ [row]\<rparr>, Some row))"

definition set_accrual :: "nat \<Rightarrow> (accrual \<Rightarrow> accrual) \<Rightarrow> deposit_db \<Rightarrow> deposit_db" where
  "set_accrual i f db = db\<lparr>db_accruals := map (\<lambda>a. if ac_id a = i then f a else a) (db_accruals db)\<rparr>"

definition set_savings :: "string \<Rightarrow> (savings \<Rightarrow> savings) \<Rightarrow> deposit_db \<Rightarrow> deposit_db" where
  "set_savings sid f db = db\<lparr>db_savings := map (\<lambda>s. if sv_id s = sid then f s else s) (db_savings db)\<rparr>"

text \<open>
  \<open>MarkAccrualPosted\<close>: flip the row and add the amount to the account, both or neither. A failure
  rolls back.
\<close>

definition mark_accrual_posted :: "deposit_db \<Rightarrow> nat \<Rightarrow> string \<Rightarrow> deposit_db \<times> (string + unit)" where
  "mark_accrual_posted db i journal =
     (case find (\<lambda>a. ac_id a = i) (db_accruals db) of
        None \<Rightarrow> (db, Inl err_no_rows)
      | Some a \<Rightarrow>
        if ac_status a = ''POSTED'' then (db, Inr ())
        else
          let db' = set_accrual i (\<lambda>a. a\<lparr>ac_status := ''POSTED'', ac_journal := null_if_empty journal\<rparr>) db in
          (case find (\<lambda>s. sv_id s = ac_savings a \<and> sv_status s = ''ACTIVE'') (db_savings db') of
             None \<Rightarrow> (db, Inl err_not_active)
           | Some s \<Rightarrow>
             if \<not> in64 (sv_accrued s + ac_amount a) then (db, Inl err_bigint)
             else (set_savings (sv_id s)
                     (\<lambda>s. s\<lparr>sv_accrued := sv_accrued s + ac_amount a, sv_version := sv_version s + 1\<rparr>) db',
                   Inr ())))"

end
