(* ===== verification/Deposit_Accrual.thy ===== *)
theory Deposit_Accrual
  imports Deposit_Db
begin

text \<open>
  The daily accrual of savings (DPM.305): the cumulative amount of a day
  (apps/deposit-service/internal/service/accrual_cumulative.go) and the run over the active
  savings (\<open>RunDaily\<close> of interest_service.go) on the stored rows. The posting in finance is the
  parameter \<open>gl\<close>, a call to another service: it returns the journal entry's id or an error, and may
  differ from run to run.
\<close>

section \<open>The cumulative amount\<close>

definition code_round_missing :: string where "code_round_missing = ''dpm.accrual.round_config_missing''"

record top_up =
  tu_date :: int
  tu_amount :: rat

record cumulative_input =
  ca_start :: int
  ca_business :: int
  ca_principal :: rat
  ca_top_ups :: "top_up list"
  ca_rate :: rat
  ca_rate_points :: "rate_point list"
  ca_denominator :: int
  ca_round_no :: "int option"
  ca_round_type :: "string option"
  ca_prior :: int

record cumulative_accrual =
  cu_raw :: rat
  cu_cumulative :: int
  cu_amount :: int

text \<open>\<open>sortedTopUps\<close>: each element sinks to its place in the sorted prefix, kept here backwards.\<close>

fun sink :: "top_up \<Rightarrow> top_up list \<Rightarrow> top_up list" where
  "sink t [] = [t]"
| "sink t (u # us) = (if tu_date t < tu_date u then u # sink t us else t # u # us)"

definition sorted_top_ups :: "top_up list \<Rightarrow> top_up list" where
  "sorted_top_ups ts = rev (foldl (\<lambda>prefix t. sink t prefix) [] ts)"

definition opening_balance :: "cumulative_input \<Rightarrow> rat" where
  "opening_balance inp =
     foldl (\<lambda>opening t. if tu_date t < ca_start inp then opening else opening - tu_amount t)
       (ca_principal inp) (ca_top_ups inp)"

fun running_points :: "int \<Rightarrow> rat \<Rightarrow> top_up list \<Rightarrow> balance_point list" where
  "running_points start balance [] = []"
| "running_points start balance (t # ts) =
     (if tu_date t < start then running_points start balance ts
      else \<lparr>bp_date = tu_date t, bp_balance = balance + tu_amount t\<rparr> #
           running_points start (balance + tu_amount t) ts)"

definition period_calculation :: "cumulative_input \<Rightarrow> int \<Rightarrow> string \<Rightarrow> calc_input" where
  "period_calculation inp round_no round_type =
     \<lparr>ci_from = ca_start inp, ci_to = ca_business inp + 1, ci_rate = ca_rate inp,
      ci_denominator = ca_denominator inp, ci_round_no = round_no, ci_round_type = round_type,
      ci_points = \<lparr>bp_date = ca_start inp, bp_balance = opening_balance inp\<rparr> #
        running_points (ca_start inp) (opening_balance inp) (sorted_top_ups (ca_top_ups inp)),
      ci_rate_points = ca_rate_points inp\<rparr>"

definition compute_cumulative_accrual ::
  "(rat \<Rightarrow> rat \<Rightarrow> nat \<Rightarrow> rat) \<Rightarrow> (rat \<Rightarrow> nat \<Rightarrow> rat) \<Rightarrow> cumulative_input \<Rightarrow> string + cumulative_accrual" where
  "compute_cumulative_accrual dr rt inp =
     (case (ca_round_no inp, ca_round_type inp) of
        (Some round_no, Some round_type) \<Rightarrow>
          if trim_space round_type = [] then Inl code_round_missing
          else if ca_business inp < ca_start inp then Inr \<lparr>cu_raw = 0, cu_cumulative = 0, cu_amount = 0\<rparr>
          else
            let res = calculate dr (period_calculation inp round_no round_type);
                cumulative = int_part (rt (cr_rounded res) 0)
            in Inr \<lparr>cu_raw = cr_raw res, cu_cumulative = cumulative, cu_amount = sub64 cumulative (ca_prior inp)\<rparr>
      | _ \<Rightarrow> Inl code_round_missing)"

text \<open>\<open>RateOn\<close>: the date of the latest point starts at the zero time, 0001-01-01.\<close>

fun rate_on_from :: "int \<Rightarrow> rat \<Rightarrow> int \<Rightarrow> rate_point list \<Rightarrow> rat" where
  "rate_on_from day rate since [] = rate"
| "rate_on_from day rate since (p # ps) =
     (if rt_date p \<le> day \<and> since \<le> rt_date p then rate_on_from day (rt_rate p) (rt_date p) ps
      else rate_on_from day rate since ps)"

definition rate_on :: "cumulative_input \<Rightarrow> int \<Rightarrow> rat" where
  "rate_on inp day = rate_on_from day (ca_rate inp) (-719162) (ca_rate_points inp)"

section \<open>The window\<close>

definition accrual_window :: "string \<Rightarrow> string \<Rightarrow> string \<Rightarrow> string \<Rightarrow> (string \<times> string \<times> int) option" where
  "accrual_window open_date last_posted business_date period_start =
     (case parse_iso business_date of
        None \<Rightarrow> None
      | Some business \<Rightarrow>
        (case (if last_posted = [] then Some open_date
               else map_option (\<lambda>l. format_iso (next_day l)) (parse_iso last_posted)) of
           None \<Rightarrow> None
         | Some from0 \<Rightarrow>
           let from_date = (if period_start \<noteq> [] \<and> str_lt from0 period_start then period_start else from0) in
           (case parse_iso from_date of
              None \<Rightarrow> None
            | Some f \<Rightarrow>
              if civil_day business < civil_day f then None
              else
                let exclusive_end = next_day business;
                    days = sub_days (civil_day exclusive_end) (civil_day f)
                in if days \<le> 0 then None else Some (from_date, format_iso exclusive_end, days))))"

section \<open>Reading the input\<close>

definition rate_points_of :: "deposit_db \<Rightarrow> string \<Rightarrow> string list \<Rightarrow> rate_point list" where
  "rate_points_of db product_code changes =
     List.map_filter (\<lambda>date. case find_effective_rate db product_code 0 date of
         None \<Rightarrow> None
       | Some row \<Rightarrow> map_option (\<lambda>d. \<lparr>rt_date = civil_day d, rt_rate = ir_rate row\<rparr>) (parse_iso date)) changes"

definition top_ups_of :: "deposit_txn list \<Rightarrow> top_up list" where
  "top_ups_of txns =
     List.map_filter (\<lambda>t. map_option (\<lambda>d. \<lparr>tu_date = civil_day d, tu_amount = of_int (tx_amount t)\<rparr>)
       (parse_iso (tx_date t))) txns"

definition read_cumulative_input :: "deposit_db \<Rightarrow> savings \<Rightarrow> string \<Rightarrow> civil \<Rightarrow> string + cumulative_input" where
  "read_cumulative_input db item period_start business =
     (case parse_iso period_start of
        None \<Rightarrow> Inl code_internal
      | Some start \<Rightarrow>
        let business_date = format_iso business;
            prod = product_by_code db (sv_product item);
            product_rate = (case prod of None \<Rightarrow> 0 | Some p \<Rightarrow> pr_rate p);
            changes = rate_change_dates db (sv_product item) 0 period_start business_date
        in
        (case sum_period_accruals db (sv_id item) period_start of
           Inl _ \<Rightarrow> Inl code_internal
         | Inr prior \<Rightarrow>
           Inr \<lparr>ca_start = civil_day start, ca_business = civil_day business,
                ca_principal = of_int (sv_principal item),
                ca_top_ups = top_ups_of (posted_top_ups db (sv_id item) period_start),
                ca_rate = (case find_effective_rate db (sv_product item) 0 period_start of
                   None \<Rightarrow> product_rate | Some row \<Rightarrow> ir_rate row),
                ca_rate_points = rate_points_of db (sv_product item) changes,
                ca_denominator = (case find_effective_rate db (sv_product item) 0 business_date of
                   Some row \<Rightarrow> if 0 < ir_denominator row then ir_denominator row else 365 | None \<Rightarrow> 365),
                ca_round_no = (case prod of None \<Rightarrow> None | Some p \<Rightarrow> pr_round_no p),
                ca_round_type = (case prod of None \<Rightarrow> None | Some p \<Rightarrow> pr_round_type p),
                ca_prior = prior\<rparr>))"

section \<open>Completing a staged row\<close>

record gl_request =
  gq_key :: string
  gq_date :: string
  gq_card :: string
  gq_savings :: savings
  gq_amount :: int
  gq_debit :: string
  gq_credit :: string

type_synonym gl_service = "gl_request \<Rightarrow> string + string"

definition accrual_request :: "savings \<Rightarrow> accrual \<Rightarrow> gl_request" where
  "accrual_request item a =
     \<lparr>gq_key = ''dpm-accrual-'' @ dec_str (ac_id a), gq_date = ac_to a, gq_card = ''DPM_ACCRUAL'',
      gq_savings = item, gq_amount = ac_amount a, gq_debit = ''DPM_INTEREST_EXPENSE'',
      gq_credit = ''DPM_INTEREST_PAYABLE''\<rparr>"

definition complete_accrual :: "gl_service \<Rightarrow> deposit_db \<Rightarrow> savings \<Rightarrow> accrual \<Rightarrow> deposit_db \<times> (string + unit)" where
  "complete_accrual gl db item a =
     (case (case ac_journal a of Some j \<Rightarrow> (if j = [] then gl (accrual_request item a) else Inr j)
            | None \<Rightarrow> gl (accrual_request item a)) of
        Inl err \<Rightarrow> (db, Inl err)
      | Inr entry \<Rightarrow>
          (case mark_accrual_posted db (ac_id a) entry of
             (db', Inl err) \<Rightarrow> (db', Inl (if err = err_not_active then code_conflict else code_internal))
           | (db', Inr _) \<Rightarrow> (db', Inr ())))"

text \<open>
  The loop that completes the rows stranded by an earlier run; it counts what it posts. The fuel is
  one more than the number of rows, which is never used up on the states of the service.
\<close>

datatype loop_error = Out_Of_Fuel | Call_Failed string

fun complete_pending ::
  "nat \<Rightarrow> gl_service \<Rightarrow> deposit_db \<Rightarrow> savings \<Rightarrow> int \<Rightarrow> deposit_db \<times> int \<times> (loop_error + unit)" where
  "complete_pending 0 gl db item posted = (db, posted, Inl Out_Of_Fuel)"
| "complete_pending (Suc n) gl db item posted =
     (case first_pending_accrual db (sv_id item) of
        None \<Rightarrow> (db, posted, Inr ())
      | Some a \<Rightarrow>
        (case complete_accrual gl db item a of
           (db', Inl err) \<Rightarrow> (db', posted, Inl (Call_Failed err))
         | (db', Inr _) \<Rightarrow> complete_pending n gl db' item (posted + 1)))"

section \<open>One savings\<close>

definition period_start_of :: "savings \<Rightarrow> string \<Rightarrow> string" where
  "period_start_of item stored_start = (if str_lt (sv_open item) stored_start then stored_start else sv_open item)"

text \<open>What the run wants to stage for a savings: nothing, a skip, or a row.\<close>

datatype plan = Idle | Skip | Stage accrual

definition plan_accrual ::
  "(rat \<Rightarrow> rat \<Rightarrow> nat \<Rightarrow> rat) \<Rightarrow> (rat \<Rightarrow> nat \<Rightarrow> rat) \<Rightarrow> deposit_db \<Rightarrow> savings \<Rightarrow> string \<Rightarrow> civil \<Rightarrow> string + plan" where
  "plan_accrual dr rt db item business_date business =
     (let stored_start = interest_period_start db (sv_id item) in
      case accrual_window (sv_open item) (last_accrual_period db (sv_id item)) business_date stored_start of
        None \<Rightarrow> Inr Idle
      | Some (from_date, _, days) \<Rightarrow>
        (case read_cumulative_input db item (period_start_of item stored_start) business of
           Inl err \<Rightarrow> Inl err
         | Inr inp \<Rightarrow>
           (case compute_cumulative_accrual dr rt inp of
              Inl err \<Rightarrow> Inr Skip
            | Inr res \<Rightarrow>
              if cu_amount res \<le> 0 then Inr Idle
              else Inr (Stage \<lparr>ac_id = 0, ac_savings = sv_id item, ac_code = sv_code item, ac_from = from_date,
                ac_to = business_date, ac_days = days, ac_base = sv_principal item,
                ac_rate = rate_on inp (civil_day business), ac_amount = cu_amount res, ac_status = [],
                ac_journal = None\<rparr>))))"

datatype run_error = Failed string | Round_Config_Missing "string list"

text \<open>The run over the savings, with what was posted and skipped so far.\<close>

fun run_items ::
  "gl_service \<Rightarrow> (rat \<Rightarrow> rat \<Rightarrow> nat \<Rightarrow> rat) \<Rightarrow> (rat \<Rightarrow> nat \<Rightarrow> rat) \<Rightarrow> string \<Rightarrow> civil \<Rightarrow> savings list \<Rightarrow> deposit_db \<Rightarrow>
   int \<Rightarrow> string list \<Rightarrow> deposit_db \<times> int \<times> run_error option" where
  "run_items gl dr rt bd business [] db posted skipped =
     (db, posted, if skipped = [] then None else Some (Round_Config_Missing skipped))"
| "run_items gl dr rt bd business (item # items) db posted skipped =
     (case complete_pending (Suc (length (db_accruals db))) gl db item posted of
        (db1, posted1, Inl Out_Of_Fuel) \<Rightarrow> (db1, posted1, Some (Failed ''out of fuel''))
      | (db1, posted1, Inl (Call_Failed err)) \<Rightarrow> (db1, posted1, Some (Failed err))
      | (db1, posted1, Inr _) \<Rightarrow>
        (case plan_accrual dr rt db1 item bd business of
           Inl err \<Rightarrow> (db1, posted1, Some (Failed err))
         | Inr Idle \<Rightarrow> run_items gl dr rt bd business items db1 posted1 skipped
         | Inr Skip \<Rightarrow> run_items gl dr rt bd business items db1 posted1 (skipped @ [sv_code item])
         | Inr (Stage a) \<Rightarrow>
           (case create_accrual db1 a of
              (db2, None) \<Rightarrow> run_items gl dr rt bd business items db2 posted1 skipped
            | (db2, Some row) \<Rightarrow>
              (case complete_accrual gl db2 item row of
                 (db3, Inl err) \<Rightarrow> (db3, posted1, Some (Failed err))
               | (db3, Inr _) \<Rightarrow> run_items gl dr rt bd business items db3 (posted1 + 1) skipped))))"

definition run_daily ::
  "gl_service \<Rightarrow> (rat \<Rightarrow> rat \<Rightarrow> nat \<Rightarrow> rat) \<Rightarrow> (rat \<Rightarrow> nat \<Rightarrow> rat) \<Rightarrow> deposit_db \<Rightarrow> string \<Rightarrow>
   deposit_db \<times> int \<times> run_error option" where
  "run_daily gl dr rt db business_date =
     (case parse_iso business_date of
        None \<Rightarrow> (db, 0, Some (Failed code_invalid_input))
      | Some business \<Rightarrow> run_items gl dr rt business_date business (active_savings db) db 0 [])"

end
