(* ===== verification/Deposit_Accrual_Safety.thy ===== *)
theory Deposit_Accrual_Safety
  imports Deposit_Accrual "HOL-Library.Multiset"
begin

text \<open>
  What the daily accrual guarantees: the windows of consecutive runs chain, the cumulative amount is
  the interest of the period counted day by day and rounded once, and a run books what is missing to
  it to the unit, however many days it catches up.
\<close>

section \<open>Top-ups\<close>

lemma sink_mset: "mset (sink t us) = add_mset t (mset us)"
  by (induction us) auto

lemma sink_sorted: "sorted (map tu_date (rev us)) \<Longrightarrow> sorted (map tu_date (rev (sink t us)))"
proof (induction us)
  case (Cons u us)
  have "set (sink t us) = insert t (set us)" by (metis sink_mset set_mset_add_mset_insert set_mset_mset)
  with Cons show ?case by (auto simp: sorted_append)
qed simp

lemma sink_filter:
  "sorted (map tu_date (rev us)) \<Longrightarrow>
   filter (\<lambda>x. k = tu_date x) (sink t us) = filter (\<lambda>x. k = tu_date x) (t # us)"
  by (induction us) (auto simp: sorted_append filter_empty_conv)

lemma sorted_top_ups_prefix:
  "sorted (map tu_date (rev (foldl (\<lambda>p t. sink t p) [] ts))) \<and>
   mset (foldl (\<lambda>p t. sink t p) [] ts) = mset ts \<and>
   (\<forall>k. filter (\<lambda>x. k = tu_date x) (rev (foldl (\<lambda>p t. sink t p) [] ts)) = filter (\<lambda>x. k = tu_date x) ts)"
proof (induction ts rule: rev_induct)
  case (snoc t ts)
  let ?p = "foldl (\<lambda>p t. sink t p) [] ts"
  have "filter (\<lambda>x. k = tu_date x) (rev (sink t ?p)) = filter (\<lambda>x. k = tu_date x) (ts @ [t])" for k
    using snoc sink_filter [of ?p k t] by (simp add: rev_filter [symmetric])
  with snoc show ?case by (simp add: sink_sorted sink_mset)
qed simp

lemma sorted_top_ups_eq: "sorted_top_ups ts = sort_key tu_date ts"
  unfolding sorted_top_ups_def
  by (rule properties_for_sort_key [symmetric]) (use sorted_top_ups_prefix [of ts] in auto)

section \<open>Dates\<close>

text \<open>A date whose next day still has a four-digit year.\<close>

definition usable_date :: "string \<Rightarrow> bool" where
  "usable_date d \<longleftrightarrow> (\<exists>c. parse_iso d = Some c \<and> c_year c < 9999)"

lemma usable_date_code [code]:
  "usable_date d = (case parse_iso d of None \<Rightarrow> False | Some c \<Rightarrow> c_year c < 9999)"
  by (auto simp: usable_date_def split: option.splits)

lemma next_day_valid: "valid_civil c \<Longrightarrow> valid_civil (next_day c)"
  and civil_day_next: "valid_civil c \<Longrightarrow> civil_day (next_day c) = civil_day c + 1"
  using civil_day_next_day [of c] by auto

lemma next_day_iso:
  assumes "parse_iso d = Some c" "c_year c < 9999"
  shows "parse_iso (format_iso (next_day c)) = Some (next_day c)"
proof -
  have v: "valid_civil c" "iso_civil c" using parse_iso_SomeD(6) [OF assms(1)] parse_iso_year [OF assms(1)] by auto
  moreover have "0 \<le> c_year (next_day c)" "c_year (next_day c) \<le> 9999"
    using v(2) assms(2) by (auto simp: next_day_def iso_civil_def)
  ultimately have "iso_civil (next_day c)" by (simp add: iso_civil_def next_day_valid)
  then show ?thesis by (rule parse_format_iso)
qed

lemma iso_day_Some [simp]: "parse_iso d = Some c \<Longrightarrow> iso_day d = civil_day c"
  by (simp add: iso_day_def)

section \<open>A concrete account\<close>

definition demo_savings :: savings where
  "demo_savings = \<lparr>sv_id = ''s1'', sv_code = ''SV1'', sv_product = ''P1'', sv_open = ''2026-03-01'',
     sv_principal = 36500000, sv_accrued = 0, sv_currency = ''VND'', sv_org = ''HN'', sv_status = ''ACTIVE'', sv_version = 1,
     sv_customer = ''C1'', sv_maturity = ''2027-03-01'', sv_journal = None\<rparr>"

definition demo_db :: deposit_db where
  "demo_db = \<lparr>db_savings = [demo_savings], db_accruals = [], db_ops = [], db_txns = [], db_rates = [],
     db_products = [\<lparr>pr_code = ''P1'', pr_rate = 10, pr_round_no = Some 1, pr_round_type = Some ''CM163.001'',
       pr_id = ''P1'', pr_term = 12, pr_currency = ''VND'', pr_active = True\<rparr>], db_rate_requests = []\<rparr>"

definition demo_gl :: gl_service where
  "demo_gl r = Inr ''je-1''"

definition accrual_demo_row :: accrual where
  "accrual_demo_row = \<lparr>ac_id = 0, ac_savings = ''s1'', ac_code = ''SV1'', ac_from = ''2026-03-01'', ac_to = ''2026-03-05'', ac_days = 5,
     ac_base = 36500000, ac_rate = 10, ac_amount = 50000, ac_status = ''PENDING'', ac_journal = None\<rparr>"

definition accrual_demo_input :: cumulative_input where
  "accrual_demo_input = \<lparr>ca_start = 20513, ca_business = 20517, ca_principal = 36500000, ca_top_ups = [], ca_rate = 10,
     ca_rate_points = [], ca_denominator = 365, ca_round_no = Some 1, ca_round_type = Some ''CM163.001'', ca_prior = 0\<rparr>"

section \<open>The window\<close>

text \<open>The accrual windows chain without a gap or an overlap: an accepted window starts on or after the start
  of the interest period and runs through the business date inclusive, its day count being the days it
  covers; after its row is confirmed the next run, on any later day and within the same period, starts
  exactly on the day where the window ended, and a run on the same day or an earlier one has nothing to do.\<close>

theorem accrual_windows_chain:
  assumes "accrual_window open_date last_posted d period_start = Some (from_date, to_date, days)"
    and "parse_iso d = Some b" "c_year b < 9999" "period_start = [] \<or> usable_date period_start"
    and "parse_iso d' = Some b'" "\<bar>civil_day b' - civil_day b\<bar> \<le> 106751"
  shows "(\<exists>f. parse_iso from_date = Some f \<and> civil_day f \<le> civil_day b \<and>
      (civil_day b - civil_day f < 106751 \<longrightarrow> days = civil_day b + 1 - civil_day f)) \<and>
    (period_start \<noteq> [] \<longrightarrow> iso_day period_start \<le> iso_day from_date) \<and>
    parse_iso to_date = Some (next_day b) \<and>
    accrual_window open_date d d' period_start =
      (if civil_day b < civil_day b' then Some (to_date, format_iso (next_day b'), civil_day b' - civil_day b) else None)"
proof -
  obtain f where f: "parse_iso from_date = Some f" "\<not> civil_day b < civil_day f"
    and days: "days = sub_days (civil_day (next_day b)) (civil_day f)" and to: "to_date = format_iso (next_day b)"
    and ps: "period_start \<noteq> [] \<Longrightarrow> \<not> str_lt from_date period_start"
    using assms(1) unfolding accrual_window_def Let_def assms(2)
    by (auto split: option.splits if_splits)
  have vb: "valid_civil b" "valid_civil b'" using parse_iso_SomeD(6) assms(2,5) by blast+
  have to_iso: "parse_iso to_date = Some (next_day b)" unfolding to by (rule next_day_iso [OF assms(2,3)])
  have late: "period_start \<noteq> [] \<Longrightarrow> iso_day period_start \<le> iso_day from_date \<and> \<not> str_lt to_date period_start"
  proof -
    assume ne: "period_start \<noteq> []"
    then obtain p where p: "parse_iso period_start = Some p" using assms(4) by (auto simp: usable_date_def)
    have "\<not> civil_day f < civil_day p" using ps [OF ne] iso_order [OF f(1) p] by simp
    then have "\<not> str_lt to_date period_start"
      using f(2) iso_order [OF to_iso p] civil_day_next [OF vb(1)] by auto
    with \<open>\<not> civil_day f < civil_day p\<close> show ?thesis using f(1) p by simp
  qed
  have "days = civil_day b + 1 - civil_day f" if "civil_day b - civil_day f < 106751"
    unfolding days civil_day_next [OF vb(1)] by (rule sub_days_eq) (use that f(2) in auto)
  moreover have "accrual_window open_date d d' period_start =
      (if civil_day b < civil_day b' then Some (to_date, format_iso (next_day b'), civil_day b' - civil_day b) else None)"
  proof -
    have ne: "d \<noteq> []" using assms(2) by (auto simp: parse_iso_def)
    have nl: "\<not> (period_start \<noteq> [] \<and> str_lt (format_iso (next_day b)) period_start)" using late unfolding to by blast
    have sd: "sub_days (civil_day (next_day b')) (civil_day (next_day b)) = civil_day b' - civil_day b"
      unfolding civil_day_next [OF vb(1)] civil_day_next [OF vb(2)] by (subst sub_days_eq) (use assms(6) in auto)
    show ?thesis
      unfolding accrual_window_def Let_def assms(2,5)
      using ne nl to_iso sd civil_day_next [OF vb(1)] unfolding to by auto
  qed
  ultimately show ?thesis using f late to_iso by auto
qed

theorem accrual_windows_chain_witness:
  "accrual_window ''2026-03-01'' ''2026-03-05'' ''2026-03-06'' [] = Some (''2026-03-06'', ''2026-03-07'', 1)"
proof -
  have "accrual_window ''2026-03-01'' [] ''2026-03-05'' [] = Some (''2026-03-01'', ''2026-03-06'', 5)" by code_simp
  moreover have "parse_iso ''2026-03-05'' = Some \<lparr>c_year = 2026, c_month = 3, c_day = 5\<rparr>"
    "parse_iso ''2026-03-06'' = Some \<lparr>c_year = 2026, c_month = 3, c_day = 6\<rparr>" by code_simp+
  moreover have "civil_day \<lparr>c_year = 2026, c_month = 3, c_day = 6\<rparr> - civil_day \<lparr>c_year = 2026, c_month = 3, c_day = 5\<rparr> = 1"
    by code_simp
  moreover have "format_iso (next_day \<lparr>c_year = 2026, c_month = 3, c_day = 6\<rparr>) = ''2026-03-07''" by code_simp
  ultimately show ?thesis
    using accrual_windows_chain [of "''2026-03-01''" "[]" "''2026-03-05''" "[]" "''2026-03-01''" "''2026-03-06''" 5
        "\<lparr>c_year = 2026, c_month = 3, c_day = 5\<rparr>" "''2026-03-06''" "\<lparr>c_year = 2026, c_month = 3, c_day = 6\<rparr>"]
    by simp
qed

section \<open>The amount\<close>

text \<open>The cumulative amount of a day is the interest of the whole period so far, rounded once by the product:
  when the rounding is configured it is a multiple of ROUND_NO, within one ROUND_NO (and a unit of the tenth
  decimal per slice) of the interest counted day by day, and the day's amount is what is missing to it; when
  the rounding is not configured the computation stops with the code for it.\<close>

theorem cumulative_accuracy:
  assumes "decimal_lib dr rt" "ca_start inp \<le> ca_business inp" "ca_business inp - ca_start inp < 106751"
    and "ca_round_no inp = Some n" "ca_round_type inp = Some ty" "trim_space ty \<noteq> []" "0 < n"
    and "\<bar>cr_rounded (calculate dr (period_calculation inp n ty))\<bar> \<le> 9223372036854775807"
  shows "\<exists>res. compute_cumulative_accrual dr rt inp = Inr res \<and> cu_cumulative res mod n = 0 \<and>
    cu_amount res = sub64 (cu_cumulative res) (ca_prior inp) \<and>
    \<bar>of_int (cu_cumulative res) -
       days_interest (period_calculation inp n ty) (ca_start inp) (ca_business inp + 1)\<bar>
      \<le> of_int n + of_nat (length (cr_segments (calculate dr (period_calculation inp n ty)))) / 10 ^ 10 \<and>
    compute_cumulative_accrual dr rt (inp\<lparr>ca_round_no := None\<rparr>) = Inl code_round_missing \<and>
    compute_cumulative_accrual dr rt (inp\<lparr>ca_round_type := None\<rparr>) = Inl code_round_missing"
proof -
  let ?c = "period_calculation inp n ty"
  let ?r = "calculate dr ?c"
  have ft: "ci_from ?c = ca_start inp" "ci_to ?c = ca_business inp + 1" "ci_round_no ?c = n" "ci_round_type ?c = ty"
    by (simp_all add: period_calculation_def)
  have lt: "ci_from ?c < ci_to ?c" "ci_to ?c - ci_from ?c \<le> 106751" unfolding ft using assms(2,3) by linarith+
  have near: "\<bar>cr_raw ?r - days_interest ?c (ca_start inp) (ca_business inp + 1)\<bar> \<le> of_nat (length (cr_segments ?r)) / 10 ^ 10"
    using deposit_interest_daily [OF assms(1) lt(2)] lt(1) unfolding ft by blast
  have rounded: "cr_rounded ?r = apply_round (cr_raw ?r) n ty"
    using lt(1) ft(3,4) by (simp add: calculate_def Let_def)
  obtain k where k: "cr_rounded ?r = of_int (k * n)" using apply_round_whole [OF assms(7)] rounded by metis
  have ab: "\<bar>cr_rounded ?r - cr_raw ?r\<bar> \<le> of_int n" unfolding rounded by (rule apply_round_near [OF assms(7)])
  have "\<bar>of_int (k * n) :: rat\<bar> \<le> of_int 9223372036854775807" using assms(8) k by simp
  then have "in64 (k * n)" unfolding in64_def by (simp only: flip: of_int_abs) linarith
  moreover have "rt (cr_rounded ?r) 0 = of_int (k * n)"
    unfolding k by (rule decimal_lib.round_on_grid [OF assms(1) on_grid_of_int])
  ultimately have ip: "int_part (rt (cr_rounded ?r) 0) = k * n" using int_part_of_int by metis
  have "compute_cumulative_accrual dr rt inp =
      Inr \<lparr>cu_raw = cr_raw ?r, cu_cumulative = k * n, cu_amount = sub64 (k * n) (ca_prior inp)\<rparr>"
    using assms(2,4-6) ip by (simp add: compute_cumulative_accrual_def Let_def)
  moreover have "\<bar>of_int (k * n) - days_interest ?c (ca_start inp) (ca_business inp + 1)\<bar>
      \<le> of_int n + of_nat (length (cr_segments ?r)) / 10 ^ 10"
    using add_mono [OF ab near] unfolding k by linarith
  ultimately show ?thesis by (simp add: compute_cumulative_accrual_def assms)
qed

theorem cumulative_accuracy_witness:
  "\<exists>res. compute_cumulative_accrual div_half_away round_half_away accrual_demo_input = Inr res \<and> cu_amount res = 50000 \<and>
     \<bar>of_int (cu_cumulative res) - days_interest (period_calculation accrual_demo_input 1 ''CM163.001'') 20513 20518\<bar>
       \<le> 1 + of_nat (length (cr_segments (calculate div_half_away (period_calculation accrual_demo_input 1 ''CM163.001'')))) / 10 ^ 10"
proof -
  have "compute_cumulative_accrual div_half_away round_half_away accrual_demo_input =
      Inr \<lparr>cu_raw = 50000, cu_cumulative = 50000, cu_amount = 50000\<rparr>" by code_simp
  moreover have "cr_rounded (calculate div_half_away (period_calculation accrual_demo_input 1 ''CM163.001'')) = 50000" by code_simp
  moreover have "trim_space ''CM163.001'' \<noteq> []" by code_simp
  ultimately show ?thesis
    using cumulative_accuracy [OF dec.decimal_lib_axioms, of accrual_demo_input 1 "''CM163.001''"] by (simp add: accrual_demo_input_def)
qed

section \<open>Catching up\<close>

lemma max_date_in: "ds \<noteq> [] \<Longrightarrow> max_date ds \<in> set ds"
  by (induction ds) (auto simp: Let_def)

lemma max_date_P: "(\<And>e. e \<in> set ds \<Longrightarrow> P e) \<Longrightarrow> max_date ds = [] \<or> P (max_date ds)"
  using max_date_in [of ds] by (cases "ds = []") auto

lemma max_date_ge: "d \<in> set ds \<Longrightarrow> \<not> date_lt (max_date ds) d"
proof (induction ds)
  case (Cons e ds)
  show ?case
  proof (cases "ds = []")
    case True
    then show ?thesis using Cons.prems by (simp add: date_lt_def)
  next
    case False
    with Cons show ?thesis by (auto simp: Let_def date_lt_def)
  qed
qed simp

lemma period_start_le_from:
  assumes "accrual_window (sv_open item) lastp d stored = Some (from_date, to_date, days)"
    and "stored = [] \<or> usable_date stored" "usable_date (sv_open item)"
    and "lastp = [] \<or> usable_date lastp \<and> \<not> date_lt lastp (sv_open item)"
  shows "\<not> date_lt from_date (period_start_of item stored)"
proof -
  obtain op where op: "parse_iso (sv_open item) = Some op" using assms(3) by (auto simp: usable_date_def)
  obtain from0 where from0: "from0 = (if lastp = [] then sv_open item else format_iso (next_day (the (parse_iso lastp))))"
    "from_date = (if stored \<noteq> [] \<and> str_lt from0 stored then stored else from0)"
    using assms(1) unfolding accrual_window_def Let_def by (auto split: option.splits if_splits)
  have f0: "usable_date lastp \<Longrightarrow> lastp \<noteq> [] \<Longrightarrow> iso_day (sv_open item) \<le> iso_day from0"
  proof -
    assume "usable_date lastp" "lastp \<noteq> []"
    then obtain l where l: "parse_iso lastp = Some l" "c_year l < 9999" "civil_day op \<le> civil_day l"
      using assms(4) op by (auto simp: usable_date_def date_lt_def)
    have "parse_iso from0 = Some (next_day l)"
      using from0(1) next_day_iso [OF l(1,2)] l(1) \<open>lastp \<noteq> []\<close> by simp
    then show ?thesis using l op civil_day_next [OF parse_iso_SomeD(6) [OF l(1)]] by simp
  qed
  then have open_le: "iso_day (sv_open item) \<le> iso_day from0"
    using assms(4) from0(1) by (cases "lastp = []") auto
  have parses: "\<exists>c. parse_iso from0 = Some c"
    using assms(4) from0(1) op next_day_iso by (cases "lastp = []") (auto simp: usable_date_def)
  show ?thesis
  proof (cases "stored = []")
    case True
    have "\<not> str_lt (sv_open item) []" by (cases "sv_open item") auto
    with True have "period_start_of item stored = sv_open item" "from_date = from0"
      using from0(2) by (simp_all add: period_start_of_def)
    then show ?thesis using open_le by (simp add: date_lt_def)
  next
    case False
    then obtain st where st: "parse_iso stored = Some st" using assms(2) by (auto simp: usable_date_def)
    obtain c where c: "parse_iso from0 = Some c" using parses by blast
    have "iso_day from0 \<le> iso_day from_date \<and> iso_day stored \<le> iso_day from_date"
      using from0(2) False iso_order [OF c st] c st by auto
    then show ?thesis using open_le by (auto simp: date_lt_def period_start_of_def)
  qed
qed

text \<open>C22. A run catches up to the unit: when the run stages a row for a savings, the rows of the interest period
  then add up exactly to the rounded interest of the period through the business date, whatever the earlier
  runs booked or missed, and the row's amount is positive.\<close>

theorem catch_up_exact:
  assumes "plan_accrual dr rt db item d b = Inr (Stage a)" "create_accrual db a = (db', Some row)"
    and "period_start = period_start_of item (interest_period_start db (sv_id item))"
    and "read_cumulative_input db item period_start b = Inr inp" "compute_cumulative_accrual dr rt inp = Inr res"
    and "in64 (cu_cumulative res - ca_prior inp)" "in64 (cu_cumulative res)" "usable_date (sv_open item)"
    and "\<forall>p\<in>set (db_ops db). \<forall>e. io_effective p = Some e \<longrightarrow> usable_date e"
    and "\<forall>x\<in>set (db_accruals db). ac_savings x = sv_id item \<longrightarrow> usable_date (ac_to x) \<and> \<not> date_lt (ac_to x) (sv_open item)"
  shows "sum_period_accruals db' (sv_id item) period_start = Inr (cu_cumulative res) \<and>
    0 < ac_amount row \<and> ac_amount row = cu_cumulative res - ca_prior inp"
proof -
  let ?stored = "interest_period_start db (sv_id item)" and ?last = "last_accrual_period db (sv_id item)"
  obtain from_date to_date days where
    w: "accrual_window (sv_open item) ?last d ?stored = Some (from_date, to_date, days)" and
    a: "ac_savings a = sv_id item" "ac_from a = from_date" "ac_amount a = cu_amount res" "0 < cu_amount res"
    using assms(1) assms(4,5) unfolding plan_accrual_def Let_def assms(3)
    by (auto split: option.splits if_splits sum.splits)
  have amount: "cu_amount res = cu_cumulative res - ca_prior inp"
    using assms(5,6) a(4) by (auto simp: compute_cumulative_accrual_def Let_def sub64_eq split: option.splits if_splits)
  have stored: "?stored = [] \<or> usable_date ?stored"
    unfolding interest_period_start_def
    by (rule max_date_P) (use assms(9) in \<open>auto simp: List.map_filter_def\<close>)
  have lastp: "?last = [] \<or> usable_date ?last \<and> \<not> date_lt ?last (sv_open item)"
    unfolding last_accrual_period_def by (rule max_date_P) (use assms(10) in auto)
  have from_ge: "\<not> date_lt (ac_from a) period_start"
    unfolding a(2) assms(3) by (rule period_start_le_from [OF w stored assms(8) lastp])
  have row: "ac_savings row = ac_savings a" "ac_from row = ac_from a" "ac_amount row = ac_amount a"
    "db_accruals db' = db_accruals db @ [row]"
    using assms(2) by (auto simp: create_accrual_def Let_def split: if_splits)
  have prior: "sum_period_accruals db (sv_id item) period_start = Inr (ca_prior inp)"
    using assms(4) by (auto simp: read_cumulative_input_def Let_def split: option.splits sum.splits)
  have "sum_list [ac_amount x. x \<leftarrow> db_accruals db', ac_savings x = sv_id item \<and> \<not> date_lt (ac_from x) period_start] =
      ca_prior inp + cu_amount res"
    using prior from_ge a row by (auto simp: sum_period_accruals_def Let_def split: if_splits)
  then show ?thesis
    using amount assms(7) a row by (simp add: sum_period_accruals_def)
qed

theorem catch_up_exact_witness:
  "sum_period_accruals (demo_db\<lparr>db_accruals := [accrual_demo_row]\<rparr>) ''s1'' ''2026-03-01'' = Inr 50000 \<and> 0 < ac_amount accrual_demo_row"
proof -
  let ?b = "\<lparr>c_year = 2026, c_month = 3, c_day = 5\<rparr>"
  have "plan_accrual div_half_away round_half_away demo_db demo_savings ''2026-03-05'' ?b = Inr (Stage (accrual_demo_row\<lparr>ac_status := []\<rparr>))"
    by code_simp
  moreover have "create_accrual demo_db (accrual_demo_row\<lparr>ac_status := []\<rparr>) = (demo_db\<lparr>db_accruals := [accrual_demo_row]\<rparr>, Some accrual_demo_row)"
    by code_simp
  moreover have "''2026-03-01'' = period_start_of demo_savings (interest_period_start demo_db (sv_id demo_savings))"
    by code_simp
  moreover have "read_cumulative_input demo_db demo_savings ''2026-03-01'' ?b = Inr accrual_demo_input" by code_simp
  moreover have "compute_cumulative_accrual div_half_away round_half_away accrual_demo_input =
      Inr \<lparr>cu_raw = 50000, cu_cumulative = 50000, cu_amount = 50000\<rparr>" by code_simp
  moreover have "usable_date (sv_open demo_savings)" by code_simp
  moreover have "db_ops demo_db = []" "db_accruals demo_db = []" "ca_prior accrual_demo_input = 0" "sv_id demo_savings = ''s1''"
    by (simp_all add: demo_db_def accrual_demo_input_def demo_savings_def)
  ultimately show ?thesis
    using catch_up_exact [of div_half_away round_half_away demo_db demo_savings "''2026-03-05''" ?b
        "accrual_demo_row\<lparr>ac_status := []\<rparr>" "demo_db\<lparr>db_accruals := [accrual_demo_row]\<rparr>" accrual_demo_row "''2026-03-01''" accrual_demo_input
        "\<lparr>cu_raw = 50000, cu_cumulative = 50000, cu_amount = 50000\<rparr>"]
    by (simp add: in64_def)
qed

end
