(* ===== verification/Deposit_Rerun.thy ===== *)
theory Deposit_Rerun
  imports Deposit_Accrual_Safety
begin

text \<open>
  The daily run touches one savings at a time: what the run plans for a savings depends on that
  savings' rows alone. From this follow the termination of the loop over stranded rows and the
  idempotence of the run.
\<close>

section \<open>Well-formed rows\<close>

definition rows_wf :: "deposit_db \<Rightarrow> bool" where
  "rows_wf db \<longleftrightarrow> map ac_id (db_accruals db) = [0..<length (db_accruals db)] \<and>
     distinct (map sv_id (db_savings db)) \<and> (\<forall>a\<in>set (db_accruals db). usable_date (ac_to a))"

text \<open>What a run never changes of a savings.\<close>

definition savings_key :: "savings \<Rightarrow> savings" where
  "savings_key s = s\<lparr>sv_accrued := 0, sv_version := 0\<rparr>"

definition rows_of :: "string \<Rightarrow> deposit_db \<Rightarrow> accrual list" where
  "rows_of sid db = [a \<leftarrow> db_accruals db. ac_savings a = sid]"

text \<open>A change of the rows that concerns the savings \<open>sid\<close> only.\<close>

definition only_on :: "string \<Rightarrow> deposit_db \<Rightarrow> deposit_db \<Rightarrow> bool" where
  "only_on sid db db' \<longleftrightarrow> rows_wf db' \<and> (\<forall>s. s \<noteq> sid \<longrightarrow> rows_of s db' = rows_of s db) \<and>
     map savings_key (db_savings db') = map savings_key (db_savings db) \<and> db_ops db' = db_ops db \<and>
     db_txns db' = db_txns db \<and> db_rates db' = db_rates db \<and> db_products db' = db_products db"

lemma only_on_refl: "rows_wf db \<Longrightarrow> only_on sid db db"
  by (simp add: only_on_def)

lemma only_on_trans: "only_on sid a b \<Longrightarrow> only_on sid b c \<Longrightarrow> only_on sid a c"
  by (simp add: only_on_def)

lemma only_on_wf: "only_on sid a b \<Longrightarrow> rows_wf b"
  by (simp add: only_on_def)

lemma rows_wf_ids: "rows_wf db \<Longrightarrow> x \<in> set (db_accruals db) \<Longrightarrow> y \<in> set (db_accruals db) \<Longrightarrow> ac_id x = ac_id y \<Longrightarrow> x = y"
proof -
  assume "rows_wf db" "x \<in> set (db_accruals db)" "y \<in> set (db_accruals db)" "ac_id x = ac_id y"
  moreover have "distinct (map ac_id (db_accruals db))" using \<open>rows_wf db\<close> by (simp add: rows_wf_def)
  ultimately show ?thesis by (auto simp: distinct_map inj_on_def)
qed

lemma rows_wf_id_less: "rows_wf db \<Longrightarrow> x \<in> set (db_accruals db) \<Longrightarrow> ac_id x < length (db_accruals db)"
proof -
  assume "rows_wf db" "x \<in> set (db_accruals db)"
  then have "ac_id x \<in> set [0..<length (db_accruals db)]" unfolding rows_wf_def by (metis image_eqI list.set_map)
  then show ?thesis by simp
qed

section \<open>The plan of a savings depends on its own rows\<close>

lemma concat_filter: "[f a. a \<leftarrow> xs, P a \<and> Q a] = [f a. a \<leftarrow> [a \<leftarrow> xs. P a], Q a]"
  by (induction xs) auto

lemma query_rows:
  "last_accrual_period db sid = max_date [ac_to a. a \<leftarrow> rows_of sid db, ac_status a = ''POSTED'' \<or> ac_journal a \<noteq> None]"
  "first_pending_accrual db sid =
     (case sort_key (\<lambda>a. iso_day (ac_to a)) [a \<leftarrow> rows_of sid db. ac_status a \<noteq> ''POSTED''] of [] \<Rightarrow> None | a # _ \<Rightarrow> Some a)"
  "sum_period_accruals db sid ps =
     (let s = sum_list [ac_amount a. a \<leftarrow> rows_of sid db, \<not> date_lt (ac_from a) ps] in if in64 s then Inr s else Inl err_bigint)"
  unfolding last_accrual_period_def first_pending_accrual_def sum_period_accruals_def rows_of_def
  by (simp_all only: concat_filter filter_filter conj_commute)

lemma savings_key_fields:
  "savings_key s = savings_key t \<Longrightarrow> sv_id s = sv_id t \<and> sv_code s = sv_code t \<and> sv_product s = sv_product t \<and>
     sv_open s = sv_open t \<and> sv_principal s = sv_principal t \<and> sv_status s = sv_status t"
  by (cases s; cases t) (simp add: savings_key_def)

lemma plan_local:
  assumes "rows_of (sv_id item) db' = rows_of (sv_id item) db" "db_ops db' = db_ops db" "db_txns db' = db_txns db"
    and "db_rates db' = db_rates db" "db_products db' = db_products db"
    and "savings_key item' = savings_key item"
  shows "plan_accrual dr rt db' item' d b = plan_accrual dr rt db item d b"
    "first_pending_accrual db' (sv_id item) = first_pending_accrual db (sv_id item)"
proof -
  have f: "sv_id item' = sv_id item" "sv_code item' = sv_code item" "sv_product item' = sv_product item"
    "sv_open item' = sv_open item" "sv_principal item' = sv_principal item"
    using savings_key_fields [OF assms(6)] by blast+
  have q: "last_accrual_period db' (sv_id item) = last_accrual_period db (sv_id item)"
    "sum_period_accruals db' (sv_id item) ps = sum_period_accruals db (sv_id item) ps" for ps
    by (simp_all only: query_rows assms(1))
  have o: "interest_period_start db' s = interest_period_start db s" for s
    by (simp only: interest_period_start_def assms(2))
  have r: "find_effective_rate db' c t x = find_effective_rate db c t x" "rate_change_dates db' c t x y = rate_change_dates db c t x y"
    "posted_top_ups db' s x = posted_top_ups db s x" "product_by_code db' c = product_by_code db c" for c t x y s
    by (simp_all only: find_effective_rate_def rate_change_dates_def rate_candidates_def posted_top_ups_def
        product_by_code_def assms(3-5))
  have p: "rate_points_of db' c xs = rate_points_of db c xs" for c xs
    by (simp only: rate_points_of_def r(1))
  have "read_cumulative_input db' item' ps b = read_cumulative_input db item ps b" for ps
    by (simp only: read_cumulative_input_def f q(2) r p)
  then show "plan_accrual dr rt db' item' d b = plan_accrual dr rt db item d b"
    by (simp only: plan_accrual_def f q(1) o period_start_of_def)
  show "first_pending_accrual db' (sv_id item) = first_pending_accrual db (sv_id item)"
    by (simp only: query_rows assms(1))
qed

section \<open>What the steps of a run change\<close>

lemma set_savings_key:
  "(\<And>s. savings_key (f s) = savings_key s) \<Longrightarrow> map savings_key (db_savings (set_savings i f db)) = map savings_key (db_savings db)"
  by (simp add: set_savings_def)

lemma keys_ids: "map savings_key xs = map savings_key ys \<Longrightarrow> map sv_id xs = map sv_id ys"
proof (induction xs ys rule: list_induct2')
  case (4 x xs y ys)
  then show ?case using savings_key_fields [of x y] by simp
qed auto

lemma only_onI:
  assumes "rows_wf db" "map ac_id (db_accruals db') = [0..<length (db_accruals db')]"
    and "\<forall>a\<in>set (db_accruals db'). usable_date (ac_to a)" "\<And>s. s \<noteq> sid \<Longrightarrow> rows_of s db' = rows_of s db"
    and "map savings_key (db_savings db') = map savings_key (db_savings db)" "db_ops db' = db_ops db"
    and "db_txns db' = db_txns db" "db_rates db' = db_rates db" "db_products db' = db_products db"
  shows "only_on sid db db'"
proof -
  have "distinct (map sv_id (db_savings db'))" using keys_ids [OF assms(5)] assms(1) by (simp add: rows_wf_def)
  then show ?thesis using assms by (simp add: only_on_def rows_wf_def)
qed

lemma filter_map_same:
  "(\<And>x. x \<in> set xs \<Longrightarrow> P (g x) = P x) \<Longrightarrow> (\<And>x. x \<in> set xs \<Longrightarrow> P x \<Longrightarrow> g x = x) \<Longrightarrow>
   filter P (map g xs) = filter P xs"
  by (induction xs) auto

lemma mark_only_on:
  assumes "rows_wf db" "a \<in> set (db_accruals db)" "mark_accrual_posted db (ac_id a) j = (db', r)"
  shows "only_on (ac_savings a) db db'"
proof (cases "db' = db")
  case True
  then show ?thesis using only_on_refl [OF assms(1)] by simp
next
  case False
  let ?flip = "\<lambda>a. a\<lparr>ac_status := ''POSTED'', ac_journal := null_if_empty j\<rparr>"
  have acc: "db_accruals db' = map (\<lambda>x. if ac_id x = ac_id a then ?flip x else x) (db_accruals db)"
    using assms(3) False
    by (auto simp: mark_accrual_posted_def set_accrual_def set_savings_def Let_def split: option.splits if_splits)
  have rest: "map savings_key (db_savings db') = map savings_key (db_savings db)" "db_ops db' = db_ops db"
    "db_txns db' = db_txns db" "db_rates db' = db_rates db" "db_products db' = db_products db"
    using assms(3) False
    by (auto simp: mark_accrual_posted_def set_accrual_def set_savings_def savings_key_def Let_def split: option.splits if_splits)
  have "rows_of s db' = rows_of s db" if "s \<noteq> ac_savings a" for s
  proof -
    show ?thesis
      unfolding rows_of_def acc
    proof (rule filter_map_same)
      fix x assume x: "x \<in> set (db_accruals db)"
      let ?g = "if ac_id x = ac_id a then ?flip x else x"
      show "(ac_savings ?g = s) = (ac_savings x = s)" by simp
      assume "ac_savings x = s"
      then have "ac_id x \<noteq> ac_id a" using rows_wf_ids [OF assms(1) x assms(2)] \<open>s \<noteq> ac_savings a\<close> by blast
      then show "?g = x" by simp
    qed
  qed
  moreover have "map ac_id (db_accruals db') = [0..<length (db_accruals db')]"
  proof -
    have "map ac_id (db_accruals db') = map ac_id (db_accruals db)" "length (db_accruals db') = length (db_accruals db)"
      unfolding acc by simp_all
    then show ?thesis using assms(1) by (simp only: rows_wf_def)
  qed
  moreover have "\<forall>x\<in>set (db_accruals db'). usable_date (ac_to x)"
    using assms(1) unfolding acc by (auto simp: rows_wf_def)
  ultimately show ?thesis by (intro only_onI [OF assms(1)] rest) auto
qed

lemma create_only_on:
  assumes "rows_wf db" "usable_date (ac_to a)" "create_accrual db a = (db', r)"
  shows "only_on (ac_savings a) db db'"
proof (cases r)
  case None
  then show ?thesis using assms only_on_refl by (auto simp: create_accrual_def Let_def split: if_splits)
next
  case (Some row)
  then have row: "row = a\<lparr>ac_id := length (db_accruals db), ac_status := ''PENDING'', ac_journal := None\<rparr>"
    "db' = db\<lparr>db_accruals := db_accruals db @ [row]\<rparr>"
    using assms(3) by (auto simp: create_accrual_def Let_def split: if_splits)
  show ?thesis
    by (rule only_onI [OF assms(1)]) (use assms(1,2) in \<open>auto simp: row rows_wf_def rows_of_def\<close>)
qed

text \<open>Completing a row marks it, or fails before that and changes nothing.\<close>

lemma complete_accrual_marks:
  assumes "complete_accrual gl db item a = (db', r)"
  shows "(db' = db \<and> (\<exists>e. r = Inl e)) \<or>
    (\<exists>j r'. mark_accrual_posted db (ac_id a) j = (db', r') \<and> (\<forall>u. r = Inr u \<longrightarrow> r' = Inr u))"
proof (cases "case ac_journal a of Some j \<Rightarrow> (if j = [] then gl (accrual_request item a) else Inr j)
    | None \<Rightarrow> gl (accrual_request item a)")
  case (Inl e)
  then show ?thesis using assms by (auto simp: complete_accrual_def)
next
  case (Inr j)
  obtain db1 r1 where m: "mark_accrual_posted db (ac_id a) j = (db1, r1)" by fastforce
  then have "db' = db1 \<and> (\<forall>u. r = Inr u \<longrightarrow> r1 = Inr u)"
    using assms Inr by (auto simp: complete_accrual_def split: sum.splits)
  then show ?thesis using m by blast
qed

lemma complete_only_on:
  assumes "rows_wf db" "a \<in> set (db_accruals db)" "complete_accrual gl db item a = (db', r)"
  shows "only_on (ac_savings a) db db'"
  using complete_accrual_marks [OF assms(3)] only_on_refl [OF assms(1)] mark_only_on [OF assms(1,2)] by blast

lemma first_pending_in:
  "first_pending_accrual db sid = Some a \<Longrightarrow> a \<in> set (db_accruals db) \<and> ac_savings a = sid \<and> ac_status a \<noteq> ''POSTED''"
proof -
  assume "first_pending_accrual db sid = Some a"
  then obtain ys where e: "sort_key (\<lambda>a. iso_day (ac_to a))
      [a \<leftarrow> db_accruals db. ac_savings a = sid \<and> ac_status a \<noteq> ''POSTED''] = a # ys"
    by (auto simp: first_pending_accrual_def split: list.splits)
  have "a \<in> set (sort_key (\<lambda>a. iso_day (ac_to a)) [a \<leftarrow> db_accruals db. ac_savings a = sid \<and> ac_status a \<noteq> ''POSTED''])"
    unfolding e by simp
  then show ?thesis by simp
qed

lemma complete_pending_only_on:
  "rows_wf db \<Longrightarrow> complete_pending n gl db item p = (db', q, r) \<Longrightarrow> only_on (sv_id item) db db'"
proof (induction n arbitrary: db p)
  case 0
  then show ?case using only_on_refl by auto
next
  case (Suc n)
  show ?case
  proof (cases "first_pending_accrual db (sv_id item)")
    case None
    then show ?thesis using Suc.prems only_on_refl by auto
  next
    case (Some a)
    note a = first_pending_in [OF Some]
    obtain db1 r1 where c: "complete_accrual gl db item a = (db1, r1)" by fastforce
    have o: "only_on (sv_id item) db db1" using complete_only_on [OF Suc.prems(1) _ c] a by auto
    show ?thesis
    proof (cases r1)
      case (Inl e)
      then show ?thesis using Suc.prems(2) Some c o by auto
    next
      case (Inr u)
      then have "complete_pending n gl db1 item (p + 1) = (db', q, r)" using Suc.prems(2) Some c by auto
      from Suc.IH [OF only_on_wf [OF o] this] o show ?thesis by (rule only_on_trans [rotated])
    qed
  qed
qed

lemma complete_pending_done: "complete_pending n gl db item p = (db', q, Inr u) \<Longrightarrow> first_pending_accrual db' (sv_id item) = None"
proof (induction n arbitrary: db p)
  case (Suc n)
  then show ?case by (auto split: option.splits prod.splits sum.splits)
qed simp

section \<open>The loop over stranded rows ends\<close>

definition pending_count :: "deposit_db \<Rightarrow> nat" where
  "pending_count db = length [a \<leftarrow> db_accruals db. ac_status a \<noteq> ''POSTED'']"

lemma mark_pending_count:
  assumes "rows_wf db" "a \<in> set (db_accruals db)" "ac_status a \<noteq> ''POSTED''" "mark_accrual_posted db (ac_id a) j = (db', Inr u)"
  shows "pending_count db' < pending_count db"
proof -
  let ?flip = "\<lambda>x. if ac_id x = ac_id a then x\<lparr>ac_status := ''POSTED'', ac_journal := null_if_empty j\<rparr> else x"
  obtain x where x: "find (\<lambda>x. ac_id x = ac_id a) (db_accruals db) = Some x"
    using assms(2) by (cases "find (\<lambda>x. ac_id x = ac_id a) (db_accruals db)") (auto simp: find_None_iff)
  then have "x \<in> set (db_accruals db)" "ac_id x = ac_id a" by (auto dest: find_Some_in)
  then have "x = a" using rows_wf_ids [OF assms(1) _ assms(2)] by blast
  then have acc: "db_accruals db' = map ?flip (db_accruals db)"
    using assms(3,4) x
    by (auto simp: mark_accrual_posted_def set_accrual_def set_savings_def Let_def split: option.splits if_splits)
  have "length [x \<leftarrow> map ?flip xs. ac_status x \<noteq> ''POSTED''] \<le> length [x \<leftarrow> xs. ac_status x \<noteq> ''POSTED'']" for xs
    by (induction xs) auto
  then have "length [x \<leftarrow> map ?flip xs. ac_status x \<noteq> ''POSTED''] < length [x \<leftarrow> xs. ac_status x \<noteq> ''POSTED'']" if "a \<in> set xs" for xs
    using that assms(3) by (induction xs) (auto simp: less_Suc_eq_le)
  then show ?thesis using assms(2) unfolding pending_count_def acc by blast
qed

text \<open>C23. The loop that completes stranded rows ends: on well-formed rows, with any fuel above the number of rows that
  are not posted, it never runs out, whatever finance answers; and when it succeeds no row of the savings is
  left pending.\<close>

theorem pending_loop_ends:
  assumes "rows_wf db" "pending_count db < n"
  shows "\<exists>db' q r. complete_pending n gl db item p = (db', q, r) \<and> r \<noteq> Inl Out_Of_Fuel \<and>
    (r = Inr () \<longrightarrow> first_pending_accrual db' (sv_id item) = None)"
  using assms
proof (induction n arbitrary: db p)
  case (Suc n)
  show ?case
  proof (cases "first_pending_accrual db (sv_id item)")
    case (Some a)
    note a = first_pending_in [OF Some]
    obtain db1 r1 where c: "complete_accrual gl db item a = (db1, r1)" by fastforce
    show ?thesis
    proof (cases r1)
      case (Inr u)
      then obtain j where "mark_accrual_posted db (ac_id a) j = (db1, Inr u)"
        using complete_accrual_marks [OF c] by blast
      then have "pending_count db1 < n"
        using mark_pending_count [OF Suc.prems(1)] a Suc.prems(2) by fastforce
      with Suc.IH [of db1 "p + 1"] only_on_wf [OF complete_only_on [OF Suc.prems(1) _ c]] a Some c Inr
      show ?thesis by auto
    qed (use Some c in simp)
  qed simp
qed simp

theorem pending_loop_ends_witness:
  "\<exists>db' q. complete_pending 2 demo_gl (demo_db\<lparr>db_accruals := [accrual_demo_row]\<rparr>) demo_savings 0 = (db', q, Inr ()) \<and>
     first_pending_accrual db' ''s1'' = None"
proof -
  let ?db = "demo_db\<lparr>db_accruals := [accrual_demo_row]\<rparr>"
  have "rows_wf ?db" "pending_count ?db < 2" by code_simp+
  moreover have "snd (snd (complete_pending 2 demo_gl ?db demo_savings 0)) = Inr ()" by code_simp
  moreover have "sv_id demo_savings = ''s1''" by (simp add: demo_savings_def)
  ultimately show ?thesis using pending_loop_ends [of ?db 2 demo_gl demo_savings 0] by auto
qed

section \<open>A rerun adds nothing\<close>

text \<open>A savings for which the run of day \<open>d\<close> has nothing left to do.\<close>

definition settled ::
  "(rat \<Rightarrow> rat \<Rightarrow> nat \<Rightarrow> rat) \<Rightarrow> (rat \<Rightarrow> nat \<Rightarrow> rat) \<Rightarrow> string \<Rightarrow> civil \<Rightarrow> savings \<Rightarrow> deposit_db \<Rightarrow> bool" where
  "settled dr rt d b item db \<longleftrightarrow> first_pending_accrual db (sv_id item) = None \<and>
     (plan_accrual dr rt db item d b = Inr Idle \<or> plan_accrual dr rt db item d b = Inr Skip \<or>
      (\<exists>a. plan_accrual dr rt db item d b = Inr (Stage a) \<and> ac_savings a = sv_id item \<and>
         (\<exists>x\<in>set (rows_of (sv_id item) db). ac_to x = ac_to a)))"

lemma settled_local:
  assumes "settled dr rt d b item db" "only_on sid db db'" "sid \<noteq> sv_id item" "savings_key item' = savings_key item"
  shows "settled dr rt d b item' db'"
proof -
  have r: "rows_of (sv_id item) db' = rows_of (sv_id item) db" "db_ops db' = db_ops db" "db_txns db' = db_txns db"
    "db_rates db' = db_rates db" "db_products db' = db_products db"
    using assms(2,3) by (simp_all add: only_on_def)
  have "sv_id item' = sv_id item" using savings_key_fields [OF assms(4)] by blast
  then show ?thesis
    using assms(1) plan_local(1) [OF r assms(4), of dr rt d b] plan_local(2) [OF r assms(4)] r(1)
    unfolding settled_def by simp
qed

lemma settled_key: "settled dr rt d b item db \<Longrightarrow> savings_key item' = savings_key item \<Longrightarrow> settled dr rt d b item' db"
  using plan_local(1) [of item db db item' dr rt d b] savings_key_fields [of item' item] by (simp add: settled_def)

lemma settled_create:
  assumes "plan_accrual dr rt db item d b = Inr (Stage a)" "ac_savings a = sv_id item"
    "x \<in> set (rows_of (sv_id item) db)" "ac_to x = ac_to a"
  shows "create_accrual db a = (db, None)"
  using assms by (auto simp: create_accrual_def rows_of_def)

lemma settled_run:
  "\<forall>item\<in>set items. settled dr rt d b item db \<Longrightarrow>
   \<exists>sk. run_items gl dr rt d b items db posted skipped = (db, posted, sk)"
proof (induction items arbitrary: skipped)
  case (Cons item items)
  then have s: "settled dr rt d b item db" and rest: "\<exists>sk. run_items gl dr rt d b items db posted sks = (db, posted, sk)" for sks
    by auto
  from s have p: "complete_pending (Suc (length (db_accruals db))) gl db item posted = (db, posted, Inr ())"
    by (simp add: settled_def)
  from s consider "plan_accrual dr rt db item d b = Inr Idle" | "plan_accrual dr rt db item d b = Inr Skip"
    | a where "plan_accrual dr rt db item d b = Inr (Stage a)" "create_accrual db a = (db, None)"
    using settled_create unfolding settled_def by blast
  then show ?case by cases (use p rest in auto)
qed simp

lemma plan_stage:
  assumes "plan_accrual dr rt db item d b = Inr (Stage a)"
  shows "ac_savings a = sv_id item" "ac_to a = d"
  using assms by (auto simp: plan_accrual_def Let_def split: option.splits sum.splits if_splits)

lemma window_closed:
  assumes "parse_iso d = Some b" "usable_date l" "\<not> date_lt l d" "ps = [] \<or> usable_date ps"
  shows "accrual_window open_date l d ps = None"
proof -
  obtain c where c: "parse_iso l = Some c" "c_year c < 9999" using assms(2) by (auto simp: usable_date_def)
  have n: "parse_iso (format_iso (next_day c)) = Some (next_day c)" by (rule next_day_iso [OF c])
  have late: "civil_day b < civil_day (next_day c)"
    using assms(1,3) c civil_day_next [OF parse_iso_SomeD(6) [OF c(1)]] by (simp add: date_lt_def)
  have ne: "l \<noteq> []" using c(1) by (auto simp: parse_iso_def)
  show ?thesis
  proof (cases "ps \<noteq> [] \<and> str_lt (format_iso (next_day c)) ps")
    case True
    then obtain p where p: "parse_iso ps = Some p" using assms(4) by (auto simp: usable_date_def)
    then have "civil_day b < civil_day p" using True iso_order [OF n p] late by simp
    then show ?thesis unfolding accrual_window_def Let_def using assms(1) c(1) ne p True by auto
  next
    case False
    then show ?thesis unfolding accrual_window_def Let_def using assms(1) c(1) ne n late by auto
  qed
qed

lemma first_pending_None:
  "first_pending_accrual db sid = None \<longleftrightarrow> (\<forall>a\<in>set (db_accruals db). ac_savings a = sid \<longrightarrow> ac_status a = ''POSTED'')"
proof -
  have "first_pending_accrual db sid = None \<longleftrightarrow>
      set (sort_key (\<lambda>a. iso_day (ac_to a)) [a \<leftarrow> db_accruals db. ac_savings a = sid \<and> ac_status a \<noteq> ''POSTED'']) = {}"
    unfolding first_pending_accrual_def by (auto split: list.splits simp del: set_sort)
  then show ?thesis by auto
qed

definition ops_wf :: "deposit_db \<Rightarrow> bool" where
  "ops_wf db \<longleftrightarrow> (\<forall>p\<in>set (db_ops db). \<forall>e. io_effective p = Some e \<longrightarrow> usable_date e)"

lemma period_start_usable: "ops_wf db \<Longrightarrow> interest_period_start db sid = [] \<or> usable_date (interest_period_start db sid)"
  unfolding interest_period_start_def
  by (rule max_date_P) (auto simp: List.map_filter_def ops_wf_def)

lemma set_comprehension: "set [f a. a \<leftarrow> xs, P a] = f ` {a \<in> set xs. P a}"
  by (induction xs) auto

lemma stage_settles:
  assumes "rows_wf db" "ops_wf db" "parse_iso d = Some b" "usable_date d"
    and "first_pending_accrual db (sv_id item) = None" "plan_accrual dr rt db item d b = Inr (Stage a)"
    and "create_accrual db a = (db1, Some row)" "complete_accrual gl db1 item row = (db2, Inr u)"
  shows "settled dr rt d b item db2"
proof -
  note pl = plan_stage [OF assms(6)]
  have row: "row = a\<lparr>ac_id := length (db_accruals db), ac_status := ''PENDING'', ac_journal := None\<rparr>"
    "db1 = db\<lparr>db_accruals := db_accruals db @ [row]\<rparr>"
    using assms(7) by (auto simp: create_accrual_def Let_def split: if_splits)
  have wf1: "rows_wf db1" using create_only_on [OF assms(1) _ assms(7)] pl(2) assms(4) by (simp add: only_on_def)
  have mem: "row \<in> set (db_accruals db1)" unfolding row(2) by simp
  obtain j where m: "mark_accrual_posted db1 (ac_id row) j = (db2, Inr u)"
    using complete_accrual_marks [OF assms(8)] by blast
  obtain x where x: "find (\<lambda>x. ac_id x = ac_id row) (db_accruals db1) = Some x"
    using mem by (cases "find (\<lambda>x. ac_id x = ac_id row) (db_accruals db1)") (auto simp: find_None_iff)
  then have "x \<in> set (db_accruals db1)" "ac_id x = ac_id row" by (auto dest: find_Some_in)
  then have "x = row" using rows_wf_ids [OF wf1 _ mem] by blast
  let ?flip = "\<lambda>x. if ac_id x = ac_id row then x\<lparr>ac_status := ''POSTED'', ac_journal := null_if_empty j\<rparr> else x"
  have acc: "db_accruals db2 = map ?flip (db_accruals db1)" "db_ops db2 = db_ops db"
    using m x \<open>x = row\<close> row
    by (auto simp: mark_accrual_posted_def set_accrual_def set_savings_def Let_def split: option.splits if_splits)
  have wf2: "rows_wf db2" using mark_only_on [OF wf1 mem m] by (simp add: only_on_def)
  have posted: "\<forall>y\<in>set (db_accruals db). ac_savings y = sv_id item \<longrightarrow> ac_status y = ''POSTED''"
    using assms(5) by (simp add: first_pending_None)
  have none: "first_pending_accrual db2 (sv_id item) = None"
    unfolding first_pending_None
  proof (intro ballI impI)
    fix y assume "y \<in> set (db_accruals db2)" "ac_savings y = sv_id item"
    then obtain z where z: "z \<in> set (db_accruals db1)" "y = ?flip z" "ac_savings z = sv_id item"
      unfolding acc by (auto split: if_splits)
    show "ac_status y = ''POSTED''"
    proof (cases "ac_id z = ac_id row")
      case False
      then have "z \<in> set (db_accruals db)" using z(1) unfolding row(2) by auto
      then show ?thesis using posted z False by simp
    qed (simp add: z(2))
  qed
  let ?flipped = "row\<lparr>ac_status := ''POSTED'', ac_journal := null_if_empty j\<rparr>"
  let ?ds = "[ac_to a. a \<leftarrow> db_accruals db2, ac_savings a = sv_id item \<and> (ac_status a = ''POSTED'' \<or> ac_journal a \<noteq> None)]"
  have fm: "?flipped \<in> set (db_accruals db2)" unfolding acc(1) using mem by force
  have ff: "ac_savings ?flipped = sv_id item" "ac_to ?flipped = d" "ac_status ?flipped = ''POSTED''"
    using pl by (simp_all add: row(1))
  have "d \<in> ac_to ` {a \<in> set (db_accruals db2). ac_savings a = sv_id item \<and> (ac_status a = ''POSTED'' \<or> ac_journal a \<noteq> None)}"
    by (rule image_eqI [of _ _ ?flipped]) (use fm ff in auto)
  then have "d \<in> set ?ds" by (simp only: set_comprehension)
  then have ge: "\<not> date_lt (last_accrual_period db2 (sv_id item)) d" "?ds \<noteq> []"
    unfolding last_accrual_period_def using max_date_ge by (blast, auto)
  have "max_date ?ds \<in> set ?ds" by (rule max_date_in [OF ge(2)])
  then have us: "usable_date (last_accrual_period db2 (sv_id item))"
    using wf2 unfolding last_accrual_period_def rows_wf_def by auto
  have "ops_wf db2" using assms(2) acc(2) by (simp add: ops_wf_def)
  from window_closed [OF assms(3) us ge(1) period_start_usable [OF this]]
  have "plan_accrual dr rt db2 item d b = Inr Idle" by (simp add: plan_accrual_def)
  with none show ?thesis by (simp add: settled_def)
qed

text \<open>One savings processed without an error is settled afterwards, and only its rows changed.\<close>

lemma run_items_settles:
  assumes "rows_wf db" "ops_wf db" "parse_iso d = Some b" "usable_date d" "distinct (map sv_id items)"
    and "run_items gl dr rt d b items db posted skipped = (db', q, e)" "e = None \<or> e = Some (Round_Config_Missing l)"
  shows "(\<forall>item\<in>set items. settled dr rt d b item db') \<and> rows_wf db' \<and>
    map savings_key (db_savings db') = map savings_key (db_savings db) \<and>
    (\<forall>item. sv_id item \<notin> sv_id ` set items \<longrightarrow> settled dr rt d b item db \<longrightarrow> settled dr rt d b item db')"
  using assms(1,2,5,6)
proof (induction items arbitrary: db posted skipped)
  case Nil
  then show ?case by simp
next
  case (Cons item items)
  obtain db1 p1 r1 where cp: "complete_pending (Suc (length (db_accruals db))) gl db item posted = (db1, p1, r1)"
    by (metis prod_cases3)
  have "r1 = Inr ()"
    using Cons.prems(4) cp assms(7) by (cases r1) (auto split: loop_error.splits)
  note cp = cp [unfolded this]
  have o1: "only_on (sv_id item) db db1" by (rule complete_pending_only_on [OF Cons.prems(1) cp])
  have none: "first_pending_accrual db1 (sv_id item) = None" by (rule complete_pending_done [OF cp])
  note wf1 = only_on_wf [OF o1]
  have ow1: "ops_wf db1" using Cons.prems(2) o1 by (simp add: ops_wf_def only_on_def)
  have step: "\<exists>db2 p2 sk2. run_items gl dr rt d b items db2 p2 sk2 = (db', q, e) \<and> only_on (sv_id item) db1 db2 \<and>
      settled dr rt d b item db2"
  proof (cases "plan_accrual dr rt db1 item d b")
    case (Inl err)
    then show ?thesis using Cons.prems(4) cp assms(7) by auto
  next
    case (Inr pl)
    show ?thesis
    proof (cases pl)
      case Idle
      with Inr none have "settled dr rt d b item db1" by (simp add: settled_def)
      with Inr Idle Cons.prems(4) cp only_on_refl [OF wf1] show ?thesis by auto
    next
      case Skip
      with Inr none have "settled dr rt d b item db1" by (simp add: settled_def)
      with Inr Skip Cons.prems(4) cp only_on_refl [OF wf1] show ?thesis by auto
    next
      case (Stage a)
      note pl = plan_stage [OF Inr [unfolded Stage]]
      obtain db2 r2 where cr: "create_accrual db1 a = (db2, r2)" by fastforce
      show ?thesis
      proof (cases r2)
        case None
        then have "db2 = db1" "\<exists>x\<in>set (db_accruals db1). ac_savings x = ac_savings a \<and> ac_to x = ac_to a"
          using cr by (auto simp: create_accrual_def Let_def split: if_splits)
        then have "settled dr rt d b item db2" using Inr Stage none pl(1) by (auto simp: settled_def rows_of_def)
        then show ?thesis
          using Inr Stage Cons.prems(4) cp cr None \<open>db2 = db1\<close> only_on_refl [OF wf1] by auto
      next
        case (Some row)
        have o2: "only_on (sv_id item) db1 db2" using create_only_on [OF wf1 _ cr] pl assms(4) by simp
        obtain db3 r3 where cm: "complete_accrual gl db2 item row = (db3, r3)" by fastforce
        have "row \<in> set (db_accruals db2)" "ac_savings row = sv_id item"
          using cr Some pl(1) by (auto simp: create_accrual_def Let_def split: if_splits)
        then have o3: "only_on (sv_id item) db2 db3" using complete_only_on [OF only_on_wf [OF o2] _ cm] by auto
        have "r3 = Inr ()"
          using Cons.prems(4) cp Inr Stage cr Some cm assms(7) by (cases r3) auto
        then show ?thesis
          using stage_settles [OF wf1 ow1 assms(3,4) none Inr [unfolded Stage] cr [unfolded Some] cm [unfolded \<open>r3 = Inr ()\<close>]]
            Cons.prems(4) cp Inr Stage cr Some cm only_on_trans [OF o2 o3] by auto
      qed
    qed
  qed
  then obtain db2 p2 sk2 where rest: "run_items gl dr rt d b items db2 p2 sk2 = (db', q, e)"
    and o2: "only_on (sv_id item) db1 db2" and st: "settled dr rt d b item db2" by blast
  have o: "only_on (sv_id item) db db2" by (rule only_on_trans [OF o1 o2])
  have ow2: "ops_wf db2" using Cons.prems(2) o by (simp add: ops_wf_def only_on_def)
  have IH: "(\<forall>item\<in>set items. settled dr rt d b item db') \<and> rows_wf db' \<and>
      map savings_key (db_savings db') = map savings_key (db_savings db2) \<and>
      (\<forall>item. sv_id item \<notin> sv_id ` set items \<longrightarrow> settled dr rt d b item db2 \<longrightarrow> settled dr rt d b item db')"
    by (rule Cons.IH [OF only_on_wf [OF o] ow2 _ rest]) (use Cons.prems(3) in simp)
  have "settled dr rt d b item db'" using IH st Cons.prems(3) by auto
  moreover have "settled dr rt d b other db'"
    if "sv_id other \<notin> sv_id ` set (item # items)" "settled dr rt d b other db" for other
    using IH settled_local [OF that(2) o _ refl] that(1) by auto
  ultimately show ?case using IH o by (auto simp: only_on_def)
qed

lemma keys_active:
  "map savings_key xs = map savings_key ys \<Longrightarrow> s \<in> set xs \<Longrightarrow> \<exists>t\<in>set ys. savings_key s = savings_key t"
proof -
  assume "map savings_key xs = map savings_key ys" "s \<in> set xs"
  then have "savings_key s \<in> savings_key ` set ys" by (metis imageI list.set_map)
  then show ?thesis by auto
qed

text \<open>C21. A rerun of the same day adds nothing: after a run that ended without an error, or only with the report
  of the savings it skipped, running the day again posts nothing and changes no row, whatever finance would
  answer this time.\<close>

theorem rerun_adds_nothing:
  assumes "run_daily gl dr rt db d = (db', q, e)" "e = None \<or> e = Some (Round_Config_Missing l)"
    and "rows_wf db" "ops_wf db" "usable_date d"
  shows "\<exists>e'. run_daily gl' dr rt db' d = (db', 0, e')"
proof -
  obtain b where b: "parse_iso d = Some b" using assms(5) by (auto simp: usable_date_def)
  have run: "run_items gl dr rt d b (active_savings db) db 0 [] = (db', q, e)"
    using assms(1) b by (simp add: run_daily_def)
  have "distinct (map sv_id (db_savings db))" using assms(3) by (simp add: rows_wf_def)
  then have "distinct (map sv_id (active_savings db))"
    by (auto simp: active_savings_def distinct_map inj_on_def)
  note S = run_items_settles [OF assms(3,4) b assms(5) this run assms(2)]
  have "settled dr rt d b item db'" if "item \<in> set (active_savings db')" for item
  proof -
    have it: "item \<in> set (db_savings db')" "sv_status item = ''ACTIVE''" using that by (auto simp: active_savings_def)
    obtain t where t: "t \<in> set (db_savings db)" "savings_key item = savings_key t"
      using keys_active [OF _ it(1)] S by blast
    then have "t \<in> set (active_savings db)"
      using savings_key_fields [OF t(2)] it(2) by (auto simp: active_savings_def)
    then have "settled dr rt d b t db'" using S by blast
    then show ?thesis by (rule settled_key [OF _ t(2)])
  qed
  then show ?thesis using settled_run [of "active_savings db'" dr rt d b db' gl' 0 "[]"] b by (auto simp: run_daily_def)
qed

theorem rerun_adds_nothing_witness:
  "\<exists>db' e. fst (snd (run_daily demo_gl div_half_away round_half_away demo_db ''2026-03-05'')) = 1 \<and>
     fst (run_daily demo_gl div_half_away round_half_away demo_db ''2026-03-05'') = db' \<and>
     run_daily demo_gl div_half_away round_half_away db' ''2026-03-05'' = (db', 0, e)"
proof -
  have "snd (run_daily demo_gl div_half_away round_half_away demo_db ''2026-03-05'') = (1, None)" by code_simp
  then have run: "run_daily demo_gl div_half_away round_half_away demo_db ''2026-03-05'' =
      (fst (run_daily demo_gl div_half_away round_half_away demo_db ''2026-03-05''), 1, None)"
    by (metis prod.collapse)
  have "rows_wf demo_db" "usable_date ''2026-03-05''" by code_simp+
  moreover have "ops_wf demo_db" by (simp add: ops_wf_def demo_db_def)
  ultimately show ?thesis using rerun_adds_nothing [OF run, of "[]" demo_gl] run by (metis fst_conv snd_conv)
qed

end
