(* ===== verification/Deposit_Ops.thy ===== *)
theory Deposit_Ops
  imports Deposit_Rerun
begin

text \<open>
  Paying out and capitalizing accrued interest (DPM.302/303/304): the staged operations, their
  posting state machine and the decision of the workflow (\<open>SubmitInterest\<close>, \<open>CheckInterestOp\<close> and
  \<open>ResolveInterestOp\<close> of apps/deposit-service/internal/service/interest_service.go) with the
  transactions of the repository. The workflow service and finance are parameters.
\<close>

section \<open>Transactions\<close>

definition op_by_id :: "deposit_db \<Rightarrow> nat \<Rightarrow> interest_op option" where
  "op_by_id db i = find (\<lambda>p. io_id p = i) (db_ops db)"

definition set_op :: "nat \<Rightarrow> (interest_op \<Rightarrow> interest_op) \<Rightarrow> deposit_db \<Rightarrow> deposit_db" where
  "set_op i f db = db\<lparr>db_ops := map (\<lambda>p. if io_id p = i then f p else p) (db_ops db)\<rparr>"

text \<open>The table checks that the amount is positive.\<close>

definition create_interest_op ::
  "deposit_db \<Rightarrow> savings \<Rightarrow> string \<Rightarrow> int \<Rightarrow> string \<Rightarrow> string \<Rightarrow> deposit_db \<times> (string + interest_op)" where
  "create_interest_op db item ty amount actor today =
     (if amount \<le> 0 then (db, Inl err_check)
      else let row = \<lparr>io_id = length (db_ops db), io_savings = sv_id item, io_code = sv_code item, io_type = ty,
                 io_amount = amount, io_status = ''DRAFT'', io_effective = None, io_case = None, io_journal = None,
                 io_actor = actor, io_created = today\<rparr>
           in (db\<lparr>db_ops := db_ops db @ [row]\<rparr>, Inr row))"

definition set_interest_op_case :: "deposit_db \<Rightarrow> nat \<Rightarrow> string \<Rightarrow> deposit_db" where
  "set_interest_op_case db i case_id =
     set_op i (\<lambda>p. p\<lparr>io_case := null_if_empty case_id, io_status := ''SUBMITTED''\<rparr>) db"

definition set_interest_op_status :: "deposit_db \<Rightarrow> nat \<Rightarrow> string \<Rightarrow> deposit_db" where
  "set_interest_op_status db i status = set_op i (\<lambda>p. p\<lparr>io_status := status\<rparr>) db"

definition begin_interest_op_posting ::
  "deposit_db \<Rightarrow> nat \<Rightarrow> string \<Rightarrow> int \<Rightarrow> bool \<Rightarrow> string \<Rightarrow> string \<Rightarrow> deposit_db \<times> (string + unit)" where
  "begin_interest_op_posting db i sid amount capitalize data_version effective_date =
     (case find (\<lambda>p. io_id p = i \<and> io_status p = ''SUBMITTED'') (db_ops db) of
        None \<Rightarrow> (db, Inl err_op_state)
      | Some _ \<Rightarrow>
        let db1 = set_op i (\<lambda>p. p\<lparr>io_status := ''POSTING'', io_effective := Some effective_date\<rparr>) db in
        (case find (\<lambda>s. sv_id s = sid \<and> sv_status s = ''ACTIVE'' \<and> amount \<le> sv_accrued s \<and>
                (data_version = [] \<or> dec_str (nat (sv_version s)) = data_version)) (db_savings db1) of
           None \<Rightarrow> (db, Inl err_accrued)
         | Some s \<Rightarrow>
           if capitalize \<and> \<not> in64 (sv_principal s + amount) then (db, Inl err_bigint)
           else (set_savings sid (\<lambda>s. s\<lparr>sv_accrued := sv_accrued s - amount,
                   sv_principal := (if capitalize then sv_principal s + amount else sv_principal s),
                   sv_version := sv_version s + 1\<rparr>) db1, Inr ())))"

text \<open>The table checks that a principal stays positive, which a restored capitalization must satisfy.\<close>

definition compensate_interest_op ::
  "deposit_db \<Rightarrow> nat \<Rightarrow> string \<Rightarrow> int \<Rightarrow> bool \<Rightarrow> deposit_db \<times> (string + unit)" where
  "compensate_interest_op db i sid amount capitalize =
     (case find (\<lambda>p. io_id p = i \<and> io_status p = ''POSTING'') (db_ops db) of
        None \<Rightarrow> (db, Inl err_op_state)
      | Some _ \<Rightarrow>
        let db1 = set_op i (\<lambda>p. p\<lparr>io_status := ''SUBMITTED''\<rparr>) db in
        if \<exists>s\<in>set (db_savings db1). sv_id s = sid \<and> \<not> in64 (sv_accrued s + amount) then (db, Inl err_bigint)
        else if \<exists>s\<in>set (db_savings db1). sv_id s = sid \<and> capitalize \<and> sv_principal s - amount \<le> 0 then (db, Inl err_check)
        else (set_savings sid (\<lambda>s. s\<lparr>sv_accrued := sv_accrued s + amount,
                sv_principal := (if capitalize then max (sv_principal s - amount) 0 else sv_principal s),
                sv_version := sv_version s + 1\<rparr>) db1, Inr ()))"

definition mark_interest_op_posted :: "deposit_db \<Rightarrow> nat \<Rightarrow> string \<Rightarrow> deposit_db \<times> (string + unit)" where
  "mark_interest_op_posted db i journal =
     (case find (\<lambda>p. io_id p = i \<and> io_status p = ''POSTING'') (db_ops db) of
        Some _ \<Rightarrow> (set_op i (\<lambda>p. p\<lparr>io_status := ''POSTED'', io_journal := null_if_empty journal\<rparr>) db, Inr ())
      | None \<Rightarrow>
        (case op_by_id db i of
           None \<Rightarrow> (db, Inl err_no_rows)
         | Some p \<Rightarrow> if io_status p \<noteq> ''POSTED'' then (db, Inl err_op_state) else (db, Inr ())))"

section \<open>Submitting\<close>

text \<open>
  The workflow service: creating a case of a type for an object, and submitting it; either call can
  fail.
\<close>

record workflow_service =
  ws_create :: "string \<Rightarrow> string \<Rightarrow> string + string"
  ws_submit :: "string \<Rightarrow> string + unit"

definition case_pay_interest :: string where "case_pay_interest = ''DPM_PAY_INTEREST_V1''"
definition case_capitalize :: string where "case_capitalize = ''DPM_CAPITALIZE_V1''"
definition case_batch_interest :: string where "case_batch_interest = ''DPM_BATCH_INTEREST_V1''"

definition open_case :: "workflow_service \<Rightarrow> string \<Rightarrow> string \<Rightarrow> string + string" where
  "open_case wfs case_type object_id =
     (case ws_create wfs case_type object_id of
        Inl _ \<Rightarrow> Inl code_bad_gateway
      | Inr case_id \<Rightarrow> (case ws_submit wfs case_id of Inl _ \<Rightarrow> Inl code_bad_gateway | Inr _ \<Rightarrow> Inr case_id))"

definition start_interest_case :: "workflow_service \<Rightarrow> deposit_db \<Rightarrow> string \<Rightarrow> nat \<Rightarrow> deposit_db \<times> (string + string)" where
  "start_interest_case wfs db case_type i =
     (case open_case wfs case_type (dec_str i) of
        Inl err \<Rightarrow> (db, Inl err)
      | Inr case_id \<Rightarrow> (set_interest_op_case db i case_id, Inr case_id))"

definition start_interest_batch_case :: "workflow_service \<Rightarrow> deposit_db \<Rightarrow> nat list \<Rightarrow> deposit_db \<times> (string + string)" where
  "start_interest_batch_case wfs db ids =
     (case open_case wfs case_batch_interest (dec_str (hd ids)) of
        Inl err \<Rightarrow> (db, Inl err)
      | Inr case_id \<Rightarrow> (foldl (\<lambda>db i. set_interest_op_case db i case_id) db ids, Inr case_id))"

fun stage_batch :: "deposit_db \<Rightarrow> string \<Rightarrow> string \<Rightarrow> savings list \<Rightarrow> nat list \<Rightarrow> deposit_db \<times> (string + nat list)" where
  "stage_batch db actor today [] ids = (db, Inr ids)"
| "stage_batch db actor today (item # items) ids =
     (if sv_accrued item \<le> 0 then stage_batch db actor today items ids
      else case create_interest_op db item ''PAY'' (sv_accrued item) actor today of
        (db1, Inl _) \<Rightarrow> (db1, Inl code_internal)
      | (db1, Inr row) \<Rightarrow> stage_batch db1 actor today items (ids @ [io_id row]))"

definition submit_interest ::
  "workflow_service option \<Rightarrow> deposit_db \<Rightarrow> string \<Rightarrow> string \<Rightarrow> string \<Rightarrow> string \<Rightarrow> int \<Rightarrow>
   deposit_db \<times> (string + nat list)" where
  "submit_interest workflow db today actor savings_code op_type0 amount =
     (let op_type = to_upper (trim_space op_type0) in
      case workflow of
        None \<Rightarrow> (db, Inl code_internal)
      | Some wfs \<Rightarrow>
        if op_type = ''PAY'' \<or> op_type = ''CAPITALIZE'' then
          (case savings_by_code db savings_code of
             None \<Rightarrow> (db, Inl code_not_found)
           | Some item \<Rightarrow>
             if sv_status item \<noteq> ''ACTIVE'' then (db, Inl code_invalid_input)
             else if amount \<le> 0 \<or> sv_accrued item < amount then (db, Inl code_invalid_input)
             else case create_interest_op db item op_type amount actor today of
               (db1, Inl _) \<Rightarrow> (db1, Inl code_internal)
             | (db1, Inr row) \<Rightarrow>
               (case start_interest_case wfs db1 (if op_type = ''CAPITALIZE'' then case_capitalize else case_pay_interest)
                   (io_id row) of
                  (db2, Inl err) \<Rightarrow> (db2, Inl err)
                | (db2, Inr _) \<Rightarrow> (db2, Inr [io_id row])))
        else if op_type = ''BATCH'' then
          (case stage_batch db actor today (active_savings db) [] of
             (db1, Inl err) \<Rightarrow> (db1, Inl err)
           | (db1, Inr ids) \<Rightarrow>
             if ids = [] then (db1, Inl code_invalid_input)
             else case start_interest_batch_case wfs db1 ids of
               (db2, Inl err) \<Rightarrow> (db2, Inl err)
             | (db2, Inr _) \<Rightarrow> (db2, Inr ids))
        else (db, Inl code_invalid_input))"

section \<open>Deciding\<close>

definition check_interest_op :: "deposit_db \<Rightarrow> nat \<Rightarrow> bool" where
  "check_interest_op db i =
     (case op_by_id db i of
        None \<Rightarrow> False
      | Some p \<Rightarrow> io_status p = ''SUBMITTED'' \<or> io_status p = ''POSTING'')"

datatype op_mode = Fresh | Resume | Settled | Invalid

definition resolve_op_mode :: "string \<Rightarrow> op_mode" where
  "resolve_op_mode status =
     (if status = ''SUBMITTED'' then Fresh else if status = ''POSTING'' then Resume
      else if status = ''POSTED'' then Settled else Invalid)"

definition interest_op_card :: "string \<Rightarrow> string \<times> string \<times> string" where
  "interest_op_card op_type =
     (if op_type = ''CAPITALIZE'' then (''DPM_CAPITALIZE'', ''DPM_INTEREST_PAYABLE'', ''DPM_DEPOSIT_LIABILITY'')
      else (''DPM_INTEREST_PAY'', ''DPM_INTEREST_PAYABLE'', ''CASH_SETTLEMENT_ACCOUNT''))"

definition op_request :: "interest_op \<Rightarrow> savings \<Rightarrow> gl_request" where
  "op_request p item =
     (case interest_op_card (io_type p) of (voucher, debit, credit) \<Rightarrow>
        \<lparr>gq_key = ''dpm-interest-'' @ dec_str (io_id p), gq_date = io_created p, gq_card = voucher, gq_savings = item,
         gq_amount = io_amount p, gq_debit = debit, gq_credit = credit\<rparr>)"

text \<open>The GL step of an approved op: post and mark, or compensate.\<close>

definition post_interest_op :: "gl_service \<Rightarrow> deposit_db \<Rightarrow> interest_op \<Rightarrow> savings \<Rightarrow> deposit_db \<times> (string + unit)" where
  "post_interest_op gl db p item =
     (case gl (op_request p item) of
        Inl err \<Rightarrow>
          (case compensate_interest_op db (io_id p) (sv_id item) (io_amount p) (io_type p = ''CAPITALIZE'') of
             (db1, Inl _) \<Rightarrow>
               (case op_by_id db1 (io_id p) of
                  Some cur \<Rightarrow> if io_status cur = ''POSTED'' then (db1, Inr ()) else (db1, Inl code_internal)
                | None \<Rightarrow> (db1, Inl code_internal))
           | (db1, Inr _) \<Rightarrow> (db1, Inl err))
      | Inr entry \<Rightarrow>
          (case mark_interest_op_posted db (io_id p) entry of
             (db1, Inl _) \<Rightarrow> (db1, Inl code_internal)
           | (db1, Inr _) \<Rightarrow> (db1, Inr ())))"

definition approve_interest_op ::
  "gl_service \<Rightarrow> deposit_db \<Rightarrow> string \<Rightarrow> interest_op \<Rightarrow> string \<Rightarrow> deposit_db \<times> (string + unit)" where
  "approve_interest_op gl db today p data_version =
     (case resolve_op_mode (io_status p) of
        Settled \<Rightarrow> (db, Inr ())
      | Invalid \<Rightarrow> (db, Inl code_invalid_input)
      | mode \<Rightarrow>
        (case savings_by_code db (io_code p) of
           None \<Rightarrow> (db, Inl code_not_found)
         | Some item \<Rightarrow>
           if data_version \<noteq> [] \<and> dec_str (nat (sv_version item)) \<noteq> data_version then (db, Inl code_conflict)
           else if mode = Fresh then
             (case begin_interest_op_posting db (io_id p) (sv_id item) (io_amount p) (io_type p = ''CAPITALIZE'')
                 data_version today of
                (db1, Inl err) \<Rightarrow>
                  (db1, Inl (if err = err_accrued \<or> err = err_op_state then code_conflict else code_internal))
              | (db1, Inr _) \<Rightarrow> post_interest_op gl db1 p item)
           else post_interest_op gl db p item))"

definition resolve_interest_op ::
  "gl_service \<Rightarrow> deposit_db \<Rightarrow> string \<Rightarrow> nat \<Rightarrow> string \<Rightarrow> string \<Rightarrow> deposit_db \<times> (string + unit)" where
  "resolve_interest_op gl db today i decision data_version =
     (case op_by_id db i of
        None \<Rightarrow> (db, Inl code_not_found)
      | Some p \<Rightarrow>
        if decision = ''APPROVE'' then approve_interest_op gl db today p data_version
        else if decision = ''REJECT'' then
          (if io_status p = ''REJECTED'' then (db, Inr ())
           else if io_status p \<noteq> ''SUBMITTED'' then (db, Inl code_invalid_input)
           else (set_interest_op_status db i ''REJECTED'', Inr ()))
        else (db, Inl code_invalid_input))"

end
