(* ===== verification/Posting_Card.thy ===== *)
theory Posting_Card
  imports Prelude
begin

text \<open>
  Building the lines of a posting from the accounting card of its document type
  (src/libs/go/arda-grpc/client/finance/postingrules.go), as every service does that posts in
  finance. The card is read from finance, a parameter. An absent pointer is \<open>None\<close>; the message of an
  error is left out.
\<close>

section \<open>Cards, legs and lines\<close>

record card_analytics =
  ca_class :: string
  ca_debt_group :: string
  ca_org :: string
  ca_fund :: string
  ca_customer :: string
  ca_contract :: string
  ca_dimensions :: "(string \<times> string) list"

record posting_rule =
  rule_line :: int
  rule_direction :: string
  rule_resolution :: string
  rule_class :: string
  rule_account :: string

record posting_leg =
  leg_card_line :: int
  leg_direction :: string
  leg_amount :: int
  leg_analytics :: "card_analytics option"
  leg_description :: string

record card_line =
  cl_no :: int
  cl_direction :: string
  cl_amount :: int
  cl_currency :: string
  cl_description :: string
  cl_analytics :: "card_analytics option"
  cl_account :: string

text \<open>An untyped error can be retried; the typed ones are business errors.\<close>

datatype card_error = Card_Untyped | Card_Rule_Not_Found | Card_Account_Unresolved

section \<open>Operations\<close>

definition clone_dimensions :: "(string \<times> string) list \<Rightarrow> (string \<times> string) list" where
  "clone_dimensions dims = (if dims = [] then [] else dims)"

definition with_classification :: "card_analytics option \<Rightarrow> string \<Rightarrow> card_analytics" where
  "with_classification card_analytics classification =
     (case card_analytics of
        None \<Rightarrow> \<lparr>ca_class = classification, ca_debt_group = [], ca_org = [], ca_fund = [], ca_customer = [],
                 ca_contract = [], ca_dimensions = []\<rparr>
      | Some a \<Rightarrow> \<lparr>ca_class = classification, ca_debt_group = ca_debt_group a, ca_org = ca_org a,
                   ca_fund = ca_fund a, ca_customer = ca_customer a, ca_contract = ca_contract a,
                   ca_dimensions = clone_dimensions (ca_dimensions a)\<rparr>)"

text \<open>The map from the line number to the rule.\<close>

fun by_line :: "posting_rule option list \<Rightarrow> (int \<times> posting_rule) list \<Rightarrow> card_error + (int \<times> posting_rule) list" where
  "by_line [] m = Inr m"
| "by_line (None # rs) m = Inl Card_Untyped"
| "by_line (Some r # rs) m =
     (if rule_line r \<le> 0 then Inl Card_Untyped
      else if map_of m (rule_line r) \<noteq> None then Inl Card_Untyped
      else by_line rs ((rule_line r, r) # m))"

definition resolve_leg :: "posting_rule \<Rightarrow> posting_leg \<Rightarrow> int \<Rightarrow> string \<Rightarrow> card_error + card_line" where
  "resolve_leg rule leg n currency =
     (if rule_direction rule \<noteq> leg_direction leg then Inl Card_Account_Unresolved
      else
        let line = \<lparr>cl_no = n, cl_direction = leg_direction leg, cl_amount = leg_amount leg,
              cl_currency = currency, cl_description = leg_description leg, cl_analytics = None, cl_account = []\<rparr>
        in if rule_resolution rule = ''CLASS_MAP'' then
             (if rule_class rule = [] then Inl Card_Account_Unresolved
              else Inr (line\<lparr>cl_analytics := Some (with_classification (leg_analytics leg) (rule_class rule))\<rparr>))
           else if rule_resolution rule = ''FIXED_CODE'' then
             (if rule_account rule = [] then Inl Card_Account_Unresolved
              else Inr (line\<lparr>cl_account := rule_account rule\<rparr>))
           else Inl Card_Account_Unresolved)"

fun resolve_legs ::
  "(int \<times> posting_rule) list \<Rightarrow> posting_leg list \<Rightarrow> string \<Rightarrow> card_line list \<Rightarrow> card_error + card_line list" where
  "resolve_legs m [] currency lines = Inr lines"
| "resolve_legs m (leg # legs) currency lines =
     (if leg_amount leg = 0 then resolve_legs m legs currency lines
      else case map_of m (leg_card_line leg) of
        None \<Rightarrow> Inl Card_Rule_Not_Found
      | Some rule \<Rightarrow>
        (case resolve_leg rule leg (int (length lines) + 1) currency of
           Inl e \<Rightarrow> Inl e
         | Inr line \<Rightarrow> resolve_legs m legs currency (lines @ [line])))"

definition posting_lines_from_rules ::
  "posting_rule option list \<Rightarrow> posting_leg list \<Rightarrow> string \<Rightarrow> card_error + card_line list" where
  "posting_lines_from_rules rules legs currency =
     (case by_line rules [] of Inl e \<Rightarrow> Inl e | Inr m \<Rightarrow> resolve_legs m legs currency [])"

text \<open>
  The client of finance that lists the rules of a card: \<open>None\<close> when it is not configured; a call can
  fail.
\<close>

type_synonym rule_lister = "string \<Rightarrow> string + posting_rule option list"

definition fetch_posting_rules :: "rule_lister option \<Rightarrow> string \<Rightarrow> card_error + posting_rule option list" where
  "fetch_posting_rules client document_type =
     (case client of
        None \<Rightarrow> Inl Card_Rule_Not_Found
      | Some list_rules \<Rightarrow>
        (case list_rules document_type of
           Inl _ \<Rightarrow> Inl Card_Untyped
         | Inr rules \<Rightarrow> if rules = [] then Inl Card_Rule_Not_Found else Inr rules))"

definition build_posting_lines ::
  "rule_lister option \<Rightarrow> string \<Rightarrow> posting_leg list \<Rightarrow> string \<Rightarrow> card_error + card_line list" where
  "build_posting_lines client document_type legs currency =
     (if \<exists>leg\<in>set legs. leg_amount leg < 0 then Inl Card_Untyped
      else if \<not> (\<exists>leg\<in>set legs. 0 < leg_amount leg) then Inr []
      else case fetch_posting_rules client document_type of
        Inl e \<Rightarrow> Inl e
      | Inr rules \<Rightarrow> posting_lines_from_rules rules legs currency)"

section \<open>The map of a card\<close>

definition card_wf :: "posting_rule option list \<Rightarrow> bool" where
  "card_wf rules \<longleftrightarrow> None \<notin> set rules \<and> (\<forall>r\<in>set rules. 0 < rule_line (the r)) \<and> distinct (map (\<lambda>r. rule_line (the r)) rules)"

lemma by_line_ok:
  "by_line rules m = Inr m' \<longleftrightarrow>
     card_wf rules \<and> (\<forall>r\<in>set rules. map_of m (rule_line (the r)) = None) \<and>
     m' = rev (map (\<lambda>r. (rule_line (the r), the r)) rules) @ m"
proof (induction rules m rule: by_line.induct)
  case (3 r rs m)
  let ?k = "rule_line r"
  show ?case
  proof (cases "?k \<le> 0 \<or> map_of m ?k \<noteq> None")
    case True
    then show ?thesis by (auto simp: card_wf_def)
  next
    case False
    then have "by_line (Some r # rs) m = by_line rs ((?k, r) # m)" by simp
    moreover have "(\<forall>q\<in>set rs. map_of ((?k, r) # m) (rule_line (the q)) = None) \<longleftrightarrow>
        ?k \<notin> (\<lambda>q. rule_line (the q)) ` set rs \<and> (\<forall>q\<in>set rs. map_of m (rule_line (the q)) = None)"
      by (auto simp: image_iff)
    ultimately show ?thesis using 3 False by (auto simp: card_wf_def)
  qed
qed (auto simp: card_wf_def)

lemma by_line_error: "by_line rules m = Inl e \<Longrightarrow> e = Card_Untyped"
  by (induction rules m rule: by_line.induct) (auto split: if_splits)

lemma card_lookup:
  assumes "card_wf rules"
  shows "map_of (rev (map (\<lambda>r. (rule_line (the r), the r)) rules)) n = Some rule \<longleftrightarrow>
    Some rule \<in> set rules \<and> rule_line rule = n"
proof -
  let ?m = "rev (map (\<lambda>r. (rule_line (the r), the r)) rules)"
  have "map fst ?m = rev (map (\<lambda>r. rule_line (the r)) rules)" by (simp add: rev_map)
  then have "distinct (map fst ?m)" using assms by (simp add: card_wf_def)
  then have "map_of ?m n = Some rule \<longleftrightarrow> (n, rule) \<in> set ?m" by (rule map_of_eq_Some_iff)
  also have "\<dots> \<longleftrightarrow> (\<exists>r\<in>set rules. rule_line (the r) = n \<and> the r = rule)" by auto
  also have "\<dots> \<longleftrightarrow> Some rule \<in> set rules \<and> rule_line rule = n"
  proof -
    have "\<forall>r\<in>set rules. \<exists>x. r = Some x" using assms unfolding card_wf_def by (metis not_None_eq)
    then show ?thesis by force
  qed
  finally show ?thesis .
qed

section \<open>The lines of a posting\<close>

text \<open>When a rule resolves a leg, and the line it gives.\<close>

definition resolves :: "posting_rule \<Rightarrow> posting_leg \<Rightarrow> bool" where
  "resolves rule leg \<longleftrightarrow> rule_line rule = leg_card_line leg \<and> rule_direction rule = leg_direction leg \<and>
     (rule_resolution rule = ''CLASS_MAP'' \<and> rule_class rule \<noteq> [] \<or>
      rule_resolution rule = ''FIXED_CODE'' \<and> rule_account rule \<noteq> [])"

definition line_of :: "posting_rule \<Rightarrow> posting_leg \<Rightarrow> int \<Rightarrow> string \<Rightarrow> card_line" where
  "line_of rule leg n currency =
     \<lparr>cl_no = n, cl_direction = leg_direction leg, cl_amount = leg_amount leg, cl_currency = currency,
      cl_description = leg_description leg,
      cl_analytics = (if rule_resolution rule = ''CLASS_MAP''
        then Some (with_classification (leg_analytics leg) (rule_class rule)) else None),
      cl_account = (if rule_resolution rule = ''CLASS_MAP'' then [] else rule_account rule)\<rparr>"

lemma resolve_leg_ok:
  "rule_line rule = leg_card_line leg \<Longrightarrow>
   resolve_leg rule leg n currency = (if resolves rule leg then Inr (line_of rule leg n currency) else Inl Card_Account_Unresolved)"
  by (auto simp: resolve_leg_def resolves_def line_of_def Let_def)

definition active_legs :: "posting_leg list \<Rightarrow> posting_leg list" where
  "active_legs legs = [leg \<leftarrow> legs. leg_amount leg \<noteq> 0]"

text \<open>A line made from a leg by the rule of the card.\<close>

definition made_from :: "posting_rule option list \<Rightarrow> string \<Rightarrow> posting_leg \<Rightarrow> card_line \<Rightarrow> bool" where
  "made_from rules currency leg line \<longleftrightarrow>
     (\<exists>rule. Some rule \<in> set rules \<and> resolves rule leg \<and> line = line_of rule leg (cl_no line) currency)"

lemma made_from_keeps:
  "made_from rules currency leg line \<Longrightarrow> cl_direction line = leg_direction leg \<and> cl_amount line = leg_amount leg"
  by (metis line_of_def made_from_def card_line.select_convs(2,3))

lemma resolve_legs_ok:
  assumes "card_wf rules" "resolve_legs (rev (map (\<lambda>r. (rule_line (the r), the r)) rules)) legs currency acc = Inr lines"
  shows "\<exists>new. lines = acc @ new \<and> list_all2 (made_from rules currency) (active_legs legs) new \<and>
    map cl_no new = map (\<lambda>i. int (length acc + i) + 1) [0..<length new]"
  using assms(2)
proof (induction legs arbitrary: acc)
  case (Cons leg legs)
  show ?case
  proof (cases "leg_amount leg = 0")
    case False
    then obtain rule line where rule: "map_of (rev (map (\<lambda>r. (rule_line (the r), the r)) rules)) (leg_card_line leg) = Some rule"
      and line: "resolve_leg rule leg (int (length acc) + 1) currency = Inr line"
      and rest: "resolve_legs (rev (map (\<lambda>r. (rule_line (the r), the r)) rules)) legs currency (acc @ [line]) = Inr lines"
      using Cons.prems by (auto split: option.splits sum.splits)
    note rl = rule [unfolded card_lookup [OF assms(1)]]
    have "resolves rule leg" "line = line_of rule leg (int (length acc) + 1) currency"
      using line resolve_leg_ok [of rule leg] rl by (auto split: if_splits)
    then have m: "made_from rules currency leg line" "cl_no line = int (length acc) + 1"
      using rl by (auto simp: made_from_def line_of_def)
    obtain new where new: "lines = (acc @ [line]) @ new" "list_all2 (made_from rules currency) (active_legs legs) new"
      "map cl_no new = map (\<lambda>i. int (length (acc @ [line]) + i) + 1) [0..<length new]"
      using Cons.IH [OF rest] by blast
    have "map cl_no (line # new) = map (\<lambda>i. int (length acc + i) + 1) [0..<length (line # new)]"
      using m(2) new(3) by (simp add: upt_conv_Cons map_Suc_upt [symmetric] del: upt_Suc)
    then show ?thesis using new(1,2) m(1) False by (intro exI [of _ "line # new"]) (simp add: active_legs_def del: upt_Suc)
  qed (use Cons in \<open>simp add: active_legs_def\<close>)
qed (simp add: active_legs_def)

lemma resolve_legs_total:
  assumes "card_wf rules" "\<forall>leg\<in>set (active_legs legs). \<exists>rule. Some rule \<in> set rules \<and> resolves rule leg"
  shows "\<exists>lines. resolve_legs (rev (map (\<lambda>r. (rule_line (the r), the r)) rules)) legs currency acc = Inr lines"
  using assms(2)
proof (induction legs arbitrary: acc)
  case (Cons leg legs)
  then have IH: "\<exists>lines. resolve_legs (rev (map (\<lambda>r. (rule_line (the r), the r)) rules)) legs currency acc' = Inr lines" for acc'
    by (auto simp: active_legs_def)
  show ?case
  proof (cases "leg_amount leg = 0")
    case False
    then obtain rule where r: "Some rule \<in> set rules" "resolves rule leg"
      using Cons.prems by (auto simp: active_legs_def)
    then have "map_of (rev (map (\<lambda>r. (rule_line (the r), the r)) rules)) (leg_card_line leg) = Some rule"
      using card_lookup [OF assms(1)] by (simp add: resolves_def)
    then show ?thesis using False r IH resolve_leg_ok [of rule leg] by (simp add: resolves_def)
  qed (use IH in simp)
qed simp

lemma active_sum: "sum_list (map leg_amount [l \<leftarrow> active_legs legs. P l]) = sum_list (map leg_amount [l \<leftarrow> legs. P l])"
  by (induction legs) (auto simp: active_legs_def)

lemma made_from_sums:
  assumes "list_all2 (made_from rules currency) (active_legs legs) lines"
  shows "sum_list (map cl_amount [l \<leftarrow> lines. cl_direction l = d]) =
    sum_list (map leg_amount [l \<leftarrow> legs. leg_direction l = d])"
proof -
  have "sum_list (map cl_amount [l \<leftarrow> lines. cl_direction l = d]) =
      sum_list (map leg_amount [l \<leftarrow> ls. leg_direction l = d])" if "list_all2 (made_from rules currency) ls lines" for ls
    using that by induction (auto dest!: made_from_keeps)
  then show ?thesis using assms active_sum by metis
qed

text \<open>Whatever the card, the lines of a built posting total what its legs do.\<close>

lemma build_sums:
  assumes "build_posting_lines client ty legs currency = Inr lines"
  shows "sum_list (map cl_amount [l \<leftarrow> lines. cl_direction l = d]) =
    sum_list (map leg_amount [l \<leftarrow> legs. leg_direction l = d])"
proof (cases "\<exists>leg\<in>set legs. 0 < leg_amount leg")
  case True
  obtain rules m where "by_line rules [] = Inr m" "resolve_legs m legs currency [] = Inr lines"
    using assms True by (auto simp: build_posting_lines_def posting_lines_from_rules_def split: sum.splits if_splits)
  then obtain new where "lines = [] @ new" "list_all2 (made_from rules currency) (active_legs legs) new"
    using by_line_ok [of rules "[]" m] resolve_legs_ok [of rules legs currency "[]" lines] by auto
  then show ?thesis using made_from_sums by simp
next
  case False
  then have "lines = []" "\<forall>leg\<in>set legs. leg_amount leg = 0"
    using assms by (auto simp: build_posting_lines_def split: if_splits) (metis linorder_cases)
  then show ?thesis by (induction legs) auto
qed

text \<open>C28. The lines of a posting are its legs with the accounts of the card. For legs without a negative amount, not all zero,
  and a card with at least one line: a success means that the card's lines are positive and distinct, that each leg with an amount became one line, in order and numbered from 1, with the
  account of the one rule of its card line and direction, so the totals per direction are those of the legs; and
  whenever every such leg has a usable rule on such a card, the posting is built.\<close>

theorem card_lines_exact:
  assumes "\<forall>leg\<in>set legs. 0 \<le> leg_amount leg" "\<exists>leg\<in>set legs. 0 < leg_amount leg"
    and "list_rules ty = Inr rules" "rules \<noteq> []"
  shows "((\<exists>lines. build_posting_lines (Some list_rules) ty legs currency = Inr lines) \<longleftrightarrow>
      card_wf rules \<and> (\<forall>leg\<in>set (active_legs legs). \<exists>rule. Some rule \<in> set rules \<and> resolves rule leg)) \<and>
    (\<forall>lines. build_posting_lines (Some list_rules) ty legs currency = Inr lines \<longrightarrow>
      list_all2 (made_from rules currency) (active_legs legs) lines \<and>
      map cl_no lines = map (\<lambda>i. int i + 1) [0..<length lines] \<and>
      (\<forall>d. sum_list (map cl_amount [l \<leftarrow> lines. cl_direction l = d]) =
           sum_list (map leg_amount [l \<leftarrow> legs. leg_direction l = d])))"
proof -
  let ?m = "rev (map (\<lambda>r. (rule_line (the r), the r)) rules)"
  have "\<not> (\<exists>leg\<in>set legs. leg_amount leg < 0)" using assms(1) by (meson not_le)
  then have build: "build_posting_lines (Some list_rules) ty legs currency =
      (if card_wf rules then resolve_legs ?m legs currency [] else Inl Card_Untyped)"
  proof -
    have "by_line rules [] = (if card_wf rules then Inr ?m else Inl Card_Untyped)"
      using by_line_ok [of rules "[]" ?m] by_line_ok [of rules "[]"] by_line_error [of rules "[]"]
      by (cases "by_line rules []") auto
    then show ?thesis using assms(2-4) \<open>\<not> (\<exists>leg\<in>set legs. leg_amount leg < 0)\<close>
      by (simp add: build_posting_lines_def fetch_posting_rules_def posting_lines_from_rules_def)
  qed
  have made: "list_all2 (made_from rules currency) (active_legs legs) lines \<and>
      map cl_no lines = map (\<lambda>i. int i + 1) [0..<length lines]"
    if "build_posting_lines (Some list_rules) ty legs currency = Inr lines" for lines
    using that resolve_legs_ok [of rules legs currency "[]" lines] build by (auto split: if_splits)
  have "\<forall>leg\<in>set ls. \<exists>rule. Some rule \<in> set rules \<and> resolves rule leg"
    if "list_all2 (made_from rules currency) ls lines" for ls lines
    using that by induction (auto simp: made_from_def)
  then have "(\<exists>lines. build_posting_lines (Some list_rules) ty legs currency = Inr lines) \<longleftrightarrow>
      card_wf rules \<and> (\<forall>leg\<in>set (active_legs legs). \<exists>rule. Some rule \<in> set rules \<and> resolves rule leg)"
    using made resolve_legs_total [of rules legs currency "[]"] build by (auto split: if_splits)
  then show ?thesis using made made_from_sums by blast
qed

definition demo_card :: "posting_rule option list" where
  "demo_card =
     [Some \<lparr>rule_line = 1, rule_direction = ''DEBIT'', rule_resolution = ''CLASS_MAP'', rule_class = ''CASH'', rule_account = []\<rparr>,
      Some \<lparr>rule_line = 2, rule_direction = ''CREDIT'', rule_resolution = ''FIXED_CODE'', rule_class = [], rule_account = ''4211''\<rparr>]"

definition demo_legs :: "posting_leg list" where
  "demo_legs =
     [\<lparr>leg_card_line = 1, leg_direction = ''DEBIT'', leg_amount = 500, leg_analytics = None, leg_description = []\<rparr>,
      \<lparr>leg_card_line = 2, leg_direction = ''CREDIT'', leg_amount = 500, leg_analytics = None, leg_description = []\<rparr>,
      \<lparr>leg_card_line = 3, leg_direction = ''CREDIT'', leg_amount = 0, leg_analytics = None, leg_description = []\<rparr>]"

theorem card_lines_exact_witness:
  "\<exists>lines. build_posting_lines (Some (\<lambda>ty. Inr demo_card)) ''DPM_OPEN'' demo_legs ''VND'' = Inr lines \<and>
     map cl_no lines = [1, 2] \<and> sum_list (map cl_amount [l \<leftarrow> lines. cl_direction l = ''DEBIT'']) = 500"
proof -
  have legs: "\<forall>leg\<in>set demo_legs. 0 \<le> leg_amount leg" "\<exists>leg\<in>set demo_legs. 0 < leg_amount leg" "demo_card \<noteq> []"
    by (simp_all add: demo_legs_def demo_card_def)
  note T = card_lines_exact [OF legs(1,2), of "\<lambda>ty. Inr demo_card" "''DPM_OPEN''" demo_card "''VND''", OF refl legs(3)]
  have "card_wf demo_card" by (simp add: card_wf_def demo_card_def)
  moreover have "\<forall>leg\<in>set (active_legs demo_legs). \<exists>rule. Some rule \<in> set demo_card \<and> resolves rule leg"
    by (simp add: active_legs_def demo_legs_def demo_card_def resolves_def ex_disj_distrib conj_disj_distribR)
  ultimately obtain lines where l: "build_posting_lines (Some (\<lambda>ty. Inr demo_card)) ''DPM_OPEN'' demo_legs ''VND'' = Inr lines"
    using T by blast
  have "length (active_legs demo_legs) = 2" by (simp add: active_legs_def demo_legs_def)
  then have "length lines = 2" using T l list_all2_lengthD by metis
  then have "map cl_no lines = [1, 2]" using T l by (auto simp: upt_rec)
  moreover have "sum_list (map leg_amount [l \<leftarrow> demo_legs. leg_direction l = ''DEBIT'']) = 500" by (simp add: demo_legs_def)
  ultimately show ?thesis using T l by metis
qed

end
