(* ===== verification/Deposit_Settlement.thy ===== *)
theory Deposit_Settlement
  imports Deposit_Ops Posting_Card
begin

text \<open>
  Opening a savings account, adding to it and settling it
  (apps/deposit-service/internal/service/settlement_service.go and additional_deposit_service.go)
  with the statements they use. Finance, the workflow service, the generated row ids and the
  reading of a text as a DATE by the database (\<open>pgd\<close>, which gives the ISO text) are parameters.
\<close>


section \<open>Statements\<close>

text \<open>\<open>ListProducts\<close> with \<open>is_active\<close>, and the loop over it.\<close>

definition find_product :: "deposit_db \<Rightarrow> string \<Rightarrow> product option" where
  "find_product db code = find (\<lambda>p. pr_code p = code) [p \<leftarrow> db_products db. pr_active p]"

text \<open>
  The insert fails on a used id or code, on a product id that does not exist, on a principal that is
  not positive and on a date that cannot be read.
\<close>

definition create_savings ::
  "(string \<Rightarrow> string option) \<Rightarrow> deposit_db \<Rightarrow> savings \<Rightarrow> deposit_db \<times> (string + savings)" where
  "create_savings pgd db s =
     (if \<exists>x\<in>set (db_savings db). sv_id x = sv_id s \<or> sv_code x = sv_code s then (db, Inl err_unique)
      else if \<not> (\<exists>p\<in>set (db_products db). pr_id p = sv_product s) \<or> sv_principal s \<le> 0 then (db, Inl err_check)
      else case (pgd (sv_open s), pgd (sv_maturity s)) of
        (Some od, Some md) \<Rightarrow>
          (db\<lparr>db_savings := db_savings db @
             [s\<lparr>sv_open := od, sv_maturity := md, sv_accrued := 0, sv_status := ''ACTIVE'', sv_version := 1,
                sv_journal := None\<rparr>]\<rparr>, Inr s)
      | _ \<Rightarrow> (db, Inl err_date))"

definition record_txn :: "(string \<Rightarrow> string option) \<Rightarrow> deposit_db \<Rightarrow> deposit_txn \<Rightarrow> deposit_db \<times> (string + unit)" where
  "record_txn pgd db t =
     (if tx_amount t \<le> 0 \<or> \<not> (\<exists>s\<in>set (db_savings db). sv_id s = tx_savings t) then (db, Inl err_check)
      else case pgd (tx_date t) of
        None \<Rightarrow> (db, Inl err_date)
      | Some day \<Rightarrow>
          (db\<lparr>db_txns := db_txns db @
             [t\<lparr>tx_date := day, tx_status := (if tx_status t = [] then ''DRAFT'' else tx_status t), tx_key := None,
                tx_journal := (case tx_journal t of Some j \<Rightarrow> null_if_empty j | None \<Rightarrow> None)\<rparr>]\<rparr>, Inr ()))"

definition close_savings :: "deposit_db \<Rightarrow> string \<Rightarrow> string \<Rightarrow> string \<Rightarrow> deposit_db \<times> (string + unit)" where
  "close_savings db sid journal data_version =
     (case find (\<lambda>s. sv_id s = sid \<and> sv_status s = ''ACTIVE'' \<and>
             (data_version = [] \<or> dec_str (nat (sv_version s)) = data_version)) (db_savings db) of
        None \<Rightarrow> (db, Inl err_not_active)
      | Some _ \<Rightarrow>
          (set_savings sid (\<lambda>s. s\<lparr>sv_status := ''CLOSED'', sv_journal := null_if_empty journal,
             sv_version := sv_version s + 1\<rparr>) db, Inr ()))"

text \<open>
  The transaction of \<open>Settle\<close> of the additional deposit: the movement guarded by its key, then the
  principal; \<open>Inr False\<close> when the key was used before.
\<close>

definition top_up_row :: "savings \<Rightarrow> int \<Rightarrow> string \<Rightarrow> string \<Rightarrow> string \<Rightarrow> string \<Rightarrow> deposit_txn" where
  "top_up_row item amount day entry actor key =
     \<lparr>tx_savings = sv_id item, tx_type = ''TOP_UP_POSTED'', tx_status = ''POSTED'', tx_date = day, tx_amount = amount,
      tx_currency = sv_currency item, tx_journal = Some entry, tx_key = Some key, tx_actor = actor\<rparr>"

definition top_up_savings ::
  "(string \<Rightarrow> string option) \<Rightarrow> deposit_db \<Rightarrow> savings \<Rightarrow> int \<Rightarrow> string \<Rightarrow> string \<Rightarrow> string \<Rightarrow> string \<Rightarrow> string \<Rightarrow>
   deposit_db \<times> (string + bool)" where
  "top_up_savings pgd db item amount txn_date entry actor key data_version =
     (case pgd txn_date of
        None \<Rightarrow> (db, Inl err_date)
      | Some day \<Rightarrow>
        if amount \<le> 0 \<or> \<not> (\<exists>s\<in>set (db_savings db). sv_id s = sv_id item) then (db, Inl err_check)
        else if \<exists>t\<in>set (db_txns db). tx_key t = Some key then (db, Inr False)
        else case find (\<lambda>s. sv_id s = sv_id item \<and> sv_status s = ''ACTIVE'' \<and>
              (data_version = [] \<or> dec_str (nat (sv_version s)) = data_version)) (db_savings db) of
          None \<Rightarrow> (db, Inl err_not_active)
        | Some s \<Rightarrow>
          if \<not> in64 (sv_principal s + amount) then (db, Inl err_bigint)
          else (set_savings (sv_id item) (\<lambda>s. s\<lparr>sv_principal := sv_principal s + amount, sv_version := sv_version s + 1\<rparr>)
                  (db\<lparr>db_txns := db_txns db @ [top_up_row item amount day entry actor key]\<rparr>), Inr True))"

section \<open>Posting\<close>

record post_request =
  pq_key :: string
  pq_date :: string
  pq_currency :: string
  pq_description :: string
  pq_type :: string
  pq_code :: string
  pq_lines :: "card_line list"

text \<open>Finance: the rules of a card, and posting a request, which gives the entry's id or fails.\<close>

record finance_client =
  fc_rules :: rule_lister
  fc_post :: "post_request \<Rightarrow> string + string"

definition savings_analytics :: "string \<Rightarrow> string \<Rightarrow> card_analytics" where
  "savings_analytics customer code =
     \<lparr>ca_class = [], ca_debt_group = [], ca_org = [], ca_fund = [], ca_customer = customer, ca_contract = [],
      ca_dimensions = [(''savings_code'', code)]\<rparr>"

definition leg :: "int \<Rightarrow> string \<Rightarrow> int \<Rightarrow> card_analytics \<Rightarrow> posting_leg" where
  "leg card_line direction amount a =
     \<lparr>leg_card_line = card_line, leg_direction = direction, leg_amount = amount, leg_analytics = Some a,
      leg_description = []\<rparr>"

definition post_card ::
  "finance_client \<Rightarrow> string \<Rightarrow> string \<Rightarrow> posting_leg list \<Rightarrow> string \<Rightarrow> string \<Rightarrow> string \<Rightarrow> string \<Rightarrow> string + string" where
  "post_card fin ref_type doc legs key code date currency =
     (case build_posting_lines (Some (fc_rules fin)) doc legs currency of
        Inl _ \<Rightarrow> Inl ''posting lines''
      | Inr lines \<Rightarrow>
          fc_post fin \<lparr>pq_key = key, pq_date = date, pq_currency = currency,
            pq_description = ref_type @ '' '' @ code, pq_type = ref_type, pq_code = code, pq_lines = lines\<rparr>)"

definition two_legs :: "int \<Rightarrow> card_analytics \<Rightarrow> posting_leg list" where
  "two_legs amount a = [leg 1 ''DEBIT'' amount a, leg 2 ''CREDIT'' amount a]"

definition post_movement ::
  "finance_client \<Rightarrow> string \<Rightarrow> string \<Rightarrow> string \<Rightarrow> string \<Rightarrow> string \<Rightarrow> string \<Rightarrow> string \<Rightarrow> int \<Rightarrow> string + string" where
  "post_movement fin ref_type doc key code customer date currency amount =
     post_card fin ref_type doc (two_legs amount (savings_analytics customer code)) key code date currency"

definition settlement_legs :: "int \<Rightarrow> int \<Rightarrow> card_analytics \<Rightarrow> posting_leg list" where
  "settlement_legs principal_minor accrued_minor a =
     (let payout = add64 principal_minor accrued_minor
      in [leg 1 ''DEBIT'' principal_minor a, leg 2 ''DEBIT'' accrued_minor a, leg 3 ''CREDIT'' payout a])"

definition settlement_key :: "string \<Rightarrow> string" where
  "settlement_key code = ''dpm-settlement-'' @ trim_space code"

definition post_settlement :: "finance_client \<Rightarrow> string \<Rightarrow> savings \<Rightarrow> string + string" where
  "post_settlement fin today item =
     post_card fin ''DPM_SETTLEMENT_V3'' ''DPM_SETTLEMENT_V3''
       (settlement_legs (sv_principal item) (sv_accrued item) (savings_analytics (sv_customer item) (sv_code item)))
       (settlement_key (sv_code item)) (sv_code item) today (sv_currency item)"

section \<open>Opening\<close>

record open_input =
  oi_code :: string
  oi_customer :: string
  oi_product :: string
  oi_open :: string
  oi_principal :: int
  oi_currency :: string
  oi_actor :: string
  oi_org :: string

definition maturity_date :: "string \<Rightarrow> int \<Rightarrow> string" where
  "maturity_date open_date months = (case add_months_day open_date months of Inl _ \<Rightarrow> open_date | Inr m \<Rightarrow> m)"

definition opened_row :: "open_input \<Rightarrow> product \<Rightarrow> string \<Rightarrow> string \<Rightarrow> string \<Rightarrow> savings" where
  "opened_row inp pr new_id currency open_date =
     \<lparr>sv_id = new_id, sv_code = oi_code inp, sv_product = pr_id pr, sv_open = open_date,
      sv_principal = oi_principal inp, sv_accrued = 0, sv_currency = currency, sv_org = oi_org inp, sv_status = [],
      sv_version = 0, sv_customer = oi_customer inp, sv_maturity = maturity_date open_date (pr_term pr),
      sv_journal = None\<rparr>"

definition open_txn :: "open_input \<Rightarrow> savings \<Rightarrow> string \<Rightarrow> string \<Rightarrow> string option \<Rightarrow> deposit_txn" where
  "open_txn inp s ty status entry =
     \<lparr>tx_savings = sv_id s, tx_type = ty, tx_status = status, tx_date = sv_open s, tx_amount = oi_principal inp,
      tx_currency = sv_currency s, tx_journal = entry, tx_key = None, tx_actor = oi_actor inp\<rparr>"

definition post_opening ::
  "(string \<Rightarrow> string option) \<Rightarrow> finance_client option \<Rightarrow> string \<Rightarrow> deposit_db \<Rightarrow> open_input \<Rightarrow> savings \<Rightarrow>
   deposit_db \<times> (string + savings)" where
  "post_opening pgd finance key db inp s =
     (case finance of
        None \<Rightarrow> (db, Inr s)
      | Some fin \<Rightarrow>
        (case post_movement fin ''DPM_OPEN'' ''DPM_OPEN'' key (sv_code s) (sv_customer s) (sv_open s) (sv_currency s)
            (oi_principal inp) of
           Inl _ \<Rightarrow> (db, Inl code_bad_gateway)
         | Inr entry \<Rightarrow>
           (case record_txn pgd db (open_txn inp s ''OPEN_POSTED'' ''POSTED'' (Some entry)) of
              (db1, Inl _) \<Rightarrow> (db1, Inl code_internal)
            | (db1, Inr _) \<Rightarrow> (db1, Inr s))))"

definition open_savings ::
  "(string \<Rightarrow> string option) \<Rightarrow> finance_client option \<Rightarrow> string \<Rightarrow> string \<Rightarrow> string \<Rightarrow> deposit_db \<Rightarrow> open_input \<Rightarrow>
   deposit_db \<times> (string + savings)" where
  "open_savings pgd finance new_id key today db inp =
     (if trim_space (oi_code inp) = [] \<or> trim_space (oi_customer inp) = [] then (db, Inl code_required)
      else if oi_principal inp \<le> 0 then (db, Inl code_invalid_input)
      else case find_product db (oi_product inp) of
        None \<Rightarrow> (db, Inl code_not_found)
      | Some pr \<Rightarrow>
        let currency = (if oi_currency inp = [] then pr_currency pr else oi_currency inp);
            open_date = (if oi_open inp = [] then today else oi_open inp)
        in
        (case create_savings pgd db (opened_row inp pr new_id currency open_date) of
           (db1, Inl _) \<Rightarrow> (db1, Inl code_conflict)
         | (db1, Inr s) \<Rightarrow>
           (case record_txn pgd db1 (open_txn inp s ''OPEN'' [] None) of
              (db2, Inl _) \<Rightarrow> (db2, Inl code_internal)
            | (db2, Inr _) \<Rightarrow> post_opening pgd finance key db2 inp s)))"

section \<open>Settling\<close>

definition submit_settle :: "workflow_service option \<Rightarrow> deposit_db \<Rightarrow> string \<Rightarrow> string + string" where
  "submit_settle workflow db code =
     (case workflow of
        None \<Rightarrow> Inl code_internal
      | Some wfs \<Rightarrow>
        (case savings_by_code db code of
           None \<Rightarrow> Inl code_not_found
         | Some item \<Rightarrow>
           if sv_status item \<noteq> ''ACTIVE'' then Inl code_invalid_input else open_case wfs ''DPM_SETTLE_V2'' code))"

definition settlement_entry :: "finance_client option \<Rightarrow> string \<Rightarrow> savings \<Rightarrow> string + string" where
  "settlement_entry finance today item =
     (case finance of
        None \<Rightarrow> Inr []
      | Some fin \<Rightarrow>
        if 0 < sv_accrued item then post_settlement fin today item
        else post_movement fin ''DPM_SETTLEMENT'' ''DPM_SETTLEMENT'' (settlement_key (sv_code item)) (sv_code item)
          (sv_customer item) today (sv_currency item) (add64 (sv_principal item) (sv_accrued item)))"

definition settle_savings ::
  "finance_client option \<Rightarrow> string \<Rightarrow> deposit_db \<Rightarrow> string \<Rightarrow> string \<Rightarrow> deposit_db \<times> (string + savings)" where
  "settle_savings finance today db code data_version =
     (case savings_by_code db code of
        None \<Rightarrow> (db, Inl code_not_found)
      | Some item \<Rightarrow>
        if sv_status item \<noteq> ''ACTIVE'' then (db, Inl code_invalid_input)
        else if data_version \<noteq> [] \<and> dec_str (nat (sv_version item)) \<noteq> data_version then (db, Inl code_conflict)
        else case settlement_entry finance today item of
          Inl _ \<Rightarrow> (db, Inl code_bad_gateway)
        | Inr entry \<Rightarrow>
          (case close_savings db (sv_id item) entry data_version of
             (db1, Inl _) \<Rightarrow> (db1, Inl code_conflict)
           | (db1, Inr _) \<Rightarrow> (db1, Inr item)))"

section \<open>Adding\<close>

definition check_additional :: "deposit_db \<Rightarrow> string \<Rightarrow> int \<Rightarrow> bool" where
  "check_additional db code amount =
     (if amount \<le> 0 then False
      else case savings_by_code db code of None \<Rightarrow> False | Some item \<Rightarrow> sv_status item = ''ACTIVE'')"

definition submit_additional :: "workflow_service option \<Rightarrow> deposit_db \<Rightarrow> string \<Rightarrow> int \<Rightarrow> string \<Rightarrow> string + string" where
  "submit_additional workflow db code amount txn_date =
     (case workflow of
        None \<Rightarrow> Inl code_internal
      | Some wfs \<Rightarrow>
        if \<not> check_additional db code amount then Inl code_invalid_input
        else if txn_date \<noteq> [] \<and> parse_iso txn_date = None then Inl code_invalid_input
        else open_case wfs ''DPM_ADDITIONAL_V1'' code)"

definition settle_additional ::
  "(string \<Rightarrow> string option) \<Rightarrow> finance_client \<Rightarrow> string \<Rightarrow> string \<Rightarrow> deposit_db \<Rightarrow> string \<Rightarrow> string \<Rightarrow> int \<Rightarrow> string \<Rightarrow>
   string \<Rightarrow> string \<Rightarrow> deposit_db \<times> (string + unit)" where
  "settle_additional pgd fin today new_key db actor code amount txn_date0 idem_key0 data_version =
     (if \<not> check_additional db code amount then (db, Inl code_invalid_input)
      else case savings_by_code db code of
        None \<Rightarrow> (db, Inl code_not_found)
      | Some item \<Rightarrow>
        if data_version \<noteq> [] \<and> dec_str (nat (sv_version item)) \<noteq> data_version then (db, Inl code_conflict)
        else
          let txn_date = (if txn_date0 = [] then today else txn_date0);
              idem_key = (if idem_key0 = [] then new_key else idem_key0)
          in
          (case post_movement fin ''DPM_ADDITIONAL'' ''DPM_OPEN'' idem_key (sv_code item) (sv_customer item) txn_date
              (sv_currency item) amount of
             Inl _ \<Rightarrow> (db, Inl code_bad_gateway)
           | Inr entry \<Rightarrow>
             (case top_up_savings pgd db item amount txn_date entry actor idem_key data_version of
                (db1, Inl err) \<Rightarrow> (db1, Inl (if err = err_not_active then code_conflict else code_internal))
              | (db1, Inr _) \<Rightarrow> (db1, Inr ()))))"

end
