(* ===== verification/Deposit_Rates.thy ===== *)
theory Deposit_Rates
  imports Deposit_Ops
begin

text \<open>
  The interest rates and the requests that change them (DPM.301): \<open>SubmitRate\<close>, \<open>CheckRateRequest\<close> and
  \<open>ResolveRateRequest\<close> of apps/deposit-service/internal/service/interest_service.go with the
  statements of deposit_repo.go. A request keeps its JSON payload; only what it decodes to matters.
  How the database reads a text as a DATE (\<open>pgd\<close>) and the workflow service are parameters. The
  method of a rate, which nothing reads, is left out; texts are taken to fit their columns.
\<close>

section \<open>Statements\<close>

text \<open>A value as a NUMERIC(9,6), and as an INTEGER: \<open>None\<close> and false are errors of the database.\<close>

definition numeric_9_6 :: "rat \<Rightarrow> rat option" where
  "numeric_9_6 x = (let r = round_half_away x 6 in if \<bar>r\<bar> < 1000 then Some r else None)"

definition fits_integer :: "int \<Rightarrow> bool" where
  "fits_integer n \<longleftrightarrow> -(2 ^ 31) \<le> n \<and> n < 2 ^ 31"

definition err_numeric :: string where "err_numeric = ''numeric field overflow''"
definition err_dossier :: string where "err_dossier = ''dossier changed while in review''"

text \<open>The unique bucket of a rate: product (or none), term and first day.\<close>

definition in_bucket :: "rate_payload \<Rightarrow> string \<Rightarrow> interest_rate \<Rightarrow> bool" where
  "in_bucket p day r \<longleftrightarrow>
     ir_product r = null_if_empty (py_product p) \<and> ir_term r = py_term p \<and> ir_effective r = day"

definition rate_denominator :: "rate_payload \<Rightarrow> int" where
  "rate_denominator p = (if py_denominator p = 0 then 365 else py_denominator p)"

definition upsert_interest_rate ::
  "(string \<Rightarrow> string option) \<Rightarrow> deposit_db \<Rightarrow> rate_payload \<Rightarrow> deposit_db \<times> (string + unit)" where
  "upsert_interest_rate pgd db p =
     (case (numeric_9_6 (py_rate p), pgd (py_effective p)) of
        (None, _) \<Rightarrow> (db, Inl err_numeric)
      | (_, None) \<Rightarrow> (db, Inl err_date)
      | (Some rate, Some day) \<Rightarrow>
        if \<not> fits_integer (py_term p) \<or> \<not> fits_integer (rate_denominator p) then (db, Inl err_numeric)
        else if \<exists>r\<in>set (db_rates db). in_bucket p day r
        then (db\<lparr>db_rates := map (\<lambda>r. if in_bucket p day r
                then r\<lparr>ir_rate := rate, ir_denominator := rate_denominator p, ir_active := True\<rparr> else r) (db_rates db)\<rparr>, Inr ())
        else (db\<lparr>db_rates := db_rates db @
                [\<lparr>ir_product = null_if_empty (py_product p), ir_term = py_term p, ir_denominator = rate_denominator p,
                  ir_rate = rate, ir_effective = day, ir_active = True\<rparr>]\<rparr>, Inr ()))"

definition create_rate_request ::
  "deposit_db \<Rightarrow> string \<Rightarrow> rate_payload option \<Rightarrow> string \<Rightarrow> deposit_db \<times> rate_request" where
  "create_rate_request db ty payload actor =
     (let row = \<lparr>rq_id = length (db_rate_requests db), rq_type = ty, rq_payload = payload, rq_status = ''DRAFT'',
            rq_case = None, rq_creator = actor, rq_version = 1\<rparr>
      in (db\<lparr>db_rate_requests := db_rate_requests db @ [row]\<rparr>, row))"

definition rate_request_by_id :: "deposit_db \<Rightarrow> nat \<Rightarrow> rate_request option" where
  "rate_request_by_id db i = find (\<lambda>r. rq_id r = i) (db_rate_requests db)"

definition set_request :: "nat \<Rightarrow> (rate_request \<Rightarrow> rate_request) \<Rightarrow> deposit_db \<Rightarrow> deposit_db" where
  "set_request i f db = db\<lparr>db_rate_requests := map (\<lambda>r. if rq_id r = i then f r else r) (db_rate_requests db)\<rparr>"

definition set_rate_request_case :: "deposit_db \<Rightarrow> nat \<Rightarrow> string \<Rightarrow> deposit_db" where
  "set_rate_request_case db i case_id =
     set_request i (\<lambda>r. r\<lparr>rq_case := null_if_empty case_id, rq_status := ''SUBMITTED'', rq_version := rq_version r + 1\<rparr>) db"

text \<open>No row at the version is an error only when the row is there at another version.\<close>

definition set_rate_request_status :: "deposit_db \<Rightarrow> nat \<Rightarrow> string \<Rightarrow> int \<Rightarrow> deposit_db \<times> (string + unit)" where
  "set_rate_request_status db i status data_version =
     (case rate_request_by_id db i of
        None \<Rightarrow> (db, Inr ())
      | Some r \<Rightarrow>
        if data_version = 0 \<or> rq_version r = data_version
        then (set_request i (\<lambda>r. r\<lparr>rq_status := status, rq_version := rq_version r + 1\<rparr>) db, Inr ())
        else if 0 < data_version then (db, Inl err_dossier) else (db, Inr ()))"

section \<open>Calls\<close>

definition case_rate_register :: string where "case_rate_register = ''DPM_RATE_REGISTER_V1''"
definition case_rate_edit :: string where "case_rate_edit = ''DPM_RATE_EDIT_V1''"

definition submit_rate ::
  "workflow_service option \<Rightarrow> deposit_db \<Rightarrow> string \<Rightarrow> string \<Rightarrow> rate_payload option \<Rightarrow>
   deposit_db \<times> (string + rate_request)" where
  "submit_rate workflow db actor request_type0 payload =
     (let request_type = to_upper request_type0 in
      if request_type \<notin> {''REGISTER'', ''ADJUST'', ''EDIT''} then (db, Inl code_invalid_input)
      else case payload of
        None \<Rightarrow> (db, Inl code_invalid_input)
      | Some p \<Rightarrow>
        if py_rate p \<le> 0 \<or> py_effective p = [] then (db, Inl code_required)
        else case workflow of
          None \<Rightarrow> (db, Inl code_internal)
        | Some wfs \<Rightarrow>
          (case create_rate_request db request_type payload actor of
             (db1, row) \<Rightarrow>
               (case open_case wfs (if request_type = ''EDIT'' then case_rate_edit else case_rate_register)
                   (dec_str (rq_id row)) of
                  Inl err \<Rightarrow> (db1, Inl err)
                | Inr case_id \<Rightarrow>
                    (set_rate_request_case db1 (rq_id row) case_id,
                     Inr (row\<lparr>rq_case := Some case_id, rq_status := ''SUBMITTED''\<rparr>)))))"

definition check_rate_request :: "deposit_db \<Rightarrow> nat \<Rightarrow> bool" where
  "check_rate_request db i =
     (case rate_request_by_id db i of None \<Rightarrow> False | Some r \<Rightarrow> rq_status r = ''SUBMITTED'')"

definition map_rate_resolve_err :: "string \<Rightarrow> string" where
  "map_rate_resolve_err err = (if err = err_dossier then code_conflict else code_internal)"

definition decide_rate_request :: "deposit_db \<Rightarrow> nat \<Rightarrow> string \<Rightarrow> int \<Rightarrow> deposit_db \<times> (string + unit)" where
  "decide_rate_request db i status data_version =
     (case set_rate_request_status db i status data_version of
        (db1, Inl err) \<Rightarrow> (db1, Inl (map_rate_resolve_err err)) | (db1, Inr _) \<Rightarrow> (db1, Inr ()))"

definition resolve_rate_request ::
  "(string \<Rightarrow> string option) \<Rightarrow> deposit_db \<Rightarrow> nat \<Rightarrow> string \<Rightarrow> int \<Rightarrow> deposit_db \<times> (string + unit)" where
  "resolve_rate_request pgd db i decision data_version =
     (case rate_request_by_id db i of
        None \<Rightarrow> (db, Inl code_not_found)
      | Some r \<Rightarrow>
        if decision = ''APPROVE'' then
          (if rq_status r = ''APPLIED'' then (db, Inr ())
           else if rq_status r \<noteq> ''SUBMITTED'' then (db, Inl code_invalid_input)
           else case rq_payload r of
             None \<Rightarrow> (db, Inl code_invalid_input)
           | Some p \<Rightarrow>
             (case upsert_interest_rate pgd db p of
                (db1, Inl _) \<Rightarrow> (db1, Inl code_internal)
              | (db1, Inr _) \<Rightarrow> decide_rate_request db1 i ''APPLIED'' data_version))
        else if decision = ''REJECT'' then
          (if rq_status r = ''REJECTED'' then (db, Inr ())
           else if rq_status r \<noteq> ''SUBMITTED'' then (db, Inl code_invalid_input)
           else decide_rate_request db i ''REJECTED'' data_version)
        else (db, Inl code_invalid_input))"

section \<open>Rows\<close>

lemma upsert_in_bucket:
  assumes "upsert_interest_rate pgd db p = (db1, Inr u)"
  shows "\<exists>day rate. pgd (py_effective p) = Some day \<and> numeric_9_6 (py_rate p) = Some rate \<and>
    (\<exists>t\<in>set (db_rates db1). in_bucket p day t \<and> ir_rate t = rate \<and> ir_denominator t = rate_denominator p \<and> ir_active t)"
proof -
  obtain day rate where d: "pgd (py_effective p) = Some day" "numeric_9_6 (py_rate p) = Some rate"
    using assms by (auto simp: upsert_interest_rate_def split: option.splits)
  have "\<exists>t\<in>set (db_rates db1). in_bucket p day t \<and> ir_rate t = rate \<and> ir_denominator t = rate_denominator p \<and> ir_active t"
  proof (cases "\<exists>r\<in>set (db_rates db). in_bucket p day r")
    case True
    then obtain r where r: "r \<in> set (db_rates db)" "in_bucket p day r" by blast
    let ?t = "r\<lparr>ir_rate := rate, ir_denominator := rate_denominator p, ir_active := True\<rparr>"
    have "?t \<in> set (db_rates db1)"
      using assms d r by (force simp: upsert_interest_rate_def split: if_splits)
    moreover have "in_bucket p day ?t" using r(2) by (simp add: in_bucket_def)
    ultimately show ?thesis by fastforce
  next
    case False
    then show ?thesis using assms d by (auto simp: upsert_interest_rate_def in_bucket_def split: if_splits)
  qed
  with d show ?thesis by blast
qed

lemma upsert_requests [simp]:
  "upsert_interest_rate pgd db p = (db1, r) \<Longrightarrow> rate_request_by_id db1 i = rate_request_by_id db i"
  by (auto simp: upsert_interest_rate_def rate_request_by_id_def split: option.splits if_splits)

lemma request_by_id_set:
  "rate_request_by_id db i = Some r \<Longrightarrow> (\<And>r. rq_id (f r) = rq_id r) \<Longrightarrow> rate_request_by_id (set_request i f db) i = Some (f r)"
proof -
  assume *: "rate_request_by_id db i = Some r" "\<And>r. rq_id (f r) = rq_id r"
  then have "find (\<lambda>r. rq_id r = i) (map (\<lambda>r. if rq_id r = i then f r else r) xs) =
      map_option f (find (\<lambda>r. rq_id r = i) xs)" for xs
    by (induction xs) auto
  then show ?thesis using *(1) by (simp add: rate_request_by_id_def set_request_def)
qed

section \<open>A stale approval\<close>

text \<open>C30. An approval of a rate request under a version that is no longer the row's takes effect and is reported as a
  conflict: the rate is written before the version is compared, in a statement of its own. The request stays
  SUBMITTED at its version while its rate is active in the bucket it names, with the denominator and the rounded
  rate of the payload, and a rejection of the request afterwards leaves every rate as it is.\<close>

theorem stale_rate_approval_applies:
  assumes "rate_request_by_id db i = Some r" "rq_status r = ''SUBMITTED''" "rq_payload r = Some p"
    and "0 < data_version" "rq_version r \<noteq> data_version" "snd (upsert_interest_rate pgd db p) = Inr ()"
  shows "\<exists>db1. resolve_rate_request pgd db i ''APPROVE'' data_version = (db1, Inl code_conflict) \<and>
    rate_request_by_id db1 i = Some r \<and>
    (\<exists>day. pgd (py_effective p) = Some day \<and>
      (\<exists>t\<in>set (db_rates db1). in_bucket p day t \<and> Some (ir_rate t) = numeric_9_6 (py_rate p) \<and>
        ir_denominator t = rate_denominator p \<and> ir_active t)) \<and>
    (\<exists>db2. resolve_rate_request pgd db1 i ''REJECT'' 0 = (db2, Inr ()) \<and> db_rates db2 = db_rates db1)"
proof -
  obtain db1 where up: "upsert_interest_rate pgd db p = (db1, Inr ())"
    using assms(6) by (cases "upsert_interest_rate pgd db p") auto
  have row: "rate_request_by_id db1 i = Some r" using upsert_requests [OF up] assms(1) by simp
  have "resolve_rate_request pgd db i ''APPROVE'' data_version = (db1, Inl code_conflict)"
    using assms(1-5) row
    by (simp add: resolve_rate_request_def up decide_rate_request_def set_rate_request_status_def map_rate_resolve_err_def)
  moreover have "\<exists>db2. resolve_rate_request pgd db1 i ''REJECT'' 0 = (db2, Inr ()) \<and> db_rates db2 = db_rates db1"
    using row assms(2) by (simp add: resolve_rate_request_def decide_rate_request_def set_rate_request_status_def set_request_def)
  ultimately show ?thesis using row upsert_in_bucket [OF up] by force
qed

text \<open>The example: a request for 7.25 percent at version 2, approved under version 1.\<close>

definition demo_rate_payload :: rate_payload where
  "demo_rate_payload = \<lparr>py_product = ''P1'', py_term = 12, py_denominator = 0, py_rate = 29 / 4, py_effective = ''2026-04-01''\<rparr>"

definition demo_rate_db :: deposit_db where
  "demo_rate_db = \<lparr>db_savings = [], db_accruals = [], db_ops = [], db_txns = [], db_rates = [], db_products = [],
     db_rate_requests = [\<lparr>rq_id = 0, rq_type = ''REGISTER'', rq_payload = Some demo_rate_payload, rq_status = ''SUBMITTED'',
       rq_case = Some ''case-1'', rq_creator = ''u1'', rq_version = 2\<rparr>]\<rparr>"

theorem stale_rate_approval_applies_witness:
  "\<exists>db1. resolve_rate_request Some demo_rate_db 0 ''APPROVE'' 1 = (db1, Inl code_conflict) \<and>
    (\<exists>t\<in>set (db_rates db1). ir_product t = Some ''P1'' \<and> ir_rate t = 29 / 4 \<and> ir_effective t = ''2026-04-01'' \<and> ir_active t)"
proof -
  have rate: "numeric_9_6 (29 / 4) = Some (29 / 4)" by code_simp
  have up: "snd (upsert_interest_rate Some demo_rate_db demo_rate_payload) = Inr ()" by code_simp
  have row: "rate_request_by_id demo_rate_db 0 = Some (hd (db_rate_requests demo_rate_db))"
    "rq_status (hd (db_rate_requests demo_rate_db)) = ''SUBMITTED''"
    "rq_payload (hd (db_rate_requests demo_rate_db)) = Some demo_rate_payload"
    "rq_version (hd (db_rate_requests demo_rate_db)) \<noteq> 1"
    by (simp_all add: demo_rate_db_def rate_request_by_id_def)
  show ?thesis
    using stale_rate_approval_applies [OF row(1-3) zero_less_one row(4) up] rate
    by (fastforce simp: demo_rate_payload_def in_bucket_def null_if_empty_def)
qed

end
