(* ===== verification/Deposit_Ops_Safety.thy ===== *)
theory Deposit_Ops_Safety
  imports Deposit_Settlement Deposit_Rates
begin

text \<open>
  The interest a savings owes, over every interleaving of the deposit service's transactions: the
  daily accrual, the submission and the decision of operations and of rate requests, several of them
  at once and cut short anywhere. The service calls are shown to be sequences of these transactions.
  A rejection overwrites whatever status an operation has by then, since its statement has no guard:
  a run records the operations that had taken their amount when that happened.
\<close>

section \<open>Sums over rows with a key\<close>

lemma sum_update:
  fixes g :: "'a \<Rightarrow> int"
  assumes "distinct (map key xs)" "p \<in> set xs"
  shows "sum_list (map g (map (\<lambda>x. if key x = key p then f x else x) xs)) = sum_list (map g xs) - g p + g (f p)"
  using assms
proof (induction xs)
  case (Cons x xs)
  show ?case
  proof (cases "x = p")
    case True
    then have "map (\<lambda>x. if key x = key p then f x else x) xs = xs"
      using Cons.prems(1) by (intro map_idI) (auto simp: image_iff)
    then show ?thesis using True by (simp del: map_map)
  next
    case False
    then have "p \<in> set xs" "key x \<noteq> key p" using Cons.prems by auto
    then show ?thesis using Cons by (simp del: map_map)
  qed
qed simp

lemma sum_update_none:
  "\<forall>x\<in>set xs. key x \<noteq> k \<Longrightarrow> map (\<lambda>x. if key x = k then f x else x) xs = xs"
  by (intro map_idI) auto

lemma find_key: "distinct (map key xs) \<Longrightarrow> p \<in> set xs \<Longrightarrow> find (\<lambda>x. key x = key p) xs = Some p"
  by (induction xs) auto

lemma find_key_P: "find (\<lambda>x. key x = k \<and> P x) xs = Some p \<Longrightarrow> p \<in> set xs \<and> key p = k \<and> P p"
  using find_Some_in [of "\<lambda>x. key x = k \<and> P x" xs p] by simp

section \<open>What is owed\<close>

definition accrued_of :: "deposit_db \<Rightarrow> string \<Rightarrow> int" where
  "accrued_of db sid = sum_list (map (\<lambda>s. if sv_id s = sid then sv_accrued s else 0) (db_savings db))"

definition posted_interest :: "deposit_db \<Rightarrow> string \<Rightarrow> int" where
  "posted_interest db sid =
     sum_list (map (\<lambda>a. if ac_savings a = sid \<and> ac_status a = ''POSTED'' then ac_amount a else 0) (db_accruals db))"

definition is_taken :: "string \<Rightarrow> bool" where
  "is_taken status \<longleftrightarrow> status = ''POSTING'' \<or> status = ''POSTED''"

definition taken_interest :: "deposit_db \<Rightarrow> string \<Rightarrow> int" where
  "taken_interest db sid =
     sum_list (map (\<lambda>p. if io_savings p = sid \<and> is_taken (io_status p) then io_amount p else 0) (db_ops db))"

definition interest_gap :: "deposit_db \<Rightarrow> string \<Rightarrow> int" where
  "interest_gap db sid = accrued_of db sid - posted_interest db sid + taken_interest db sid"

definition dep_wf :: "deposit_db \<Rightarrow> bool" where
  "dep_wf db \<longleftrightarrow>
     map ac_id (db_accruals db) = [0..<length (db_accruals db)] \<and> map io_id (db_ops db) = [0..<length (db_ops db)] \<and>
     distinct (map sv_id (db_savings db)) \<and> distinct (map sv_code (db_savings db)) \<and>
     (\<forall>a\<in>set (db_accruals db). 0 < ac_amount a) \<and> (\<forall>s\<in>set (db_savings db). 0 \<le> sv_accrued s) \<and>
     (\<forall>p\<in>set (db_ops db). 0 < io_amount p \<and> (\<exists>s\<in>set (db_savings db). sv_id s = io_savings p \<and> sv_code s = io_code p))"

section \<open>Transactions\<close>

text \<open>
  One transaction of the repository with the arguments that the calls give it. A case is only stamped
  on an operation by the call that has just created it, so on a DRAFT; a rejection is unguarded.
\<close>

inductive dep_step :: "deposit_db \<Rightarrow> deposit_db \<Rightarrow> bool" where
  step_stage: "create_accrual db a = (db', Some row) \<Longrightarrow> 0 < ac_amount a \<Longrightarrow> dep_step db db'"
| step_book: "mark_accrual_posted db i journal = (db', Inr u) \<Longrightarrow> dep_step db db'"
| step_propose: "create_interest_op db item ty amount actor today = (db', Inr row) \<Longrightarrow> s \<in> set (db_savings db) \<Longrightarrow>
    sv_id s = sv_id item \<Longrightarrow> sv_code s = sv_code item \<Longrightarrow> dep_step db db'"
| step_submit: "op_by_id db i = Some p \<Longrightarrow> io_status p = ''DRAFT'' \<Longrightarrow> dep_step db (set_interest_op_case db i case_id)"
| step_begin: "op_by_id db i = Some p \<Longrightarrow>
    begin_interest_op_posting db i (io_savings p) (io_amount p) (io_type p = ''CAPITALIZE'') version today = (db', Inr u) \<Longrightarrow>
    dep_step db db'"
| step_compensate: "op_by_id db i = Some p \<Longrightarrow>
    compensate_interest_op db i (io_savings p) (io_amount p) (io_type p = ''CAPITALIZE'') = (db', Inr u) \<Longrightarrow>
    dep_step db db'"
| step_finish: "mark_interest_op_posted db i journal = (db', Inr u) \<Longrightarrow> dep_step db db'"
| step_reject: "op_by_id db i = Some p \<Longrightarrow> dep_step db (set_interest_op_status db i ''REJECTED'')"
| step_open: "create_savings pgd db s = (db', Inr s') \<Longrightarrow> dep_step db db'"
| step_record: "record_txn pgd db t = (db', Inr u) \<Longrightarrow> tx_type t \<noteq> ''TOP_UP_POSTED'' \<Longrightarrow> dep_step db db'"
| step_top_up: "top_up_savings pgd db item amount day entry actor key version = (db', Inr True) \<Longrightarrow> dep_step db db'"
| step_close: "close_savings db sid journal version = (db', Inr u) \<Longrightarrow> dep_step db db'"
| step_rate: "upsert_interest_rate pgd db tier = (db', Inr u) \<Longrightarrow> dep_step db db'"
| step_request: "create_rate_request db ty payload actor = (db', req) \<Longrightarrow> dep_step db db'"
| step_request_case: "dep_step db (set_rate_request_case db i case_id)"
| step_request_status: "set_rate_request_status db i status n = (db', Inr u) \<Longrightarrow> dep_step db db'"

abbreviation dep_steps :: "deposit_db \<Rightarrow> deposit_db \<Rightarrow> bool" where
  "dep_steps \<equiv> dep_step\<^sup>*\<^sup>*"

text \<open>
  The operations that a step marks REJECTED although they had taken their amount, and a run of steps
  with all of them in order.
\<close>

definition overwritten :: "deposit_db \<Rightarrow> deposit_db \<Rightarrow> interest_op list" where
  "overwritten db db' = [p \<leftarrow> db_ops db. is_taken (io_status p) \<and>
     (\<exists>q\<in>set (db_ops db'). io_id q = io_id p \<and> io_status q = ''REJECTED'')]"

inductive dep_run :: "deposit_db \<Rightarrow> interest_op list \<Rightarrow> deposit_db \<Rightarrow> bool" where
  run_start: "dep_run db [] db"
| run_step: "dep_run db ps db1 \<Longrightarrow> dep_step db1 db2 \<Longrightarrow> dep_run db (ps @ overwritten db1 db2) db2"

text \<open>The amounts of such operations on an account.\<close>

definition lost_interest :: "interest_op list \<Rightarrow> string \<Rightarrow> int" where
  "lost_interest ps sid = sum_list (map io_amount [p \<leftarrow> ps. io_savings p = sid])"

lemma lost_interest_simps [simp]:
  "lost_interest [] sid = 0" "lost_interest (p # ps) sid = (if io_savings p = sid then io_amount p else 0) + lost_interest ps sid"
  "lost_interest (ps @ qs) sid = lost_interest ps sid + lost_interest qs sid"
  by (simp_all add: lost_interest_def)

lemma steps_run: "dep_steps db db' \<Longrightarrow> \<exists>ps. dep_run db ps db'"
  by (induction rule: rtranclp_induct) (blast intro: dep_run.intros)+

lemma run_steps: "dep_run db ps db' \<Longrightarrow> dep_steps db db'"
  by (induction rule: dep_run.induct) auto

text \<open>What a step keeps.\<close>

definition keeps_interest :: "deposit_db \<Rightarrow> deposit_db \<Rightarrow> bool" where
  "keeps_interest db db' \<longleftrightarrow> dep_wf db' \<and> (\<forall>sid. interest_gap db' sid = interest_gap db sid)"

lemma dep_wf_ids:
  assumes "dep_wf db"
  shows "distinct (map ac_id (db_accruals db))" "distinct (map io_id (db_ops db))" "distinct (map sv_id (db_savings db))"
  using assms by (simp_all add: dep_wf_def)

lemma op_by_id_in: "op_by_id db i = Some p \<Longrightarrow> p \<in> set (db_ops db) \<and> io_id p = i"
  using find_Some_in [of "\<lambda>p. io_id p = i" "db_ops db" p] by (simp add: op_by_id_def)

lemma op_unique: "dep_wf db \<Longrightarrow> p \<in> set (db_ops db) \<Longrightarrow> q \<in> set (db_ops db) \<Longrightarrow> io_id p = io_id q \<Longrightarrow> p = q"
  using dep_wf_ids(2) [of db] by (auto simp: distinct_map inj_on_def)

lemma taken_set_op:
  assumes "dep_wf db" "p \<in> set (db_ops db)" "io_savings (f p) = io_savings p" "io_amount (f p) = io_amount p"
  shows "taken_interest (set_op (io_id p) f db) sid = taken_interest db sid +
    (if io_savings p = sid then (if is_taken (io_status (f p)) then io_amount p else 0) -
       (if is_taken (io_status p) then io_amount p else 0) else 0)"
  using sum_update [OF dep_wf_ids(2) [OF assms(1)] assms(2),
      of "\<lambda>p. if io_savings p = sid \<and> is_taken (io_status p) then io_amount p else 0" f] assms(3,4)
  unfolding taken_interest_def set_op_def by simp

lemma wf_set_op:
  assumes "dep_wf db" "\<And>p. io_id (f p) = io_id p" "\<And>p. io_savings (f p) = io_savings p"
    "\<And>p. io_code (f p) = io_code p" "\<And>p. io_amount (f p) = io_amount p"
  shows "dep_wf (set_op i f db)"
proof -
  have "map io_id (map (\<lambda>p. if io_id p = i then f p else p) xs) = map io_id xs" for xs
    using assms(2) by (induction xs) auto
  then show ?thesis using assms unfolding dep_wf_def set_op_def by (auto simp del: map_map)
qed

lemma keeps_set_op:
  assumes "dep_wf db" "p \<in> set (db_ops db)" "\<And>p. io_id (f p) = io_id p" "\<And>p. io_savings (f p) = io_savings p"
    "\<And>p. io_code (f p) = io_code p" "\<And>p. io_amount (f p) = io_amount p"
    and "is_taken (io_status (f p)) = is_taken (io_status p)"
  shows "keeps_interest db (set_op (io_id p) f db)"
proof -
  have "accrued_of (set_op (io_id p) f db) sid = accrued_of db sid"
    "posted_interest (set_op (io_id p) f db) sid = posted_interest db sid" for sid
    by (simp_all add: accrued_of_def posted_interest_def set_op_def)
  moreover have "taken_interest (set_op (io_id p) f db) sid = taken_interest db sid" for sid
    using taken_set_op [OF assms(1,2), of f sid] assms(4,6,7) by simp
  ultimately show ?thesis
    using wf_set_op [OF assms(1,3-6)] by (simp add: keeps_interest_def interest_gap_def)
qed

lemma accrued_set_savings:
  assumes "dep_wf db" "s \<in> set (db_savings db)" "sv_id (f s) = sv_id s"
  shows "accrued_of (set_savings (sv_id s) f db) sid =
    accrued_of db sid + (if sv_id s = sid then sv_accrued (f s) - sv_accrued s else 0)"
  using sum_update [OF dep_wf_ids(3) [OF assms(1)] assms(2), of "\<lambda>s. if sv_id s = sid then sv_accrued s else 0" f] assms(3)
  unfolding accrued_of_def set_savings_def by simp

lemma wf_set_savings:
  assumes "dep_wf db" "\<And>s. sv_id (f s) = sv_id s" "\<And>s. sv_code (f s) = sv_code s"
    and "\<And>s. s \<in> set (db_savings db) \<Longrightarrow> sv_id s = i \<Longrightarrow> 0 \<le> sv_accrued (f s)"
  shows "dep_wf (set_savings i f db)"
proof -
  let ?g = "\<lambda>s. if sv_id s = i then f s else s"
  have g: "map sv_id (map ?g xs) = map sv_id xs" "map sv_code (map ?g xs) = map sv_code xs" for xs
    using assms(2,3) by (induction xs) auto
  have ex0: "(\<exists>s\<in>set (map ?g xs). sv_id s = x \<and> sv_code s = y) \<longleftrightarrow> (\<exists>s\<in>set xs. sv_id s = x \<and> sv_code s = y)" for x y xs
    by (induction xs) (auto simp: assms(2,3))
  note ex = ex0 [of "db_savings db"]
  have nn: "\<forall>s\<in>set (map ?g (db_savings db)). 0 \<le> sv_accrued s"
    using assms(1,4) by (auto simp: dep_wf_def)
  show ?thesis
    using assms(1) nn unfolding dep_wf_def set_savings_def by (auto simp: g ex simp del: map_map set_map)
qed

lemma keeps_trans: "keeps_interest a b \<Longrightarrow> keeps_interest b c \<Longrightarrow> keeps_interest a c"
  by (simp add: keeps_interest_def)

lemma keeps_refl: "dep_wf db \<Longrightarrow> keeps_interest db db"
  by (simp add: keeps_interest_def)

section \<open>Every transaction keeps what is owed\<close>

lemma keeps_stage:
  assumes "dep_wf db" "create_accrual db a = (db', Some row)" "0 < ac_amount a"
  shows "keeps_interest db db'"
proof -
  have row: "row = a\<lparr>ac_id := length (db_accruals db), ac_status := ''PENDING'', ac_journal := None\<rparr>"
    "db' = db\<lparr>db_accruals := db_accruals db @ [row]\<rparr>"
    using assms(2) by (auto simp: create_accrual_def Let_def split: if_splits)
  have "dep_wf db'" using assms(1,3) unfolding dep_wf_def row(2) by (auto simp: row(1))
  moreover have "interest_gap db' sid = interest_gap db sid" for sid
    by (simp add: interest_gap_def accrued_of_def posted_interest_def taken_interest_def row)
  ultimately show ?thesis by (simp add: keeps_interest_def)
qed

lemma keeps_book:
  assumes "dep_wf db" "mark_accrual_posted db i j = (db', Inr u)"
  shows "keeps_interest db db'"
proof (cases "db' = db")
  case True
  then show ?thesis using keeps_refl [OF assms(1)] by simp
next
  case False
  then obtain a s where a: "find (\<lambda>a. ac_id a = i) (db_accruals db) = Some a" "ac_status a \<noteq> ''POSTED''"
    and s: "find (\<lambda>s. sv_id s = ac_savings a \<and> sv_status s = ''ACTIVE'') (db_savings db) = Some s"
    and db': "db' = set_savings (sv_id s) (\<lambda>s. s\<lparr>sv_accrued := sv_accrued s + ac_amount a, sv_version := sv_version s + 1\<rparr>)
        (set_accrual i (\<lambda>a. a\<lparr>ac_status := ''POSTED'', ac_journal := null_if_empty j\<rparr>) db)"
    using assms(2)
    by (auto simp: mark_accrual_posted_def set_accrual_def Let_def split: option.splits if_splits)
  let ?flip = "\<lambda>a. a\<lparr>ac_status := ''POSTED'', ac_journal := null_if_empty j\<rparr>"
  let ?pay = "\<lambda>s. s\<lparr>sv_accrued := sv_accrued s + ac_amount a, sv_version := sv_version s + 1\<rparr>"
  let ?db1 = "set_accrual i ?flip db"
  have am: "a \<in> set (db_accruals db)" "ac_id a = i" using find_Some_in [OF a(1)] by simp_all
  have sm: "s \<in> set (db_savings db)" "sv_id s = ac_savings a" using find_key_P [OF s] by simp_all
  have ids: "map ac_id (map (\<lambda>a. if ac_id a = i then ?flip a else a) xs) = map ac_id xs" for xs by (induction xs) auto
  have wf1: "dep_wf ?db1" using assms(1) unfolding dep_wf_def set_accrual_def by (auto simp: ids simp del: map_map)
  have posted: "posted_interest ?db1 sid = posted_interest db sid + (if ac_savings a = sid then ac_amount a else 0)" for sid
    using sum_update [OF dep_wf_ids(1) [OF assms(1)] am(1),
        of "\<lambda>a. if ac_savings a = sid \<and> ac_status a = ''POSTED'' then ac_amount a else 0" ?flip] a(2)
    unfolding posted_interest_def set_accrual_def am(2) by simp
  have sv: "db_savings ?db1 = db_savings db" by (simp add: set_accrual_def)
  have sm1: "s \<in> set (db_savings ?db1)" unfolding sv by (rule sm(1))
  have acc: "accrued_of db' sid = accrued_of ?db1 sid + (if sv_id s = sid then ac_amount a else 0)" for sid
    unfolding db' using accrued_set_savings [OF wf1 sm1, of ?pay sid] by simp
  have pos: "0 < ac_amount a" using assms(1) am(1) by (simp add: dep_wf_def)
  have "dep_wf db'" unfolding db' by (rule wf_set_savings [OF wf1]) (use wf1 pos in \<open>auto simp: dep_wf_def\<close>)
  moreover have "interest_gap db' sid = interest_gap db sid" for sid
  proof -
    have "posted_interest db' sid = posted_interest ?db1 sid" "taken_interest db' sid = taken_interest db sid"
      "accrued_of ?db1 sid = accrued_of db sid"
      unfolding db' by (simp_all add: posted_interest_def taken_interest_def accrued_of_def set_savings_def set_accrual_def)
    then show ?thesis using acc posted sm(2) by (simp add: interest_gap_def)
  qed
  ultimately show ?thesis by (simp add: keeps_interest_def)
qed

lemma keeps_propose:
  assumes "dep_wf db" "create_interest_op db item ty amount actor today = (db', Inr row)"
    and "s \<in> set (db_savings db)" "sv_id s = sv_id item" "sv_code s = sv_code item"
  shows "keeps_interest db db'"
proof -
  have row: "row = \<lparr>io_id = length (db_ops db), io_savings = sv_id item, io_code = sv_code item, io_type = ty,
      io_amount = amount, io_status = ''DRAFT'', io_effective = None, io_case = None, io_journal = None,
      io_actor = actor, io_created = today\<rparr>" "db' = db\<lparr>db_ops := db_ops db @ [row]\<rparr>" "0 < amount"
    using assms(2) by (auto simp: create_interest_op_def Let_def split: if_splits)
  have "dep_wf db'" using assms(1,3-5) row(3) unfolding dep_wf_def row(2) by (auto simp: row(1))
  moreover have "interest_gap db' sid = interest_gap db sid" for sid
    by (simp add: interest_gap_def accrued_of_def posted_interest_def taken_interest_def row is_taken_def)
  ultimately show ?thesis by (simp add: keeps_interest_def)
qed

text \<open>Moving an op and the account together: what the op takes, the account loses.\<close>

lemma keeps_op_and_savings:
  assumes "dep_wf db" "p \<in> set (db_ops db)" "s \<in> set (db_savings db)" "sv_id s = io_savings p"
    and "\<And>p. io_id (f p) = io_id p" "\<And>p. io_savings (f p) = io_savings p" "\<And>p. io_code (f p) = io_code p"
    "\<And>p. io_amount (f p) = io_amount p"
    and "\<And>s. sv_id (g s) = sv_id s" "\<And>s. sv_code (g s) = sv_code s" "0 \<le> sv_accrued (g s)"
    and "sv_accrued (g s) - sv_accrued s =
      (if is_taken (io_status p) then io_amount p else 0) - (if is_taken (io_status (f p)) then io_amount p else 0)"
  shows "keeps_interest db (set_savings (io_savings p) g (set_op (io_id p) f db))"
proof -
  let ?db1 = "set_op (io_id p) f db"
  have wf1: "dep_wf ?db1" by (rule wf_set_op [OF assms(1,5-8)])
  have sv: "db_savings ?db1 = db_savings db" by (simp add: set_op_def)
  have sm: "s \<in> set (db_savings ?db1)" unfolding sv by (rule assms(3))
  have uniq: "x = s" if "x \<in> set (db_savings ?db1)" "sv_id x = io_savings p" for x
    using that assms(3,4) dep_wf_ids(3) [OF assms(1)] unfolding sv by (auto simp: distinct_map inj_on_def)
  have "dep_wf (set_savings (io_savings p) g ?db1)"
  proof (rule wf_set_savings [OF wf1 assms(9,10)])
    fix x assume "x \<in> set (db_savings ?db1)" "sv_id x = io_savings p"
    then have "x = s" by (rule uniq)
    then show "0 \<le> sv_accrued (g x)" using assms(11) by simp
  qed
  moreover have "interest_gap (set_savings (io_savings p) g ?db1) sid = interest_gap db sid" for sid
  proof -
    have "accrued_of (set_savings (io_savings p) g ?db1) sid =
        accrued_of ?db1 sid + (if io_savings p = sid then sv_accrued (g s) - sv_accrued s else 0)"
      using accrued_set_savings [OF wf1 sm, of g sid] assms(4,9) by simp
    moreover have "accrued_of ?db1 sid = accrued_of db sid" "posted_interest (set_savings (io_savings p) g ?db1) sid = posted_interest db sid"
      "taken_interest (set_savings (io_savings p) g ?db1) sid = taken_interest ?db1 sid"
      by (simp_all add: accrued_of_def posted_interest_def taken_interest_def set_op_def set_savings_def)
    moreover note taken_set_op [OF assms(1,2), where f = f, OF assms(6) assms(8), of sid]
    ultimately show ?thesis using assms(12) by (simp add: interest_gap_def)
  qed
  ultimately show ?thesis by (simp add: keeps_interest_def)
qed

lemma keeps_begin:
  assumes "dep_wf db" "op_by_id db i = Some p"
    and "begin_interest_op_posting db i (io_savings p) (io_amount p) cap version today = (db', Inr u)"
  shows "keeps_interest db db'"
proof -
  note p = op_by_id_in [OF assms(2)]
  obtain q s where q: "find (\<lambda>p. io_id p = i \<and> io_status p = ''SUBMITTED'') (db_ops db) = Some q"
    and s: "s \<in> set (db_savings db)" "sv_id s = io_savings p" "io_amount p \<le> sv_accrued s"
    and db': "db' = set_savings (io_savings p) (\<lambda>s. s\<lparr>sv_accrued := sv_accrued s - io_amount p,
        sv_principal := (if cap then sv_principal s + io_amount p else sv_principal s), sv_version := sv_version s + 1\<rparr>)
        (set_op i (\<lambda>p. p\<lparr>io_status := ''POSTING'', io_effective := Some today\<rparr>) db)"
    using assms(3) unfolding begin_interest_op_posting_def Let_def
    by (auto simp: set_op_def dest!: find_Some_in split: option.splits if_splits)
  have "q = p" using find_key_P [OF q] p op_unique [OF assms(1)] by metis
  then have st: "io_status p = ''SUBMITTED''" using find_key_P [OF q] by simp
  have i: "i = io_id p" using p by simp
  show ?thesis
    unfolding db' i
    by (rule keeps_op_and_savings [OF assms(1) conjunct1 [OF p] s(1,2)])
      (use s(3) st in \<open>simp_all add: is_taken_def\<close>)
qed

lemma keeps_compensate:
  assumes "dep_wf db" "op_by_id db i = Some p"
    and "compensate_interest_op db i (io_savings p) (io_amount p) cap = (db', Inr u)"
  shows "keeps_interest db db'"
proof -
  note p = op_by_id_in [OF assms(2)]
  obtain q where q: "find (\<lambda>p. io_id p = i \<and> io_status p = ''POSTING'') (db_ops db) = Some q"
    and db': "db' = set_savings (io_savings p) (\<lambda>s. s\<lparr>sv_accrued := sv_accrued s + io_amount p,
        sv_principal := (if cap then max (sv_principal s - io_amount p) 0 else sv_principal s),
        sv_version := sv_version s + 1\<rparr>) (set_op i (\<lambda>p. p\<lparr>io_status := ''SUBMITTED''\<rparr>) db)"
    using assms(3) unfolding compensate_interest_op_def Let_def by (auto split: option.splits if_splits)
  have "q = p" using find_key_P [OF q] p op_unique [OF assms(1)] by metis
  then have st: "io_status p = ''POSTING''" using find_key_P [OF q] by simp
  obtain s where s: "s \<in> set (db_savings db)" "sv_id s = io_savings p" using assms(1) p by (auto simp: dep_wf_def)
  have nn: "0 \<le> sv_accrued s" "0 < io_amount p" using assms(1) p s by (auto simp: dep_wf_def)
  have i: "i = io_id p" using p by simp
  show ?thesis
    unfolding db' i
    by (rule keeps_op_and_savings [OF assms(1) conjunct1 [OF p] s])
      (use nn st in \<open>simp_all add: is_taken_def\<close>)
qed

lemma keeps_finish:
  assumes "dep_wf db" "mark_interest_op_posted db i j = (db', Inr u)"
  shows "keeps_interest db db'"
proof (cases "find (\<lambda>p. io_id p = i \<and> io_status p = ''POSTING'') (db_ops db)")
  case None
  then have "db' = db" using assms(2) by (auto simp: mark_interest_op_posted_def split: option.splits if_splits)
  then show ?thesis using keeps_refl [OF assms(1)] by simp
next
  case (Some q)
  note q = find_key_P [OF Some]
  have db': "db' = set_op (io_id q) (\<lambda>p. p\<lparr>io_status := ''POSTED'', io_journal := null_if_empty j\<rparr>) db"
    using assms(2) Some q by (simp add: mark_interest_op_posted_def)
  show ?thesis unfolding db' by (rule keeps_set_op [OF assms(1)]) (use q in \<open>simp_all add: is_taken_def\<close>)
qed

lemma keeps_status:
  assumes "dep_wf db" "op_by_id db i = Some p" "\<not> is_taken (io_status p)"
  shows "keeps_interest db (set_interest_op_case db i c)"
    and "keeps_interest db (set_interest_op_status db i ''REJECTED'')"
proof -
  note p = op_by_id_in [OF assms(2)]
  have i: "i = io_id p" using p by simp
  show "keeps_interest db (set_interest_op_case db i c)"
    unfolding set_interest_op_case_def i by (rule keeps_set_op [OF assms(1)]) (use p assms(3) in \<open>simp_all add: is_taken_def\<close>)
  show "keeps_interest db (set_interest_op_status db i ''REJECTED'')"
    unfolding set_interest_op_status_def i by (rule keeps_set_op [OF assms(1)]) (use p assms(3) in \<open>simp_all add: is_taken_def\<close>)
qed

text \<open>Changing a savings but not its accrued balance.\<close>

lemma keeps_set_savings:
  assumes "dep_wf db" "\<And>s. sv_id (f s) = sv_id s" "\<And>s. sv_code (f s) = sv_code s" "\<And>s. sv_accrued (f s) = sv_accrued s"
  shows "keeps_interest db (set_savings i f db)"
proof -
  have "dep_wf (set_savings i f db)"
    by (rule wf_set_savings [OF assms(1-3)]) (use assms(1,4) in \<open>auto simp: dep_wf_def\<close>)
  moreover have "sum_list (map (\<lambda>s. if sv_id s = sid then sv_accrued s else 0) (map (\<lambda>s. if sv_id s = i then f s else s) xs)) =
      sum_list (map (\<lambda>s. if sv_id s = sid then sv_accrued s else 0) xs)" for sid xs
    by (induction xs) (auto simp: assms(2,4))
  ultimately show ?thesis
    by (simp add: keeps_interest_def interest_gap_def accrued_of_def posted_interest_def taken_interest_def set_savings_def
        del: map_map)
qed

lemma keeps_open:
  assumes "dep_wf db" "create_savings pgd db s = (db', Inr s')"
  shows "keeps_interest db db'"
proof -
  obtain row where row: "db' = db\<lparr>db_savings := db_savings db @ [row]\<rparr>" "sv_accrued row = 0"
    "\<forall>x\<in>set (db_savings db). sv_id x \<noteq> sv_id row \<and> sv_code x \<noteq> sv_code row"
    using assms(2) by (auto simp: create_savings_def split: option.splits if_splits)
  have "dep_wf db'" using assms(1) row(2,3) unfolding dep_wf_def row(1) by (auto simp: image_iff)
  then show ?thesis
    by (auto simp: keeps_interest_def interest_gap_def accrued_of_def posted_interest_def taken_interest_def row)
qed

lemma keeps_txns:
  assumes "dep_wf db"
  shows "keeps_interest db (db\<lparr>db_txns := ts\<rparr>)"
  using assms
  by (simp add: keeps_interest_def interest_gap_def accrued_of_def posted_interest_def taken_interest_def dep_wf_def)

lemma keeps_record: "dep_wf db \<Longrightarrow> record_txn pgd db t = (db', r) \<Longrightarrow> keeps_interest db db'"
  using keeps_txns keeps_refl by (fastforce simp: record_txn_def split: option.splits if_splits)

lemma keeps_close: "dep_wf db \<Longrightarrow> close_savings db sid j version = (db', r) \<Longrightarrow> keeps_interest db db'"
  using keeps_refl by (auto simp: close_savings_def intro!: keeps_set_savings split: option.splits)

lemma keeps_top_up:
  assumes "dep_wf db" "top_up_savings pgd db item amount day entry actor key version = (db', r)"
  shows "keeps_interest db db'"
proof -
  have "db' = db \<or> (\<exists>ts. db' = set_savings (sv_id item)
      (\<lambda>s. s\<lparr>sv_principal := sv_principal s + amount, sv_version := sv_version s + 1\<rparr>) (db\<lparr>db_txns := ts\<rparr>))"
    using assms(2) by (auto simp: top_up_savings_def split: option.splits if_splits)
  then show ?thesis
  proof
    assume "\<exists>ts. db' = set_savings (sv_id item)
      (\<lambda>s. s\<lparr>sv_principal := sv_principal s + amount, sv_version := sv_version s + 1\<rparr>) (db\<lparr>db_txns := ts\<rparr>)"
    then obtain ts where db': "db' = set_savings (sv_id item)
      (\<lambda>s. s\<lparr>sv_principal := sv_principal s + amount, sv_version := sv_version s + 1\<rparr>) (db\<lparr>db_txns := ts\<rparr>)" by blast
    have k: "keeps_interest db (db\<lparr>db_txns := ts\<rparr>)" by (rule keeps_txns [OF assms(1)])
    then have "dep_wf (db\<lparr>db_txns := ts\<rparr>)" by (simp add: keeps_interest_def)
    then show ?thesis unfolding db' by (intro keeps_trans [OF k] keeps_set_savings) simp_all
  qed (simp add: keeps_refl assms(1))
qed

text \<open>The rates and the requests are not part of what is owed.\<close>

lemma rate_rows:
  "upsert_interest_rate pgd db tier = (db', r) \<Longrightarrow> db' = db\<lparr>db_rates := db_rates db'\<rparr>"
  "create_rate_request db ty payload actor = (db', req) \<Longrightarrow> db' = db\<lparr>db_rate_requests := db_rate_requests db'\<rparr>"
  "set_rate_request_status db i status n = (db', r) \<Longrightarrow> db' = db\<lparr>db_rate_requests := db_rate_requests db'\<rparr>"
  "set_rate_request_case db i case_id =
    db\<lparr>db_rate_requests := db_rate_requests (set_rate_request_case db i case_id)\<rparr>"
  by (auto simp: upsert_interest_rate_def create_rate_request_def Let_def set_rate_request_status_def set_rate_request_case_def
      set_request_def split: option.splits if_splits)

lemma keeps_rates: "dep_wf db \<Longrightarrow> keeps_interest db (db\<lparr>db_rates := rs\<rparr>)"
  and keeps_requests: "dep_wf db \<Longrightarrow> keeps_interest db (db\<lparr>db_rate_requests := qs\<rparr>)"
  by (simp_all add: keeps_interest_def interest_gap_def accrued_of_def posted_interest_def taken_interest_def dep_wf_def)

lemma step_keeps:
  "dep_step db db' \<Longrightarrow> dep_wf db \<Longrightarrow>
   keeps_interest db db' \<or> (\<exists>i p. op_by_id db i = Some p \<and> db' = set_interest_op_status db i ''REJECTED'')"
proof (induction rule: dep_step.induct)
  case (step_submit db i p c)
  then show ?case using keeps_status(1) [OF step_submit(3,1), of c] by (simp add: is_taken_def)
next
  case (step_rate pgd db tier db' u)
  then show ?case using keeps_rates rate_rows(1) by metis
next
  case (step_request db ty payload actor db' req)
  then show ?case using keeps_requests rate_rows(2) by metis
next
  case (step_request_case db i case_id)
  then show ?case using keeps_requests rate_rows(4) by metis
next
  case (step_request_status db i status n db' u)
  then show ?case using keeps_requests rate_rows(3) by metis
qed (auto intro: keeps_stage keeps_book keeps_propose keeps_begin keeps_compensate keeps_finish
    keeps_open keeps_record keeps_top_up keeps_close)

section \<open>Rejections\<close>

text \<open>Apart from a rejection, no step marks an operation REJECTED.\<close>

definition no_rejection :: "deposit_db \<Rightarrow> deposit_db \<Rightarrow> bool" where
  "no_rejection db db' \<longleftrightarrow> (\<forall>q\<in>set (db_ops db'). io_status q = ''REJECTED'' \<longrightarrow> q \<in> set (db_ops db))"

lemma no_rejection_set_op:
  "(\<And>p. io_status (f p) \<noteq> ''REJECTED'') \<Longrightarrow> no_rejection db (set_op i f db)"
  by (auto simp: no_rejection_def set_op_def split: if_splits)

lemma no_rejection_same: "db_ops db' = db_ops db \<Longrightarrow> no_rejection db db'"
  by (simp add: no_rejection_def)

lemma no_rejection_savings: "no_rejection db db' \<Longrightarrow> no_rejection db (set_savings i f db')"
  by (simp add: no_rejection_def set_savings_def)

lemma step_rejections:
  "dep_step db db' \<Longrightarrow>
   no_rejection db db' \<or> (\<exists>i p. op_by_id db i = Some p \<and> db' = set_interest_op_status db i ''REJECTED'')"
proof (induction rule: dep_step.induct)
  case (step_propose db item ty amount actor today db' row s)
  then show ?case by (auto simp: no_rejection_def create_interest_op_def Let_def split: if_splits)
next
  case (step_submit db i p case_id)
  then show ?case unfolding set_interest_op_case_def by (intro disjI1 no_rejection_set_op) simp
next
  case (step_begin db i p version today db' u)
  then show ?case
    by (auto simp: begin_interest_op_posting_def Let_def intro!: no_rejection_savings no_rejection_set_op
        split: option.splits if_splits)
next
  case (step_compensate db i p db' u)
  then show ?case
    by (auto simp: compensate_interest_op_def Let_def intro!: no_rejection_savings no_rejection_set_op
        split: option.splits if_splits)
next
  case (step_finish db i j db' u)
  then show ?case
    by (auto simp: mark_interest_op_posted_def intro!: no_rejection_same no_rejection_set_op split: option.splits if_splits)
next
  case (step_rate pgd db tier db' u)
  have "db_ops db' = db_ops db" by (subst rate_rows(1) [OF step_rate]) simp
  then show ?case by (intro disjI1 no_rejection_same)
next
  case (step_request db ty payload actor db' req)
  have "db_ops db' = db_ops db" by (subst rate_rows(2) [OF step_request]) simp
  then show ?case by (intro disjI1 no_rejection_same)
next
  case (step_request_case db i case_id)
  then show ?case by (simp add: no_rejection_same set_rate_request_case_def set_request_def)
next
  case (step_request_status db i status n db' u)
  have "db_ops db' = db_ops db" by (subst rate_rows(3) [OF step_request_status]) simp
  then show ?case by (intro disjI1 no_rejection_same)
qed (auto simp: no_rejection_def create_accrual_def mark_accrual_posted_def create_savings_def record_txn_def top_up_savings_def
    close_savings_def set_savings_def set_accrual_def Let_def split: option.splits if_splits)

lemma overwritten_none: "dep_wf db \<Longrightarrow> no_rejection db db' \<Longrightarrow> overwritten db db' = []"
  using op_unique [of db] by (fastforce simp: overwritten_def no_rejection_def filter_empty_conv is_taken_def)

lemma filter_one: "distinct xs \<Longrightarrow> p \<in> set xs \<Longrightarrow> filter (\<lambda>x. x = p) xs = [p]"
  by (induction xs) (auto simp: filter_empty_conv)

lemma overwritten_reject:
  assumes "dep_wf db" "op_by_id db i = Some p"
  shows "overwritten db (set_interest_op_status db i ''REJECTED'') = (if is_taken (io_status p) then [p] else [])"
proof -
  note p = op_by_id_in [OF assms(2)]
  let ?f = "\<lambda>p. if io_id p = i then p\<lparr>io_status := ''REJECTED''\<rparr> else p"
  have "(\<exists>q\<in>set (map ?f (db_ops db)). io_id q = io_id x \<and> io_status q = ''REJECTED'') \<longleftrightarrow> x = p"
    if x: "x \<in> set (db_ops db)" "is_taken (io_status x)" for x
  proof
    assume "\<exists>q\<in>set (map ?f (db_ops db)). io_id q = io_id x \<and> io_status q = ''REJECTED''"
    then obtain y where y: "y \<in> set (db_ops db)" "io_id y = io_id x" "io_id y = i \<or> io_status y = ''REJECTED''"
      by (auto split: if_splits)
    have "y = x" by (rule op_unique [OF assms(1) y(1) x(1) y(2)])
    then have "io_id x = i" using y(3) x(2) by (auto simp: is_taken_def)
    then show "x = p" using op_unique [OF assms(1) x(1)] p by simp
  next
    assume "x = p"
    then show "\<exists>q\<in>set (map ?f (db_ops db)). io_id q = io_id x \<and> io_status q = ''REJECTED''"
      using p by (intro bexI [of _ "?f p"]) auto
  qed
  then have "overwritten db (set_interest_op_status db i ''REJECTED'') = [x \<leftarrow> db_ops db. x = p \<and> is_taken (io_status p)]"
    unfolding overwritten_def set_interest_op_status_def set_op_def by (auto intro!: filter_cong simp del: set_map)
  moreover have "distinct (db_ops db)" using dep_wf_ids(2) [OF assms(1)] by (simp add: distinct_map)
  ultimately show ?thesis using filter_one [of "db_ops db" p] p by auto
qed

lemma step_effect:
  assumes "dep_step db db'" "dep_wf db"
  shows "dep_wf db' \<and> (\<forall>sid. interest_gap db' sid = interest_gap db sid - lost_interest (overwritten db db') sid)"
proof -
  consider (quiet) "keeps_interest db db'" "no_rejection db db'"
    | (reject) i p where "op_by_id db i = Some p" "db' = set_interest_op_status db i ''REJECTED''"
    using step_keeps [OF assms] step_rejections [OF assms(1)] by blast
  then show ?thesis
  proof cases
    case quiet
    then show ?thesis using overwritten_none [OF assms(2)] by (simp add: keeps_interest_def)
  next
    case reject
    note p = op_by_id_in [OF reject(1)]
    have "dep_wf db'" unfolding reject(2) set_interest_op_status_def by (rule wf_set_op [OF assms(2)]) simp_all
    moreover have "lost_interest (overwritten db db') sid = (if is_taken (io_status p) \<and> io_savings p = sid then io_amount p else 0)" for sid
      using overwritten_reject [OF assms(2) reject(1)] reject(2) by simp
    moreover have "taken_interest db' sid = taken_interest db sid -
        (if is_taken (io_status p) \<and> io_savings p = sid then io_amount p else 0)" for sid
      using taken_set_op [OF assms(2) conjunct1 [OF p], of "\<lambda>p. p\<lparr>io_status := ''REJECTED''\<rparr>" sid] p
      unfolding reject(2) set_interest_op_status_def by (simp add: is_taken_def)
    moreover have "accrued_of db' sid = accrued_of db sid" "posted_interest db' sid = posted_interest db sid" for sid
      by (simp_all add: reject(2) set_interest_op_status_def accrued_of_def posted_interest_def set_op_def)
    ultimately show ?thesis by (simp add: interest_gap_def)
  qed
qed

lemma run_effect:
  "dep_run db ps db' \<Longrightarrow> dep_wf db \<Longrightarrow>
   dep_wf db' \<and> (\<forall>sid. interest_gap db' sid = interest_gap db sid - lost_interest ps sid)"
  by (induction rule: dep_run.induct) (use step_effect in \<open>fastforce+\<close>)

section \<open>The service calls are sequences of transactions\<close>

lemma step_wf: "dep_steps db db' \<Longrightarrow> dep_wf db \<Longrightarrow> dep_wf db'"
  using steps_run run_effect by blast

lemma mark_steps: "mark_accrual_posted db i j = (db', r) \<Longrightarrow> dep_steps db db'"
proof (cases r)
  case (Inl e)
  moreover assume "mark_accrual_posted db i j = (db', r)"
  ultimately have "db' = db" by (auto simp: mark_accrual_posted_def Let_def split: option.splits if_splits)
  then show ?thesis by simp
next
  case (Inr u)
  moreover assume "mark_accrual_posted db i j = (db', r)"
  ultimately show ?thesis using step_book [of db i j db' u] by auto
qed

lemma complete_accrual_steps: "complete_accrual gl db item a = (db', r) \<Longrightarrow> dep_steps db db'"
  using complete_accrual_marks mark_steps by blast

lemma complete_pending_steps: "complete_pending n gl db item p = (db', q, r) \<Longrightarrow> dep_steps db db'"
proof (induction n arbitrary: db p)
  case (Suc n)
  show ?case
  proof (cases "first_pending_accrual db (sv_id item)")
    case (Some a)
    obtain db1 r1 where c: "complete_accrual gl db item a = (db1, r1)" by fastforce
    note s = complete_accrual_steps [OF c]
    show ?thesis
    proof (cases r1)
      case (Inr u)
      then have "complete_pending n gl db1 item (p + 1) = (db', q, r)" using Suc.prems Some c by simp
      from Suc.IH [OF this] s show ?thesis by (rule rtranclp_trans [rotated])
    qed (use Suc.prems Some c s in auto)
  qed (use Suc.prems in simp)
qed simp

lemma plan_stage_positive: "plan_accrual dr rt db item d b = Inr (Stage a) \<Longrightarrow> 0 < ac_amount a"
  by (auto simp: plan_accrual_def Let_def split: option.splits sum.splits if_splits)

lemma create_accrual_steps:
  assumes "create_accrual db a = (db', r)" "0 < ac_amount a"
  shows "dep_steps db db'"
proof (cases r)
  case None
  then show ?thesis using assms(1) by (auto simp: create_accrual_def Let_def split: if_splits)
next
  case (Some row)
  then show ?thesis using step_stage [of db a db' row] assms by auto
qed

lemma run_items_steps: "run_items gl dr rt d b items db p sk = (db', q, e) \<Longrightarrow> dep_steps db db'"
proof (induction items arbitrary: db p sk)
  case (Cons item items)
  obtain db1 p1 r1 where cp: "complete_pending (Suc (length (db_accruals db))) gl db item p = (db1, p1, r1)"
    by (metis prod_cases3)
  note s1 = complete_pending_steps [OF cp]
  have rest: "dep_steps db1 db'" if "r1 = Inr ()"
  proof (cases "plan_accrual dr rt db1 item d b")
    case (Inl err)
    then show ?thesis using Cons.prems cp that by simp
  next
    case (Inr pl)
    show ?thesis
    proof (cases pl)
      case (Stage a)
      note pos = plan_stage_positive [OF Inr [unfolded Stage]]
      obtain db2 r2 where cr: "create_accrual db1 a = (db2, r2)" by fastforce
      note s2 = create_accrual_steps [OF cr pos]
      show ?thesis
      proof (cases r2)
        case None
        then have "run_items gl dr rt d b items db2 p1 sk = (db', q, e)" using Cons.prems cp that Inr Stage cr by simp
        from Cons.IH [OF this] s2 show ?thesis by (rule rtranclp_trans [rotated])
      next
        case (Some row)
        obtain db3 r3 where cm: "complete_accrual gl db2 item row = (db3, r3)" by fastforce
        note s3 = rtranclp_trans [OF s2 complete_accrual_steps [OF cm]]
        show ?thesis
        proof (cases r3)
          case (Inl err)
          then show ?thesis using Cons.prems cp that Inr Stage cr Some cm s3 by auto
        next
          case (Inr u)
          then have "run_items gl dr rt d b items db3 (p1 + 1) sk = (db', q, e)"
            using Cons.prems cp that \<open>plan_accrual dr rt db1 item d b = Inr pl\<close> Stage cr Some cm by simp
          from Cons.IH [OF this] s3 show ?thesis by (rule rtranclp_trans [rotated])
        qed
      qed
    qed (use Cons.prems cp that Inr Cons.IH in auto)
  qed
  show ?case
  proof (cases r1)
    case (Inl err)
    then have "db' = db1" using Cons.prems cp by (cases err) auto
    then show ?thesis using s1 by simp
  next
    case (Inr u)
    then show ?thesis using rtranclp_trans [OF s1 rest] by simp
  qed
qed simp

lemma run_daily_steps: "dep_steps db (fst (run_daily gl dr rt db day))"
proof (cases "parse_iso day")
  case (Some b)
  obtain db' q e where "run_items gl dr rt day b (active_savings db) db 0 [] = (db', q, e)" by (metis prod_cases3)
  then show ?thesis using Some run_items_steps by (simp add: run_daily_def)
qed (simp add: run_daily_def)

lemma find_snoc: "\<forall>x\<in>set xs. \<not> P x \<Longrightarrow> P row \<Longrightarrow> find P (xs @ [row]) = Some row"
  by (induction xs) auto

text \<open>A proposed op is the last row, in DRAFT, and the rest of the database is untouched.\<close>

lemma create_op_row:
  assumes "dep_wf db" "create_interest_op db item ty amount actor today = (db', Inr row)"
  shows "io_id row = length (db_ops db)" "io_status row = ''DRAFT''" "op_by_id db' (io_id row) = Some row"
    "db_ops db' = db_ops db @ [row]" "db_savings db' = db_savings db"
proof -
  show *: "io_id row = length (db_ops db)" "io_status row = ''DRAFT''" "db_ops db' = db_ops db @ [row]"
    "db_savings db' = db_savings db"
    using assms(2) by (auto simp: create_interest_op_def Let_def split: if_splits)
  have "\<forall>p\<in>set (db_ops db). io_id p \<noteq> length (db_ops db)"
    using assms(1) unfolding dep_wf_def by (metis atLeast0LessThan image_eqI less_irrefl list.set_map lessThan_iff set_upt)
  then show "op_by_id db' (io_id row) = Some row" using * by (simp add: op_by_id_def find_snoc)
qed

lemma savings_by_code_in: "savings_by_code db c = Some s \<Longrightarrow> s \<in> set (db_savings db) \<and> sv_code s = c"
  using find_Some_in [of "\<lambda>s. sv_code s = c" "db_savings db" s] by (simp add: savings_by_code_def)

lemma create_op_steps:
  assumes "create_interest_op db item ty amount actor today = (db', r)" "item \<in> set (db_savings db)"
  shows "dep_steps db db'"
proof (cases r)
  case (Inl e)
  then show ?thesis using assms(1) by (auto simp: create_interest_op_def Let_def split: if_splits)
next
  case (Inr row)
  then show ?thesis using step_propose [of db item ty amount actor today db' row item] assms by auto
qed

lemma start_case_steps:
  assumes "start_interest_case wfs db ty i = (db', r)" "op_by_id db i = Some p" "io_status p = ''DRAFT''"
  shows "dep_steps db db'"
  using assms step_submit [OF assms(2,3)]
  by (auto simp: start_interest_case_def split: sum.splits)

text \<open>A batch: the staged rows are drafts with different numbers, so each is submitted once.\<close>

definition drafts :: "deposit_db \<Rightarrow> nat list \<Rightarrow> bool" where
  "drafts db ids \<longleftrightarrow> distinct ids \<and> (\<forall>i\<in>set ids. \<exists>p. op_by_id db i = Some p \<and> io_status p = ''DRAFT'')"

lemma op_by_id_append: "op_by_id db i = Some p \<Longrightarrow> op_by_id (db\<lparr>db_ops := db_ops db @ qs\<rparr>) i = Some p"
proof -
  have "find P xs = Some p \<Longrightarrow> find P (xs @ qs) = Some p" for P and xs :: "interest_op list"
    by (induction xs) (auto split: if_splits)
  then show "op_by_id db i = Some p \<Longrightarrow> ?thesis" by (simp add: op_by_id_def)
qed

lemma stage_batch_steps:
  assumes "stage_batch db actor today items ids = (db', r)" "dep_wf db" "drafts db ids"
    and "set items \<subseteq> set (db_savings db)"
  shows "dep_steps db db' \<and> (\<forall>ids'. r = Inr ids' \<longrightarrow> drafts db' ids')"
  using assms
proof (induction items arbitrary: db ids)
  case (Cons item items)
  show ?case
  proof (cases "sv_accrued item \<le> 0")
    case False
    obtain db1 r1 where cr: "create_interest_op db item ''PAY'' (sv_accrued item) actor today = (db1, r1)" by fastforce
    have s1: "dep_steps db db1" using create_op_steps [OF cr] Cons.prems(4) by simp
    show ?thesis
    proof (cases r1)
      case (Inl e)
      then show ?thesis using Cons.prems(1) False cr s1 by auto
    next
      case (Inr row)
      note row = create_op_row [OF Cons.prems(2) cr [unfolded Inr]]
      have db1: "db1 = db\<lparr>db_ops := db_ops db @ [row]\<rparr>"
        using cr Inr by (auto simp: create_interest_op_def Let_def split: if_splits)
      have new: "i < io_id row" if "i \<in> set ids" for i
      proof -
        have "\<exists>p. op_by_id db i = Some p" using Cons.prems(3) that by (auto simp: drafts_def)
        then obtain p where "op_by_id db i = Some p" ..
        then have "i \<in> set (map io_id (db_ops db))" using op_by_id_in [of db i p] by auto
        then show ?thesis using Cons.prems(2) row(1) unfolding dep_wf_def by auto
      qed
      have "drafts db1 (ids @ [io_id row])"
        using Cons.prems(3) row(2,3) new op_by_id_append [of db _ _ "[row]"] unfolding drafts_def db1
        by (fastforce dest: bspec)
      moreover have "stage_batch db1 actor today items (ids @ [io_id row]) = (db', r)"
        using Cons.prems(1) False cr Inr by simp
      ultimately have "dep_steps db1 db' \<and> (\<forall>ids'. r = Inr ids' \<longrightarrow> drafts db' ids')"
        using Cons.IH [of db1 "ids @ [io_id row]"] step_wf [OF s1 Cons.prems(2)] Cons.prems(4) row(5) by simp
      then show ?thesis using rtranclp_trans [OF s1] by blast
    qed
  qed (use Cons in auto)
qed auto

lemma find_map_other:
  "j \<noteq> i \<Longrightarrow> (\<And>p. io_id (f p) = io_id p) \<Longrightarrow>
   find (\<lambda>p. io_id p = j) (map (\<lambda>p. if io_id p = i then f p else p) xs) = find (\<lambda>p. io_id p = j) xs"
  by (induction xs) auto

lemma submit_all_steps:
  "drafts db ids \<Longrightarrow> dep_steps db (foldl (\<lambda>db i. set_interest_op_case db i c) db ids)"
proof (induction ids arbitrary: db)
  case (Cons i ids)
  obtain p where p: "op_by_id db i = Some p" "io_status p = ''DRAFT''" using Cons.prems by (auto simp: drafts_def)
  have other: "op_by_id (set_interest_op_case db i c) j = op_by_id db j" if "j \<noteq> i" for j
    unfolding op_by_id_def set_interest_op_case_def set_op_def using that by (simp add: find_map_other)
  have "drafts (set_interest_op_case db i c) ids" using Cons.prems other unfolding drafts_def by force
  from Cons.IH [OF this] show ?case
    using converse_rtranclp_into_rtranclp [of dep_step, OF step_submit [OF p]] by simp
qed simp

lemma submit_interest_steps:
  assumes "submit_interest wsv db today actor code ty amount = (db', r)" "dep_wf db"
  shows "dep_steps db db'"
proof (cases wsv)
  case (Some wfs)
  let ?ty = "to_upper (trim_space ty)"
  note sub = assms(1) [unfolded submit_interest_def Let_def Some option.case]
  consider (single) "?ty = ''PAY'' \<or> ?ty = ''CAPITALIZE''" | (batch) "?ty = ''BATCH''"
    | (other) "\<not> (?ty = ''PAY'' \<or> ?ty = ''CAPITALIZE'')" "?ty \<noteq> ''BATCH''" by argo
  then show ?thesis
  proof cases
    case single
    note sub1 = sub [unfolded if_P [OF single]]
    show ?thesis
    proof (cases "savings_by_code db code")
      case (Some item)
      have item: "item \<in> set (db_savings db)" using savings_by_code_in [OF Some] by simp
      let ?ct = "if ?ty = ''CAPITALIZE'' then case_capitalize else case_pay_interest"
      obtain db1 r1 where cr: "create_interest_op db item ?ty amount actor today = (db1, r1)" by fastforce
      note s1 = create_op_steps [OF cr item]
      show ?thesis
      proof (cases r1)
        case (Inr row)
        note row = create_op_row [OF assms(2) cr [unfolded Inr]]
        obtain db2 r2 where st: "start_interest_case wfs db1 ?ct (io_id row) = (db2, r2)" by fastforce
        note s2 = rtranclp_trans [OF s1 start_case_steps [OF st row(3,2)]]
        have "db' = db \<or> db' = db2"
          using sub1 unfolding Some option.case cr Inr prod.case sum.case st
          by (auto split: if_splits sum.splits)
        then show ?thesis using s2 by auto
      next
        case (Inl e)
        have "db' = db \<or> db' = db1"
          using sub1 unfolding Some option.case cr Inl prod.case sum.case
          by (auto split: if_splits)
        then show ?thesis using s1 by auto
      qed
    qed (use sub1 in simp)
  next
    case batch
    obtain db1 r1 where sb: "stage_batch db actor today (active_savings db) [] = (db1, r1)" by fastforce
    have "set (active_savings db) \<subseteq> set (db_savings db)" by (auto simp: active_savings_def)
    then have s1: "dep_steps db db1" "\<And>ids. r1 = Inr ids \<Longrightarrow> drafts db1 ids"
      using stage_batch_steps [OF sb assms(2)] by (auto simp: drafts_def)
    have sub2: "(case (db1, r1) of
             (db1, Inl err) \<Rightarrow> (db1, Inl err)
           | (db1, Inr ids) \<Rightarrow>
             if ids = [] then (db1, Inl code_invalid_input)
             else case start_interest_batch_case wfs db1 ids of
               (db2, Inl err) \<Rightarrow> (db2, Inl err)
             | (db2, Inr _) \<Rightarrow> (db2, Inr ids)) = (db', r)"
      using sub batch sb by simp
    show ?thesis
    proof (cases r1)
      case (Inr ids)
      note all = submit_all_steps [OF s1(2) [OF Inr]]
      show ?thesis
        using sub2 Inr s1(1) rtranclp_trans [OF s1(1) all]
        by (auto simp: start_interest_batch_case_def split: if_splits sum.splits)
    qed (use sub2 s1 in auto)
  next
    case other
    then show ?thesis using sub by simp
  qed
qed (use assms in \<open>simp add: submit_interest_def\<close>)

section \<open>Deciding\<close>

lemma savings_of_op:
  assumes "dep_wf db" "p \<in> set (db_ops db)" "savings_by_code db (io_code p) = Some item"
  shows "sv_id item = io_savings p"
proof -
  obtain s where s: "s \<in> set (db_savings db)" "sv_id s = io_savings p" "sv_code s = io_code p"
    using assms(1,2) by (auto simp: dep_wf_def)
  have "distinct (map sv_code (db_savings db))" using assms(1) by (simp add: dep_wf_def)
  with s savings_by_code_in [OF assms(3)] have "item = s" by (auto simp: distinct_map inj_on_def)
  then show ?thesis using s by simp
qed

lemma mark_op_steps: "mark_interest_op_posted db i j = (db', r) \<Longrightarrow> dep_steps db db'"
proof (cases r)
  case (Inl e)
  moreover assume "mark_interest_op_posted db i j = (db', r)"
  ultimately show ?thesis by (auto simp: mark_interest_op_posted_def split: option.splits if_splits)
next
  case (Inr u)
  moreover assume "mark_interest_op_posted db i j = (db', r)"
  ultimately show ?thesis using step_finish [of db i j db' u] by auto
qed

lemma compensate_steps:
  assumes "compensate_interest_op db i (io_savings p) (io_amount p) (io_type p = ''CAPITALIZE'') = (db', r)"
    and "op_by_id db i = Some p"
  shows "dep_steps db db'"
proof (cases r)
  case (Inl e)
  then show ?thesis using assms(1) by (auto simp: compensate_interest_op_def Let_def split: option.splits if_splits)
next
  case (Inr u)
  then show ?thesis using step_compensate [OF assms(2)] assms(1) by auto
qed

lemma begin_steps:
  assumes "begin_interest_op_posting db i (io_savings p) (io_amount p) (io_type p = ''CAPITALIZE'') version today = (db', r)"
    and "op_by_id db i = Some p"
  shows "dep_steps db db'"
proof (cases r)
  case (Inl e)
  then show ?thesis using assms(1) by (auto simp: begin_interest_op_posting_def Let_def split: option.splits if_splits)
next
  case (Inr u)
  then show ?thesis using step_begin [OF assms(2)] assms(1) by auto
qed

text \<open>The posting works on the op as it was read; the row keeps its amount, type and account.\<close>

lemma post_op_steps:
  assumes "post_interest_op gl db p item = (db', r)" "op_by_id db (io_id p) = Some q" "sv_id item = io_savings p"
    and "io_savings q = io_savings p" "io_amount q = io_amount p" "io_type q = io_type p"
  shows "dep_steps db db'"
proof (cases "gl (op_request p item)")
  case (Inl err)
  obtain db1 r1 where c: "compensate_interest_op db (io_id p) (io_savings p) (io_amount p) (io_type p = ''CAPITALIZE'') = (db1, r1)"
    by fastforce
  have "dep_steps db db1" using compensate_steps [of db "io_id p" q db1 r1] c assms(2,4-6) by simp
  moreover have "db' = db1"
    using assms(1) Inl c by (auto simp: post_interest_op_def assms(3) split: sum.splits option.splits if_splits)
  ultimately show ?thesis by simp
next
  case (Inr entry)
  obtain db1 r1 where m: "mark_interest_op_posted db (io_id p) entry = (db1, r1)" by fastforce
  then show ?thesis using assms(1) Inr mark_op_steps [OF m] by (auto simp: post_interest_op_def split: sum.splits)
qed

lemma begin_row:
  assumes "begin_interest_op_posting db i sid amount cap version today = (db', Inr u)" "op_by_id db i = Some p"
  shows "op_by_id db' i = Some (p\<lparr>io_status := ''POSTING'', io_effective := Some today\<rparr>)"
proof -
  have "find (\<lambda>p. io_id p = i) (map (\<lambda>p. if io_id p = i then f p else p) xs) = map_option f (find (\<lambda>p. io_id p = i) xs)"
    if "\<And>p. io_id (f p) = io_id p" for f and xs :: "interest_op list"
    using that by (induction xs) auto
  moreover have "db_ops db' = map (\<lambda>p. if io_id p = i then p\<lparr>io_status := ''POSTING'', io_effective := Some today\<rparr> else p) (db_ops db)"
    using assms(1)
    by (auto simp: begin_interest_op_posting_def Let_def set_op_def set_savings_def split: option.splits if_splits)
  ultimately show ?thesis using assms(2) by (simp add: op_by_id_def)
qed

lemma resolve_steps:
  assumes "resolve_interest_op gl db today i decision version = (db', r)" "dep_wf db"
  shows "dep_steps db db'"
proof (cases "op_by_id db i")
  case (Some p)
  note p = op_by_id_in [OF Some]
  note res = assms(1) [unfolded resolve_interest_op_def Some option.case]
  show ?thesis
  proof (cases "decision = ''APPROVE''")
    case True
    note app = res [unfolded if_P [OF True] approve_interest_op_def]
    show ?thesis
    proof (cases "savings_by_code db (io_code p)")
      case (Some item)
      note sid = savings_of_op [OF assms(2) conjunct1 [OF p] Some]
      have op: "op_by_id db (io_id p) = Some p" using \<open>op_by_id db i = Some p\<close> p by simp
      obtain db1 r1 where b: "begin_interest_op_posting db (io_id p) (io_savings p) (io_amount p)
          (io_type p = ''CAPITALIZE'') version today = (db1, r1)" by fastforce
      note s1 = begin_steps [OF b op]
      show ?thesis
      proof (cases "resolve_op_mode (io_status p)")
        case Fresh
        show ?thesis
        proof (cases r1)
          case (Inr u)
          note row = begin_row [OF b [unfolded Inr] op]
          have "db' = db \<or> post_interest_op gl db1 p item = (db', r)"
            using app Fresh Some b Inr by (auto simp: sid split: if_splits)
          then show ?thesis
            using post_op_steps [of gl db1 p item db' r, OF _ row sid] rtranclp_trans [OF s1] by auto
        next
          case (Inl e)
          then have "db' = db \<or> db' = db1" using app Fresh Some b by (auto simp: sid split: if_splits)
          then show ?thesis using s1 by auto
        qed
      next
        case Resume
        then have "db' = db \<or> post_interest_op gl db p item = (db', r)" using app Some by (auto split: if_splits)
        then show ?thesis using post_op_steps [of gl db p item db' r, OF _ op sid] by auto
      qed (use app in auto)
    next
      case None
      then show ?thesis using app by (auto split: op_mode.splits)
    qed
  next
    case False
    then have "db' = db \<or> (io_status p = ''SUBMITTED'' \<and> db' = set_interest_op_status db i ''REJECTED'')"
      using res by (auto split: if_splits)
    then show ?thesis using step_reject [OF Some] by auto
  qed
qed (use assms in \<open>simp add: resolve_interest_op_def\<close>)

text \<open>Finance is asked after the amount is taken: when taking it fails, nothing of finance matters.\<close>

lemma begin_before_finance:
  assumes "dep_wf db" "op_by_id db i = Some p" "io_status p = ''SUBMITTED''"
    and "snd (begin_interest_op_posting db i (io_savings p) (io_amount p) (io_type p = ''CAPITALIZE'') version today) = Inl err"
  shows "resolve_interest_op gl db today i decision version = resolve_interest_op gl' db today i decision version"
proof -
  note p = op_by_id_in [OF assms(2)]
  obtain db1 where b: "begin_interest_op_posting db i (io_savings p) (io_amount p) (io_type p = ''CAPITALIZE'') version today =
      (db1, Inl err)"
    using assms(4) by (metis prod.collapse)
  have "approve_interest_op gl db today p version = approve_interest_op gl' db today p version"
  proof (cases "savings_by_code db (io_code p)")
    case (Some item)
    show ?thesis
      by (cases "version = []")
        (use Some savings_of_op [OF assms(1) conjunct1 [OF p] Some] b p assms(3) in
          \<open>simp_all add: approve_interest_op_def resolve_op_mode_def\<close>)
  qed (simp add: approve_interest_op_def assms(3) resolve_op_mode_def)
  then show ?thesis by (simp add: resolve_interest_op_def assms(2))
qed

section \<open>Rate requests\<close>

lemma submit_rate_steps: "dep_steps db (fst (submit_rate workflow db actor ty payload))"
proof -
  have *: "dep_steps db db1 \<and> dep_steps db (set_rate_request_case db1 i c)"
    if "create_rate_request db t payload actor = (db1, row)" for t db1 row i c
    using step_request [OF that] step_request_case [of db1 i c] by (meson r_into_rtranclp rtranclp.rtrancl_into_rtrancl)
  show ?thesis
    using * by (auto simp: submit_rate_def Let_def split: option.split prod.split sum.split)
qed

lemma decide_rate_steps: "decide_rate_request db i status v = (db', r) \<Longrightarrow> dep_steps db db'"
proof -
  assume d: "decide_rate_request db i status v = (db', r)"
  obtain db1 r1 where s: "set_rate_request_status db i status v = (db1, r1)" by fastforce
  have "db1 = db \<or> r1 = Inr ()" using s by (auto simp: set_rate_request_status_def split: option.splits if_splits)
  then have "dep_steps db db1" using step_request_status [of db i status v db1 "()"] s by auto
  then show ?thesis using d s by (auto simp: decide_rate_request_def split: sum.splits)
qed

lemma resolve_rate_steps: "dep_steps db (fst (resolve_rate_request pgd db i decision v))"
proof -
  have up: "dep_steps db db1" if "upsert_interest_rate pgd db p = (db1, r1)" for p db1 r1
    using that step_rate [of pgd db p db1 "()"]
    by (cases r1) (auto simp: upsert_interest_rate_def split: option.splits if_splits)
  have dec: "dep_steps db1 (fst (decide_rate_request db1 i st v))" for db1 st
    using decide_rate_steps [of db1 i st v] by (metis prod.collapse)
  have "dep_steps db (fst (decide_rate_request db1 i st v))" if "upsert_interest_rate pgd db p = (db1, r1)" for p db1 r1 st
    using rtranclp_trans [OF up [OF that] dec] .
  then show ?thesis using up dec by (auto simp: resolve_rate_request_def split: option.split prod.split sum.split)
qed

end
