(* ===== verification/Deposit_Principal.thy ===== *)
theory Deposit_Principal
  imports Deposit_Ops_Safety
begin

text \<open>
  The principal of a savings over the same interleavings, what a settled account still allows, and
  the calls that open, settle and add to an account as sequences of transactions.
\<close>

section \<open>The principal\<close>

definition principal_of :: "deposit_db \<Rightarrow> string \<Rightarrow> int" where
  "principal_of db sid = sum_list (map (\<lambda>s. if sv_id s = sid then sv_principal s else 0) (db_savings db))"

definition topped_up :: "deposit_db \<Rightarrow> string \<Rightarrow> int" where
  "topped_up db sid =
     sum_list (map (\<lambda>t. if tx_savings t = sid \<and> tx_type t = ''TOP_UP_POSTED'' \<and> tx_status t = ''POSTED'' then tx_amount t else 0)
       (db_txns db))"

definition capitalized :: "deposit_db \<Rightarrow> string \<Rightarrow> int" where
  "capitalized db sid =
     sum_list (map (\<lambda>p. if io_savings p = sid \<and> io_type p = ''CAPITALIZE'' \<and> is_taken (io_status p) then io_amount p else 0)
       (db_ops db))"

definition principal_gap :: "deposit_db \<Rightarrow> string \<Rightarrow> int" where
  "principal_gap db sid = principal_of db sid - topped_up db sid - capitalized db sid"

definition savings_ids :: "deposit_db \<Rightarrow> string set" where
  "savings_ids db = sv_id ` set (db_savings db)"

definition keeps_principal :: "deposit_db \<Rightarrow> deposit_db \<Rightarrow> bool" where
  "keeps_principal db db' \<longleftrightarrow> savings_ids db \<subseteq> savings_ids db' \<and> (\<forall>sid\<in>savings_ids db. principal_gap db' sid = principal_gap db sid)"

lemma keeps_principal_refl: "keeps_principal db db"
  by (simp add: keeps_principal_def)

lemma keeps_principal_trans: "keeps_principal a b \<Longrightarrow> keeps_principal b c \<Longrightarrow> keeps_principal a c"
  by (force simp: keeps_principal_def)

text \<open>The parts of the database that a statement leaves alone.\<close>

lemma principal_gap_cong:
  "db_savings db' = db_savings db \<Longrightarrow> db_txns db' = db_txns db \<Longrightarrow> db_ops db' = db_ops db \<Longrightarrow> keeps_principal db db'"
  by (simp add: keeps_principal_def principal_gap_def principal_of_def topped_up_def capitalized_def savings_ids_def)

lemma capitalized_set_op:
  assumes "dep_wf db" "p \<in> set (db_ops db)" "\<And>p. io_savings (f p) = io_savings p" "\<And>p. io_amount (f p) = io_amount p"
    "\<And>p. io_type (f p) = io_type p"
  shows "capitalized (set_op (io_id p) f db) sid = capitalized db sid +
    (if io_savings p = sid \<and> io_type p = ''CAPITALIZE'' then (if is_taken (io_status (f p)) then io_amount p else 0) -
       (if is_taken (io_status p) then io_amount p else 0) else 0)"
  using sum_update [OF dep_wf_ids(2) [OF assms(1)] assms(2),
      of "\<lambda>p. if io_savings p = sid \<and> io_type p = ''CAPITALIZE'' \<and> is_taken (io_status p) then io_amount p else 0" f] assms(3-5)
  unfolding capitalized_def set_op_def by (auto split: if_splits)

lemma principal_set_savings:
  assumes "dep_wf db" "s \<in> set (db_savings db)" "\<And>s. sv_id (f s) = sv_id s"
  shows "principal_of (set_savings (sv_id s) f db) sid =
    principal_of db sid + (if sv_id s = sid then sv_principal (f s) - sv_principal s else 0)"
  using sum_update [OF dep_wf_ids(3) [OF assms(1)] assms(2), of "\<lambda>s. if sv_id s = sid then sv_principal s else 0" f] assms(3)
  unfolding principal_of_def set_savings_def by simp

lemma ids_set_savings [simp]: "(\<And>s. sv_id (f s) = sv_id s) \<Longrightarrow> savings_ids (set_savings i f db) = savings_ids db"
proof -
  assume "\<And>s. sv_id (f s) = sv_id s"
  then have "map sv_id (map (\<lambda>s. if sv_id s = i then f s else s) xs) = map sv_id xs" for xs by (induction xs) auto
  then have "sv_id ` set (map (\<lambda>s. if sv_id s = i then f s else s) xs) = sv_id ` set xs" for xs by (metis set_map)
  then show ?thesis by (simp add: savings_ids_def set_savings_def del: set_map)
qed

lemma ids_set_op [simp]: "savings_ids (set_op i f db) = savings_ids db"
  by (simp add: savings_ids_def set_op_def)

lemma set_op_parts [simp]:
  "principal_of (set_op i f db) sid = principal_of db sid" "topped_up (set_op i f db) sid = topped_up db sid"
  by (simp_all add: principal_of_def topped_up_def set_op_def)

lemma set_savings_parts [simp]:
  "topped_up (set_savings i f db) sid = topped_up db sid" "capitalized (set_savings i f db) sid = capitalized db sid"
  by (simp_all add: topped_up_def capitalized_def set_savings_def)

lemma principal_set_op:
  assumes "dep_wf db" "p \<in> set (db_ops db)" "\<And>p. io_savings (f p) = io_savings p" "\<And>p. io_amount (f p) = io_amount p"
    "\<And>p. io_type (f p) = io_type p" "is_taken (io_status (f p)) = is_taken (io_status p)"
  shows "keeps_principal db (set_op (io_id p) f db)"
  using capitalized_set_op [OF assms(1-5)] assms(6) by (auto simp: keeps_principal_def principal_gap_def)

lemma principal_same:
  assumes "\<And>s. sv_id (f s) = sv_id s" "\<And>s. sv_principal (f s) = sv_principal s"
  shows "keeps_principal db (set_savings i f db)"
proof -
  have "sum_list (map (\<lambda>s. if sv_id s = sid then sv_principal s else 0) (map (\<lambda>s. if sv_id s = i then f s else s) xs)) =
      sum_list (map (\<lambda>s. if sv_id s = sid then sv_principal s else 0) xs)" for sid xs
    by (induction xs) (auto simp: assms)
  then have "principal_of (set_savings i f db) sid = principal_of db sid" for sid
    by (simp add: principal_of_def set_savings_def del: map_map)
  then show ?thesis using assms(1) by (simp add: keeps_principal_def principal_gap_def)
qed

text \<open>An op and the account together.\<close>

lemma principal_op_and_savings:
  assumes "dep_wf db" "p \<in> set (db_ops db)" "s \<in> set (db_savings db)" "sv_id s = io_savings p"
    and "\<And>p. io_id (f p) = io_id p" "\<And>p. io_savings (f p) = io_savings p" "\<And>p. io_code (f p) = io_code p"
    "\<And>p. io_amount (f p) = io_amount p" "\<And>p. io_type (f p) = io_type p" "\<And>s. sv_id (g s) = sv_id s"
    and "sv_principal (g s) - sv_principal s = (if io_type p = ''CAPITALIZE'' then
      (if is_taken (io_status (f p)) then io_amount p else 0) - (if is_taken (io_status p) then io_amount p else 0) else 0)"
  shows "keeps_principal db (set_savings (io_savings p) g (set_op (io_id p) f db))"
proof -
  let ?db1 = "set_op (io_id p) f db"
  have wf1: "dep_wf ?db1" by (rule wf_set_op [OF assms(1,5-8)])
  have sm: "s \<in> set (db_savings ?db1)" using assms(3) by (simp add: set_op_def)
  have "principal_gap (set_savings (io_savings p) g ?db1) sid = principal_gap db sid" for sid
    using principal_set_savings [OF wf1 sm, of g sid] capitalized_set_op [OF assms(1,2), of f sid] assms(4,6,8-11)
    by (simp add: principal_gap_def split: if_splits)
  then show ?thesis using assms(10) by (simp add: keeps_principal_def)
qed

section \<open>Every transaction keeps it\<close>

lemma principal_begin:
  assumes "dep_wf db" "op_by_id db i = Some p"
    and "begin_interest_op_posting db i (io_savings p) (io_amount p) (io_type p = ''CAPITALIZE'') version today = (db', Inr u)"
  shows "keeps_principal db db'"
proof -
  note p = op_by_id_in [OF assms(2)]
  obtain q s where q: "find (\<lambda>p. io_id p = i \<and> io_status p = ''SUBMITTED'') (db_ops db) = Some q"
    and s: "s \<in> set (db_savings db)" "sv_id s = io_savings p"
    and db': "db' = set_savings (io_savings p) (\<lambda>s. s\<lparr>sv_accrued := sv_accrued s - io_amount p,
        sv_principal := (if io_type p = ''CAPITALIZE'' then sv_principal s + io_amount p else sv_principal s),
        sv_version := sv_version s + 1\<rparr>)
        (set_op i (\<lambda>p. p\<lparr>io_status := ''POSTING'', io_effective := Some today\<rparr>) db)"
    using assms(3) unfolding begin_interest_op_posting_def Let_def
    by (auto simp: set_op_def dest!: find_Some_in split: option.splits if_splits)
  have "q = p" using find_key_P [OF q] p op_unique [OF assms(1)] by metis
  then have st: "io_status p = ''SUBMITTED''" using find_key_P [OF q] by simp
  have i: "i = io_id p" using p by simp
  show ?thesis
    unfolding db' i
    by (rule principal_op_and_savings [OF assms(1) conjunct1 [OF p] s]) (use st in \<open>simp_all add: is_taken_def\<close>)
qed

lemma principal_compensate:
  assumes "dep_wf db" "op_by_id db i = Some p"
    and "compensate_interest_op db i (io_savings p) (io_amount p) (io_type p = ''CAPITALIZE'') = (db', Inr u)"
  shows "keeps_principal db db'"
proof -
  note p = op_by_id_in [OF assms(2)]
  obtain q where q: "find (\<lambda>p. io_id p = i \<and> io_status p = ''POSTING'') (db_ops db) = Some q"
    and db': "db' = set_savings (io_savings p) (\<lambda>s. s\<lparr>sv_accrued := sv_accrued s + io_amount p,
        sv_principal := (if io_type p = ''CAPITALIZE'' then max (sv_principal s - io_amount p) 0 else sv_principal s),
        sv_version := sv_version s + 1\<rparr>) (set_op i (\<lambda>p. p\<lparr>io_status := ''SUBMITTED''\<rparr>) db)"
    and check: "\<forall>s\<in>set (db_savings db). sv_id s = io_savings p \<and> io_type p = ''CAPITALIZE'' \<longrightarrow> 0 < sv_principal s - io_amount p"
    using assms(3) unfolding compensate_interest_op_def Let_def
    by (auto simp: set_op_def not_le split: option.splits if_splits)
  have "q = p" using find_key_P [OF q] p op_unique [OF assms(1)] by metis
  then have st: "io_status p = ''POSTING''" using find_key_P [OF q] by simp
  obtain s where s: "s \<in> set (db_savings db)" "sv_id s = io_savings p" using assms(1) p by (auto simp: dep_wf_def)
  have pos: "io_type p = ''CAPITALIZE'' \<Longrightarrow> max (sv_principal s - io_amount p) 0 = sv_principal s - io_amount p"
  proof -
    assume "io_type p = ''CAPITALIZE''"
    then have "0 < sv_principal s - io_amount p" using check s by blast
    then show ?thesis by simp
  qed
  have i: "i = io_id p" using p by simp
  show ?thesis
    unfolding db' i
    by (rule principal_op_and_savings [OF assms(1) conjunct1 [OF p] s]) (use st pos in \<open>auto simp: is_taken_def\<close>)
qed

lemma principal_book: "mark_accrual_posted db i j = (db', r) \<Longrightarrow> keeps_principal db db'"
proof -
  assume m: "mark_accrual_posted db i j = (db', r)"
  have flip: "keeps_principal db (set_accrual i f db)" for f by (rule principal_gap_cong) (simp_all add: set_accrual_def)
  then have "db' = db \<or> (\<exists>f g k. db' = set_savings k g (set_accrual i f db) \<and> (\<forall>s. sv_id (g s) = sv_id s) \<and>
      (\<forall>s. sv_principal (g s) = sv_principal s))"
    using m by (auto simp: mark_accrual_posted_def Let_def split: option.splits if_splits) fastforce
  then show ?thesis using keeps_principal_refl keeps_principal_trans [OF flip principal_same] by blast
qed

lemma principal_open:
  assumes "create_savings pgd db s = (db', r)"
  shows "keeps_principal db db'"
proof -
  have "db' = db \<or> (\<exists>row. db' = db\<lparr>db_savings := db_savings db @ [row]\<rparr> \<and> (\<forall>x\<in>set (db_savings db). sv_id x \<noteq> sv_id row))"
    using assms by (fastforce simp: create_savings_def split: option.splits if_splits)
  then show ?thesis
    by (auto simp: keeps_principal_def principal_gap_def principal_of_def topped_up_def capitalized_def savings_ids_def)
qed

lemma principal_record:
  assumes "record_txn pgd db t = (db', r)" "tx_type t \<noteq> ''TOP_UP_POSTED''"
  shows "keeps_principal db db'"
proof -
  have "db' = db \<or> (\<exists>row. db' = db\<lparr>db_txns := db_txns db @ [row]\<rparr> \<and> tx_type row = tx_type t)"
    using assms(1) by (fastforce simp: record_txn_def split: option.splits if_splits)
  then show ?thesis
    using assms(2) by (auto simp: keeps_principal_def principal_gap_def principal_of_def topped_up_def capitalized_def savings_ids_def)
qed

lemma top_up_cases:
  assumes "top_up_savings pgd db item amount day entry actor key version = (db', Inr True)"
  shows "\<exists>d s. s \<in> set (db_savings db) \<and> sv_id s = sv_id item \<and> sv_status s = ''ACTIVE'' \<and>
    db' = set_savings (sv_id item) (\<lambda>s. s\<lparr>sv_principal := sv_principal s + amount, sv_version := sv_version s + 1\<rparr>)
      (db\<lparr>db_txns := db_txns db @ [top_up_row item amount d entry actor key]\<rparr>)"
proof -
  obtain d s where s: "find (\<lambda>s. sv_id s = sv_id item \<and> sv_status s = ''ACTIVE'' \<and>
      (version = [] \<or> dec_str (nat (sv_version s)) = version)) (db_savings db) = Some s" "pgd day = Some d"
    using assms by (auto simp: top_up_savings_def split: option.splits if_splits)
  moreover have "db' = set_savings (sv_id item) (\<lambda>s. s\<lparr>sv_principal := sv_principal s + amount, sv_version := sv_version s + 1\<rparr>)
      (db\<lparr>db_txns := db_txns db @ [top_up_row item amount d entry actor key]\<rparr>)"
    using assms s by (auto simp: top_up_savings_def split: if_splits)
  ultimately show ?thesis using find_key_P [OF s(1)] by blast
qed

lemma principal_top_up:
  assumes "dep_wf db" "top_up_savings pgd db item amount day entry actor key version = (db', Inr True)"
  shows "keeps_principal db db'"
proof -
  obtain d s where s: "s \<in> set (db_savings db)" "sv_id s = sv_id item"
    and d: "db' = set_savings (sv_id item) (\<lambda>s. s\<lparr>sv_principal := sv_principal s + amount, sv_version := sv_version s + 1\<rparr>)
      (db\<lparr>db_txns := db_txns db @ [top_up_row item amount d entry actor key]\<rparr>)"
    using top_up_cases [OF assms(2)] by blast
  define row where "row = top_up_row item amount d entry actor key"
  have row: "tx_savings row = sv_id item" "tx_type row = ''TOP_UP_POSTED''" "tx_status row = ''POSTED''" "tx_amount row = amount"
    by (simp_all add: row_def top_up_row_def)
  have db': "db' = set_savings (sv_id s) (\<lambda>s. s\<lparr>sv_principal := sv_principal s + amount, sv_version := sv_version s + 1\<rparr>)
      (db\<lparr>db_txns := db_txns db @ [row]\<rparr>)"
    unfolding d row_def s(2) ..
  let ?db1 = "db\<lparr>db_txns := db_txns db @ [row]\<rparr>"
  have wf1: "dep_wf ?db1" using keeps_txns [OF assms(1)] by (simp add: keeps_interest_def)
  have sm: "s \<in> set (db_savings ?db1)" using s by simp
  have "principal_gap db' sid = principal_gap db sid" for sid
    unfolding db'
    using principal_set_savings [OF wf1 sm, of "\<lambda>s. s\<lparr>sv_principal := sv_principal s + amount, sv_version := sv_version s + 1\<rparr>" sid]
      row s(2) by (simp add: principal_gap_def) (simp add: principal_of_def topped_up_def capitalized_def)
  moreover have "savings_ids db' = savings_ids db" unfolding db' by simp (simp add: savings_ids_def)
  ultimately show ?thesis by (simp add: keeps_principal_def)
qed

lemma step_keeps_principal:
  "dep_step db db' \<Longrightarrow> dep_wf db \<Longrightarrow>
   keeps_principal db db' \<or> (\<exists>i p. op_by_id db i = Some p \<and> db' = set_interest_op_status db i ''REJECTED'')"
proof (induction rule: dep_step.induct)
  case (step_stage db a db' row)
  then show ?case by (intro disjI1 principal_gap_cong) (auto simp: create_accrual_def Let_def split: if_splits)
next
  case (step_propose db item ty amount actor today db' row s)
  have "capitalized db' sid = capitalized db sid" for sid
    using step_propose(1) by (auto simp: create_interest_op_def Let_def capitalized_def is_taken_def split: if_splits)
  moreover have "db_savings db' = db_savings db" "db_txns db' = db_txns db"
    using step_propose(1) by (auto simp: create_interest_op_def Let_def split: if_splits)
  ultimately show ?case
    by (simp add: keeps_principal_def principal_gap_def principal_of_def topped_up_def savings_ids_def)
next
  case (step_submit db i p case_id)
  note p = op_by_id_in [OF step_submit(1)]
  show ?case
    using principal_set_op [OF step_submit(3) conjunct1 [OF p], of "\<lambda>p. p\<lparr>io_case := null_if_empty case_id, io_status := ''SUBMITTED''\<rparr>"]
      p step_submit(2) by (simp add: set_interest_op_case_def is_taken_def)
next
  case (step_finish db i j db' u)
  show ?case
  proof (cases "find (\<lambda>p. io_id p = i \<and> io_status p = ''POSTING'') (db_ops db)")
    case None
    then have "db' = db" using step_finish(1) by (auto simp: mark_interest_op_posted_def split: option.splits if_splits)
    then show ?thesis by (simp add: keeps_principal_refl)
  next
    case (Some q)
    note q = find_key_P [OF Some]
    have "db' = set_op (io_id q) (\<lambda>p. p\<lparr>io_status := ''POSTED'', io_journal := null_if_empty j\<rparr>) db"
      using step_finish(1) Some q by (simp add: mark_interest_op_posted_def)
    then show ?thesis
      using principal_set_op [OF step_finish(2) conjunct1 [OF q], of "\<lambda>p. p\<lparr>io_status := ''POSTED'', io_journal := null_if_empty j\<rparr>"] q
      by (simp add: is_taken_def)
  qed
next
  case (step_close db sid j version db' u)
  then show ?case by (auto simp: close_savings_def intro!: principal_same split: option.splits)
next
  case (step_rate pgd db tier db' u)
  show ?case by (subst (1) rate_rows(1) [OF step_rate(1)]) (intro disjI1 principal_gap_cong, simp_all)
next
  case (step_request db ty payload actor db' req)
  show ?case by (subst (1) rate_rows(2) [OF step_request(1)]) (intro disjI1 principal_gap_cong, simp_all)
next
  case (step_request_case db i case_id)
  show ?case by (intro disjI1 principal_gap_cong) (simp_all add: set_rate_request_case_def set_request_def)
next
  case (step_request_status db i status n db' u)
  show ?case by (subst (1) rate_rows(3) [OF step_request_status(1)]) (intro disjI1 principal_gap_cong, simp_all)
qed (auto intro: principal_book principal_begin principal_compensate principal_open principal_record principal_top_up)

text \<open>What a rejection of an operation that has taken its amount leaves in the principal.\<close>

definition kept_capital :: "interest_op list \<Rightarrow> string \<Rightarrow> int" where
  "kept_capital ps sid = lost_interest [p \<leftarrow> ps. io_type p = ''CAPITALIZE''] sid"

lemma kept_capital_simps [simp]:
  "kept_capital [] sid = 0" "kept_capital (ps @ qs) sid = kept_capital ps sid + kept_capital qs sid"
  by (simp_all add: kept_capital_def)

definition principal_effect :: "interest_op list \<Rightarrow> deposit_db \<Rightarrow> deposit_db \<Rightarrow> bool" where
  "principal_effect ps db db' \<longleftrightarrow> savings_ids db \<subseteq> savings_ids db' \<and>
     (\<forall>sid\<in>savings_ids db. principal_gap db' sid = principal_gap db sid + kept_capital ps sid)"

lemma step_principal_effect:
  assumes "dep_step db db'" "dep_wf db"
  shows "principal_effect (overwritten db db') db db'"
proof -
  consider (quiet) "keeps_principal db db'" "no_rejection db db'"
    | (reject) i p where "op_by_id db i = Some p" "db' = set_interest_op_status db i ''REJECTED''"
    using step_keeps_principal [OF assms] step_rejections [OF assms(1)] by blast
  then show ?thesis
  proof cases
    case quiet
    then show ?thesis using overwritten_none [OF assms(2)] by (simp add: keeps_principal_def principal_effect_def)
  next
    case reject
    note p = op_by_id_in [OF reject(1)]
    let ?amount = "\<lambda>sid. if is_taken (io_status p) \<and> io_savings p = sid \<and> io_type p = ''CAPITALIZE'' then io_amount p else 0"
    have "kept_capital (overwritten db db') sid = ?amount sid" for sid
      using overwritten_reject [OF assms(2) reject(1)] reject(2) by (simp add: kept_capital_def)
    moreover have "capitalized db' sid = capitalized db sid - ?amount sid" for sid
      using capitalized_set_op [OF assms(2) conjunct1 [OF p], of "\<lambda>p. p\<lparr>io_status := ''REJECTED''\<rparr>" sid] p
      unfolding reject(2) set_interest_op_status_def by (simp add: is_taken_def)
    moreover have "principal_of db' sid = principal_of db sid" "topped_up db' sid = topped_up db sid"
      "savings_ids db' = savings_ids db" for sid
      by (simp_all add: reject(2) set_interest_op_status_def)
    ultimately show ?thesis by (simp add: principal_effect_def principal_gap_def)
  qed
qed

lemma run_principal_effect: "dep_run db ps db' \<Longrightarrow> dep_wf db \<Longrightarrow> principal_effect ps db db'"
proof (induction rule: dep_run.induct)
  case (run_step db ps db1 db2)
  have "principal_effect (overwritten db1 db2) db1 db2"
    using step_principal_effect [OF run_step(2)] run_effect [OF run_step(1,4)] by blast
  with run_step.IH [OF run_step.prems] show ?case by (force simp: principal_effect_def)
qed (simp add: principal_effect_def)

section \<open>A settled account\<close>

definition closed :: "deposit_db \<Rightarrow> string \<Rightarrow> bool" where
  "closed db sid \<longleftrightarrow> (\<exists>s\<in>set (db_savings db). sv_id s = sid \<and> sv_status s = ''CLOSED'')"

text \<open>What a settled account still allows: giving back the amount of an operation in flight.\<close>

definition frozen :: "string \<Rightarrow> deposit_db \<Rightarrow> deposit_db \<Rightarrow> bool" where
  "frozen sid db db' \<longleftrightarrow> closed db' sid \<and> posted_interest db' sid = posted_interest db sid \<and>
     topped_up db' sid = topped_up db sid \<and> taken_interest db' sid \<le> taken_interest db sid \<and>
     capitalized db' sid \<le> capitalized db sid"

lemma frozen_refl: "closed db sid \<Longrightarrow> frozen sid db db"
  by (simp add: frozen_def)

lemma frozen_trans: "frozen sid a b \<Longrightarrow> frozen sid b c \<Longrightarrow> frozen sid a c"
  by (simp add: frozen_def)

lemma closed_unique:
  assumes "dep_wf db" "closed db sid" "s \<in> set (db_savings db)" "sv_status s = ''ACTIVE''"
  shows "sv_id s \<noteq> sid"
  using assms dep_wf_ids(3) [OF assms(1)] by (auto simp: closed_def distinct_map inj_on_def)

lemma frozen_set_op:
  assumes "dep_wf db" "closed db sid" "p \<in> set (db_ops db)" "\<And>p. io_savings (f p) = io_savings p"
    "\<And>p. io_amount (f p) = io_amount p" "\<And>p. io_type (f p) = io_type p"
    and "io_savings p = sid \<Longrightarrow> is_taken (io_status (f p)) \<Longrightarrow> is_taken (io_status p)"
  shows "frozen sid db (set_op (io_id p) f db)"
proof -
  have "0 < io_amount p" using assms(1,3) by (simp add: dep_wf_def)
  moreover have "closed (set_op (io_id p) f db) sid" "posted_interest (set_op (io_id p) f db) sid = posted_interest db sid"
    using assms(2) by (simp_all add: closed_def posted_interest_def set_op_def)
  ultimately show ?thesis
    using taken_set_op [OF assms(1,3), of f sid] capitalized_set_op [OF assms(1,3), of f sid] assms(4-7)
    by (auto simp: frozen_def)
qed

lemma frozen_set_savings:
  assumes "closed db sid" "\<And>s. sv_id (f s) = sv_id s" "k = sid \<Longrightarrow> \<forall>s. sv_status (f s) = sv_status s"
  shows "frozen sid db (set_savings k f db)"
proof -
  obtain s where s: "s \<in> set (db_savings db)" "sv_id s = sid" "sv_status s = ''CLOSED''" using assms(1) by (auto simp: closed_def)
  let ?s = "if sv_id s = k then f s else s"
  have "?s \<in> set (db_savings (set_savings k f db))" using s(1) by (auto simp: set_savings_def)
  moreover have "sv_id ?s = sid" "sv_status ?s = ''CLOSED''" using s assms(2,3) by auto
  ultimately have "closed (set_savings k f db) sid" unfolding closed_def by blast
  then show ?thesis by (simp add: frozen_def) (simp add: posted_interest_def taken_interest_def set_savings_def)
qed

lemma closed_set_op [simp]: "closed (set_op i f db) sid = closed db sid"
  by (simp add: closed_def set_op_def)

lemma frozen_begin:
  assumes "dep_wf db" "closed db sid" "op_by_id db i = Some p"
    and "begin_interest_op_posting db i (io_savings p) (io_amount p) cap version today = (db', Inr u)"
  shows "frozen sid db db'"
proof -
  note p = op_by_id_in [OF assms(3)]
  obtain s g where s: "s \<in> set (db_savings db)" "sv_id s = io_savings p" "sv_status s = ''ACTIVE''"
    and db': "db' = set_savings (io_savings p) g (set_op i (\<lambda>p. p\<lparr>io_status := ''POSTING'', io_effective := Some today\<rparr>) db)"
    and g: "\<And>s. sv_id (g s) = sv_id s"
    using assms(4) unfolding begin_interest_op_posting_def Let_def
    by (fastforce simp: set_op_def dest!: find_Some_in split: option.splits if_splits)
  have ne: "io_savings p \<noteq> sid" using closed_unique [OF assms(1,2) s(1,3)] s(2) by simp
  have i: "i = io_id p" using p by simp
  have "frozen sid db (set_op i (\<lambda>p. p\<lparr>io_status := ''POSTING'', io_effective := Some today\<rparr>) db)"
    unfolding i by (rule frozen_set_op [OF assms(1,2) conjunct1 [OF p]]) (use ne in simp_all)
  then show ?thesis
    unfolding db' by (rule frozen_trans) (rule frozen_set_savings, use assms(2) g ne in simp_all)
qed

lemma frozen_compensate:
  assumes "dep_wf db" "closed db sid" "op_by_id db i = Some p"
    and "compensate_interest_op db i (io_savings p) (io_amount p) cap = (db', Inr u)"
  shows "frozen sid db db'"
proof -
  note p = op_by_id_in [OF assms(3)]
  obtain g where db': "db' = set_savings (io_savings p) g (set_op i (\<lambda>p. p\<lparr>io_status := ''SUBMITTED''\<rparr>) db)"
    and g: "\<And>s. sv_id (g s) = sv_id s" "\<And>s. sv_status (g s) = sv_status s"
    using assms(4) unfolding compensate_interest_op_def Let_def by (fastforce split: option.splits if_splits)
  have i: "i = io_id p" using p by simp
  have "frozen sid db (set_op i (\<lambda>p. p\<lparr>io_status := ''SUBMITTED''\<rparr>) db)"
    unfolding i by (rule frozen_set_op [OF assms(1,2) conjunct1 [OF p]]) (simp_all add: is_taken_def)
  then show ?thesis
    unfolding db' by (rule frozen_trans) (rule frozen_set_savings, use assms(2) g in simp_all)
qed

lemma frozen_book:
  assumes "dep_wf db" "closed db sid" "mark_accrual_posted db i j = (db', Inr u)"
  shows "frozen sid db db'"
proof (cases "db' = db")
  case False
  let ?flip = "\<lambda>a. a\<lparr>ac_status := ''POSTED'', ac_journal := null_if_empty j\<rparr>"
  obtain a s g where a: "find (\<lambda>a. ac_id a = i) (db_accruals db) = Some a" "ac_status a \<noteq> ''POSTED''"
    and s: "find (\<lambda>s. sv_id s = ac_savings a \<and> sv_status s = ''ACTIVE'') (db_savings db) = Some s"
    and db': "db' = set_savings (sv_id s) g (set_accrual i ?flip db)" and g: "\<And>s. sv_id (g s) = sv_id s"
    using assms(3) False
    by (fastforce simp: mark_accrual_posted_def set_accrual_def Let_def split: option.splits if_splits)
  have am: "a \<in> set (db_accruals db)" "ac_id a = i" using find_Some_in [OF a(1)] by simp_all
  have ne: "ac_savings a \<noteq> sid" using closed_unique [OF assms(1,2)] find_key_P [OF s] by metis
  have "posted_interest (set_accrual i ?flip db) sid = posted_interest db sid"
    using sum_update [OF dep_wf_ids(1) [OF assms(1)] am(1),
        of "\<lambda>a. if ac_savings a = sid \<and> ac_status a = ''POSTED'' then ac_amount a else 0" ?flip] ne
    unfolding posted_interest_def set_accrual_def am(2) by simp
  then have "frozen sid db (set_accrual i ?flip db)"
    using assms(2) by (simp add: frozen_def closed_def topped_up_def taken_interest_def capitalized_def set_accrual_def)
  then show ?thesis
    unfolding db'
  proof (rule frozen_trans)
    have "closed (set_accrual i ?flip db) sid" using assms(2) by (simp add: closed_def set_accrual_def)
    then show "frozen sid (set_accrual i ?flip db) (set_savings (sv_id s) g (set_accrual i ?flip db))"
      by (rule frozen_set_savings) (use g ne find_key_P [OF s] in simp_all)
  qed
qed (simp add: frozen_refl assms(2))

lemma frozen_top_up:
  assumes "dep_wf db" "closed db sid" "top_up_savings pgd db item amount day entry actor key version = (db', Inr True)"
  shows "frozen sid db db'"
proof -
  define g :: "savings \<Rightarrow> savings" where "g = (\<lambda>s. s\<lparr>sv_principal := sv_principal s + amount, sv_version := sv_version s + 1\<rparr>)"
  obtain d s where s: "s \<in> set (db_savings db)" "sv_id s = sv_id item" "sv_status s = ''ACTIVE''"
    and db': "db' = set_savings (sv_id item) g (db\<lparr>db_txns := db_txns db @ [top_up_row item amount d entry actor key]\<rparr>)"
    unfolding g_def using top_up_cases [OF assms(3)] by blast
  have ne: "sv_id item \<noteq> sid" using closed_unique [OF assms(1,2) s(1,3)] s(2) by simp
  let ?row = "top_up_row item amount d entry actor key"
  have "frozen sid db (db\<lparr>db_txns := db_txns db @ [?row]\<rparr>)"
    using assms(2) ne by (simp add: top_up_row_def frozen_def closed_def posted_interest_def topped_up_def taken_interest_def capitalized_def)
  then show ?thesis
    unfolding db' by (rule frozen_trans) (rule frozen_set_savings, use assms(2) ne in \<open>simp_all add: closed_def g_def\<close>)
qed

lemma frozen_same:
  assumes "closed db sid" "db_savings db' = db_savings db" "db_txns db' = db_txns db"
    and "posted_interest db' sid = posted_interest db sid" "taken_interest db' sid = taken_interest db sid"
    "capitalized db' sid = capitalized db sid"
  shows "frozen sid db db'"
  using assms by (simp add: frozen_def closed_def topped_up_def)

lemma step_frozen: "dep_step db db' \<Longrightarrow> dep_wf db \<Longrightarrow> closed db sid \<Longrightarrow> frozen sid db db'"
proof (induction rule: dep_step.induct)
  case (step_stage db a db' row)
  then show ?case
    by (intro frozen_same) (auto simp: create_accrual_def Let_def posted_interest_def taken_interest_def capitalized_def split: if_splits)
next
  case (step_propose db item ty amount actor today db' row s)
  then show ?case
    by (intro frozen_same)
      (auto simp: create_interest_op_def Let_def posted_interest_def taken_interest_def capitalized_def is_taken_def split: if_splits)
next
  case (step_submit db i p case_id)
  note p = op_by_id_in [OF step_submit(1)]
  show ?case
    using frozen_set_op [OF step_submit(3,4) conjunct1 [OF p], of "\<lambda>p. p\<lparr>io_case := null_if_empty case_id, io_status := ''SUBMITTED''\<rparr>"]
      p by (simp add: set_interest_op_case_def is_taken_def)
next
  case (step_reject db i p)
  note p = op_by_id_in [OF step_reject(1)]
  show ?case
    using frozen_set_op [OF step_reject(2,3) conjunct1 [OF p], of "\<lambda>p. p\<lparr>io_status := ''REJECTED''\<rparr>"]
      p by (simp add: set_interest_op_status_def is_taken_def)
next
  case (step_finish db i j db' u)
  show ?case
  proof (cases "find (\<lambda>p. io_id p = i \<and> io_status p = ''POSTING'') (db_ops db)")
    case None
    then have "db' = db" using step_finish(1) by (auto simp: mark_interest_op_posted_def split: option.splits if_splits)
    then show ?thesis by (simp add: frozen_refl step_finish(3))
  next
    case (Some q)
    note q = find_key_P [OF Some]
    have "db' = set_op (io_id q) (\<lambda>p. p\<lparr>io_status := ''POSTED'', io_journal := null_if_empty j\<rparr>) db"
      using step_finish(1) Some q by (simp add: mark_interest_op_posted_def)
    then show ?thesis
      using frozen_set_op [OF step_finish(2,3) conjunct1 [OF q], of "\<lambda>p. p\<lparr>io_status := ''POSTED'', io_journal := null_if_empty j\<rparr>"] q
      by (simp add: is_taken_def)
  qed
next
  case (step_open pgd db s db' s')
  then show ?case
    by (auto simp: create_savings_def frozen_def closed_def posted_interest_def topped_up_def taken_interest_def capitalized_def
        split: option.splits if_splits)
next
  case (step_record pgd db t db' u)
  then show ?case
    by (auto simp: record_txn_def frozen_def closed_def posted_interest_def topped_up_def taken_interest_def capitalized_def
        split: option.splits if_splits)
next
  case (step_close db k j version db' u)
  then obtain s where f: "find (\<lambda>s. sv_id s = k \<and> sv_status s = ''ACTIVE'' \<and>
      (version = [] \<or> dec_str (nat (sv_version s)) = version)) (db_savings db) = Some s"
    and db': "db' = set_savings k (\<lambda>s. s\<lparr>sv_status := ''CLOSED'', sv_journal := null_if_empty j, sv_version := sv_version s + 1\<rparr>) db"
    by (auto simp: close_savings_def split: option.splits)
  note s = find_key_P [OF f]
  then have "k \<noteq> sid" using closed_unique [OF step_close(2,3), of s] by simp
  then show ?case unfolding db' by (intro frozen_set_savings [OF step_close(3)]) simp_all
next
  case (step_rate pgd db tier db' u)
  show ?case
    by (subst rate_rows(1) [OF step_rate(1)])
      (rule frozen_same [OF step_rate(3)], simp_all add: posted_interest_def taken_interest_def capitalized_def)
next
  case (step_request db ty payload actor db' req)
  show ?case
    by (subst rate_rows(2) [OF step_request(1)])
      (rule frozen_same [OF step_request(3)], simp_all add: posted_interest_def taken_interest_def capitalized_def)
next
  case (step_request_case db i case_id)
  show ?case
    by (rule frozen_same [OF step_request_case(2)])
      (simp_all add: set_rate_request_case_def set_request_def posted_interest_def taken_interest_def capitalized_def)
next
  case (step_request_status db i status n db' u)
  show ?case
    by (subst rate_rows(3) [OF step_request_status(1)])
      (rule frozen_same [OF step_request_status(3)], simp_all add: posted_interest_def taken_interest_def capitalized_def)
next
  case (step_book db i j db' u)
  then show ?case by (intro frozen_book)
next
  case (step_begin db i p version today db' u)
  then show ?case by (intro frozen_begin)
next
  case (step_compensate db i p db' u)
  then show ?case by (intro frozen_compensate)
next
  case (step_top_up pgd db item amount day entry actor key version db')
  then show ?case by (intro frozen_top_up)
qed

lemma steps_frozen: "dep_steps db db' \<Longrightarrow> dep_wf db \<Longrightarrow> closed db sid \<Longrightarrow> frozen sid db db'"
proof (induction rule: rtranclp_induct)
  case (step b c)
  then have "frozen sid db b" by simp
  moreover have "frozen sid b c"
    using step_frozen [OF step.hyps(2)] step_wf [OF step.hyps(1) step.prems(1)] calculation by (simp add: frozen_def)
  ultimately show ?case by (rule frozen_trans)
qed (rule frozen_refl)

section \<open>The calls on an account\<close>

lemma create_savings_steps: "create_savings pgd db s = (db', r) \<Longrightarrow> dep_steps db db'"
proof (cases r)
  case (Inl e)
  assume "create_savings pgd db s = (db', r)"
  with Inl have "db' = db" by (auto simp: create_savings_def split: option.splits if_splits)
  then show ?thesis by simp
qed (auto intro: step_open)

lemma record_txn_steps: "record_txn pgd db t = (db', r) \<Longrightarrow> tx_type t \<noteq> ''TOP_UP_POSTED'' \<Longrightarrow> dep_steps db db'"
proof (cases r)
  case (Inl e)
  assume "record_txn pgd db t = (db', r)"
  with Inl have "db' = db" by (auto simp: record_txn_def split: option.splits if_splits)
  then show ?thesis by simp
qed (auto intro: step_record)

lemma top_up_steps: "top_up_savings pgd db item amount day entry actor key version = (db', r) \<Longrightarrow> dep_steps db db'"
proof (cases "r = Inr True")
  case False
  assume "top_up_savings pgd db item amount day entry actor key version = (db', r)"
  with False have "db' = db" by (auto simp: top_up_savings_def split: option.splits if_splits)
  then show ?thesis by simp
qed (auto intro: step_top_up)

lemma close_steps: "close_savings db sid journal version = (db', r) \<Longrightarrow> dep_steps db db'"
proof (cases r)
  case (Inl e)
  assume "close_savings db sid journal version = (db', r)"
  with Inl have "db' = db" by (auto simp: close_savings_def split: option.splits)
  then show ?thesis by simp
qed (auto intro: step_close)

lemma post_opening_steps: "post_opening pgd finance key db inp s = (db', r) \<Longrightarrow> dep_steps db db'"
  by (auto simp: post_opening_def open_txn_def split: option.splits sum.splits prod.splits intro: record_txn_steps)

lemma open_savings_steps: "dep_steps db (fst (open_savings pgd finance new_id key today db inp))"
proof -
  have "open_savings pgd finance new_id key today db inp = (db', r) \<Longrightarrow> dep_steps db db'" for db' r
  proof -
    assume "open_savings pgd finance new_id key today db inp = (db', r)"
    then consider "db' = db"
      | row r1 where "create_savings pgd db row = (db', r1)"
      | row r1 db1 t r2 where "create_savings pgd db row = (db1, r1)" "record_txn pgd db1 t = (db', r2)" "tx_type t = ''OPEN''"
      | row r1 db1 t r2 db2 s where "create_savings pgd db row = (db1, r1)" "record_txn pgd db1 t = (db2, r2)"
          "tx_type t = ''OPEN''" "post_opening pgd finance key db2 inp s = (db', r)"
      unfolding open_savings_def Let_def
      by (fastforce simp: open_txn_def split: option.splits sum.splits prod.splits if_splits)
    then show ?thesis
    proof cases
      case 2
      then show ?thesis by (rule create_savings_steps)
    next
      case 3
      then show ?thesis using create_savings_steps record_txn_steps [OF 3(2)] by (fastforce intro: rtranclp_trans)
    next
      case 4
      have "dep_steps db db1" by (rule create_savings_steps [OF 4(1)])
      moreover have "dep_steps db1 db2" by (rule record_txn_steps [OF 4(2)]) (simp add: 4(3))
      moreover have "dep_steps db2 db'" by (rule post_opening_steps [OF 4(4)])
      ultimately show ?thesis by (meson rtranclp_trans)
    qed simp
  qed
  then show ?thesis by (metis prod.collapse)
qed

lemma settle_steps: "dep_steps db (fst (settle_savings finance today db code version))"
  by (simp add: settle_savings_def close_steps split: option.split sum.split prod.split)

lemma settle_additional_steps:
  "dep_steps db (fst (settle_additional pgd fin today new_key db actor code amount txn_date idem_key version))"
proof -
  have top: "dep_steps db (fst (case top_up_savings pgd db item amount day entry actor key version of
      (db1, Inl err) \<Rightarrow> (db1, Inl (if err = err_not_active then code_conflict else code_internal))
    | (db1, Inr b) \<Rightarrow> (db1, Inr ())))" for item day entry key version
    using top_up_steps [of pgd db item amount day entry actor key version] by (simp split: prod.split sum.split)
  show ?thesis
    unfolding settle_additional_def Let_def by (simp add: top del: dec_str.simps split: option.split sum.split)
qed

end
