(* ===== verification/Deposit_Theorems.thy ===== *)
theory Deposit_Theorems
  imports Deposit_Principal
begin

text \<open>
  The main results on deposit interest: the service calls are sequences of the repository's
  transactions, what every interleaving of these does to the accrued interest, and the places where
  the code does not do what its comments say.
\<close>

section \<open>Calls and interleavings\<close>

text \<open>C20. Each call of the interest service that changes rows, and of the settlement and top-up services, is a sequence of
  the repository's transactions: starting from well-formed rows, the daily run, the submission of an operation
  or of a batch, the decision of an operation, the submission and the decision of a rate request, opening an
  account, settling it and adding to it reach their final state by such steps, whatever finance and the workflow
  service answer. And a decision asks finance only after the amount is taken: when the transaction that takes it
  fails, the outcome does not depend on finance at all.\<close>

theorem calls_are_transactions:
  assumes "dep_wf db"
  shows "dep_steps db (fst (run_daily gl dr rt db day)) \<and>
    dep_steps db (fst (submit_interest wsv db day actor code ty amount)) \<and>
    dep_steps db (fst (resolve_interest_op gl db day i decision version)) \<and>
    dep_steps db (fst (submit_rate wsv db actor ty payload)) \<and>
    dep_steps db (fst (resolve_rate_request pgd db i decision n)) \<and>
    dep_steps db (fst (open_savings pgd finance new_id key today db inp)) \<and>
    dep_steps db (fst (settle_savings finance today db code version)) \<and>
    dep_steps db (fst (settle_additional pgd fin today key db actor code amount txn_date idem_key version)) \<and>
    (\<forall>p err. op_by_id db i = Some p \<and> io_status p = ''SUBMITTED'' \<and>
      snd (begin_interest_op_posting db i (io_savings p) (io_amount p) (io_type p = ''CAPITALIZE'') version day) = Inl err \<longrightarrow>
      resolve_interest_op gl db day i decision version = resolve_interest_op gl' db day i decision version)"
proof (intro conjI)
  show "dep_steps db (fst (run_daily gl dr rt db day))" by (rule run_daily_steps)
  show "dep_steps db (fst (submit_interest wsv db day actor code ty amount))"
    using submit_interest_steps [OF _ assms] prod.collapse by metis
  show "dep_steps db (fst (resolve_interest_op gl db day i decision version))"
    using resolve_steps [OF _ assms] prod.collapse by metis
  show "\<forall>p err. op_by_id db i = Some p \<and> io_status p = ''SUBMITTED'' \<and>
      snd (begin_interest_op_posting db i (io_savings p) (io_amount p) (io_type p = ''CAPITALIZE'') version day) = Inl err \<longrightarrow>
      resolve_interest_op gl db day i decision version = resolve_interest_op gl' db day i decision version"
    using begin_before_finance [OF assms] by blast
qed (rule submit_rate_steps resolve_rate_steps open_savings_steps settle_steps settle_additional_steps)+

text \<open>C19. What becomes of accrued interest: over any interleaving of the transactions of concurrent calls, each cut short
  anywhere, the balance of accrued interest of a savings changes by the accruals posted, minus the operations that
  took it (POSTING or POSTED), minus the operations that had taken it when a rejection overwrote their status
  (\<open>ps\<close>, the interest lost by the unguarded statement of the rejection); it never becomes negative, so what the
  operations take, the lost ones included, never exceeds what was accrued. Without such a rejection nothing is
  lost.\<close>

theorem interest_conserved:
  assumes "dep_run db ps db'" "dep_wf db"
  shows "accrued_of db' sid =
      accrued_of db sid + (posted_interest db' sid - posted_interest db sid) -
        (taken_interest db' sid - taken_interest db sid) - lost_interest ps sid \<and>
    (\<forall>s\<in>set (db_savings db'). 0 \<le> sv_accrued s) \<and>
    taken_interest db' sid - taken_interest db sid + lost_interest ps sid
      \<le> accrued_of db sid + (posted_interest db' sid - posted_interest db sid)"
proof -
  have k: "dep_wf db'" "interest_gap db' sid = interest_gap db sid - lost_interest ps sid"
    using run_effect [OF assms] by simp_all
  then have nn: "\<forall>s\<in>set (db_savings db'). 0 \<le> sv_accrued s" by (simp add: dep_wf_def)
  then have "0 \<le> accrued_of db' sid" unfolding accrued_of_def by (intro sum_list_nonneg) auto
  with k nn show ?thesis by (simp add: interest_gap_def)
qed

text \<open>The workflow service of the examples.\<close>

definition demo_workflow :: workflow_service where
  "demo_workflow = \<lparr>ws_create = (\<lambda>ty i. Inr ''case-1''), ws_submit = (\<lambda>c. Inr ())\<rparr>"

abbreviation demo_run :: "deposit_db \<Rightarrow> string \<Rightarrow> deposit_db" where
  "demo_run db day \<equiv> fst (run_daily demo_gl div_half_away round_half_away db day)"

definition demo_accrued :: deposit_db where
  "demo_accrued = demo_run demo_db ''2026-03-05''"

definition demo_submitted :: deposit_db where
  "demo_submitted = fst (submit_interest (Some demo_workflow) demo_accrued ''2026-03-05'' ''u1'' ''SV1'' '' pay '' 30000)"

definition demo_paid :: deposit_db where
  "demo_paid = fst (resolve_interest_op demo_gl demo_submitted ''2026-03-05'' 0 ''APPROVE'' [])"

lemma demo_wf: "dep_wf demo_db" "dep_wf demo_accrued" "dep_wf demo_submitted"
  by code_simp+

theorem calls_are_transactions_witness:
  "dep_steps demo_db demo_accrued \<and> map sv_accrued (db_savings demo_accrued) = [50000] \<and>
   dep_steps demo_accrued demo_submitted \<and> map io_status (db_ops demo_submitted) = [''SUBMITTED''] \<and>
   dep_steps demo_submitted demo_paid \<and> map io_status (db_ops demo_paid) = [''POSTED'']"
proof -
  have "map sv_accrued (db_savings demo_accrued) = [50000]" "map io_status (db_ops demo_submitted) = [''SUBMITTED'']"
    "map io_status (db_ops demo_paid) = [''POSTED'']" by code_simp+
  moreover have "dep_steps demo_db demo_accrued" unfolding demo_accrued_def by (rule calls_are_transactions [OF demo_wf(1), THEN conjunct1])
  moreover have "dep_steps demo_accrued demo_submitted"
    unfolding demo_submitted_def by (rule calls_are_transactions [OF demo_wf(2), THEN conjunct2, THEN conjunct1])
  moreover have "dep_steps demo_submitted demo_paid" unfolding demo_paid_def by (rule calls_are_transactions [OF demo_wf(3), THEN conjunct2, THEN conjunct2, THEN conjunct1])
  ultimately show ?thesis by blast
qed

text \<open>
  Two workers: one reads the operation as SUBMITTED to reject it, the other takes its amount, and the
  rejection is written after that.
\<close>

definition demo_begun :: deposit_db where
  "demo_begun = fst (begin_interest_op_posting demo_submitted 0 ''s1'' 30000 False [] ''2026-03-05'')"

definition demo_overwritten :: deposit_db where
  "demo_overwritten = set_interest_op_status demo_begun 0 ''REJECTED''"

theorem interest_conserved_witness:
  "accrued_of demo_overwritten ''s1'' = 20000 \<and> posted_interest demo_overwritten ''s1'' = 50000 \<and>
   taken_interest demo_overwritten ''s1'' = 0 \<and>
   (\<exists>ps. dep_run demo_submitted ps demo_overwritten \<and> lost_interest ps ''s1'' = 30000)"
proof -
  have op: "op_by_id demo_submitted 0 = Some (hd (db_ops demo_submitted))" "op_by_id demo_begun 0 = Some (hd (db_ops demo_begun))"
    "io_savings (hd (db_ops demo_submitted)) = ''s1''" "io_amount (hd (db_ops demo_submitted)) = 30000"
    "io_type (hd (db_ops demo_submitted)) \<noteq> ''CAPITALIZE''"
    "snd (begin_interest_op_posting demo_submitted 0 ''s1'' 30000 False [] ''2026-03-05'') = Inr ()" by code_simp+
  have "begin_interest_op_posting demo_submitted 0 ''s1'' 30000 False [] ''2026-03-05'' = (demo_begun, Inr ())"
    unfolding demo_begun_def op(6) [symmetric] by simp
  then have "dep_step demo_submitted demo_begun" using step_begin [OF op(1), of "[]" "''2026-03-05''" demo_begun "()"] op(3-5) by simp
  moreover have "dep_step demo_begun demo_overwritten" unfolding demo_overwritten_def by (rule step_reject [OF op(2)])
  ultimately obtain ps where run: "dep_run demo_submitted ps demo_overwritten"
    using steps_run [of demo_submitted demo_overwritten] by (meson r_into_rtranclp rtranclp.rtrancl_into_rtrancl)
  have "accrued_of demo_submitted ''s1'' = 50000" "posted_interest demo_submitted ''s1'' = 50000"
    "taken_interest demo_submitted ''s1'' = 0" "accrued_of demo_overwritten ''s1'' = 20000"
    "posted_interest demo_overwritten ''s1'' = 50000" "taken_interest demo_overwritten ''s1'' = 0" by code_simp+
  then show ?thesis using interest_conserved [OF run demo_wf(3), of "''s1''"] run by auto
qed

section \<open>What begin and compensate do to the rows\<close>

lemma dec_str_small: "n < 10 \<Longrightarrow> dec_str n = [digit_chr (int n)]"
  by (subst dec_str.simps) simp

lemma dec_str_large: "\<not> n < 10 \<Longrightarrow> dec_str n = dec_str (n div 10) @ [digit_chr (int (n mod 10))]"
  by (subst dec_str.simps) simp

lemma dec_str_nonempty: "dec_str n \<noteq> []"
  using dec_str_small [of n] dec_str_large [of n] by (cases "n < 10") simp_all

lemma digit_chr_inj: "digit_chr a = digit_chr b \<Longrightarrow> 0 \<le> a \<Longrightarrow> a \<le> 9 \<Longrightarrow> 0 \<le> b \<Longrightarrow> b \<le> 9 \<Longrightarrow> a = b"
  by (metis digit_val_chr option.inject)

lemma dec_str_inj: "dec_str m = dec_str n \<Longrightarrow> m = n"
proof (induction m arbitrary: n rule: less_induct)
  case (less m)
  consider (small) "m < 10" "n < 10" | (left) "m < 10" "\<not> n < 10" | (right) "\<not> m < 10" "n < 10"
    | (large) "\<not> m < 10" "\<not> n < 10" by argo
  then show ?case
  proof cases
    case small
    then show ?thesis using less.prems dec_str_small digit_chr_inj [of "int m" "int n"] by simp
  next
    case left
    then show ?thesis using less.prems dec_str_small [of m] dec_str_large [of n] dec_str_nonempty [of "n div 10"] by simp
  next
    case right
    then show ?thesis using less.prems dec_str_small [of n] dec_str_large [of m] dec_str_nonempty [of "m div 10"] by simp
  next
    case large
    then have eq: "dec_str (m div 10) = dec_str (n div 10)" "digit_chr (int (m mod 10)) = digit_chr (int (n mod 10))"
      using less.prems dec_str_large [of m] dec_str_large [of n] by simp_all
    have "m div 10 = n div 10" using less.IH [OF _ eq(1)] large by simp
    moreover have "int (m mod 10) = int (n mod 10)" by (rule digit_chr_inj [OF eq(2)]) simp_all
    ultimately show ?thesis by (metis div_mult_mod_eq of_nat_eq_iff)
  qed
qed

lemma op_savings:
  assumes "dep_wf db" "p \<in> set (db_ops db)"
  shows "\<exists>s. savings_by_code db (io_code p) = Some s \<and> sv_id s = io_savings p"
proof -
  obtain s where s: "s \<in> set (db_savings db)" "sv_id s = io_savings p" "sv_code s = io_code p"
    using assms by (auto simp: dep_wf_def)
  have "distinct (map sv_code (db_savings db))" using assms(1) by (simp add: dep_wf_def)
  then show ?thesis using find_key [of sv_code "db_savings db" s] s by (auto simp: savings_by_code_def)
qed

lemma set_op_row:
  "op_by_id db i = Some p \<Longrightarrow> io_id (f p) = i \<Longrightarrow> (\<And>p. io_id (f p) = io_id p) \<Longrightarrow> op_by_id (set_op i f db) i = Some (f p)"
proof -
  assume *: "op_by_id db i = Some p" "\<And>p. io_id (f p) = io_id p"
  then have "find (\<lambda>p. io_id p = i) (map (\<lambda>p. if io_id p = i then f p else p) xs) = map_option f (find (\<lambda>p. io_id p = i) xs)" for xs
    by (induction xs) auto
  then show "op_by_id (set_op i f db) i = Some (f p)" using * by (simp add: op_by_id_def set_op_def)
qed

lemma set_savings_by_code:
  assumes "\<And>s. sv_code (f s) = sv_code s"
  shows "savings_by_code (set_savings sid f db) c = map_option (\<lambda>s. if sv_id s = sid then f s else s) (savings_by_code db c)"
proof -
  have "find (\<lambda>s. sv_code s = c) (map (\<lambda>s. if sv_id s = sid then f s else s) xs) =
      map_option (\<lambda>s. if sv_id s = sid then f s else s) (find (\<lambda>s. sv_code s = c) xs)" for xs
    by (induction xs) (auto simp: assms)
  then show ?thesis by (simp add: savings_by_code_def set_savings_def)
qed

lemma savings_set_op [simp]: "savings_by_code (set_op i f db) c = savings_by_code db c"
  by (simp add: savings_by_code_def set_op_def)

lemma begin_savings:
  assumes "begin_interest_op_posting db i sid amount cap version day = (db1, Inr u)"
    and "savings_by_code db c = Some s" "sv_id s = sid"
  shows "\<exists>s1. savings_by_code db1 c = Some s1 \<and> sv_version s1 = sv_version s + 1 \<and> sv_id s1 = sid"
  using assms
  by (auto simp: begin_interest_op_posting_def Let_def set_savings_by_code split: option.splits if_splits)

lemma compensate_savings:
  assumes "compensate_interest_op db i sid amount cap = (db1, Inr u)"
    and "savings_by_code db c = Some s" "sv_id s = sid"
  shows "\<exists>s1. savings_by_code db1 c = Some s1 \<and> sv_version s1 = sv_version s + 1"
  using assms
  by (auto simp: compensate_interest_op_def Let_def set_savings_by_code split: option.splits if_splits)

lemma compensate_row:
  assumes "compensate_interest_op db i sid amount cap = (db1, Inr u)" "op_by_id db i = Some p"
  shows "op_by_id db1 i = Some (p\<lparr>io_status := ''SUBMITTED''\<rparr>)"
proof -
  have "op_by_id db1 i = op_by_id (set_op i (\<lambda>p. p\<lparr>io_status := ''SUBMITTED''\<rparr>) db) i"
    using assms(1)
    by (auto simp: compensate_interest_op_def Let_def op_by_id_def set_savings_def split: option.splits if_splits)
  then show ?thesis using set_op_row [OF assms(2), of "\<lambda>p. p\<lparr>io_status := ''SUBMITTED''\<rparr>"] op_by_id_in [OF assms(2)] by simp
qed

lemma begin_takes:
  assumes "dep_wf db" "op_by_id db i = Some p"
    and "begin_interest_op_posting db i (io_savings p) (io_amount p) cap version day = (db1, Inr u)"
  shows "taken_interest db1 (io_savings p) = taken_interest db (io_savings p) + io_amount p"
proof -
  note p = op_by_id_in [OF assms(2)]
  obtain q where q: "find (\<lambda>p. io_id p = i \<and> io_status p = ''SUBMITTED'') (db_ops db) = Some q"
    and t: "taken_interest db1 (io_savings p) =
      taken_interest (set_op i (\<lambda>p. p\<lparr>io_status := ''POSTING'', io_effective := Some day\<rparr>) db) (io_savings p)"
    using assms(3)
    by (auto simp: begin_interest_op_posting_def Let_def taken_interest_def set_savings_def split: option.splits if_splits)
  have "q = p" using find_key_P [OF q] p op_unique [OF assms(1)] by metis
  then have "io_status p = ''SUBMITTED''" using find_key_P [OF q] by simp
  then show ?thesis
    using taken_set_op [OF assms(1), of p "\<lambda>p. p\<lparr>io_status := ''POSTING'', io_effective := Some day\<rparr>" "io_savings p"] p
    unfolding t by (simp add: is_taken_def)
qed

lemma find_moved:
  "st \<noteq> st' \<Longrightarrow>
   find (\<lambda>p. io_id p = i \<and> io_status p = st) (map (\<lambda>p. if io_id p = i then p\<lparr>io_status := st'\<rparr> else p) xs) = None"
  by (induction xs) auto

lemma approve_conflict:
  assumes "op_by_id db i = Some p" "io_status p = ''SUBMITTED'' \<or> io_status p = ''POSTING''"
    and "savings_by_code db (io_code p) = Some item" "version \<noteq> []" "dec_str (nat (sv_version item)) \<noteq> version"
  shows "resolve_interest_op gl db day i ''APPROVE'' version = (db, Inl code_conflict)"
  using assms by (auto simp: resolve_interest_op_def approve_interest_op_def resolve_op_mode_def)

section \<open>Where the code does not do what it says\<close>

lemma sort_key_head_least: "sort_key k xs = y # ys \<Longrightarrow> x \<in> set xs \<Longrightarrow> k y \<le> k x"
proof -
  assume "sort_key k xs = y # ys" "x \<in> set xs"
  moreover have "sorted (map k (sort_key k xs))" "set (sort_key k xs) = set xs" by simp_all
  ultimately show "k y \<le> k x" by auto
qed

text \<open>A default rate hides the product's own: when a rate without a product is in force for the term, or for every
  term, the rate found has no product, whatever rates the product itself has. The comment promises the opposite
  order, product first and then the default.\<close>

theorem default_bucket_wins:
  assumes "r \<in> set (db_rates db)" "ir_active r" "ir_product r = None" "ir_term r = term_months \<or> ir_term r = 0"
    and "\<not> date_lt on_date (ir_effective r)"
  shows "\<exists>r'. find_effective_rate db product_code term_months on_date = Some r' \<and>
    (ir_product r' = None \<or> product_code = [])"
proof -
  let ?k = "\<lambda>r. (eq_rank (ir_product r) (null_if_empty product_code),
      eq_rank (Some (ir_term r)) (Some term_months), - iso_day (ir_effective r))"
  let ?xs = "[r \<leftarrow> rate_candidates db product_code term_months. \<not> date_lt on_date (ir_effective r)]"
  have r: "r \<in> set ?xs" using assms by (simp add: rate_candidates_def)
  have "length (sort_key ?k ?xs) = length ?xs" by (rule length_sort)
  with r have "sort_key ?k ?xs \<noteq> []" by (metis length_0_conv length_pos_if_in_set less_irrefl)
  then obtain y ys where y: "sort_key ?k ?xs = y # ys" by (meson neq_Nil_conv)
  have none: "eq_rank None (null_if_empty product_code) = 0" by (simp add: eq_rank_def)
  have "?k y \<le> ?k r" by (rule sort_key_head_least [OF y r])
  then have "eq_rank (ir_product y) (null_if_empty product_code) \<le> 0"
    using assms(3) none by (auto simp: less_eq_prod_def)
  then have "ir_product y = None \<or> product_code = []"
    by (auto simp: eq_rank_def null_if_empty_def split: option.splits if_splits)
  then show ?thesis using y by (simp add: find_effective_rate_def)
qed

definition demo_rates :: "interest_rate list" where
  "demo_rates =
     [\<lparr>ir_product = Some ''P1'', ir_term = 0, ir_denominator = 365, ir_rate = 6, ir_effective = ''2026-01-01'', ir_active = True\<rparr>,
      \<lparr>ir_product = None, ir_term = 0, ir_denominator = 365, ir_rate = 3, ir_effective = ''2025-01-01'', ir_active = True\<rparr>]"

theorem default_bucket_wins_witness:
  "\<exists>r. find_effective_rate (demo_db\<lparr>db_rates := demo_rates\<rparr>) ''P1'' 0 ''2026-02-01'' = Some r \<and> ir_product r = None"
proof -
  have "\<not> date_lt ''2026-02-01'' ''2025-01-01''" by code_simp
  then show ?thesis
    using default_bucket_wins [of "demo_rates ! 1" "demo_db\<lparr>db_rates := demo_rates\<rparr>" 0 "''2026-02-01''" "''P1''"]
    by (simp add: demo_rates_def)
qed

text \<open>C24. An approval that carries the dossier's version cannot be retried: once an operation has taken its amount,
  a retry with the same version is a conflict and changes nothing, both when the process stopped before finance
  answered (the operation stays POSTING) and when finance refused and the amount was given back.\<close>

theorem approve_retry_blocked:
  assumes "dep_wf db" "op_by_id db i = Some p" "version \<noteq> []" "\<forall>s\<in>set (db_savings db). 0 \<le> sv_version s"
    and "begin_interest_op_posting db i (io_savings p) (io_amount p) (io_type p = ''CAPITALIZE'') version day = (db1, Inr u)"
    and "db2 = db1 \<or> compensate_interest_op db1 i (io_savings p) (io_amount p) (io_type p = ''CAPITALIZE'') = (db2, Inr w)"
  shows "resolve_interest_op gl db2 day' i ''APPROVE'' version = (db2, Inl code_conflict)"
proof -
  note p = op_by_id_in [OF assms(2)]
  obtain s where s: "savings_by_code db (io_code p) = Some s" "sv_id s = io_savings p"
    using op_savings [OF assms(1)] p by blast
  have sm: "s \<in> set (db_savings db)" using savings_by_code_in [OF s(1)] by simp
  obtain t where t: "t \<in> set (db_savings db)" "sv_id t = io_savings p" "dec_str (nat (sv_version t)) = version"
    using assms(3,5) by (auto simp: begin_interest_op_posting_def set_op_def Let_def dest!: find_Some_in split: option.splits if_splits)
  have "t = s" using t(1,2) sm s(2) dep_wf_ids(3) [OF assms(1)] by (auto simp: distinct_map inj_on_def)
  with t have v: "dec_str (nat (sv_version s)) = version" "0 \<le> sv_version s" using assms(4) sm by auto
  note row = begin_row [OF assms(5,2)]
  obtain s1 where s1: "savings_by_code db1 (io_code p) = Some s1" "sv_version s1 = sv_version s + 1" "sv_id s1 = io_savings p"
    using begin_savings [OF assms(5) s] by blast
  show ?thesis
  proof (cases "db2 = db1")
    case True
    have "dec_str (nat (sv_version s1)) \<noteq> version"
      using v s1(2) dec_str_inj [of "nat (sv_version s1)" "nat (sv_version s)"] by auto
    then show ?thesis using approve_conflict [OF row _ _ assms(3)] s1(1) True by simp
  next
    case False
    then have c: "compensate_interest_op db1 i (io_savings p) (io_amount p) (io_type p = ''CAPITALIZE'') = (db2, Inr w)"
      using assms(6) by simp
    note row2 = compensate_row [OF c row]
    obtain s2 where s2: "savings_by_code db2 (io_code p) = Some s2" "sv_version s2 = sv_version s1 + 1"
      using compensate_savings [OF c s1(1,3)] by blast
    have "dec_str (nat (sv_version s2)) \<noteq> version"
      using v s1(2) s2(2) dec_str_inj [of "nat (sv_version s2)" "nat (sv_version s)"] by auto
    then show ?thesis using approve_conflict [OF row2 _ _ assms(3)] s2(1) by simp
  qed
qed

definition demo_dossier :: deposit_db where
  "demo_dossier = demo_accrued\<lparr>db_ops := [\<lparr>io_id = 0, io_savings = ''s1'', io_code = ''SV1'', io_type = ''PAY'', io_amount = 30000,
     io_status = ''SUBMITTED'', io_effective = None, io_case = Some ''case-1'', io_journal = None, io_actor = ''u1'',
     io_created = ''2026-03-05''\<rparr>]\<rparr>"

theorem approve_retry_blocked_witness:
  "\<exists>db1. fst (begin_interest_op_posting demo_dossier 0 ''s1'' 30000 False ''2'' ''2026-03-05'') = db1 \<and>
     map io_status (db_ops db1) = [''POSTING''] \<and>
     resolve_interest_op demo_gl db1 ''2026-03-05'' 0 ''APPROVE'' ''2'' = (db1, Inl code_conflict)"
proof -
  let ?b = "begin_interest_op_posting demo_dossier 0 ''s1'' 30000 False ''2'' ''2026-03-05''"
  let ?p = "\<lparr>io_id = 0, io_savings = ''s1'', io_code = ''SV1'', io_type = ''PAY'', io_amount = 30000,
     io_status = ''SUBMITTED'', io_effective = None, io_case = Some ''case-1'', io_journal = None, io_actor = ''u1'',
     io_created = ''2026-03-05''\<rparr>"
  have b: "snd ?b = Inr ()" "map io_status (db_ops (fst ?b)) = [''POSTING'']" by code_simp+
  have wfd: "dep_wf demo_dossier" "\<forall>s\<in>set (db_savings demo_dossier). 0 \<le> sv_version s" by code_simp+
  have ne: "''2'' \<noteq> ([] :: string)" by simp
  have op: "op_by_id demo_dossier 0 = Some ?p" by (simp add: demo_dossier_def op_by_id_def)
  have fields: "io_savings ?p = ''s1''" "io_amount ?p = 30000" "(io_type ?p = ''CAPITALIZE'') = False" by simp_all
  obtain db1 where db1: "?b = (db1, Inr ())" using b(1) by (cases ?b) auto
  then have begun: "begin_interest_op_posting demo_dossier 0 (io_savings ?p) (io_amount ?p) (io_type ?p = ''CAPITALIZE'')
      ''2'' ''2026-03-05'' = (db1, Inr ())" by (simp only: fields)
  have "resolve_interest_op demo_gl db1 ''2026-03-05'' 0 ''APPROVE'' ''2'' = (db1, Inl code_conflict)"
    by (rule approve_retry_blocked [where db = demo_dossier and i = 0 and p = ?p and version = "''2''" and day = "''2026-03-05''"
          and ?db1.0 = db1 and ?db2.0 = db1 and u = "()" and w = "()", OF wfd(1) op ne wfd(2) begun disjI1 [OF refl]])
  moreover have "map io_status (db_ops db1) = [''POSTING'']" using b(2) unfolding db1 fst_conv .
  moreover have "fst ?b = db1" unfolding db1 by (rule fst_conv)
  ultimately show ?thesis by (intro exI [of _ db1] conjI)
qed

text \<open>
  A rejection reads the status and writes it in two statements without a guard. When another worker
  takes the amount in between, the operation ends REJECTED with the amount gone from the account:
  neither its completion nor its compensation applies any more.
\<close>

lemma reject_race:
  assumes "dep_wf db" "op_by_id db i = Some p"
    and "begin_interest_op_posting db i (io_savings p) (io_amount p) (io_type p = ''CAPITALIZE'') version day = (db1, Inr u)"
    and "db2 = set_interest_op_status db1 i ''REJECTED''"
  shows "accrued_of db2 (io_savings p) = accrued_of db (io_savings p) - io_amount p"
    and "taken_interest db2 (io_savings p) = taken_interest db (io_savings p)"
    and "mark_interest_op_posted db2 i journal = (db2, Inl err_op_state)"
    and "compensate_interest_op db2 i sid amount capitalize = (db2, Inl err_op_state)"
proof -
  note row = begin_row [OF assms(3,2)]
  note k = keeps_begin [OF assms(1-3)]
  have wf1: "dep_wf db1" using k by (simp add: keeps_interest_def)
  let ?p = "p\<lparr>io_status := ''POSTING'', io_effective := Some day\<rparr>"
  have p1: "?p \<in> set (db_ops db1)" "io_id ?p = i" using op_by_id_in [OF row] by simp_all
  have row2: "op_by_id db2 i = Some (?p\<lparr>io_status := ''REJECTED''\<rparr>)"
    unfolding assms(4) set_interest_op_status_def by (rule set_op_row [OF row]) (use p1(2) in simp_all)
  have none: "find (\<lambda>p. io_id p = i \<and> io_status p = ''POSTING'') (db_ops db2) = None"
    using find_moved [of "''POSTING''" "''REJECTED''" i "db_ops db1"]
    by (simp add: assms(4) set_interest_op_status_def set_op_def)
  show "mark_interest_op_posted db2 i journal = (db2, Inl err_op_state)"
    "compensate_interest_op db2 i sid amount capitalize = (db2, Inl err_op_state)"
    unfolding mark_interest_op_posted_def compensate_interest_op_def none option.case row2 by simp_all
  have tk: "taken_interest db2 (io_savings p) = taken_interest db1 (io_savings p) - io_amount p"
    unfolding assms(4) set_interest_op_status_def
    using taken_set_op [OF wf1 p1(1), of "\<lambda>p. p\<lparr>io_status := ''REJECTED''\<rparr>" "io_savings p"] p1(2)
    by (simp add: is_taken_def)
  have same: "accrued_of db2 sid = accrued_of db1 sid" "posted_interest db1 sid = posted_interest db sid" for sid
    using assms(3,4)
    by (auto simp: accrued_of_def posted_interest_def set_interest_op_status_def set_op_def set_savings_def
        begin_interest_op_posting_def Let_def split: option.splits if_splits)
  have "taken_interest db1 (io_savings p) = taken_interest db (io_savings p) + io_amount p"
    using begin_takes [OF assms(1-3)] .
  moreover have "interest_gap db1 (io_savings p) = interest_gap db (io_savings p)" using k by (simp add: keeps_interest_def)
  ultimately show "accrued_of db2 (io_savings p) = accrued_of db (io_savings p) - io_amount p"
    and "taken_interest db2 (io_savings p) = taken_interest db (io_savings p)"
    using tk same [of "io_savings p"] by (simp_all add: interest_gap_def)
qed

text \<open>
  A day accrued twice: the run catches up 1 to 5 March in one row, the interest is paid out on the
  5th, which starts the new period on that day; the row of the old period begins before it, so the
  run of the 6th counts nothing as booked and books the 5th again.
\<close>

lemma day_accrued_twice:
  "let db = demo_run demo_db ''2026-03-05'';
       db = fst (submit_interest (Some demo_workflow) db ''2026-03-05'' ''u1'' ''SV1'' ''PAY'' 50000);
       db = fst (resolve_interest_op demo_gl db ''2026-03-05'' 0 ''APPROVE'' []);
       db = demo_run db ''2026-03-06''
   in map (\<lambda>a. (ac_from a, ac_to a, ac_days a, ac_amount a)) (db_accruals db) =
     [(''2026-03-01'', ''2026-03-05'', 5, 50000), (''2026-03-06'', ''2026-03-06'', 1, 20000)]"
  by code_simp

end
