(* ===== verification/Deposit_Accounts.thy ===== *)
theory Deposit_Accounts
  imports Deposit_Theorems
begin

text \<open>
  The main results on savings accounts: what the principal is, that a settled account is final, what
  a settlement pays out, that a top-up counts once, and the accounts that never accrue.
\<close>

section \<open>The principal\<close>

text \<open>C25. The principal of an account is what went into it: over any interleaving of the transactions of concurrent
  calls, each cut short anywhere, the principal of an account that existed before changes by exactly the top-ups
  posted and the interest capitalized in between, less the capitalizations given back. Only a capitalization whose
  status a rejection overwrote after it had moved its amount (one of \<open>ps\<close>) stays in the principal without being
  counted as capitalized.\<close>

theorem principal_conserved:
  assumes "dep_run db ps db'" "dep_wf db" "sid \<in> savings_ids db"
  shows "principal_of db' sid =
    principal_of db sid + (topped_up db' sid - topped_up db sid) + (capitalized db' sid - capitalized db sid) +
      kept_capital ps sid"
  using run_principal_effect [OF assms(1,2)] assms(3) by (auto simp: principal_effect_def principal_gap_def)

text \<open>The database of the examples reads a text as a DATE as the code writes it.\<close>

definition demo_pgd :: "string \<Rightarrow> string option" where
  "demo_pgd text = map_option format_iso (parse_iso text)"

definition demo_accounts_card :: "posting_rule option list" where
  "demo_accounts_card =
     [Some \<lparr>rule_line = 1, rule_direction = ''DEBIT'', rule_resolution = ''CLASS_MAP'', rule_class = ''DEPOSIT'', rule_account = []\<rparr>,
      Some \<lparr>rule_line = 2, rule_direction = ''DEBIT'', rule_resolution = ''FIXED_CODE'', rule_class = [], rule_account = ''4911''\<rparr>,
      Some \<lparr>rule_line = 3, rule_direction = ''CREDIT'', rule_resolution = ''FIXED_CODE'', rule_class = [], rule_account = ''1011''\<rparr>]"

definition demo_open_card :: "posting_rule option list" where
  "demo_open_card =
     [Some \<lparr>rule_line = 1, rule_direction = ''DEBIT'', rule_resolution = ''FIXED_CODE'', rule_class = [], rule_account = ''1011''\<rparr>,
      Some \<lparr>rule_line = 2, rule_direction = ''CREDIT'', rule_resolution = ''CLASS_MAP'', rule_class = ''DEPOSIT'', rule_account = []\<rparr>]"

definition demo_finance :: finance_client where
  "demo_finance = \<lparr>fc_rules = (\<lambda>ty. Inr (if ty = ''DPM_SETTLEMENT_V3'' then demo_accounts_card else demo_open_card)),
     fc_post = (\<lambda>req. Inr ''je-9'')\<rparr>"

definition demo_top_up :: "deposit_db \<times> (string + unit)" where
  "demo_top_up = settle_additional demo_pgd demo_finance ''2026-03-05'' ''k-new'' demo_accrued ''u1'' ''SV1'' 700 [] ''k1'' []"

definition demo_settled :: "deposit_db \<times> (string + savings)" where
  "demo_settled = settle_savings (Some demo_finance) ''2026-03-05'' demo_accrued ''SV1'' ''2''"

lemma demo_account_steps: "dep_steps demo_accrued (fst demo_top_up)" "dep_steps demo_accrued (fst demo_settled)"
  unfolding demo_top_up_def demo_settled_def by (rule settle_additional_steps settle_steps)+

text \<open>A capitalization of 30000 that is rejected while it is posted.\<close>

definition demo_capitalizing :: deposit_db where
  "demo_capitalizing = fst (submit_interest (Some demo_workflow) demo_accrued ''2026-03-05'' ''u1'' ''SV1'' ''CAPITALIZE'' 30000)"

definition demo_moved :: deposit_db where
  "demo_moved = fst (begin_interest_op_posting demo_capitalizing 0 ''s1'' 30000 True [] ''2026-03-05'')"

definition demo_kept :: deposit_db where
  "demo_kept = set_interest_op_status demo_moved 0 ''REJECTED''"

theorem principal_conserved_witness:
  "(\<exists>ps. dep_run demo_accrued ps (fst demo_top_up) \<and> kept_capital ps ''s1'' = 0) \<and>
   principal_of (fst demo_top_up) ''s1'' = 36500700 \<and> topped_up (fst demo_top_up) ''s1'' = 700 \<and>
   (\<exists>ps. dep_run demo_capitalizing ps demo_kept \<and> kept_capital ps ''s1'' = 30000) \<and>
   principal_of demo_kept ''s1'' = 36530000"
proof -
  have sid: "''s1'' \<in> savings_ids demo_accrued" "''s1'' \<in> savings_ids demo_capitalizing" and wf: "dep_wf demo_capitalizing"
    by code_simp+
  have v: "principal_of demo_accrued ''s1'' = 36500000" "topped_up demo_accrued ''s1'' = 0" "capitalized demo_accrued ''s1'' = 0"
    "principal_of (fst demo_top_up) ''s1'' = 36500700" "topped_up (fst demo_top_up) ''s1'' = 700"
    "capitalized (fst demo_top_up) ''s1'' = 0" by code_simp+
  have w: "principal_of demo_capitalizing ''s1'' = 36500000" "topped_up demo_capitalizing ''s1'' = 0"
    "capitalized demo_capitalizing ''s1'' = 0" "principal_of demo_kept ''s1'' = 36530000" "topped_up demo_kept ''s1'' = 0"
    "capitalized demo_kept ''s1'' = 0" by code_simp+
  have op: "op_by_id demo_capitalizing 0 = Some (hd (db_ops demo_capitalizing))"
    "op_by_id demo_moved 0 = Some (hd (db_ops demo_moved))" "io_savings (hd (db_ops demo_capitalizing)) = ''s1''"
    "io_amount (hd (db_ops demo_capitalizing)) = 30000" "io_type (hd (db_ops demo_capitalizing)) = ''CAPITALIZE''"
    "snd (begin_interest_op_posting demo_capitalizing 0 ''s1'' 30000 True [] ''2026-03-05'') = Inr ()" by code_simp+
  have "begin_interest_op_posting demo_capitalizing 0 ''s1'' 30000 True [] ''2026-03-05'' = (demo_moved, Inr ())"
    unfolding demo_moved_def op(6) [symmetric] by simp
  then have "dep_step demo_capitalizing demo_moved"
    using step_begin [OF op(1), of "[]" "''2026-03-05''" demo_moved "()"] op(3-5) by simp
  moreover have "dep_step demo_moved demo_kept" unfolding demo_kept_def by (rule step_reject [OF op(2)])
  ultimately obtain qs where qs: "dep_run demo_capitalizing qs demo_kept"
    using steps_run [of demo_capitalizing demo_kept] by (meson r_into_rtranclp rtranclp.rtrancl_into_rtrancl)
  obtain ps where ps: "dep_run demo_accrued ps (fst demo_top_up)" using steps_run [OF demo_account_steps(1)] by blast
  show ?thesis
    using principal_conserved [OF ps demo_wf(2) sid(1)] principal_conserved [OF qs wf sid(2)] v w ps qs by auto
qed

section \<open>A settled account\<close>

text \<open>C26. A settled account is final: whatever transactions of concurrent calls come after, it stays CLOSED, no interest
  is booked to it and no top-up reaches it, and no further amount is taken from its interest or added to its
  principal: operations in flight can only be given back.\<close>

theorem settled_is_final:
  assumes "dep_steps db db'" "dep_wf db" "closed db sid"
  shows "closed db' sid \<and> posted_interest db' sid = posted_interest db sid \<and> topped_up db' sid = topped_up db sid \<and>
    taken_interest db' sid \<le> taken_interest db sid \<and> capitalized db' sid \<le> capitalized db sid"
  using steps_frozen [OF assms] by (simp add: frozen_def)

definition demo_after :: deposit_db where
  "demo_after = demo_run (fst demo_settled) ''2026-03-09''"

theorem settled_is_final_witness:
  "closed demo_after ''s1'' \<and> posted_interest demo_after ''s1'' = 50000"
proof -
  have "dep_steps (fst demo_settled) demo_after" unfolding demo_after_def by (rule run_daily_steps)
  moreover have "dep_wf (fst demo_settled)" by (rule step_wf [OF demo_account_steps(2) demo_wf(2)])
  moreover have "closed (fst demo_settled) ''s1''" "posted_interest (fst demo_settled) ''s1'' = 50000" by code_simp+
  ultimately show ?thesis using settled_is_final [of "fst demo_settled" demo_after "''s1''"] by simp
qed

text \<open>
  An operation in flight when the account is settled: finance refuses the payment after the
  settlement, the amount goes back to the closed account, and no call pays it out any more.
\<close>

definition refusing_gl :: gl_service where
  "refusing_gl r = Inl ''refused''"

lemma interest_stranded_on_closed_account:
  "let db = demo_submitted;
       item = hd (db_savings db);
       db = fst (begin_interest_op_posting db 0 (sv_id item) 30000 False [] ''2026-03-05'');
       db = fst (settle_savings (Some demo_finance) ''2026-03-05'' db ''SV1'' []);
       db = fst (compensate_interest_op db 0 (sv_id item) 30000 False)
   in map (\<lambda>s. (sv_status s, sv_accrued s)) (db_savings db) = [(''CLOSED'', 50000)] \<and>
     snd (settle_savings (Some demo_finance) ''2026-03-05'' db ''SV1'' []) = Inl code_invalid_input \<and>
     snd (resolve_interest_op demo_gl db ''2026-03-05'' 0 ''APPROVE'' []) \<noteq> Inr ()"
  by code_simp

section \<open>What a settlement pays\<close>

abbreviation lines_total :: "string \<Rightarrow> card_line list \<Rightarrow> int" where
  "lines_total direction lines \<equiv> sum_list (map cl_amount [l \<leftarrow> lines. cl_direction l = direction])"

lemma post_card_totals:
  assumes "post_card fin ref_type doc legs key code date currency = Inr entry"
  shows "\<exists>req. fc_post fin req = Inr entry \<and> pq_key req = key \<and> pq_code req = code \<and> pq_currency req = currency \<and>
    (\<forall>d. lines_total d (pq_lines req) = sum_list (map leg_amount [l \<leftarrow> legs. leg_direction l = d]))"
proof -
  obtain lines where lines: "build_posting_lines (Some (fc_rules fin)) doc legs currency = Inr lines"
    and post: "fc_post fin \<lparr>pq_key = key, pq_date = date, pq_currency = currency,
      pq_description = ref_type @ '' '' @ code, pq_type = ref_type, pq_code = code, pq_lines = lines\<rparr> = Inr entry"
    using assms by (auto simp: post_card_def split: sum.splits)
  show ?thesis by (rule exI, rule conjI [OF post]) (simp add: build_sums [OF lines])
qed

lemma settlement_totals:
  assumes "settlement_entry (Some fin) today item = Inr entry" "0 < sv_principal item" "0 \<le> sv_accrued item"
    and "in64 (sv_principal item + sv_accrued item)"
  shows "\<exists>req. fc_post fin req = Inr entry \<and> pq_key req = settlement_key (sv_code item) \<and>
    lines_total ''DEBIT'' (pq_lines req) = sv_principal item + sv_accrued item \<and>
    lines_total ''CREDIT'' (pq_lines req) = sv_principal item + sv_accrued item"
proof -
  let ?a = "savings_analytics (sv_customer item) (sv_code item)" and ?sum = "sv_principal item + sv_accrued item"
  have payout: "add64 (sv_principal item) (sv_accrued item) = ?sum"
    using assms(4) by (rule add64_eq)
  obtain ty legs where card: "post_card fin ty ty legs (settlement_key (sv_code item)) (sv_code item) today (sv_currency item) = Inr entry"
    and legs: "legs = settlement_legs (sv_principal item) (sv_accrued item) ?a \<or> legs = two_legs ?sum ?a"
    using assms(1) payout
    by (auto simp: settlement_entry_def post_settlement_def post_movement_def split: if_splits)
  have "sum_list (map leg_amount [l \<leftarrow> legs. leg_direction l = d]) = ?sum" if "d = ''DEBIT'' \<or> d = ''CREDIT''" for d
    using legs that payout by (elim disjE) (simp_all add: settlement_legs_def two_legs_def leg_def Let_def)
  then show ?thesis using post_card_totals [OF card] by auto
qed

text \<open>C27. A settlement pays out the whole account: it succeeds only on an ACTIVE account whose version is the approved one,
  finance has accepted under the account's own key a posting whose debits and credits both total principal
  plus accrued interest, and the account is then CLOSED with that entry's id and its next version, its
  principal and accrued interest as they were paid.\<close>

theorem settle_pays_out:
  assumes "settle_savings (Some fin) today db code data_version = (db', Inr item)"
    and "dep_wf db" "0 < sv_principal item" "in64 (sv_principal item + sv_accrued item)"
  shows "savings_by_code db code = Some item \<and> sv_status item = ''ACTIVE'' \<and>
    (data_version = [] \<or> dec_str (nat (sv_version item)) = data_version) \<and>
    (\<exists>req entry. fc_post fin req = Inr entry \<and> pq_key req = settlement_key code \<and>
       lines_total ''DEBIT'' (pq_lines req) = sv_principal item + sv_accrued item \<and>
       lines_total ''CREDIT'' (pq_lines req) = sv_principal item + sv_accrued item \<and>
       savings_by_code db' code = Some (item\<lparr>sv_status := ''CLOSED'', sv_journal := null_if_empty entry,
         sv_version := sv_version item + 1\<rparr>))"
proof -
  obtain entry where item: "savings_by_code db code = Some item" "sv_status item = ''ACTIVE''"
      "data_version = [] \<or> dec_str (nat (sv_version item)) = data_version"
    and entry: "settlement_entry (Some fin) today item = Inr entry"
    and close: "close_savings db (sv_id item) entry data_version = (db', Inr ())"
    using assms(1) unfolding settle_savings_def
    by (auto split: option.splits sum.splits prod.splits if_splits)
  note m = savings_by_code_in [OF item(1)]
  have "0 \<le> sv_accrued item" using assms(2) m by (simp add: dep_wf_def)
  then obtain req where req: "fc_post fin req = Inr entry" "pq_key req = settlement_key (sv_code item)"
      "lines_total ''DEBIT'' (pq_lines req) = sv_principal item + sv_accrued item"
      "lines_total ''CREDIT'' (pq_lines req) = sv_principal item + sv_accrued item"
    using settlement_totals [OF entry assms(3) _ assms(4)] by blast
  have "db' = set_savings (sv_id item) (\<lambda>s. s\<lparr>sv_status := ''CLOSED'', sv_journal := null_if_empty entry,
      sv_version := sv_version s + 1\<rparr>) db"
    using close by (auto simp: close_savings_def split: option.splits)
  then have "savings_by_code db' code = Some (item\<lparr>sv_status := ''CLOSED'', sv_journal := null_if_empty entry,
      sv_version := sv_version item + 1\<rparr>)"
    using item(1) by (simp add: set_savings_by_code)
  then show ?thesis using item req m by auto
qed

theorem settle_pays_out_witness:
  "savings_by_code (fst demo_settled) ''SV1'' \<noteq> None \<and>
   (\<exists>req. fc_post demo_finance req = Inr ''je-9'' \<and> lines_total ''CREDIT'' (pq_lines req) = 36550000)"
proof -
  have ok: "snd demo_settled = Inr (hd (db_savings demo_accrued))" by code_simp
  then have call: "settle_savings (Some demo_finance) ''2026-03-05'' demo_accrued ''SV1'' ''2'' =
      (fst demo_settled, Inr (hd (db_savings demo_accrued)))"
    unfolding demo_settled_def by (metis prod.collapse)
  have amounts: "sv_principal (hd (db_savings demo_accrued)) = 36500000" "sv_accrued (hd (db_savings demo_accrued)) = 50000"
    by code_simp+
  show ?thesis using settle_pays_out [OF call demo_wf(2)] amounts by (auto simp: in64_def demo_finance_def)
qed

section \<open>A top-up counts once\<close>

text \<open>A top-up counts once per key: when the call succeeds under a key that no movement has yet, the principal of the account
  and its posted top-ups both grow by the amount and the key is used; under a used key nothing changes.\<close>

theorem top_up_once:
  assumes "settle_additional pgd fin today new_key db actor code amount txn_date idem_key data_version = (db', Inr ())"
    and "dep_wf db" "idem_key \<noteq> []" "savings_by_code db code = Some item"
  shows "(if \<exists>t\<in>set (db_txns db). tx_key t = Some idem_key then db' = db
      else principal_of db' (sv_id item) = principal_of db (sv_id item) + amount \<and>
        topped_up db' (sv_id item) = topped_up db (sv_id item) + amount) \<and>
    (\<exists>t\<in>set (db_txns db'). tx_key t = Some idem_key)"
proof -
  obtain day entry b where top: "top_up_savings pgd db item amount day entry actor idem_key data_version = (db', Inr b)"
    using assms(1,3,4) unfolding settle_additional_def Let_def
    by (auto simp del: dec_str.simps split: option.splits sum.splits prod.splits if_splits)
  show ?thesis
  proof (cases "\<exists>t\<in>set (db_txns db). tx_key t = Some idem_key")
    case True
    then show ?thesis using top by (auto simp: top_up_savings_def split: option.splits if_splits)
  next
    case False
    then have b: "b = True" using top by (auto simp: top_up_savings_def split: option.splits if_splits)
    obtain d s where s: "s \<in> set (db_savings db)" "sv_id s = sv_id item"
      and db': "db' = set_savings (sv_id item) (\<lambda>s. s\<lparr>sv_principal := sv_principal s + amount, sv_version := sv_version s + 1\<rparr>)
        (db\<lparr>db_txns := db_txns db @ [top_up_row item amount d entry actor idem_key]\<rparr>)"
      using top_up_cases top b by blast
    have up: "topped_up db' (sv_id item) = topped_up db (sv_id item) + amount"
      unfolding db' by simp (simp add: topped_up_def top_up_row_def)
    have cap: "capitalized db' (sv_id item) = capitalized db (sv_id item)"
      unfolding db' by simp (simp add: capitalized_def)
    have "sv_id item \<in> savings_ids db" using s by (metis imageI savings_ids_def)
    then have "principal_gap db' (sv_id item) = principal_gap db (sv_id item)"
      using principal_top_up [OF assms(2)] top b by (auto simp: keeps_principal_def)
    moreover have "\<exists>t\<in>set (db_txns db'). tx_key t = Some idem_key"
      unfolding db' by (simp add: set_savings_def top_up_row_def)
    ultimately show ?thesis using False up cap by (simp add: principal_gap_def)
  qed
qed

theorem top_up_once_witness:
  "principal_of (fst demo_top_up) ''s1'' = principal_of demo_accrued ''s1'' + 700 \<and>
   fst (settle_additional demo_pgd demo_finance ''2026-03-06'' ''k-new'' (fst demo_top_up) ''u1'' ''SV1'' 700 [] ''k1'' []) =
     fst demo_top_up"
proof -
  let ?again = "settle_additional demo_pgd demo_finance ''2026-03-06'' ''k-new'' (fst demo_top_up) ''u1'' ''SV1'' 700 [] ''k1'' []"
  have ok: "snd demo_top_up = Inr ()" "snd ?again = Inr ()" by code_simp+
  have rows: "savings_by_code demo_accrued ''SV1'' = Some (hd (db_savings demo_accrued))"
    "savings_by_code (fst demo_top_up) ''SV1'' = Some (hd (db_savings (fst demo_top_up)))"
    "sv_id (hd (db_savings demo_accrued)) = ''s1''" "\<not> (\<exists>t\<in>set (db_txns demo_accrued). tx_key t = Some ''k1'')"
    by code_simp+
  have first: "settle_additional demo_pgd demo_finance ''2026-03-05'' ''k-new'' demo_accrued ''u1'' ''SV1'' 700 [] ''k1'' [] =
      (fst demo_top_up, Inr ())"
    using ok(1) unfolding demo_top_up_def by (metis prod.collapse)
  have second: "?again = (fst ?again, Inr ())" using ok(2) by (metis prod.collapse)
  have wf: "dep_wf (fst demo_top_up)" by (rule step_wf [OF demo_account_steps(1) demo_wf(2)])
  note one = top_up_once [OF first demo_wf(2) _ rows(1)] and two = top_up_once [OF second wf _ rows(2)]
  show ?thesis using one two rows(3,4) by (simp split: if_splits)
qed

section \<open>Accounts that never accrue\<close>

lemma no_product_no_stage:
  assumes "product_by_code db (sv_product item) = None"
  shows "plan_accrual dr rt db item day business \<noteq> Inr (Stage a)"
proof -
  have "compute_cumulative_accrual dr rt inp = Inl code_round_missing"
    if "read_cumulative_input db item start business = Inr inp" for inp start
    using that assms by (auto simp: read_cumulative_input_def compute_cumulative_accrual_def Let_def split: option.splits sum.splits)
  then show ?thesis
    by (auto simp: plan_accrual_def Let_def split: option.splits sum.splits prod.splits)
qed

text \<open>An account opened through the service never accrues: the row gets the id of the product where the daily run looks
  up its rate and rounding by code, so unless some product has another's id as its code, no run on any day, with
  the same products, stages an accrual for it, whatever else has changed.\<close>

theorem opened_savings_never_accrue:
  assumes "open_savings pgd finance new_id key today db inp = (db', Inr item)"
    and "\<forall>p\<in>set (db_products db). \<forall>q\<in>set (db_products db). pr_code q \<noteq> pr_id p"
    and "db_products db2 = db_products db" "sv_product row = sv_product item"
  shows "plan_accrual dr rt db2 row day business \<noteq> Inr (Stage a)"
proof -
  obtain pr currency open_date where pr: "find_product db (oi_product inp) = Some pr"
    and item: "item = opened_row inp pr new_id currency open_date"
    using assms(1) unfolding open_savings_def Let_def
    by (auto simp: create_savings_def post_opening_def split: option.splits sum.splits prod.splits if_splits)
  have "pr \<in> set (db_products db)" using find_Some_in [OF pr [unfolded find_product_def]] by simp
  then have "\<forall>q\<in>set (db_products db2). pr_code q \<noteq> sv_product row"
    using assms(2-4) item by (simp add: opened_row_def)
  then have "product_by_code db2 (sv_product row) = None" by (simp add: product_by_code_def find_None_iff)
  then show ?thesis by (rule no_product_no_stage)
qed

definition demo_product_db :: deposit_db where
  "demo_product_db = demo_db\<lparr>db_savings := [],
     db_products := [(hd (db_products demo_db))\<lparr>pr_id := ''prd-1''\<rparr>]\<rparr>"

definition demo_open_input :: open_input where
  "demo_open_input = \<lparr>oi_code = ''SV2'', oi_customer = ''C1'', oi_product = ''P1'', oi_open = ''2026-03-01'',
     oi_principal = 36500000, oi_currency = [], oi_actor = ''u1'', oi_org = ''HN''\<rparr>"

definition demo_opened :: "deposit_db \<times> (string + savings)" where
  "demo_opened = open_savings demo_pgd (Some demo_finance) ''s2'' ''k-2'' ''2026-03-01'' demo_product_db demo_open_input"

theorem opened_savings_never_accrue_witness:
  "map sv_product (db_savings (fst demo_opened)) = [''prd-1''] \<and>
   (\<forall>a. plan_accrual div_half_away round_half_away (fst demo_opened) (hd (db_savings (fst demo_opened))) ''2026-03-05''
     \<lparr>c_year = 2026, c_month = 3, c_day = 5\<rparr> \<noteq> Inr (Stage a))"
proof -
  let ?item = "case snd demo_opened of Inr i \<Rightarrow> i"
  have ok: "snd demo_opened = Inr ?item" "map sv_product (db_savings (fst demo_opened)) = [''prd-1'']"
    "db_products (fst demo_opened) = db_products demo_product_db" "sv_product (hd (db_savings (fst demo_opened))) = sv_product ?item"
    "\<forall>p\<in>set (db_products demo_product_db). \<forall>q\<in>set (db_products demo_product_db). pr_code q \<noteq> pr_id p"
    by code_simp+
  have "open_savings demo_pgd (Some demo_finance) ''s2'' ''k-2'' ''2026-03-01'' demo_product_db demo_open_input =
      (fst demo_opened, Inr ?item)"
    using ok(1) unfolding demo_opened_def by (metis prod.collapse)
  then show ?thesis using opened_savings_never_accrue [OF _ ok(5,3,4)] ok(2) by blast
qed

end
