(* ===== verification/Deposit_Ibm.thy ===== *)
theory Deposit_Ibm
  imports Deposit_Ops Posting_Card
begin

text \<open>
  Interbank deposits and borrowings (apps/deposit-service/internal/service/ibm_service.go and
  ibm_borrow_service.go) with the repository's statements on their rows (deposit_repo.go and
  ibm_borrow_repo.go). One tenant's rows are the state; its columns that no operation reads (rates,
  counterparty names, timestamps, notes) and the titles and descriptions, which are Vietnamese
  texts, are left out. Texts are taken to fit their columns. Generated ids are arguments.
\<close>

section \<open>Rows\<close>

record ibm_product =
  ip_id :: string
  ip_code :: string
  ip_name :: string
  ip_term :: int
  ip_currency :: string
  ip_active :: bool
  ip_creator :: string

record ibm_deposit =
  im_id :: string
  im_code :: string
  im_product :: string
  im_counterparty :: string
  im_date :: string
  im_maturity :: string
  im_principal :: int
  im_accrued :: int
  im_last_interest :: string
  im_currency :: string
  im_org :: string
  im_status :: string
  im_case :: "string option"
  im_journal :: "string option"
  im_creator :: string
  im_version :: int

record ibm_movement =
  mv_id :: string
  mv_deposit :: string
  mv_kind :: string
  mv_amount :: int
  mv_currency :: string
  mv_date :: string
  mv_from :: string
  mv_to :: string
  mv_key :: string
  mv_status :: string
  mv_case :: "string option"
  mv_journal :: "string option"
  mv_creator :: string

record ibm_borrow =
  bw_id :: string
  bw_code :: string
  bw_counterparty :: string
  bw_product :: string
  bw_lender :: string
  bw_purpose :: string
  bw_term :: int
  bw_drawdown :: string
  bw_maturity :: string
  bw_principal :: int
  bw_outstanding :: int
  bw_accrued :: int
  bw_currency :: string
  bw_org :: string
  bw_status :: string
  bw_case :: "string option"
  bw_journal :: "string option"
  bw_creator :: string
  bw_version :: int

record borrow_movement =
  bm_borrow :: string
  bm_kind :: string
  bm_amount :: int
  bm_currency :: string
  bm_date :: string
  bm_from :: string
  bm_to :: string
  bm_key :: string
  bm_status :: string
  bm_creator :: string

record ibm_db =
  ib_products :: "ibm_product list"
  ib_deposits :: "ibm_deposit list"
  ib_movements :: "ibm_movement list"
  ib_borrows :: "ibm_borrow list"
  ib_borrow_movements :: "borrow_movement list"

record ibm_request =
  iq_key :: string
  iq_date :: string
  iq_currency :: string
  iq_type :: string
  iq_doc :: string
  iq_code :: string
  iq_lines :: "card_line list"

text \<open>
  Outside the service: how the database reads a text as a DATE and as a UUID (\<open>None\<close> is an error,
  otherwise its canonical text), finance and the workflow service, each maybe not configured.
\<close>

record ibm_env =
  ie_date :: "string \<Rightarrow> string option"
  ie_uuid :: "string \<Rightarrow> string option"
  ie_finance :: "(ibm_request \<Rightarrow> string + string) option"
  ie_workflow :: "workflow_service option"

definition err_ibm :: string where "err_ibm = ''interbank deposit is not actionable''"
definition err_uuid :: string where "err_uuid = ''invalid input syntax for type uuid''"
definition err_not_null :: string where "err_not_null = ''not-null constraint''"
definition code_forbidden :: string where "code_forbidden = ''auth.error.forbidden''"
definition code_missing :: string where "code_missing = ''validation.required''"

text \<open>\<open>NULLIF(x, '')::uuid\<close> and \<open>NULLIF(x, '')::date\<close>: \<open>None\<close> is an error.\<close>

definition null_or :: "(string \<Rightarrow> string option) \<Rightarrow> string \<Rightarrow> string option option" where
  "null_or cast text = (if text = [] then Some None else map_option Some (cast text))"

text \<open>The guard \<open>$n = '' OR version::text = $n\<close>.\<close>

definition version_ok :: "int \<Rightarrow> string \<Rightarrow> bool" where
  "version_ok version data_version \<longleftrightarrow> data_version = [] \<or> dec_str (nat version) = data_version"

section \<open>Statements on deposits\<close>

definition ibm_by_id :: "ibm_db \<Rightarrow> string \<Rightarrow> ibm_deposit option" where
  "ibm_by_id db i = find (\<lambda>d. im_id d = i) (ib_deposits db)"

definition set_ibm :: "string \<Rightarrow> (ibm_deposit \<Rightarrow> ibm_deposit) \<Rightarrow> ibm_db \<Rightarrow> ibm_db" where
  "set_ibm i f db = db\<lparr>ib_deposits := map (\<lambda>d. if im_id d = i then f d else d) (ib_deposits db)\<rparr>"

definition create_interbank_deposit :: "ibm_env \<Rightarrow> ibm_db \<Rightarrow> string \<Rightarrow> ibm_deposit \<Rightarrow> ibm_db \<times> (string + ibm_deposit)" where
  "create_interbank_deposit env db new_id d0 =
     (let d = d0\<lparr>im_id := (if im_id d0 = [] then new_id else im_id d0),
                 im_status := (if im_status d0 = [] then ''ACTIVE'' else im_status d0)\<rparr> in
      if \<exists>x\<in>set (ib_deposits db). im_id x = im_id d \<or> im_code x = im_code d then (db, Inl err_unique)
      else if im_principal d \<le> 0 then (db, Inl err_check)
      else case (ie_date env (im_date d), ie_date env (im_maturity d)) of
        (Some from_day, Some to_day) \<Rightarrow>
          (db\<lparr>ib_deposits := ib_deposits db @
             [d\<lparr>im_date := from_day, im_maturity := to_day, im_accrued := 0, im_last_interest := [], im_case := None,
                im_journal := None, im_version := 1\<rparr>]\<rparr>, Inr d)
      | _ \<Rightarrow> (db, Inl err_date))"

definition set_ibm_case :: "ibm_env \<Rightarrow> ibm_db \<Rightarrow> string \<Rightarrow> string \<Rightarrow> ibm_db \<times> (string + unit)" where
  "set_ibm_case env db i case_id =
     (case null_or (ie_uuid env) case_id of
        None \<Rightarrow> (db, Inl err_uuid)
      | Some c \<Rightarrow> (set_ibm i (\<lambda>d. d\<lparr>im_case := c, im_version := im_version d + 1\<rparr>) db, Inr ()))"

definition update_ibm_status :: "ibm_db \<Rightarrow> string \<Rightarrow> string \<Rightarrow> string \<Rightarrow> ibm_db \<times> (string + unit)" where
  "update_ibm_status db i status data_version =
     (case find (\<lambda>d. im_id d = i \<and> version_ok (im_version d) data_version) (ib_deposits db) of
        None \<Rightarrow> (db, Inl err_ibm)
      | Some _ \<Rightarrow> (set_ibm i (\<lambda>d. d\<lparr>im_status := status, im_version := im_version d + 1\<rparr>) db, Inr ()))"

definition set_ibm_journal :: "ibm_env \<Rightarrow> ibm_db \<Rightarrow> string \<Rightarrow> string \<Rightarrow> ibm_db \<times> (string + unit)" where
  "set_ibm_journal env db i entry =
     (case null_or (ie_uuid env) entry of
        None \<Rightarrow> (db, Inl err_uuid)
      | Some j \<Rightarrow> (set_ibm i (\<lambda>d. d\<lparr>im_journal := j, im_version := im_version d + 1\<rparr>) db, Inr ()))"

definition active_ibm :: "ibm_db \<Rightarrow> string \<Rightarrow> string \<Rightarrow> ibm_deposit option" where
  "active_ibm db i data_version =
     find (\<lambda>d. im_id d = i \<and> im_status d = ''ACTIVE'' \<and> version_ok (im_version d) data_version) (ib_deposits db)"

definition apply_ibm_top_up :: "ibm_db \<Rightarrow> string \<Rightarrow> int \<Rightarrow> string \<Rightarrow> ibm_db \<times> (string + unit)" where
  "apply_ibm_top_up db i amount data_version =
     (case active_ibm db i data_version of
        None \<Rightarrow> (db, Inl err_ibm)
      | Some d \<Rightarrow>
        if \<not> in64 (im_principal d + amount) then (db, Inl err_bigint)
        else if im_principal d + amount \<le> 0 then (db, Inl err_check)
        else (set_ibm i (\<lambda>d. d\<lparr>im_principal := im_principal d + amount, im_version := im_version d + 1\<rparr>) db, Inr ()))"

definition apply_ibm_accrual :: "ibm_env \<Rightarrow> ibm_db \<Rightarrow> string \<Rightarrow> int \<Rightarrow> string \<Rightarrow> string \<Rightarrow> ibm_db \<times> (string + unit)" where
  "apply_ibm_accrual env db i amount interest_date data_version =
     (case null_or (ie_date env) interest_date of
        None \<Rightarrow> (db, Inl err_date)
      | Some day \<Rightarrow>
        (case active_ibm db i data_version of
           None \<Rightarrow> (db, Inl err_ibm)
         | Some d \<Rightarrow>
           if \<not> in64 (im_accrued d + amount) then (db, Inl err_bigint)
           else (set_ibm i (\<lambda>d. d\<lparr>im_accrued := im_accrued d + amount,
                   im_last_interest := (case day of None \<Rightarrow> im_last_interest d | Some t \<Rightarrow> t),
                   im_version := im_version d + 1\<rparr>) db, Inr ())))"

text \<open>The table checks that the principal stays positive.\<close>

definition apply_ibm_withdraw :: "ibm_db \<Rightarrow> string \<Rightarrow> int \<Rightarrow> string \<Rightarrow> ibm_db \<times> (string + unit)" where
  "apply_ibm_withdraw db i amount data_version =
     (case find (\<lambda>d. im_id d = i \<and> im_status d = ''ACTIVE'') (ib_deposits db) of
        None \<Rightarrow> (db, Inl err_ibm)
      | Some d \<Rightarrow>
        if \<not> in64 (im_principal d + im_accrued d) then (db, Inl err_bigint)
        else if im_principal d + im_accrued d < amount \<or> \<not> version_ok (im_version d) data_version then (db, Inl err_ibm)
        else if max (im_principal d - amount) 0 \<le> 0 then (db, Inl err_check)
        else (set_ibm i (\<lambda>d. d\<lparr>im_principal := max (im_principal d - amount) 0,
                im_accrued := max (im_accrued d - max (amount - im_principal d) 0) 0,
                im_version := im_version d + 1\<rparr>) db, Inr ()))"

section \<open>Products\<close>

definition ibm_product_by_code :: "ibm_db \<Rightarrow> string \<Rightarrow> ibm_product option" where
  "ibm_product_by_code db code = find (\<lambda>p. ip_code p = code) (ib_products db)"

definition upsert_ibm_product :: "ibm_db \<Rightarrow> string \<Rightarrow> string \<Rightarrow> ibm_product \<Rightarrow> ibm_db \<times> (string + ibm_product)" where
  "upsert_ibm_product db new_id actor p0 =
     (if trim_space (ip_code p0) = [] \<or> trim_space (ip_name p0) = [] then (db, Inl code_missing)
      else
        let p = p0\<lparr>ip_id := new_id, ip_active := True, ip_creator := actor,
                   ip_currency := (if ip_currency p0 = [] then ''VND'' else ip_currency p0)\<rparr> in
        (case ibm_product_by_code db (ip_code p) of
           Some _ \<Rightarrow>
             (db\<lparr>ib_products := map (\<lambda>x. if ip_code x = ip_code p
                then x\<lparr>ip_name := ip_name p, ip_term := ip_term p, ip_currency := ip_currency p, ip_active := True\<rparr>
                else x) (ib_products db)\<rparr>, Inr p)
         | None \<Rightarrow>
           if \<exists>x\<in>set (ib_products db). ip_id x = new_id then (db, Inl code_conflict)
           else (db\<lparr>ib_products := ib_products db @ [p]\<rparr>, Inr p)))"

section \<open>Statements on movements\<close>

text \<open>The id column is a UUID, as is the parameter of every lookup.\<close>

definition create_ibm_movement :: "ibm_env \<Rightarrow> ibm_db \<Rightarrow> ibm_movement \<Rightarrow> ibm_db \<times> (string + ibm_movement)" where
  "create_ibm_movement env db m =
     (case (ie_uuid env (mv_id m), ie_date env (mv_date m), null_or (ie_date env) (mv_from m), null_or (ie_date env) (mv_to m)) of
        (Some u, Some day, Some from_day, Some to_day) \<Rightarrow>
          if \<exists>x\<in>set (ib_movements db). mv_id x = u \<or> mv_key x = mv_key m \<and> mv_key m \<noteq> [] then (db, Inl err_unique)
          else if mv_amount m \<le> 0 \<or> ibm_by_id db (mv_deposit m) = None then (db, Inl err_check)
          else (db\<lparr>ib_movements := ib_movements db @
                 [m\<lparr>mv_id := u, mv_date := day, mv_from := (case from_day of None \<Rightarrow> [] | Some t \<Rightarrow> t),
                    mv_to := (case to_day of None \<Rightarrow> [] | Some t \<Rightarrow> t), mv_case := None, mv_journal := None\<rparr>]\<rparr>, Inr m)
      | _ \<Rightarrow> (db, Inl err_uuid))"

definition movement_by_id :: "ibm_env \<Rightarrow> ibm_db \<Rightarrow> string \<Rightarrow> string + ibm_movement option" where
  "movement_by_id env db i =
     (case ie_uuid env i of None \<Rightarrow> Inl err_uuid | Some u \<Rightarrow> Inr (find (\<lambda>m. mv_id m = u) (ib_movements db)))"

definition set_movement :: "ibm_env \<Rightarrow> string \<Rightarrow> (ibm_movement \<Rightarrow> ibm_movement) \<Rightarrow> ibm_db \<Rightarrow> ibm_db \<times> (string + unit)" where
  "set_movement env i f db =
     (case ie_uuid env i of
        None \<Rightarrow> (db, Inl err_uuid)
      | Some u \<Rightarrow> (db\<lparr>ib_movements := map (\<lambda>m. if mv_id m = u then f m else m) (ib_movements db)\<rparr>, Inr ()))"

definition set_movement_case :: "ibm_env \<Rightarrow> ibm_db \<Rightarrow> string \<Rightarrow> string \<Rightarrow> ibm_db \<times> (string + unit)" where
  "set_movement_case env db i case_id =
     (case null_or (ie_uuid env) case_id of
        None \<Rightarrow> (db, Inl err_uuid)
      | Some c \<Rightarrow> set_movement env i (\<lambda>m. m\<lparr>mv_case := c, mv_status := ''SUBMITTED''\<rparr>) db)"

definition set_movement_journal :: "ibm_env \<Rightarrow> ibm_db \<Rightarrow> string \<Rightarrow> string \<Rightarrow> string \<Rightarrow> ibm_db \<times> (string + unit)" where
  "set_movement_journal env db i status entry =
     (case null_or (ie_uuid env) entry of
        None \<Rightarrow> (db, Inl err_uuid)
      | Some j \<Rightarrow> set_movement env i (\<lambda>m. m\<lparr>mv_status := status, mv_journal := j\<rparr>) db)"

definition set_movement_status :: "ibm_env \<Rightarrow> ibm_db \<Rightarrow> string \<Rightarrow> string \<Rightarrow> ibm_db \<times> (string + unit)" where
  "set_movement_status env db i status = set_movement env i (\<lambda>m. m\<lparr>mv_status := status\<rparr>) db"

section \<open>Submitting\<close>

text \<open>\<open>GetIBMDetail\<close>: the contract with its movements, newest first.\<close>

definition ibm_detail :: "ibm_db \<Rightarrow> string \<Rightarrow> string + ibm_deposit \<times> ibm_movement list" where
  "ibm_detail db i =
     (case ibm_by_id db i of
        None \<Rightarrow> Inl code_not_found
      | Some d \<Rightarrow> Inr (d, rev [m \<leftarrow> ib_movements db. mv_deposit m = i]))"

definition submit_place :: "ibm_env \<Rightarrow> ibm_db \<Rightarrow> string \<Rightarrow> string \<Rightarrow> ibm_deposit \<Rightarrow> ibm_db \<times> (string + ibm_deposit)" where
  "submit_place env db new_id actor d =
     (if trim_space (im_code d) = [] \<or> trim_space (im_counterparty d) = [] then (db, Inl code_missing)
      else if im_principal d \<le> 0 then (db, Inl code_invalid_input)
      else if im_date d = [] \<or> im_maturity d = [] then (db, Inl code_missing)
      else case ie_workflow env of
        None \<Rightarrow> (db, Inl code_internal)
      | Some wfs \<Rightarrow>
        if im_product d \<noteq> [] \<and> ibm_product_by_code db (im_product d) = None then (db, Inl code_invalid_input)
        else
          (case create_interbank_deposit env db new_id
              (d\<lparr>im_status := ''PENDING_APPROVAL'', im_creator := actor,
                 im_currency := (if im_currency d = [] then ''VND'' else im_currency d)\<rparr>) of
             (db1, Inl _) \<Rightarrow> (db1, Inl code_conflict)
           | (db1, Inr created) \<Rightarrow>
             (case open_case wfs ''IBM_PLACE_V1'' (im_id created) of
                Inl err \<Rightarrow> (db1, Inl err)
              | Inr case_id \<Rightarrow>
                (case set_ibm_case env db1 (im_id created) case_id of
                   (db2, Inl _) \<Rightarrow> (db2, Inl code_internal)
                 | (db2, Inr _) \<Rightarrow> (db2, Inr (created\<lparr>im_status := ''PENDING_APPROVAL'', im_case := Some case_id\<rparr>))))))"

definition movement_case :: "string \<Rightarrow> string option" where
  "movement_case kind =
     (if kind = ''TOP_UP'' then Some ''IBM_TOP_UP_V1''
      else if kind = ''INTEREST'' then Some ''IBM_INTEREST_V1''
      else if kind = ''EXPECTED'' then Some ''IBM_EXPECTED_V1''
      else if kind = ''WITHDRAW'' then Some ''IBM_WITHDRAW_V1'' else None)"

definition lower_char :: "char \<Rightarrow> char" where
  "lower_char c = (let n = of_char c :: nat in if 65 \<le> n \<and> n \<le> 90 then char_of (n + 32) else c)"

definition movement_row ::
  "ibm_deposit \<Rightarrow> string \<Rightarrow> string \<Rightarrow> string \<Rightarrow> int \<Rightarrow> string \<Rightarrow> string \<Rightarrow> string \<Rightarrow> string \<Rightarrow> ibm_movement" where
  "movement_row d new_id actor kind amount day from_day to_day deposit_id =
     \<lparr>mv_id = new_id, mv_deposit = deposit_id, mv_kind = kind, mv_amount = amount, mv_currency = im_currency d,
      mv_date = day, mv_from = from_day, mv_to = to_day, mv_key = ''ibm-'' @ map lower_char kind @ ''-'' @ new_id,
      mv_status = ''DRAFT'', mv_case = None, mv_journal = None, mv_creator = actor\<rparr>"

text \<open>The generated id is \<open>ibmmv_\<close> and hexadecimal digits.\<close>

definition submit_movement ::
  "ibm_env \<Rightarrow> ibm_db \<Rightarrow> string \<Rightarrow> string \<Rightarrow> string \<Rightarrow> string \<Rightarrow> int \<Rightarrow> string \<Rightarrow> string \<Rightarrow> string \<Rightarrow>
   ibm_db \<times> (string + ibm_movement)" where
  "submit_movement env db hex_id actor deposit_id kind0 amount day from_day to_day =
     (let kind = to_upper (trim_space kind0) in
      case movement_case kind of
        None \<Rightarrow> (db, Inl code_invalid_input)
      | Some case_type \<Rightarrow>
        if amount \<le> 0 then (db, Inl code_invalid_input)
        else if day = [] then (db, Inl code_missing)
        else (case ie_workflow env of
          None \<Rightarrow> (db, Inl code_internal)
        | Some wfs \<Rightarrow>
          (case ibm_by_id db deposit_id of
             None \<Rightarrow> (db, Inl code_not_found)
           | Some d \<Rightarrow>
             if im_status d \<noteq> ''ACTIVE'' then (db, Inl code_invalid_input)
             else if kind = ''WITHDRAW'' \<and> add64 (im_principal d) (im_accrued d) < amount then (db, Inl code_invalid_input)
             else
               (case create_ibm_movement env db
                   (movement_row d (''ibmmv_'' @ hex_id) actor kind amount day from_day to_day deposit_id) of
                  (db1, Inl _) \<Rightarrow> (db1, Inl code_internal)
                | (db1, Inr created) \<Rightarrow>
                  (case open_case wfs case_type (mv_id created) of
                     Inl err \<Rightarrow> (db1, Inl err)
                   | Inr case_id \<Rightarrow>
                     (case set_movement_case env db1 (mv_id created) case_id of
                        (db2, Inl _) \<Rightarrow> (db2, Inl code_internal)
                      | (db2, Inr _) \<Rightarrow>
                          (db2, Inr (created\<lparr>mv_status := ''SUBMITTED'', mv_case := Some case_id\<rparr>))))))))"

section \<open>Statements on borrowings\<close>

definition borrow_by_id :: "ibm_db \<Rightarrow> string \<Rightarrow> ibm_borrow option" where
  "borrow_by_id db i = find (\<lambda>b. bw_id b = i) (ib_borrows db)"

definition set_borrow :: "string \<Rightarrow> (ibm_borrow \<Rightarrow> ibm_borrow) \<Rightarrow> ibm_db \<Rightarrow> ibm_db" where
  "set_borrow i f db = db\<lparr>ib_borrows := map (\<lambda>b. if bw_id b = i then f b else b) (ib_borrows db)\<rparr>"

definition or_else :: "string \<Rightarrow> string \<Rightarrow> string" where
  "or_else text fallback = (if text = [] then fallback else text)"

text \<open>
  An empty organisation is sent as NULL, which the column refuses; the outstanding balance starts as
  the principal.
\<close>

definition create_ibm_borrow :: "ibm_env \<Rightarrow> ibm_db \<Rightarrow> string \<Rightarrow> ibm_borrow \<Rightarrow> ibm_db \<times> (string + ibm_borrow)" where
  "create_ibm_borrow env db new_id b0 =
     (let b = b0\<lparr>bw_id := or_else (bw_id b0) new_id, bw_status := or_else (bw_status b0) ''PENDING_APPROVAL'',
                 bw_currency := or_else (bw_currency b0) ''VND'', bw_lender := or_else (bw_lender b0) ''OTHER_TCTD'',
                 bw_purpose := or_else (bw_purpose b0) ''OTHER''\<rparr> in
      if \<exists>x\<in>set (ib_borrows db). bw_id x = bw_id b \<or> bw_code x = bw_code b then (db, Inl err_unique)
      else if bw_org b = [] then (db, Inl err_not_null)
      else case (ie_date env (bw_drawdown b), ie_date env (bw_maturity b)) of
        (Some from_day, Some to_day) \<Rightarrow>
          (db\<lparr>ib_borrows := ib_borrows db @
             [b\<lparr>bw_drawdown := from_day, bw_maturity := to_day, bw_outstanding := bw_principal b, bw_accrued := 0,
                bw_case := None, bw_journal := None, bw_version := 1\<rparr>]\<rparr>,
           Inr (b\<lparr>bw_outstanding := bw_principal b\<rparr>))
      | _ \<Rightarrow> (db, Inl err_date))"

definition update_borrow_status :: "ibm_db \<Rightarrow> string \<Rightarrow> string \<Rightarrow> string \<Rightarrow> ibm_db \<times> (string + unit)" where
  "update_borrow_status db i status data_version =
     (case find (\<lambda>b. bw_id b = i \<and> version_ok (bw_version b) data_version) (ib_borrows db) of
        None \<Rightarrow> (db, Inl err_ibm)
      | Some _ \<Rightarrow> (set_borrow i (\<lambda>b. b\<lparr>bw_status := status, bw_version := bw_version b + 1\<rparr>) db, Inr ()))"

definition set_borrow_case :: "ibm_env \<Rightarrow> ibm_db \<Rightarrow> string \<Rightarrow> string \<Rightarrow> ibm_db \<times> (string + unit)" where
  "set_borrow_case env db i case_id =
     (case null_or (ie_uuid env) case_id of
        None \<Rightarrow> (db, Inl err_uuid)
      | Some c \<Rightarrow> (set_borrow i (\<lambda>b. b\<lparr>bw_case := c, bw_version := bw_version b + 1\<rparr>) db, Inr ()))"

definition list_borrows :: "ibm_db \<Rightarrow> string list \<Rightarrow> string \<Rightarrow> ibm_borrow list" where
  "list_borrows db org_codes status =
     take 200 (sort_key (\<lambda>b. - iso_day (bw_drawdown b))
       [b \<leftarrow> ib_borrows db. (org_codes = [] \<or> bw_org b \<in> set org_codes) \<and> (status = [] \<or> bw_status b = status)])"

definition create_borrow_movement :: "ibm_env \<Rightarrow> ibm_db \<Rightarrow> borrow_movement \<Rightarrow> ibm_db \<times> (string + borrow_movement)" where
  "create_borrow_movement env db m =
     (case (ie_date env (bm_date m), null_or (ie_date env) (bm_from m), null_or (ie_date env) (bm_to m)) of
        (Some day, Some from_day, Some to_day) \<Rightarrow>
          if bm_key m \<noteq> [] \<and> (\<exists>x\<in>set (ib_borrow_movements db). bm_key x = bm_key m) then (db, Inl err_unique)
          else if bm_amount m \<le> 0 \<or> borrow_by_id db (bm_borrow m) = None then (db, Inl err_check)
          else (db\<lparr>ib_borrow_movements := ib_borrow_movements db @
                 [m\<lparr>bm_date := day, bm_from := (case from_day of None \<Rightarrow> [] | Some t \<Rightarrow> t),
                    bm_to := (case to_day of None \<Rightarrow> [] | Some t \<Rightarrow> t)\<rparr>]\<rparr>, Inr m)
      | _ \<Rightarrow> (db, Inl err_date))"

definition submit_borrow :: "ibm_env \<Rightarrow> ibm_db \<Rightarrow> string \<Rightarrow> string \<Rightarrow> ibm_borrow \<Rightarrow> ibm_db \<times> (string + ibm_borrow)" where
  "submit_borrow env db new_id actor b =
     (if trim_space (bw_code b) = [] \<or> trim_space (bw_counterparty b) = [] then (db, Inl code_missing)
      else if bw_principal b \<le> 0 then (db, Inl code_invalid_input)
      else if bw_drawdown b = [] \<or> bw_maturity b = [] then (db, Inl code_missing)
      else if bw_term b < 0 then (db, Inl code_invalid_input)
      else
        (case create_ibm_borrow env db new_id (b\<lparr>bw_id := [], bw_status := ''PENDING_APPROVAL'', bw_creator := actor\<rparr>) of
           (db1, Inl _) \<Rightarrow> (db1, Inl code_conflict)
         | (db1, Inr created) \<Rightarrow>
           (case ie_workflow env of
              None \<Rightarrow> (db1, Inr created)
            | Some wfs \<Rightarrow>
              (case open_case wfs ''IBM_BORROW_V1'' (bw_id created) of
                 Inl err \<Rightarrow> (db1, Inl err)
               | Inr case_id \<Rightarrow>
                 (case set_borrow_case env db1 (bw_id created) case_id of
                    (db2, Inl _) \<Rightarrow> (db2, Inl code_internal)
                  | (db2, Inr _) \<Rightarrow> (db2, Inr (created\<lparr>bw_case := Some case_id\<rparr>)))))))"

definition decide_borrow ::
  "ibm_db \<Rightarrow> string \<Rightarrow> string \<Rightarrow> string \<Rightarrow> string \<Rightarrow> ibm_db \<times> (string + ibm_borrow option)" where
  "decide_borrow db i decision0 actor data_version =
     (case borrow_by_id db i of
        None \<Rightarrow> (db, Inl code_not_found)
      | Some b \<Rightarrow>
        let decision = to_upper (trim_space decision0) in
        if decision = ''APPROVE'' then
          (if bw_creator b \<noteq> [] \<and> bw_creator b = actor then (db, Inl code_forbidden)
           else if bw_status b \<noteq> ''PENDING_APPROVAL'' then (db, Inl code_conflict)
           else case update_borrow_status db i ''ACTIVE'' data_version of
             (db1, Inl _) \<Rightarrow> (db1, Inl code_conflict)
           | (db1, Inr _) \<Rightarrow> (db1, Inr (borrow_by_id db1 i)))
        else if decision = ''REJECT'' then
          (if bw_status b \<noteq> ''PENDING_APPROVAL'' then (db, Inl code_conflict)
           else case update_borrow_status db i ''REJECTED'' data_version of
             (db1, Inl _) \<Rightarrow> (db1, Inl code_conflict)
           | (db1, Inr _) \<Rightarrow> (db1, Inr (borrow_by_id db1 i)))
        else (db, Inl code_invalid_input))"

definition borrow_detail :: "ibm_db \<Rightarrow> string \<Rightarrow> string + ibm_borrow \<times> borrow_movement list" where
  "borrow_detail db i =
     (case borrow_by_id db i of
        None \<Rightarrow> Inl code_not_found
      | Some b \<Rightarrow> Inr (b, sort_key (\<lambda>m. iso_day (bm_date m)) [m \<leftarrow> ib_borrow_movements db. bm_borrow m = i]))"

definition submit_borrow_movement ::
  "ibm_env \<Rightarrow> ibm_db \<Rightarrow> string \<Rightarrow> string \<Rightarrow> borrow_movement \<Rightarrow> ibm_db \<times> (string + borrow_movement)" where
  "submit_borrow_movement env db borrow_id actor m =
     (case borrow_by_id db borrow_id of
        None \<Rightarrow> (db, Inl code_not_found)
      | Some b \<Rightarrow>
        if bw_status b \<noteq> ''ACTIVE'' then (db, Inl code_conflict)
        else if to_upper (trim_space (bm_kind m)) \<notin> {''DRAWDOWN'', ''REPAYMENT'', ''INTEREST'', ''EARLY_REPAY''} then
          (db, Inl code_invalid_input)
        else if bm_amount m \<le> 0 then (db, Inl code_invalid_input)
        else if bm_date m = [] then (db, Inl code_missing)
        else
          (case create_borrow_movement env db
              (m\<lparr>bm_borrow := borrow_id, bm_status := ''SUBMITTED'', bm_creator := actor,
                 bm_currency := or_else (bm_currency m) ''VND''\<rparr>) of
             (db1, Inl _) \<Rightarrow> (db1, Inl code_conflict)
           | (db1, Inr created) \<Rightarrow> (db1, Inr created)))"

section \<open>Deciding\<close>

abbreviation movement_kinds :: "string set" where
  "movement_kinds \<equiv> {''TOP_UP'', ''INTEREST'', ''EXPECTED'', ''WITHDRAW''}"

text \<open>The answer of the validate step: an error, or whether the object is actionable and why not.\<close>

definition not_actionable :: "string \<Rightarrow> bool \<times> string" where
  "not_actionable status = (False, ''status '' @ status @ '' is not actionable'')"

definition check_ibm_request :: "ibm_env \<Rightarrow> ibm_db \<Rightarrow> string \<Rightarrow> string \<Rightarrow> string + bool \<times> string" where
  "check_ibm_request env db kind0 ref_id =
     (let kind = to_upper kind0 in
      if kind = ''PLACE'' then
        Inr (case ibm_by_id db ref_id of
          None \<Rightarrow> (False, ''interbank deposit not found'')
        | Some d \<Rightarrow> if im_status d \<noteq> ''PENDING_APPROVAL'' then not_actionable (im_status d) else (True, []))
      else if kind = ''BORROW'' then
        Inr (case borrow_by_id db ref_id of
          None \<Rightarrow> (False, ''interbank borrow not found'')
        | Some b \<Rightarrow> if bw_status b \<noteq> ''PENDING_APPROVAL'' then not_actionable (bw_status b) else (True, []))
      else if kind \<in> movement_kinds then
        (case movement_by_id env db ref_id of
           Inl err \<Rightarrow> Inl err
         | Inr None \<Rightarrow> Inr (False, ''movement not found'')
         | Inr (Some m) \<Rightarrow>
           if mv_kind m \<noteq> kind then Inr (False, ''movement kind mismatch'')
           else if mv_status m \<noteq> ''SUBMITTED'' then Inr (not_actionable (mv_status m))
           else if mv_kind m = ''WITHDRAW'' \<and>
               (case ibm_by_id db (mv_deposit m) of
                  None \<Rightarrow> True | Some d \<Rightarrow> add64 (im_principal d) (im_accrued d) < mv_amount m) then
             Inr (False, ''insufficient deposit balance'')
           else Inr (True, []))
      else Inr (False, ''unknown kind '' @ kind0))"

definition ibm_card :: "string \<Rightarrow> string" where
  "ibm_card kind =
     (if kind = ''TOP_UP'' then ''IBM_TOP_UP'' else if kind = ''INTEREST'' then ''IBM_INTEREST''
      else if kind = ''EXPECTED'' then ''IBM_EXPECTED'' else if kind = ''WITHDRAW'' then ''IBM_WITHDRAW'' else ''IBM_TOP_UP'')"

definition ibm_legs :: "string \<Rightarrow> string \<times> string" where
  "ibm_legs card_code =
     (if card_code = ''IBM_PLACE'' \<or> card_code = ''IBM_TOP_UP'' then (''IBM_INTERBANK_DEPOSIT'', ''CASH_SETTLEMENT_ACCOUNT'')
      else if card_code = ''IBM_INTEREST'' then (''CASH_SETTLEMENT_ACCOUNT'', ''IBM_INTEREST_INCOME'')
      else if card_code = ''IBM_EXPECTED'' then (''IBM_INTEREST_RECEIVABLE'', ''IBM_INTEREST_INCOME'')
      else if card_code = ''IBM_WITHDRAW'' then (''CASH_SETTLEMENT_ACCOUNT'', ''IBM_INTERBANK_DEPOSIT'')
      else (''IBM_INTERBANK_DEPOSIT'', ''CASH_SETTLEMENT_ACCOUNT''))"

definition ibm_line :: "ibm_deposit \<Rightarrow> int \<Rightarrow> string \<Rightarrow> int \<Rightarrow> string \<Rightarrow> card_line" where
  "ibm_line d n direction amount class_code =
     \<lparr>cl_no = n, cl_direction = direction, cl_amount = amount, cl_currency = im_currency d, cl_description = [],
      cl_analytics = Some \<lparr>ca_class = class_code, ca_debt_group = [], ca_org = im_org d, ca_fund = im_product d,
        ca_customer = [], ca_contract = [], ca_dimensions = [(''deposit_code'', im_code d)]\<rparr>, cl_account = []\<rparr>"

definition ibm_posting :: "ibm_deposit \<Rightarrow> ibm_movement option \<Rightarrow> string \<Rightarrow> ibm_request" where
  "ibm_posting d movement card_code =
     (case ibm_legs card_code of (debit_class, credit_class) \<Rightarrow>
        let amount = (case movement of None \<Rightarrow> im_principal d | Some m \<Rightarrow> mv_amount m) in
        \<lparr>iq_key = (case movement of None \<Rightarrow> ''ibm-place-'' @ im_id d | Some m \<Rightarrow> mv_key m),
         iq_date = (case movement of None \<Rightarrow> im_date d | Some m \<Rightarrow> mv_date m),
         iq_currency = im_currency d, iq_type = card_code,
         iq_doc = (case movement of None \<Rightarrow> im_id d | Some m \<Rightarrow> mv_id m), iq_code = im_code d,
         iq_lines = [ibm_line d 1 ''DEBIT'' amount debit_class, ibm_line d 2 ''CREDIT'' amount credit_class]\<rparr>)"

definition post_ibm :: "ibm_env \<Rightarrow> ibm_db \<Rightarrow> ibm_deposit \<Rightarrow> ibm_movement option \<Rightarrow> string \<Rightarrow> ibm_db \<times> (string + unit)" where
  "post_ibm env db d movement card_code =
     (case ie_finance env of
        None \<Rightarrow> (db, Inl code_internal)
      | Some post \<Rightarrow>
        (case post (ibm_posting d movement card_code) of
           Inl _ \<Rightarrow> (db, Inl code_bad_gateway)
         | Inr entry \<Rightarrow>
           (case movement of
              Some m \<Rightarrow> set_movement_journal env db (mv_id m) ''POSTED'' entry
            | None \<Rightarrow> set_ibm_journal env db (im_id d) entry)))"

definition ibm_apply_error :: "string \<Rightarrow> string" where
  "ibm_apply_error err = (if err = err_ibm then code_conflict else err)"

definition resolve_borrow :: "ibm_db \<Rightarrow> string \<Rightarrow> string \<Rightarrow> string \<Rightarrow> ibm_db \<times> (string + unit)" where
  "resolve_borrow db i decision data_version =
     (case borrow_by_id db i of
        None \<Rightarrow> (db, Inl code_not_found)
      | Some b \<Rightarrow>
        if decision = ''APPROVE'' then
          (if bw_status b = ''ACTIVE'' then (db, Inr ())
           else if bw_status b \<noteq> ''PENDING_APPROVAL'' then (db, Inl code_invalid_input)
           else if \<not> version_ok (bw_version b) data_version then (db, Inl code_conflict)
           else case update_borrow_status db i ''ACTIVE'' data_version of
             (db1, Inl _) \<Rightarrow> (db1, Inl code_conflict) | (db1, Inr _) \<Rightarrow> (db1, Inr ()))
        else if decision = ''REJECT'' then
          (if bw_status b = ''REJECTED'' then (db, Inr ())
           else if bw_status b \<noteq> ''PENDING_APPROVAL'' then (db, Inl code_invalid_input)
           else update_borrow_status db i ''REJECTED'' [])
        else (db, Inl code_invalid_input))"

definition resolve_place :: "ibm_env \<Rightarrow> ibm_db \<Rightarrow> string \<Rightarrow> string \<Rightarrow> string \<Rightarrow> ibm_db \<times> (string + unit)" where
  "resolve_place env db i decision data_version =
     (case ibm_by_id db i of
        None \<Rightarrow> (db, Inl code_not_found)
      | Some d \<Rightarrow>
        if decision = ''APPROVE'' then
          (if im_status d = ''ACTIVE'' then (db, Inr ())
           else if im_status d \<noteq> ''PENDING_APPROVAL'' then (db, Inl code_invalid_input)
           else if \<not> version_ok (im_version d) data_version then (db, Inl code_conflict)
           else case post_ibm env db d None ''IBM_PLACE'' of
             (db1, Inl err) \<Rightarrow> (db1, Inl err)
           | (db1, Inr _) \<Rightarrow>
             (case update_ibm_status db1 i ''ACTIVE'' data_version of
                (db2, Inl err) \<Rightarrow> (db2, Inl (ibm_apply_error err)) | (db2, Inr _) \<Rightarrow> (db2, Inr ())))
        else if decision = ''REJECT'' then
          (if im_status d = ''REJECTED'' then (db, Inr ())
           else if im_status d \<noteq> ''PENDING_APPROVAL'' then (db, Inl code_invalid_input)
           else update_ibm_status db i ''REJECTED'' [])
        else (db, Inl code_invalid_input))"

text \<open>The change of the contract after the posting of a movement.\<close>

definition apply_movement :: "ibm_env \<Rightarrow> ibm_db \<Rightarrow> string \<Rightarrow> ibm_deposit \<Rightarrow> ibm_movement \<Rightarrow> string \<Rightarrow> ibm_db \<times> (string + unit)" where
  "apply_movement env db kind d m data_version =
     (if kind = ''TOP_UP'' then apply_ibm_top_up db (im_id d) (mv_amount m) data_version
      else if kind = ''INTEREST'' then apply_ibm_accrual env db (im_id d) 0 (mv_date m) data_version
      else if kind = ''EXPECTED'' then apply_ibm_accrual env db (im_id d) (mv_amount m) (mv_date m) data_version
      else if kind = ''WITHDRAW'' then apply_ibm_withdraw db (im_id d) (mv_amount m) data_version
      else (db, Inr ()))"

definition resolve_movement :: "ibm_env \<Rightarrow> ibm_db \<Rightarrow> string \<Rightarrow> string \<Rightarrow> string \<Rightarrow> string \<Rightarrow> ibm_db \<times> (string + unit)" where
  "resolve_movement env db i kind decision data_version =
     (case movement_by_id env db i of
        Inl err \<Rightarrow> (db, Inl err)
      | Inr None \<Rightarrow> (db, Inl code_not_found)
      | Inr (Some m) \<Rightarrow>
        if decision = ''APPROVE'' then
          (if mv_status m = ''POSTED'' then (db, Inr ())
           else if mv_status m \<noteq> ''SUBMITTED'' then (db, Inl code_invalid_input)
           else case ibm_by_id db (mv_deposit m) of
             None \<Rightarrow> (db, Inl code_not_found)
           | Some d \<Rightarrow>
             if \<not> version_ok (im_version d) data_version then (db, Inl code_conflict)
             else case post_ibm env db d (Some m) (ibm_card kind) of
               (db1, Inl err) \<Rightarrow> (db1, Inl err)
             | (db1, Inr _) \<Rightarrow>
               (case apply_movement env db1 kind d m data_version of
                  (db2, Inl err) \<Rightarrow> (db2, Inl (ibm_apply_error err)) | (db2, Inr _) \<Rightarrow> (db2, Inr ())))
        else if decision = ''REJECT'' then
          (if mv_status m = ''REJECTED'' then (db, Inr ())
           else if mv_status m \<noteq> ''SUBMITTED'' then (db, Inl code_invalid_input)
           else set_movement_status env db (mv_id m) ''REJECTED'')
        else (db, Inl code_invalid_input))"

definition resolve_ibm_request ::
  "ibm_env \<Rightarrow> ibm_db \<Rightarrow> string \<Rightarrow> string \<Rightarrow> string \<Rightarrow> string \<Rightarrow> ibm_db \<times> (string + unit)" where
  "resolve_ibm_request env db kind0 ref_id decision data_version =
     (let kind = to_upper kind0 in
      if kind = ''PLACE'' then resolve_place env db ref_id decision data_version
      else if kind = ''BORROW'' then resolve_borrow db ref_id decision data_version
      else if kind \<in> movement_kinds then resolve_movement env db ref_id kind decision data_version
      else (db, Inl code_invalid_input))"

end
