(* ===== verification/Deposit_Ibm_Theorems.thy ===== *)
theory Deposit_Ibm_Theorems
  imports Deposit_Ibm Deposit_Theorems
begin

text \<open>
  The main results on interbank deposits and borrowings: what an approval does to the contract and to
  the books, and the approvals that cannot end.
\<close>

section \<open>Rows\<close>

lemma ibm_by_id_in: "ibm_by_id db i = Some d \<Longrightarrow> d \<in> set (ib_deposits db) \<and> im_id d = i"
  using find_Some_in [of "\<lambda>d. im_id d = i" "ib_deposits db" d] by (simp add: ibm_by_id_def)

lemma set_ibm_by_id:
  assumes "\<And>d. im_id (f d) = im_id d"
  shows "ibm_by_id (set_ibm i f db) j = map_option (\<lambda>d. if im_id d = i then f d else d) (ibm_by_id db j)"
proof -
  have "find (\<lambda>d. im_id d = j) (map (\<lambda>d. if im_id d = i then f d else d) xs) =
      map_option (\<lambda>d. if im_id d = i then f d else d) (find (\<lambda>d. im_id d = j) xs)" for xs
    by (induction xs) (auto simp: assms)
  then show ?thesis by (simp add: ibm_by_id_def set_ibm_def)
qed

lemma find_id_and:
  assumes "distinct (map k xs)" "x \<in> set xs" "k x = i"
  shows "find (\<lambda>d. k d = i \<and> P d) xs = (if P x then Some x else None)"
  using assms
proof (induction xs)
  case (Cons y ys)
  show ?case
  proof (cases "x = y")
    case True
    then have "find (\<lambda>d. k d = i \<and> P d) ys = None" using Cons.prems by (simp add: find_None_iff) (metis imageI)
    then show ?thesis using True Cons.prems by simp
  next
    case False
    then have "k y \<noteq> i" using Cons.prems by auto
    then show ?thesis using Cons False by simp
  qed
qed simp

lemma set_movement_deposits [simp]: "set_movement env i f db = (db', r) \<Longrightarrow> ib_deposits db' = ib_deposits db"
  by (auto simp: set_movement_def split: option.splits)

lemma version_changed: "0 \<le> v \<Longrightarrow> version_ok v text \<Longrightarrow> text \<noteq> [] \<Longrightarrow> \<not> version_ok (v + 1) text"
  using dec_str_inj [of "nat v" "nat (v + 1)"] by (auto simp: version_ok_def)

section \<open>Placements\<close>

lemma stamped_is_stale:
  assumes "ibm_by_id db i = Some d" "0 \<le> im_version d" "version_ok (im_version d) v" "v \<noteq> []"
    and "distinct (map im_id (ib_deposits db))"
  shows "find (\<lambda>d. im_id d = i \<and> version_ok (im_version d) v)
    (ib_deposits (set_ibm i (\<lambda>d. d\<lparr>im_journal := j, im_version := im_version d + 1\<rparr>) db)) = None"
proof -
  note d = ibm_by_id_in [OF assms(1)]
  have "e = d" if "e \<in> set (ib_deposits db)" "im_id e = i" for e
    using that d assms(5) by (metis distinct_map inj_onD)
  moreover have "\<not> version_ok (im_version d + 1) v" using version_changed [OF assms(2-4)] .
  ultimately have stale: "\<not> version_ok (im_version e + 1) v" if "e \<in> set (ib_deposits db)" "im_id e = i" for e
    using that by metis
  have "\<not> (im_id x = i \<and> version_ok (im_version x) v)"
    if x: "x \<in> set (ib_deposits (set_ibm i (\<lambda>d. d\<lparr>im_journal := j, im_version := im_version d + 1\<rparr>) db))" for x
  proof -
    obtain e where e: "e \<in> set (ib_deposits db)"
      "x = (if im_id e = i then e\<lparr>im_journal := j, im_version := im_version e + 1\<rparr> else e)"
      using x unfolding set_ibm_def by auto
    show ?thesis using e(2) stale [OF e(1)] by (cases "im_id e = i") simp_all
  qed
  then show ?thesis unfolding find_None_iff by blast
qed

text \<open>C29. A placement that waits for approval, approved under the version its checker saw, is posted in finance and then
  fails as a conflict: finance accepts the request of the placement and its entry is stamped on the contract, which
  moves the version on, so the activation guarded by the approved version is refused. The contract keeps its status
  and principal, and every further approval under that version, whatever finance answers then, is the same conflict
  and changes nothing. After a fresh read of the version the theorem applies again.\<close>

theorem placement_never_activates:
  assumes row: "ibm_by_id db i = Some d" "im_status d = ''PENDING_APPROVAL''" "distinct (map im_id (ib_deposits db))"
    and version: "0 \<le> im_version d" "version_ok (im_version d) data_version" "data_version \<noteq> []"
    and finance: "ie_finance env = Some post" "post (ibm_posting d None ''IBM_PLACE'') = Inr entry"
      "null_or (ie_uuid env) entry = Some j"
  shows "\<exists>db1. resolve_place env db i ''APPROVE'' data_version = (db1, Inl code_conflict) \<and>
    ibm_by_id db1 i = Some (d\<lparr>im_journal := j, im_version := im_version d + 1\<rparr>) \<and>
    (\<forall>env'. resolve_place env' db1 i ''APPROVE'' data_version = (db1, Inl code_conflict))"
proof -
  note d = ibm_by_id_in [OF row(1)]
  let ?db1 = "set_ibm i (\<lambda>d. d\<lparr>im_journal := j, im_version := im_version d + 1\<rparr>) db"
  have "post_ibm env db d None ''IBM_PLACE'' = (?db1, Inr ())"
    using finance d by (simp add: post_ibm_def set_ibm_journal_def)
  then have "resolve_place env db i ''APPROVE'' data_version = (?db1, Inl code_conflict)"
    using row(1,2) version(2) stamped_is_stale [OF row(1) version row(3)]
    by (simp add: resolve_place_def update_ibm_status_def ibm_apply_error_def)
  moreover have now: "ibm_by_id ?db1 i = Some (d\<lparr>im_journal := j, im_version := im_version d + 1\<rparr>)"
    using row(1) d by (simp add: set_ibm_by_id)
  moreover have "resolve_place env' ?db1 i ''APPROVE'' data_version = (?db1, Inl code_conflict)" for env'
    using now row(2) version_changed [OF version] by (simp add: resolve_place_def)
  ultimately show ?thesis by blast
qed

text \<open>The example: a contract waiting for approval, finance that books, and uuids read as they are.\<close>

definition ibm_demo_env :: ibm_env where
  "ibm_demo_env = \<lparr>ie_date = (\<lambda>t. map_option format_iso (parse_iso t)),
     ie_uuid = (\<lambda>t. if t = ''m-1'' \<or> t = ''c-1'' \<or> t = ''j-1'' then Some t else None),
     ie_finance = Some (\<lambda>req. Inr ''j-1''), ie_workflow = Some \<lparr>ws_create = (\<lambda>ty i. Inr ''c-1''), ws_submit = (\<lambda>c. Inr ())\<rparr>\<rparr>"

definition demo_contract :: ibm_deposit where
  "demo_contract = \<lparr>im_id = ''ibm_1'', im_code = ''D1'', im_product = [], im_counterparty = ''NHHTX'', im_date = ''2026-03-01'',
     im_maturity = ''2026-09-01'', im_principal = 1000, im_accrued = 50, im_last_interest = [], im_currency = ''VND'',
     im_org = ''HN'', im_status = ''ACTIVE'', im_case = None, im_journal = None, im_creator = ''u1'', im_version = 3\<rparr>"

definition demo_movement :: ibm_movement where
  "demo_movement = \<lparr>mv_id = ''m-1'', mv_deposit = ''ibm_1'', mv_kind = ''WITHDRAW'', mv_amount = 1020, mv_currency = ''VND'',
     mv_date = ''2026-04-01'', mv_from = [], mv_to = [], mv_key = ''ibm-withdraw-m-1'', mv_status = ''SUBMITTED'',
     mv_case = Some ''c-1'', mv_journal = None, mv_creator = ''u1''\<rparr>"

definition demo_ibm :: ibm_db where
  "demo_ibm = \<lparr>ib_products = [], ib_deposits = [demo_contract], ib_movements = [demo_movement], ib_borrows = [],
     ib_borrow_movements = []\<rparr>"

definition demo_pending :: ibm_db where
  "demo_pending = demo_ibm\<lparr>ib_deposits := [demo_contract\<lparr>im_status := ''PENDING_APPROVAL''\<rparr>]\<rparr>"

theorem placement_never_activates_witness:
  "\<exists>db1. resolve_place ibm_demo_env demo_pending ''ibm_1'' ''APPROVE'' ''3'' = (db1, Inl code_conflict) \<and>
     ibm_by_id db1 ''ibm_1'' =
       Some (demo_contract\<lparr>im_status := ''PENDING_APPROVAL'', im_journal := Some ''j-1'', im_version := 4\<rparr>)"
proof -
  have "ibm_by_id demo_pending ''ibm_1'' = Some (demo_contract\<lparr>im_status := ''PENDING_APPROVAL''\<rparr>)"
    by (simp add: ibm_by_id_def demo_pending_def demo_contract_def)
  moreover have "version_ok (im_version (demo_contract\<lparr>im_status := ''PENDING_APPROVAL''\<rparr>)) ''3''" by code_simp
  ultimately show ?thesis
    using placement_never_activates [of demo_pending "''ibm_1''" _ "''3''" ibm_demo_env _ "''j-1''" "Some ''j-1''"]
    by (fastforce simp: demo_contract_def demo_pending_def ibm_demo_env_def null_or_def)
qed

text \<open>Without a dossier version the same approval activates the contract with its journal entry.\<close>

lemma placement_without_version:
  "let res = resolve_place ibm_demo_env demo_pending ''ibm_1'' ''APPROVE'' []
   in snd res = Inr () \<and> map (\<lambda>d. (im_status d, im_journal d, im_version d)) (ib_deposits (fst res)) = [(''ACTIVE'', Some ''j-1'', 5)]"
  by code_simp

section \<open>Movements\<close>

lemma apply_movement_error: "apply_movement env db kind d m v = (db', Inl err) \<Longrightarrow> db' = db"
  by (auto simp: apply_movement_def apply_ibm_top_up_def apply_ibm_accrual_def apply_ibm_withdraw_def
      split: if_splits option.splits)

lemma movement_found:
  assumes "movement_by_id env db i = Inr (Some m)"
  shows "ie_uuid env i = Some (mv_id m)" "m \<in> set (ib_movements db)"
  using assms find_Some_in [of "\<lambda>x. mv_id x = the (ie_uuid env i)" "ib_movements db" m]
  by (auto simp: movement_by_id_def split: option.splits)

text \<open>A movement that finance booked but the contract refused is lost: the movement is marked POSTED before the contract
  changes, so when that change fails the contract keeps its balances, and every later approval of the movement,
  with any version, reports success and changes nothing.\<close>

theorem posted_movement_not_applied:
  assumes "movement_by_id env db i = Inr (Some m)" "mv_status m = ''SUBMITTED''"
    and "ibm_by_id db (mv_deposit m) = Some d" "version_ok (im_version d) data_version"
    and "post_ibm env db d (Some m) (ibm_card kind) = (db1, Inr u)"
    and "apply_movement env db1 kind d m data_version = (db2, Inl err)"
    and "\<forall>t c. ie_uuid env t = Some c \<longrightarrow> ie_uuid env c = Some c"
  shows "resolve_movement env db i kind ''APPROVE'' data_version = (db1, Inl (ibm_apply_error err)) \<and>
    ib_deposits db1 = ib_deposits db \<and> (\<forall>v kind. resolve_movement env db1 i kind ''APPROVE'' v = (db1, Inr ()))"
proof -
  have "db2 = db1" using apply_movement_error [OF assms(6)] .
  then have first: "resolve_movement env db i kind ''APPROVE'' data_version = (db1, Inl (ibm_apply_error err))"
    using assms(1-6) by (simp add: resolve_movement_def)
  obtain entry j where jn: "set_movement_journal env db (mv_id m) ''POSTED'' entry = (db1, Inr u)"
      "null_or (ie_uuid env) entry = Some j"
    using assms(5) by (auto simp: post_ibm_def set_movement_journal_def split: option.splits sum.splits)
  note found = movement_found [OF assms(1)]
  have canon: "ie_uuid env (mv_id m) = Some (mv_id m)" using assms(7) found(1) by blast
  let ?f = "\<lambda>x. if mv_id x = mv_id m then x\<lparr>mv_status := ''POSTED'', mv_journal := j\<rparr> else x"
  have db1: "db1 = db\<lparr>ib_movements := map ?f (ib_movements db)\<rparr>"
    using jn canon by (simp add: set_movement_journal_def set_movement_def)
  have upd: "find (\<lambda>x. mv_id x = mv_id m) (map ?f xs) = map_option ?f (find (\<lambda>x. mv_id x = mv_id m) xs)" for xs
    by (induction xs) auto
  have "movement_by_id env db1 i = Inr (Some (m\<lparr>mv_status := ''POSTED'', mv_journal := j\<rparr>))"
    using assms(1) found(1) unfolding db1 by (simp add: movement_by_id_def upd del: find.simps)
  then have "\<forall>v kind. resolve_movement env db1 i kind ''APPROVE'' v = (db1, Inr ())" by (simp add: resolve_movement_def)
  then show ?thesis using first db1 by simp
qed

theorem posted_movement_not_applied_witness:
  "\<exists>db1 err. resolve_movement ibm_demo_env demo_ibm ''m-1'' ''WITHDRAW'' ''APPROVE'' ''3'' = (db1, Inl err) \<and>
     ib_deposits db1 = ib_deposits demo_ibm \<and> resolve_movement ibm_demo_env db1 ''m-1'' ''WITHDRAW'' ''APPROVE'' ''3'' = (db1, Inr ())"
proof -
  let ?post = "post_ibm ibm_demo_env demo_ibm demo_contract (Some demo_movement) (ibm_card ''WITHDRAW'')"
  have found: "movement_by_id ibm_demo_env demo_ibm ''m-1'' = Inr (Some demo_movement)"
    by (simp add: movement_by_id_def ibm_demo_env_def demo_ibm_def demo_movement_def)
  have row: "ibm_by_id demo_ibm (mv_deposit demo_movement) = Some demo_contract"
    by (simp add: ibm_by_id_def demo_ibm_def demo_contract_def demo_movement_def)
  have facts: "mv_status demo_movement = ''SUBMITTED''" "version_ok (im_version demo_contract) ''3''" by code_simp+
  have post: "snd ?post = Inr ()" by code_simp
  have fail: "snd (apply_movement ibm_demo_env (fst ?post) ''WITHDRAW'' demo_contract demo_movement ''3'') = Inl err_check"
    by code_simp
  have uuid: "\<forall>t c. ie_uuid ibm_demo_env t = Some c \<longrightarrow> ie_uuid ibm_demo_env c = Some c" by (simp add: ibm_demo_env_def)
  obtain db1 where db1: "?post = (db1, Inr ())" using post by (cases ?post) auto
  obtain db2 where db2: "apply_movement ibm_demo_env db1 ''WITHDRAW'' demo_contract demo_movement ''3'' = (db2, Inl err_check)"
    using fail unfolding db1 by (cases "apply_movement ibm_demo_env db1 ''WITHDRAW'' demo_contract demo_movement ''3''") auto
  show ?thesis
    using posted_movement_not_applied [OF found facts(1) row facts(2) db1 db2 uuid] by blast
qed

text \<open>A withdrawal can never empty a contract or reach its interest, although it is written to take the principal first and
  then the accrued interest: it succeeds exactly on an ACTIVE contract of the approved version when it stays below
  the principal, which then drops by the amount while the accrued interest stays.\<close>

theorem withdraw_stays_below_principal:
  assumes "distinct (map im_id (ib_deposits db))" "ibm_by_id db i = Some d" "0 < amount" "0 \<le> im_accrued d"
    and "in64 (im_principal d + im_accrued d)"
  shows "((\<exists>db'. apply_ibm_withdraw db i amount data_version = (db', Inr ())) \<longleftrightarrow>
      im_status d = ''ACTIVE'' \<and> version_ok (im_version d) data_version \<and> amount < im_principal d) \<and>
    (\<forall>db'. apply_ibm_withdraw db i amount data_version = (db', Inr ()) \<longrightarrow>
      ibm_by_id db' i = Some (d\<lparr>im_principal := im_principal d - amount, im_version := im_version d + 1\<rparr>))"
proof -
  note d = ibm_by_id_in [OF assms(2)]
  have "find (\<lambda>d. im_id d = i \<and> im_status d = ''ACTIVE'') (ib_deposits db) = (if im_status d = ''ACTIVE'' then Some d else None)"
    using find_id_and [of im_id "ib_deposits db" d i] assms(1) d by simp
  then have w: "apply_ibm_withdraw db i amount data_version =
      (if im_status d = ''ACTIVE'' \<and> version_ok (im_version d) data_version \<and> amount < im_principal d
       then (set_ibm i (\<lambda>d. d\<lparr>im_principal := max (im_principal d - amount) 0,
               im_accrued := max (im_accrued d - max (amount - im_principal d) 0) 0, im_version := im_version d + 1\<rparr>) db, Inr ())
       else (db, snd (apply_ibm_withdraw db i amount data_version))) \<and>
     (snd (apply_ibm_withdraw db i amount data_version) = Inr () \<longrightarrow>
       im_status d = ''ACTIVE'' \<and> version_ok (im_version d) data_version \<and> amount < im_principal d)"
    using assms(4,5) by (auto simp: apply_ibm_withdraw_def)
  have "ibm_by_id (set_ibm i (\<lambda>d. d\<lparr>im_principal := max (im_principal d - amount) 0,
      im_accrued := max (im_accrued d - max (amount - im_principal d) 0) 0, im_version := im_version d + 1\<rparr>) db) i =
    Some (d\<lparr>im_principal := im_principal d - amount, im_version := im_version d + 1\<rparr>)" if "amount < im_principal d"
    using that assms(2,4) d by (simp add: set_ibm_by_id)
  then show ?thesis using w by (auto split: if_splits)
qed

theorem withdraw_stays_below_principal_witness:
  "(\<exists>db'. apply_ibm_withdraw demo_ibm ''ibm_1'' 999 ''3'' = (db', Inr ())) \<and>
   \<not> (\<exists>db'. apply_ibm_withdraw demo_ibm ''ibm_1'' 1000 ''3'' = (db', Inr ()))"
proof -
  have row: "ibm_by_id demo_ibm ''ibm_1'' = Some demo_contract" by (simp add: ibm_by_id_def demo_ibm_def demo_contract_def)
  have dist: "distinct (map im_id (ib_deposits demo_ibm))" by code_simp
  have facts: "0 \<le> im_accrued demo_contract" "in64 (im_principal demo_contract + im_accrued demo_contract)"
    "im_status demo_contract = ''ACTIVE''" "version_ok (im_version demo_contract) ''3''" "im_principal demo_contract = 1000"
    by code_simp+
  show ?thesis
    using withdraw_stays_below_principal [OF dist row _ facts(1,2), of 999 "''3''"]
      withdraw_stays_below_principal [OF dist row _ facts(1,2), of 1000 "''3''"] facts(3-5) by simp
qed

definition uuid_chars :: "char set" where
  "uuid_chars = set ''0123456789abcdefABCDEF-{}''"

text \<open>No movement can be staged: the row's id is generated as \<open>ibmmv_\<close> and hexadecimal digits while its column is a
  UUID, so whatever the request, the call fails and changes nothing. The hypothesis is the database's UUID syntax:
  hexadecimal digits, hyphens and braces.\<close>

theorem movement_never_staged:
  assumes "\<forall>t u. ie_uuid env t = Some u \<longrightarrow> set t \<subseteq> uuid_chars"
  shows "\<exists>code. submit_movement env db hex_id actor deposit_id kind amount day from_day to_day = (db, Inl code)"
proof -
  define new_id where "new_id = ''ibmmv_'' @ hex_id"
  have m: "CHR ''m'' \<in> set new_id" "CHR ''m'' \<notin> uuid_chars" by (simp_all add: new_id_def uuid_chars_def)
  have "ie_uuid env new_id = None"
  proof (cases "ie_uuid env new_id")
    case (Some u)
    then have "set new_id \<subseteq> uuid_chars" by (rule assms [rule_format])
    then show ?thesis by (rule m(2) [THEN notE, OF subsetD, OF _ m(1)])
  qed
  then have refused: "create_ibm_movement env db (movement_row d new_id actor k amount day from_day to_day deposit_id) =
      (db, Inl err_uuid)" for d k
    by (simp add: create_ibm_movement_def movement_row_def)
  show ?thesis
    unfolding submit_movement_def Let_def new_id_def [symmetric] refused
    by (simp split: option.split)
qed

text \<open>The reading of a UUID in the example: 32 hexadecimal digits.\<close>

definition hex_digits :: "char set" where
  "hex_digits = set ''0123456789abcdefABCDEF''"

definition hex_uuid :: "string \<Rightarrow> string option" where
  "hex_uuid t = (if length t = 32 \<and> list_all (\<lambda>c. c \<in> hex_digits) t then Some t else None)"

lemma hex_digits_uuid: "hex_digits \<subseteq> uuid_chars"
  by (simp add: hex_digits_def uuid_chars_def)

lemma hex_uuid_chars: "hex_uuid t = Some u \<Longrightarrow> set t \<subseteq> uuid_chars"
  using hex_digits_uuid by (auto simp: hex_uuid_def list_all_iff split: if_splits)

theorem movement_never_staged_witness:
  "hex_uuid ''0123456789abcdef0123456789abcdef'' \<noteq> None \<and>
   (\<exists>code. submit_movement (ibm_demo_env\<lparr>ie_uuid := hex_uuid\<rparr>) demo_ibm ''0123456789abcdef0123456789abcdef'' ''u1'' ''ibm_1''
      ''withdraw'' 10 ''2026-04-01'' [] [] = (demo_ibm, Inl code))"
proof -
  have "\<forall>t u. ie_uuid (ibm_demo_env\<lparr>ie_uuid := hex_uuid\<rparr>) t = Some u \<longrightarrow> set t \<subseteq> uuid_chars"
    by (simp add: hex_uuid_chars)
  note T = movement_never_staged [OF this]
  have "hex_uuid ''0123456789abcdef0123456789abcdef'' \<noteq> None" by code_simp
  then show ?thesis by (rule conjI) (rule T)
qed

section \<open>Borrowings\<close>

lemma borrow_row:
  assumes "borrow_by_id db i = Some b" "\<And>b. bw_id (f b) = bw_id b"
  shows "borrow_by_id (set_borrow i f db) i = Some (f b)"
proof -
  have "find (\<lambda>b. bw_id b = i) (map (\<lambda>b. if bw_id b = i then f b else b) xs) = map_option f (find (\<lambda>b. bw_id b = i) xs)" for xs
    by (induction xs) (auto simp: assms(2))
  then show ?thesis using assms(1) by (simp add: borrow_by_id_def set_borrow_def)
qed

text \<open>The decision on a borrowing has four eyes: it succeeds only on a contract waiting for approval whose version is the
  approved one, an approval only by another than its submitter, and it answers the contract with its new
  status and next version, which is what the table then holds.\<close>

theorem borrow_four_eyes:
  assumes "decide_borrow db i decision actor data_version = (db', Inr res)" "borrow_by_id db i = Some b"
    and "distinct (map bw_id (ib_borrows db))"
  shows "bw_status b = ''PENDING_APPROVAL'' \<and> version_ok (bw_version b) data_version \<and> borrow_by_id db' i = res \<and>
    (to_upper (trim_space decision) = ''APPROVE'' \<and> (bw_creator b = [] \<or> bw_creator b \<noteq> actor) \<and>
       res = Some (b\<lparr>bw_status := ''ACTIVE'', bw_version := bw_version b + 1\<rparr>) \<or>
     to_upper (trim_space decision) = ''REJECT'' \<and>
       res = Some (b\<lparr>bw_status := ''REJECTED'', bw_version := bw_version b + 1\<rparr>))"
proof -
  have b: "b \<in> set (ib_borrows db)" "bw_id b = i"
    using find_Some_in [OF assms(2) [unfolded borrow_by_id_def]] by simp_all
  have found: "find (\<lambda>b. bw_id b = i \<and> version_ok (bw_version b) data_version) (ib_borrows db) =
      (if version_ok (bw_version b) data_version then Some b else None)"
    using find_id_and [of bw_id "ib_borrows db" b i] assms(3) b by simp
  obtain status where st: "to_upper (trim_space decision) = ''APPROVE'' \<and> status = ''ACTIVE'' \<and> (bw_creator b = [] \<or> bw_creator b \<noteq> actor) \<or>
      to_upper (trim_space decision) = ''REJECT'' \<and> status = ''REJECTED''"
    and up: "update_borrow_status db i status data_version = (db', Inr ())" and pending: "bw_status b = ''PENDING_APPROVAL''"
    and res: "res = borrow_by_id db' i"
    using assms(1,2) unfolding decide_borrow_def Let_def
    by (auto split: if_splits sum.splits prod.splits option.splits)
  have v: "version_ok (bw_version b) data_version"
    and db': "db' = set_borrow i (\<lambda>b. b\<lparr>bw_status := status, bw_version := bw_version b + 1\<rparr>) db"
    using up found by (auto simp: update_borrow_status_def split: if_splits)
  have "borrow_by_id db' i = Some (b\<lparr>bw_status := status, bw_version := bw_version b + 1\<rparr>)"
    unfolding db' by (rule borrow_row [OF assms(2)]) simp
  then show ?thesis using st pending v res by (elim disjE) simp_all
qed

definition demo_borrow :: ibm_borrow where
  "demo_borrow = \<lparr>bw_id = ''b-1'', bw_code = ''BR1'', bw_counterparty = ''NHHTX'', bw_product = [], bw_lender = ''NHHTX'',
     bw_purpose = ''OTHER'', bw_term = 6, bw_drawdown = ''2026-03-01'', bw_maturity = ''2026-09-01'', bw_principal = 500,
     bw_outstanding = 500, bw_accrued = 0, bw_currency = ''VND'', bw_org = ''HN'', bw_status = ''PENDING_APPROVAL'',
     bw_case = None, bw_journal = None, bw_creator = ''u1'', bw_version = 1\<rparr>"

definition demo_borrows :: ibm_db where
  "demo_borrows = demo_ibm\<lparr>ib_borrows := [demo_borrow]\<rparr>"

theorem borrow_four_eyes_witness:
  "borrow_by_id (fst (decide_borrow demo_borrows ''b-1'' '' approve '' ''u2'' ''1'')) ''b-1'' =
     Some (demo_borrow\<lparr>bw_status := ''ACTIVE'', bw_version := 2\<rparr>)"
proof -
  let ?d = "decide_borrow demo_borrows ''b-1'' '' approve '' ''u2'' ''1''"
  have ok: "case snd ?d of Inl _ \<Rightarrow> False | Inr _ \<Rightarrow> True" by code_simp
  have row: "borrow_by_id demo_borrows ''b-1'' = Some demo_borrow"
    by (simp add: borrow_by_id_def demo_borrows_def demo_borrow_def)
  have dist: "distinct (map bw_id (ib_borrows demo_borrows))" by code_simp
  have dec: "to_upper (trim_space '' approve '') = ''APPROVE''" by code_simp
  obtain db' res where d: "?d = (db', Inr res)" using ok by (cases ?d; cases "snd ?d") auto
  have "bw_version demo_borrow + 1 = 2" by (simp add: demo_borrow_def)
  then show ?thesis using borrow_four_eyes [OF d row dist] d dec by simp
qed

text \<open>
  A borrowing without an organisation can never be staged: the column refuses the NULL that an empty
  code is sent as.
\<close>

lemma borrow_needs_org:
  "bw_org b = [] \<Longrightarrow> \<exists>code. submit_borrow env db new_id actor b = (db, Inl code)"
  by (simp add: submit_borrow_def create_ibm_borrow_def Let_def)

text \<open>
  The decision of the workflow takes the kind from the request, which only the validate step compares
  with the movement's: a withdrawal resolved as a top-up adds to the contract.
\<close>

lemma kind_not_checked_on_resolve:
  "let res = resolve_ibm_request ibm_demo_env demo_ibm ''TOP_UP'' ''m-1'' ''APPROVE'' ''3''
   in snd res = Inr () \<and> map im_principal (ib_deposits (fst res)) = [2020]"
  by code_simp

text \<open>Collecting interest leaves the accrued interest as it was.\<close>

lemma interest_keeps_accrued:
  assumes "apply_movement env db ''INTEREST'' d m data_version = (db', Inr ())"
  shows "map im_accrued (ib_deposits db') = map im_accrued (ib_deposits db)"
proof -
  have "apply_ibm_accrual env db (im_id d) 0 (mv_date m) data_version = (db', Inr ())"
    using assms by (simp add: apply_movement_def)
  then obtain day where "db' = set_ibm (im_id d) (\<lambda>d. d\<lparr>im_accrued := im_accrued d + 0,
      im_last_interest := (case day of None \<Rightarrow> im_last_interest d | Some t \<Rightarrow> t), im_version := im_version d + 1\<rparr>) db"
    by (auto simp: apply_ibm_accrual_def split: option.splits if_splits)
  then show ?thesis by (auto simp: set_ibm_def)
qed

end
