(* ===== verification/Session_Store.thy ===== *)
theory Session_Store
  imports Prelude
begin

text \<open>
  The sessions of the gateway (apps/auth-gateway/internal/session): the session with its user, the
  store in memory (session.go) and the store in Redis (redis.go). Times are nanoseconds, the zero
  time is \<open>None\<close>; the time of a call and the generated id are arguments. Commands of Redis succeed;
  a key with an expiry is gone when the time is reached. The pointers that the store in memory hands out are
  not modelled: a session read is a value.
\<close>

section \<open>Sessions\<close>

type_synonym time = "int option"

text \<open>A Go slice of strings: \<open>None\<close> is nil.\<close>

type_synonym slice = "string list option"

definition elems :: "slice \<Rightarrow> string list" where
  "elems xs = (case xs of None \<Rightarrow> [] | Some ys \<Rightarrow> ys)"

text \<open>\<open>append([]string(nil), xs...)\<close>\<close>

definition append_nil :: "slice \<Rightarrow> slice" where
  "append_nil xs = (if elems xs = [] then None else Some (elems xs))"

lemma elems_append_nil [simp]: "elems (append_nil xs) = elems xs"
  by (simp add: elems_def append_nil_def)

record membership =
  mb_tenant :: string
  mb_code :: string
  mb_name :: string
  mb_tenant_status :: string
  mb_status :: string
  mb_default :: bool

record profile =
  pf_username :: string
  pf_email :: string
  pf_display_name :: string
  pf_nickname :: string
  pf_first_name :: string
  pf_last_name :: string
  pf_phone :: string
  pf_birthdate :: string
  pf_gender :: string
  pf_address :: string
  pf_country :: string
  pf_picture :: string
  pf_avatar :: string
  pf_cover :: string
  pf_cover_file :: string

record user_info =
  ui_user_id :: string
  ui_subject :: string
  ui_profile :: profile
  ui_tenant :: string
  ui_active_tenant :: string
  ui_memberships :: "membership list option"
  ui_selection_required :: bool
  ui_org_ids :: slice
  ui_group_ids :: slice
  ui_roles :: slice
  ui_perms :: slice
  ui_global_roles :: slice
  ui_global_perms :: slice
  ui_global_admin :: bool
  ui_caps_loaded :: bool
  ui_auth_version :: int
  ui_timezone :: string
  ui_locale :: string

record session =
  ss_id :: string
  ss_access :: string
  ss_refresh :: string
  ss_expires :: time
  ss_user :: "user_info option"
  ss_created :: time
  ss_auth_time :: time
  ss_iam_session :: string
  ss_last_check :: time
  ss_device :: string
  ss_device_name :: string
  ss_device_type :: string
  ss_ip :: string

definition session_user_id :: "session \<Rightarrow> string" where
  "session_user_id s = (case ss_user s of None \<Rightarrow> [] | Some u \<Rightarrow> ui_user_id u)"

definition stamped :: "session \<Rightarrow> string \<Rightarrow> int \<Rightarrow> session" where
  "stamped s new_id now = s\<lparr>ss_id := new_id, ss_created := Some now\<rparr>"

section \<open>The store in memory\<close>

record mem_store =
  ms_sessions :: "string \<rightharpoonup> session \<times> int"
  ms_oauth :: "string \<rightharpoonup> string \<times> int"
  ms_index :: "string \<Rightarrow> string set"

definition mem_new :: mem_store where
  "mem_new = \<lparr>ms_sessions = Map.empty, ms_oauth = Map.empty, ms_index = (\<lambda>_. {})\<rparr>"

definition index_add :: "string \<Rightarrow> string \<Rightarrow> (string \<Rightarrow> string set) \<Rightarrow> string \<Rightarrow> string set" where
  "index_add uid sid idx = (if uid = [] then idx else idx(uid := insert sid (idx uid)))"

definition index_del :: "string \<Rightarrow> string \<Rightarrow> (string \<Rightarrow> string set) \<Rightarrow> string \<Rightarrow> string set" where
  "index_del uid sid idx = idx(uid := idx uid - {sid})"

text \<open>Storing a session under its id: what \<open>Create\<close>, \<open>Update\<close> and \<open>Refresh\<close> end with.\<close>

definition mem_put :: "mem_store \<Rightarrow> session \<Rightarrow> int \<Rightarrow> mem_store" where
  "mem_put st s expires =
     st\<lparr>ms_sessions := (ms_sessions st)(ss_id s \<mapsto> (s, expires)),
        ms_index := index_add (session_user_id s) (ss_id s) (ms_index st)\<rparr>"

definition mem_create :: "mem_store \<Rightarrow> session \<Rightarrow> int \<Rightarrow> int \<Rightarrow> string \<Rightarrow> mem_store \<times> session" where
  "mem_create st s ttl now new_id = (mem_put st (stamped s new_id now) (now + ttl), stamped s new_id now)"

definition mem_get :: "mem_store \<Rightarrow> string \<Rightarrow> int \<Rightarrow> session option" where
  "mem_get st sid now =
     (case ms_sessions st sid of None \<Rightarrow> None | Some (s, expires) \<Rightarrow> if expires < now then None else Some s)"

definition mem_update :: "mem_store \<Rightarrow> session \<Rightarrow> int \<Rightarrow> int \<Rightarrow> mem_store" where
  "mem_update st s ttl now = (if ss_id s = [] then st else mem_put st s (now + ttl))"

text \<open>The entry of an id leaves the index of its user, when it has one.\<close>

definition mem_unindex :: "mem_store \<Rightarrow> string \<Rightarrow> string \<Rightarrow> string set" where
  "mem_unindex st sid =
     (case ms_sessions st sid of
        Some (s, _) \<Rightarrow> (case ss_user s of Some u \<Rightarrow> index_del (ui_user_id u) sid (ms_index st) | None \<Rightarrow> ms_index st)
      | None \<Rightarrow> ms_index st)"

definition mem_delete :: "mem_store \<Rightarrow> string \<Rightarrow> mem_store" where
  "mem_delete st sid = st\<lparr>ms_sessions := (ms_sessions st)(sid := None), ms_index := mem_unindex st sid\<rparr>"

definition mem_refresh :: "mem_store \<Rightarrow> string \<Rightarrow> session \<Rightarrow> int \<Rightarrow> int \<Rightarrow> string \<Rightarrow> mem_store \<times> session" where
  "mem_refresh st old_id s ttl now new_id =
     (mem_put (mem_delete st old_id) (stamped s new_id now) (now + ttl), stamped s new_id now)"

definition mem_live :: "mem_store \<Rightarrow> int \<Rightarrow> string \<Rightarrow> bool" where
  "mem_live st now sid = (case ms_sessions st sid of None \<Rightarrow> False | Some (_, expires) \<Rightarrow> now < expires)"

text \<open>The order of the listed sessions is not fixed.\<close>

definition mem_list_by_user :: "mem_store \<Rightarrow> string \<Rightarrow> int \<Rightarrow> session set" where
  "mem_list_by_user st uid now = (\<lambda>sid. fst (the (ms_sessions st sid))) ` {sid \<in> ms_index st uid. mem_live st now sid}"

definition mem_revoke_by_user :: "mem_store \<Rightarrow> string \<Rightarrow> mem_store \<times> nat" where
  "mem_revoke_by_user st uid =
     (st\<lparr>ms_sessions := (\<lambda>sid. if sid \<in> ms_index st uid then None else ms_sessions st sid),
         ms_index := (ms_index st)(uid := {})\<rparr>,
      card {sid \<in> ms_index st uid. ms_sessions st sid \<noteq> None})"

definition mem_revoke_all_except :: "mem_store \<Rightarrow> string \<Rightarrow> string \<Rightarrow> mem_store \<times> nat" where
  "mem_revoke_all_except st uid current =
     (let gone = {sid \<in> ms_index st uid. sid \<noteq> current \<and> ms_sessions st sid \<noteq> None} in
      (st\<lparr>ms_sessions := (\<lambda>sid. if sid \<in> gone then None else ms_sessions st sid),
          ms_index := (ms_index st)(uid := ms_index st uid - gone)\<rparr>, card gone))"

definition mem_count_active :: "mem_store \<Rightarrow> string \<Rightarrow> int \<Rightarrow> nat" where
  "mem_count_active st uid now = card {sid \<in> ms_index st uid. mem_live st now sid}"

definition mem_set_oauth :: "mem_store \<Rightarrow> string \<Rightarrow> string \<Rightarrow> int \<Rightarrow> int \<Rightarrow> mem_store" where
  "mem_set_oauth st state value ttl now = st\<lparr>ms_oauth := (ms_oauth st)(state \<mapsto> (value, now + ttl))\<rparr>"

definition mem_consume_oauth :: "mem_store \<Rightarrow> string \<Rightarrow> int \<Rightarrow> mem_store \<times> string" where
  "mem_consume_oauth st state now =
     (st\<lparr>ms_oauth := (ms_oauth st)(state := None)\<rparr>,
      case ms_oauth st state of None \<Rightarrow> [] | Some (value, expires) \<Rightarrow> if expires < now then [] else value)"

text \<open>One round of \<open>cleanupLoop\<close>.\<close>

definition mem_cleanup :: "mem_store \<Rightarrow> int \<Rightarrow> mem_store" where
  "mem_cleanup st now =
     st\<lparr>ms_sessions := (\<lambda>sid. case ms_sessions st sid of None \<Rightarrow> None | Some (s, e) \<Rightarrow> if e < now then None else Some (s, e)),
        ms_oauth := (\<lambda>state. case ms_oauth st state of None \<Rightarrow> None | Some (v, e) \<Rightarrow> if e < now then None else Some (v, e)),
        ms_index := (\<lambda>uid. {sid \<in> ms_index st uid.
          \<not> (case ms_sessions st sid of None \<Rightarrow> False
             | Some (s, e) \<Rightarrow> e < now \<and> (case ss_user s of None \<Rightarrow> False | Some u \<Rightarrow> ui_user_id u = uid))})\<rparr>"

section \<open>The store in Redis\<close>

text \<open>
  A session is stored as JSON. \<open>UserInfo.MarshalJSON\<close> writes a fixed list of keys, which does not
  have the time zone and the locale.
\<close>

definition json_session :: "session \<Rightarrow> session" where
  "json_session s = s\<lparr>ss_user := map_option (\<lambda>u. u\<lparr>ui_timezone := [], ui_locale := []\<rparr>) (ss_user s)\<rparr>"

record redis_store =
  rs_sessions :: "string \<rightharpoonup> session \<times> int"
  rs_index :: "string \<rightharpoonup> string set \<times> int option"
  rs_oauth :: "string \<rightharpoonup> string \<times> int"

definition redis_new :: redis_store where
  "redis_new = \<lparr>rs_sessions = Map.empty, rs_index = Map.empty, rs_oauth = Map.empty\<rparr>"

definition redis_smembers :: "redis_store \<Rightarrow> string \<Rightarrow> int \<Rightarrow> string set" where
  "redis_smembers st uid now =
     (case rs_index st uid of
        None \<Rightarrow> {}
      | Some (ids, None) \<Rightarrow> ids
      | Some (ids, Some expires) \<Rightarrow> if expires \<le> now then {} else ids)"

text \<open>\<open>SADD\<close> and \<open>SREM\<close> keep the expiry of a key that is there; \<open>EXPIRE\<close> sets it.\<close>

definition index_expiry :: "redis_store \<Rightarrow> string \<Rightarrow> int \<Rightarrow> int option" where
  "index_expiry st uid now =
     (case rs_index st uid of
        Some (_, Some expires) \<Rightarrow> if expires \<le> now then None else Some expires
      | _ \<Rightarrow> None)"

text \<open>A set without members is no key.\<close>

definition redis_index :: "string \<Rightarrow> string set \<Rightarrow> int option \<Rightarrow> redis_store \<Rightarrow> redis_store" where
  "redis_index uid ids expiry st =
     st\<lparr>rs_index := (rs_index st)(uid := (if ids = {} then None else Some (ids, expiry)))\<rparr>"

definition redis_sadd :: "string \<Rightarrow> string \<Rightarrow> int \<Rightarrow> redis_store \<Rightarrow> redis_store" where
  "redis_sadd uid sid now st =
     redis_index uid (insert sid (redis_smembers st uid now)) (index_expiry st uid now) st"

definition redis_srem :: "string \<Rightarrow> string \<Rightarrow> int \<Rightarrow> redis_store \<Rightarrow> redis_store" where
  "redis_srem uid sid now st =
     redis_index uid (redis_smembers st uid now - {sid}) (index_expiry st uid now) st"

definition redis_expire :: "string \<Rightarrow> int \<Rightarrow> int \<Rightarrow> redis_store \<Rightarrow> redis_store" where
  "redis_expire uid ttl now st =
     redis_index uid (redis_smembers st uid now) (Some (now + ttl)) st"

definition redis_set :: "session \<Rightarrow> int \<Rightarrow> int \<Rightarrow> redis_store \<Rightarrow> redis_store" where
  "redis_set s ttl now st = st\<lparr>rs_sessions := (rs_sessions st)(ss_id s \<mapsto> (json_session s, now + ttl))\<rparr>"

definition redis_del :: "string \<Rightarrow> redis_store \<Rightarrow> redis_store" where
  "redis_del sid st = st\<lparr>rs_sessions := (rs_sessions st)(sid := None)\<rparr>"

definition redis_put :: "redis_store \<Rightarrow> session \<Rightarrow> int \<Rightarrow> int \<Rightarrow> redis_store" where
  "redis_put st s ttl now =
     (let st1 = redis_set s ttl now st; uid = session_user_id s in
      if uid = [] then st1 else redis_expire uid ttl now (redis_sadd uid (ss_id s) now st1))"

definition redis_create :: "redis_store \<Rightarrow> session \<Rightarrow> int \<Rightarrow> int \<Rightarrow> string \<Rightarrow> redis_store \<times> session" where
  "redis_create st s ttl now new_id = (redis_put st (stamped s new_id now) ttl now, stamped s new_id now)"

definition redis_get :: "redis_store \<Rightarrow> string \<Rightarrow> int \<Rightarrow> session option" where
  "redis_get st sid now =
     (case rs_sessions st sid of None \<Rightarrow> None | Some (s, expires) \<Rightarrow> if expires \<le> now then None else Some s)"

definition redis_update :: "redis_store \<Rightarrow> session \<Rightarrow> int \<Rightarrow> int \<Rightarrow> redis_store" where
  "redis_update st s ttl now = (if ss_id s = [] then st else redis_put st s ttl now)"

definition redis_delete :: "redis_store \<Rightarrow> string \<Rightarrow> int \<Rightarrow> redis_store" where
  "redis_delete st sid now =
     (case redis_get st sid now of
        Some s \<Rightarrow>
          (case ss_user s of
             Some u \<Rightarrow> redis_srem (ui_user_id u) sid now (redis_del sid st)
           | None \<Rightarrow> redis_del sid st)
      | None \<Rightarrow> redis_del sid st)"

text \<open>\<open>Refresh\<close> sets no expiry for the index.\<close>

definition redis_refresh :: "redis_store \<Rightarrow> string \<Rightarrow> session \<Rightarrow> int \<Rightarrow> int \<Rightarrow> string \<Rightarrow> redis_store \<times> session" where
  "redis_refresh st old_id s0 ttl now new_id =
     (let s = stamped s0 new_id now; uid = session_user_id s;
          st1 = (if uid = [] then st else redis_sadd uid new_id now (redis_srem uid old_id now st))
      in (redis_set s ttl now (redis_del old_id st1), s))"

text \<open>Listing removes the ids whose session is gone from the index.\<close>

definition redis_list_by_user :: "redis_store \<Rightarrow> string \<Rightarrow> int \<Rightarrow> redis_store \<times> session set" where
  "redis_list_by_user st uid now =
     (let ids = redis_smembers st uid now; live = {sid \<in> ids. redis_get st sid now \<noteq> None} in
      (redis_index uid live (index_expiry st uid now) st,
       (\<lambda>sid. the (redis_get st sid now)) ` live))"

definition redis_revoke_by_user :: "redis_store \<Rightarrow> string \<Rightarrow> int \<Rightarrow> redis_store \<times> nat" where
  "redis_revoke_by_user st uid now =
     (let ids = redis_smembers st uid now in
      (st\<lparr>rs_sessions := (\<lambda>sid. if sid \<in> ids then None else rs_sessions st sid), rs_index := (rs_index st)(uid := None)\<rparr>,
       card ids))"

definition redis_revoke_all_except :: "redis_store \<Rightarrow> string \<Rightarrow> string \<Rightarrow> int \<Rightarrow> redis_store \<times> nat" where
  "redis_revoke_all_except st uid current now =
     (let ids = redis_smembers st uid now; gone = ids - {current} in
      (redis_index uid (ids - gone) (index_expiry st uid now)
         (st\<lparr>rs_sessions := (\<lambda>sid. if sid \<in> gone then None else rs_sessions st sid)\<rparr>), card gone))"

definition redis_count_active :: "redis_store \<Rightarrow> string \<Rightarrow> int \<Rightarrow> nat" where
  "redis_count_active st uid now = card (redis_smembers st uid now)"

definition redis_set_oauth :: "redis_store \<Rightarrow> string \<Rightarrow> string \<Rightarrow> int \<Rightarrow> int \<Rightarrow> redis_store" where
  "redis_set_oauth st state value ttl now = st\<lparr>rs_oauth := (rs_oauth st)(state \<mapsto> (value, now + ttl))\<rparr>"

definition redis_consume_oauth :: "redis_store \<Rightarrow> string \<Rightarrow> int \<Rightarrow> redis_store \<times> string" where
  "redis_consume_oauth st state now =
     (st\<lparr>rs_oauth := (rs_oauth st)(state := None)\<rparr>,
      case rs_oauth st state of None \<Rightarrow> [] | Some (value, expires) \<Rightarrow> if expires \<le> now then [] else value)"

section \<open>The interface\<close>

text \<open>
  What the handlers rely on: a session that was stored is read back until its time is over, as the
  store keeps it (\<open>kept\<close>), a deleted one is gone, and an operation on one session leaves the others.
\<close>

locale session_store =
  fixes get :: "'st \<Rightarrow> string \<Rightarrow> int \<Rightarrow> session option"
    and create :: "'st \<Rightarrow> session \<Rightarrow> int \<Rightarrow> int \<Rightarrow> string \<Rightarrow> 'st \<times> session"
    and update :: "'st \<Rightarrow> session \<Rightarrow> int \<Rightarrow> int \<Rightarrow> 'st"
    and delete :: "'st \<Rightarrow> string \<Rightarrow> int \<Rightarrow> 'st"
    and refresh :: "'st \<Rightarrow> string \<Rightarrow> session \<Rightarrow> int \<Rightarrow> int \<Rightarrow> string \<Rightarrow> 'st \<times> session"
    and kept :: "session \<Rightarrow> session"
  assumes get_created: "t < now + ttl \<Longrightarrow> get (fst (create st s ttl now new_id)) new_id t = Some (kept (stamped s new_id now))"
    and create_other: "sid \<noteq> new_id \<Longrightarrow> get (fst (create st s ttl now new_id)) sid t = get st sid t"
    and create_session: "snd (create st s ttl now new_id) = stamped s new_id now"
    and get_updated: "ss_id s \<noteq> [] \<Longrightarrow> t < now + ttl \<Longrightarrow> get (update st s ttl now) (ss_id s) t = Some (kept s)"
    and update_other: "sid \<noteq> ss_id s \<Longrightarrow> get (update st s ttl now) sid t = get st sid t"
    and update_expired: "ss_id s \<noteq> [] \<Longrightarrow> now + ttl < t \<Longrightarrow> get (update st s ttl now) (ss_id s) t = None"
    and get_delete: "get (delete st sid now) sid' t = (if sid' = sid then None else get st sid' t)"
    and get_refreshed: "t < now + ttl \<Longrightarrow> get (fst (refresh st old_id s ttl now new_id)) new_id t = Some (kept (stamped s new_id now))"
    and refresh_other: "sid \<noteq> new_id \<Longrightarrow> get (fst (refresh st old_id s ttl now new_id)) sid t = (if sid = old_id then None else get st sid t)"
begin

lemma deleted_gone: "get (delete st sid now) sid t = None"
  by (simp add: get_delete)

lemma refresh_rotates:
  "new_id \<noteq> old_id \<Longrightarrow> t < now + ttl \<Longrightarrow>
     get (fst (refresh st old_id s ttl now new_id)) old_id t = None \<and>
     get (fst (refresh st old_id s ttl now new_id)) new_id t = Some (kept (stamped s new_id now))"
  using refresh_other [of old_id new_id] by (simp add: get_refreshed)

text \<open>Writing back a session that was read before it was deleted stores it again.\<close>

lemma write_back_revives:
  "ss_id s \<noteq> [] \<Longrightarrow> t < now' + ttl \<Longrightarrow> get (update (delete st (ss_id s) now) s ttl now') (ss_id s) t = Some (kept s)"
  by (rule get_updated)

end

lemma stamped_id [simp]: "ss_id (stamped s i now) = i"
  by (simp add: stamped_def)

interpretation mem: session_store mem_get mem_create mem_update "\<lambda>st sid now. mem_delete st sid" mem_refresh id
  by unfold_locales
    (auto simp: mem_get_def mem_create_def mem_update_def mem_delete_def mem_refresh_def mem_put_def)

lemma redis_index_sessions [simp]: "rs_sessions (redis_index uid ids e st) = rs_sessions st"
  by (simp add: redis_index_def)

lemma redis_put_sessions [simp]:
  "rs_sessions (redis_put st s ttl now) = (rs_sessions st)(ss_id s \<mapsto> (json_session s, now + ttl))"
  by (simp add: redis_put_def redis_set_def redis_expire_def redis_sadd_def Let_def)

lemma redis_delete_sessions [simp]: "rs_sessions (redis_delete st sid now) = (rs_sessions st)(sid := None)"
  by (simp add: redis_delete_def redis_del_def redis_srem_def split: option.split)

lemma redis_refresh_sessions [simp]:
  "rs_sessions (fst (redis_refresh st old_id s ttl now new_id)) =
     (rs_sessions st)(old_id := None, new_id \<mapsto> (json_session (stamped s new_id now), now + ttl))"
  by (simp add: redis_refresh_def redis_set_def redis_del_def redis_sadd_def redis_srem_def Let_def)

lemma redis_get_cong: "rs_sessions st sid = rs_sessions st' sid \<Longrightarrow> redis_get st sid now = redis_get st' sid now"
  by (simp add: redis_get_def)

interpretation redis: session_store redis_get redis_create redis_update redis_delete redis_refresh json_session
  by unfold_locales (auto simp: redis_get_def redis_create_def redis_update_def)

end
