(* ===== verification/Gateway_Session.thy ===== *)
theory Gateway_Session
  imports Session_Store Go_Date
begin

text \<open>
  The user of a gateway session (apps/auth-gateway/internal/handler: session_resolve.go,
  user_context_cache.go, session_handler.go, tenant_handler.go, mfa_handler.go, oauth_handler.go):
  resolving it in IAM with the cache in between, keeping it fresh, sliding the session, switching
  the tenant, the step-up and the logout. IAM is a parameter; calls that run at the same time for
  one user share one lookup in the code and look up one after the other here. Sessions are in
  Redis, the store of a deployment.
\<close>

section \<open>IAM\<close>

datatype iam_error = User_Not_Found | Iam_Unavailable

text \<open>The context that IAM answers: the user and its status.\<close>

record iam_user =
  iu_info :: user_info
  iu_status :: string

text \<open>Lookups by subject, and by id within a tenant (empty for none).\<close>

record iam_client =
  ic_by_subject :: "string \<Rightarrow> iam_error + iam_user"
  ic_by_id :: "string \<Rightarrow> string \<Rightarrow> iam_error + iam_user"

record gw_config =
  gc_session_ttl :: int
  gc_check_interval :: int
  gc_recent_window :: int
  gc_cache_ttl :: int

record gw_state =
  gs_store :: redis_store
  gs_cache :: "(string \<rightharpoonup> iam_user \<times> int) option"

definition seconds :: "int \<Rightarrow> int" where
  "seconds n = n * 1000000000"

section \<open>The cache\<close>

definition clone_context :: "iam_user \<Rightarrow> iam_user" where
  "clone_context uc = uc\<lparr>iu_info := (iu_info uc)\<lparr>
     ui_org_ids := append_nil (ui_org_ids (iu_info uc)), ui_group_ids := append_nil (ui_group_ids (iu_info uc)),
     ui_roles := append_nil (ui_roles (iu_info uc)), ui_perms := append_nil (ui_perms (iu_info uc))\<rparr>\<rparr>"

text \<open>An expired entry is dropped on the way.\<close>

fun cache_get :: "(string \<rightharpoonup> iam_user \<times> int) \<Rightarrow> string \<Rightarrow> int \<Rightarrow> (string \<rightharpoonup> iam_user \<times> int) \<times> iam_user option" where
  "cache_get cache key now =
     (if key = [] then (cache, None)
      else case cache key of
        None \<Rightarrow> (cache, None)
      | Some (uc, expires) \<Rightarrow> if expires < now then (cache(key := None), None) else (cache, Some (clone_context uc)))"

definition cache_set :: "int \<Rightarrow> int \<Rightarrow> iam_user \<Rightarrow> string \<Rightarrow> (string \<rightharpoonup> iam_user \<times> int) \<Rightarrow> (string \<rightharpoonup> iam_user \<times> int)" where
  "cache_set ttl now uc key cache = (if key = [] then cache else cache(key \<mapsto> (clone_context uc, now + ttl)))"

fun cache_lookup :: "(string \<rightharpoonup> iam_user \<times> int) \<Rightarrow> string list \<Rightarrow> int \<Rightarrow> (string \<rightharpoonup> iam_user \<times> int) \<times> iam_user option" where
  "cache_lookup cache [] now = (cache, None)"
| "cache_lookup cache (key # keys) now =
     (case cache_get cache key now of
        (cache1, Some uc) \<Rightarrow> (cache1, Some uc)
      | (cache1, None) \<Rightarrow> cache_lookup cache1 keys now)"

definition cache_keys :: "string \<Rightarrow> string \<Rightarrow> int \<Rightarrow> string list" where
  "cache_keys user_id subject auth_version =
     (let version = (if auth_version \<le> 0 then ''legacy'' else ''v'' @ dec_str (nat auth_version)) in
      dedup [] (map (\<lambda>base. base @ '':'' @ version) (filter (\<lambda>b. b \<noteq> []) [trim_space user_id, trim_space subject])))"

definition cache_user :: "int \<Rightarrow> int \<Rightarrow> user_info \<Rightarrow> iam_user \<Rightarrow> (string \<rightharpoonup> iam_user \<times> int) option \<Rightarrow> (string \<rightharpoonup> iam_user \<times> int) option" where
  "cache_user ttl now fallback uc cache =
     (case cache of
        None \<Rightarrow> None
      | Some c \<Rightarrow>
        let i = iu_info uc;
            c1 = fold (cache_set ttl now uc) (cache_keys (ui_user_id i) (ui_subject i) (ui_auth_version i)) c
        in Some (if ui_auth_version fallback \<le> 0 \<or> ui_auth_version fallback = ui_auth_version i
             then fold (cache_set ttl now uc) (cache_keys (ui_user_id fallback) (ui_subject fallback) (ui_auth_version fallback)) c1
             else c1))"

section \<open>Resolving\<close>

definition looks_like_uuid :: "string \<Rightarrow> bool" where
  "looks_like_uuid value \<longleftrightarrow> length value = 36 \<and> length (filter (\<lambda>c. c = CHR ''-'') value) = 4"

definition user_revoked :: "iam_user \<Rightarrow> bool" where
  "user_revoked uc \<longleftrightarrow> to_upper (trim_space (iu_status uc)) = ''DISABLED''"

definition tenant_complete :: "user_info \<Rightarrow> bool" where
  "tenant_complete u =
     (if to_upper (trim_space (ui_tenant u)) = ''SYSTEM'' then ui_caps_loaded u
      else ui_memberships u \<noteq> None \<and> ui_caps_loaded u)"

definition user_complete :: "user_info option \<Rightarrow> bool" where
  "user_complete user =
     (case user of
        None \<Rightarrow> False
      | Some u \<Rightarrow> trim_space (ui_user_id u) \<noteq> [] \<and> trim_space (ui_subject u) \<noteq> [] \<and> 0 < ui_auth_version u \<and>
          ui_group_ids u \<noteq> None \<and> tenant_complete u)"

definition fill :: "string \<Rightarrow> string \<Rightarrow> string" where
  "fill value fallback = (if value = [] then fallback else value)"

definition profile_from_iam :: "profile \<Rightarrow> profile \<Rightarrow> profile" where
  "profile_from_iam p f = p\<lparr>
     pf_username := fill (pf_username p) (pf_username f), pf_email := fill (pf_email p) (pf_email f),
     pf_display_name := fill (pf_display_name p) (pf_display_name f), pf_nickname := fill (pf_nickname p) (pf_nickname f),
     pf_first_name := fill (pf_first_name p) (pf_first_name f), pf_last_name := fill (pf_last_name p) (pf_last_name f),
     pf_phone := fill (pf_phone p) (pf_phone f), pf_birthdate := fill (pf_birthdate p) (pf_birthdate f),
     pf_gender := fill (pf_gender p) (pf_gender f), pf_address := fill (pf_address p) (pf_address f),
     pf_country := fill (pf_country p) (pf_country f), pf_cover := fill (pf_cover p) (pf_cover f),
     pf_cover_file := fill (pf_cover_file p) (pf_cover_file f)\<rparr>"

definition user_from_iam :: "iam_user \<Rightarrow> user_info \<Rightarrow> user_info" where
  "user_from_iam uc fallback =
     (let i = iu_info uc in
      i\<lparr>ui_subject := fill (ui_subject i) (ui_subject fallback),
        ui_profile := profile_from_iam (ui_profile i) (ui_profile fallback),
        ui_group_ids := append_nil (ui_group_ids i),
        ui_memberships := (if ui_memberships i = Some [] then None else ui_memberships i)\<rparr>)"

definition iam_lookup_ids :: "user_info \<Rightarrow> string list" where
  "iam_lookup_ids u =
     dedup [] (filter (\<lambda>i. i \<noteq> [] \<and> looks_like_uuid i) [trim_space (ui_user_id u), trim_space (ui_subject u)])"

text \<open>The lookups in the order of the code; only the first answers until one succeeds matter.\<close>

definition iam_lookups :: "iam_client \<Rightarrow> user_info \<Rightarrow> (iam_error + iam_user) list" where
  "iam_lookups iam u =
     (if ui_subject u \<noteq> [] \<and> \<not> looks_like_uuid (ui_subject u) then [ic_by_subject iam (ui_subject u)] else []) @
     map (\<lambda>i. ic_by_id iam i []) (iam_lookup_ids u)"

datatype resolved = Resolved user_info | Revoked | Unresolved

fun first_answer :: "(iam_error + iam_user) list \<Rightarrow> iam_user option" where
  "first_answer [] = None"
| "first_answer (Inl _ # rs) = first_answer rs"
| "first_answer (Inr uc # rs) = Some uc"

definition resolve_uncached ::
  "gw_config \<Rightarrow> iam_client \<Rightarrow> int \<Rightarrow> gw_state \<Rightarrow> user_info \<Rightarrow> gw_state \<times> resolved" where
  "resolve_uncached cfg iam now st u =
     (let answers = iam_lookups iam u in
      case first_answer answers of
        Some uc \<Rightarrow>
          if user_revoked uc then (st, Revoked)
          else (st\<lparr>gs_cache := cache_user (seconds (gc_cache_ttl cfg)) now u uc (gs_cache st)\<rparr>, Resolved (user_from_iam uc u))
      | None \<Rightarrow> (st, if answers \<noteq> [] \<and> (\<forall>a\<in>set answers. a = Inl User_Not_Found) then Revoked else Unresolved))"

text \<open>
  An empty user id is taken from the subject first; the session's own user is changed by that, so it
  is part of the result.
\<close>

definition with_subject_id :: "user_info \<Rightarrow> user_info" where
  "with_subject_id u =
     (if ui_user_id u = [] \<and> looks_like_uuid (ui_subject u) then u\<lparr>ui_user_id := ui_subject u\<rparr> else u)"

definition empty_user :: user_info where
  "empty_user =
     \<lparr>ui_user_id = [], ui_subject = [],
      ui_profile = \<lparr>pf_username = [], pf_email = [], pf_display_name = [], pf_nickname = [], pf_first_name = [], pf_last_name = [],
        pf_phone = [], pf_birthdate = [], pf_gender = [], pf_address = [], pf_country = [], pf_picture = [], pf_avatar = [],
        pf_cover = [], pf_cover_file = []\<rparr>,
      ui_tenant = [], ui_active_tenant = [], ui_memberships = None, ui_selection_required = False, ui_org_ids = None,
      ui_group_ids = None, ui_roles = None, ui_perms = None, ui_global_roles = None, ui_global_perms = None,
      ui_global_admin = False, ui_caps_loaded = False, ui_auth_version = 0, ui_timezone = [], ui_locale = []\<rparr>"

definition resolve_session_user ::
  "gw_config \<Rightarrow> iam_client option \<Rightarrow> int \<Rightarrow> gw_state \<Rightarrow> user_info option \<Rightarrow> bool \<Rightarrow> gw_state \<times> user_info option \<times> resolved" where
  "resolve_session_user cfg iam now st user use_cache =
     (case iam of
        None \<Rightarrow> (st, user, Unresolved)
      | Some client \<Rightarrow>
        let u = with_subject_id (case user of None \<Rightarrow> empty_user | Some u \<Rightarrow> u);
            user' = map_option (\<lambda>_. u) user;
            (cache, hit) = (case gs_cache st of
               Some c \<Rightarrow>
                 if use_cache \<and> tenant_complete u then
                   map_prod Some id (cache_lookup c (cache_keys (ui_user_id u) (ui_subject u) (ui_auth_version u)) now)
                 else (Some c, None)
             | None \<Rightarrow> (None, None));
            st1 = st\<lparr>gs_cache := cache\<rparr>
        in (case hit of
              Some uc \<Rightarrow> (st1, user', if user_revoked uc then Revoked else Resolved (user_from_iam uc u))
            | None \<Rightarrow> (case resolve_uncached cfg client now st1 u of (st2, res) \<Rightarrow> (st2, user', res))))"

section \<open>Keeping a session fresh\<close>

definition update_session :: "gw_state \<Rightarrow> session \<Rightarrow> int \<Rightarrow> gw_state" where
  "update_session st s now =
     (case ss_expires s of
        None \<Rightarrow> st
      | Some expires \<Rightarrow>
        if ss_id s = [] \<or> expires - now \<le> 0 then st
        else st\<lparr>gs_store := redis_update (gs_store st) s (expires - now) now\<rparr>)"

definition delete_session :: "gw_state \<Rightarrow> string \<Rightarrow> int \<Rightarrow> gw_state" where
  "delete_session st sid now = (if sid = [] then st else st\<lparr>gs_store := redis_delete (gs_store st) sid now\<rparr>)"

definition refresh_due :: "int \<Rightarrow> time \<Rightarrow> int \<Rightarrow> bool \<Rightarrow> bool" where
  "refresh_due now last_check interval force_fresh =
     (if force_fresh then True
      else if interval \<le> 0 then False
      else case last_check of None \<Rightarrow> True | Some t \<Rightarrow> interval \<le> now - t)"

definition check_interval :: "gw_config \<Rightarrow> int" where
  "check_interval cfg = (if gc_check_interval cfg \<le> 0 then 0 else seconds (gc_check_interval cfg))"

definition ensure_session_user ::
  "gw_config \<Rightarrow> iam_client option \<Rightarrow> int \<Rightarrow> gw_state \<Rightarrow> session \<Rightarrow> bool \<Rightarrow> gw_state \<times> session \<times> bool" where
  "ensure_session_user cfg iam now st s force_fresh =
     (let due = refresh_due now (ss_last_check s) (check_interval cfg) force_fresh in
      if \<not> due \<and> user_complete (ss_user s) then (st, s, True)
      else case resolve_session_user cfg iam now st (ss_user s) (\<not> due) of
        (st1, previous, res) \<Rightarrow>
          let s1 = s\<lparr>ss_user := previous\<rparr>;
              kept = (st1, s1, due \<and> \<not> force_fresh \<and> user_complete previous)
          in (case res of
                Revoked \<Rightarrow> (delete_session st1 (ss_id s) now, s1, False)
              | Unresolved \<Rightarrow> kept
              | Resolved u \<Rightarrow>
                if ui_user_id u = [] then kept
                else
                  let s2 = s1\<lparr>ss_user := Some u, ss_last_check := (if due then Some now else ss_last_check s)\<rparr> in
                  (if previous \<noteq> Some u \<or> due then update_session st1 s2 now else st1, s2, True)))"

text \<open>Sliding a session once half of its time is over, for 30 days at most.\<close>

definition session_ttl :: "gw_config \<Rightarrow> int" where
  "session_ttl cfg = (if seconds (gc_session_ttl cfg) \<le> 0 then seconds 86400 else seconds (gc_session_ttl cfg))"

definition maybe_renew_session :: "gw_config \<Rightarrow> int \<Rightarrow> gw_state \<Rightarrow> session \<Rightarrow> gw_state \<times> session" where
  "maybe_renew_session cfg now st s =
     (if ss_id s = [] then (st, s)
      else if (case ss_expires s of None \<Rightarrow> False | Some e \<Rightarrow> go_div (session_ttl cfg) 2 < e - now) then (st, s)
      else if (case ss_created s of None \<Rightarrow> False | Some c \<Rightarrow> seconds (30 * 86400) < now - c) then (st, s)
      else
        let s1 = s\<lparr>ss_expires := Some (now + session_ttl cfg)\<rparr> in (update_session st s1 now, s1))"

section \<open>Tenant, step-up and logout\<close>

definition session_of :: "gw_state \<Rightarrow> string \<Rightarrow> int \<Rightarrow> session option" where
  "session_of st sid now = (if sid = [] then None else redis_get (gs_store st) sid now)"

text \<open>The answers are HTTP statuses; \<open>Inr\<close> is 200 with the user.\<close>

definition switch_tenant ::
  "iam_client option \<Rightarrow> int \<Rightarrow> gw_state \<Rightarrow> string \<Rightarrow> string \<Rightarrow> gw_state \<times> (int + user_info)" where
  "switch_tenant iam now st sid tenant0 =
     (case session_of st sid now of
        None \<Rightarrow> (st, Inl 401)
      | Some s \<Rightarrow>
        (case ss_user s of
           None \<Rightarrow> (st, Inl 401)
         | Some u \<Rightarrow>
           let tenant = trim_space tenant0 in
           if trim_space (ui_user_id u) = [] then (st, Inl 401)
           else if tenant = [] then (st, Inl 400)
           else (case iam of
             None \<Rightarrow> (st, Inl 502)
           | Some client \<Rightarrow>
             (case ic_by_id client (ui_user_id u) tenant of
                Inl _ \<Rightarrow> (st, Inl 403)
              | Inr uc \<Rightarrow>
                let u' = user_from_iam uc u in (update_session st (s\<lparr>ss_user := Some u'\<rparr>) now, Inr u')))))"

text \<open>
  The step-up: the code is verified when the user is enrolled (an unknown enrolment counts as
  enrolled), else a confirmation is enough; the session then moves to a new id.
\<close>

definition step_up ::
  "gw_config \<Rightarrow> (string \<Rightarrow> bool option) \<Rightarrow> (string \<Rightarrow> string \<Rightarrow> bool) \<Rightarrow> int \<Rightarrow> string \<Rightarrow> gw_state \<Rightarrow> string \<Rightarrow> string \<Rightarrow> bool \<Rightarrow>
   gw_state \<times> (int + session)" where
  "step_up cfg enrolled verify now new_id st sid code confirm =
     (case session_of st sid now of
        None \<Rightarrow> (st, Inl 401)
      | Some s \<Rightarrow>
        (case ss_user s of
           None \<Rightarrow> (st, Inl 401)
         | Some u \<Rightarrow>
           if ui_user_id u = [] then (st, Inl 401)
           else
             let known = (case enrolled (ui_user_id u) of None \<Rightarrow> True | Some e \<Rightarrow> e) in
             if known \<and> trim_space code = [] then (st, Inl 400)
             else if known \<and> \<not> verify (ui_user_id u) (trim_space code) then (st, Inl 401)
             else if \<not> known \<and> \<not> confirm then (st, Inl 400)
             else
               (case redis_refresh (gs_store st) sid (s\<lparr>ss_auth_time := Some now\<rparr>) (session_ttl cfg) now new_id of
                  (store1, s1) \<Rightarrow> (st\<lparr>gs_store := store1\<rparr>, Inr s1))))"

definition logout :: "int \<Rightarrow> gw_state \<Rightarrow> string \<Rightarrow> gw_state" where
  "logout now st sid = (if sid = [] then st else st\<lparr>gs_store := redis_delete (gs_store st) sid now\<rparr>)"

definition recent_auth_ok :: "gw_config \<Rightarrow> int \<Rightarrow> session \<Rightarrow> string \<Rightarrow> bool" where
  "recent_auth_ok cfg now s risk =
     (if gc_recent_window cfg \<le> 0 then True
      else if risk \<noteq> ''high'' then True
      else case ss_auth_time s of None \<Rightarrow> False | Some t \<Rightarrow> now - t \<le> seconds (gc_recent_window cfg))"

end
