(* ===== verification/Route_Policy.thy ===== *)
theory Route_Policy
  imports Prelude
begin

text \<open>
  The route policy of the gateway (apps/auth-gateway/internal/policy/policy.go): the checks of a
  loaded policy, and the most specific route for a path and a method. Reading the file and parsing
  its YAML is outside; \<open>load_policy\<close> starts from the parsed routes. Also the permission check of
  libs/go/arda-auth/permission/check.go.
\<close>

section \<open>Suffixes\<close>

definition has_suffix :: "string \<Rightarrow> string \<Rightarrow> bool" where
  "has_suffix s suf \<longleftrightarrow> length suf \<le> length s \<and> drop (length s - length suf) s = suf"

definition trim_suffix :: "string \<Rightarrow> string \<Rightarrow> string" where
  "trim_suffix s suf = (if has_suffix s suf then take (length s - length suf) s else s)"

lemma has_suffix_iff: "has_suffix s suf \<longleftrightarrow> (\<exists>t. s = t @ suf)"
  by (metis append_eq_conv_conj append_take_drop_id diff_diff_cancel has_suffix_def length_append le_add2 length_drop add_diff_cancel_right')

lemma trim_suffix_append [simp]: "trim_suffix (t @ suf) suf = t"
  by (simp add: trim_suffix_def has_suffix_def)

lemma trim_suffix_length: "length (trim_suffix s suf) \<le> length s"
  by (simp add: trim_suffix_def)

lemma trim_suffix_none: "\<not> has_suffix s suf \<Longrightarrow> trim_suffix s suf = s"
  by (simp add: trim_suffix_def)

section \<open>Routes\<close>

record route =
  ro_id :: string
  ro_path :: string
  ro_methods :: "string list"
  ro_auth :: bool
  ro_risk :: string
  ro_perms :: "string list"

datatype policy_error =
    Empty_Id nat
  | Invalid_Path string string
  | Public_Permissions string
  | Invalid_Risk string string
  | Public_Risk_Needed string
  | Public_Risk_Refused string
  | Invalid_Method string string
  | Duplicate_Method string string

definition default_risk :: "bool \<Rightarrow> string" where
  "default_risk auth = (if \<not> auth then ''public'' else ''medium'')"

definition valid_risk :: "string \<Rightarrow> bool" where
  "valid_risk risk \<longleftrightarrow> risk \<in> {''public'', ''low'', ''medium'', ''high''}"

definition valid_method :: "string \<Rightarrow> bool" where
  "valid_method m \<longleftrightarrow> m \<in> {''GET'', ''HEAD'', ''POST'', ''PUT'', ''PATCH'', ''DELETE'', ''OPTIONS''}"

text \<open>The loop over the methods of a route, with those seen before.\<close>

fun load_methods :: "string \<Rightarrow> string list \<Rightarrow> string list \<Rightarrow> policy_error + string list" where
  "load_methods i [] seen = Inr (rev seen)"
| "load_methods i (raw # ms) seen =
     (let m = to_upper (trim_space raw) in
      if \<not> valid_method m then Inl (Invalid_Method i m)
      else if m \<in> set seen then Inl (Duplicate_Method i m)
      else load_methods i ms (m # seen))"

definition load_route :: "nat \<Rightarrow> route \<Rightarrow> policy_error + route" where
  "load_route n r =
     (if trim_space (ro_id r) = [] then Inl (Empty_Id n)
      else if trim_space (ro_path r) = [] \<or> \<not> has_prefix (ro_path r) ''/'' then Inl (Invalid_Path (ro_id r) (ro_path r))
      else if \<not> ro_auth r \<and> ro_perms r \<noteq> [] then Inl (Public_Permissions (ro_id r))
      else
        let risk = (if ro_risk r = [] then default_risk (ro_auth r) else ro_risk r) in
        if \<not> valid_risk risk then Inl (Invalid_Risk (ro_id r) risk)
        else if \<not> ro_auth r \<and> risk \<noteq> ''public'' then Inl (Public_Risk_Needed (ro_id r))
        else if ro_auth r \<and> risk = ''public'' then Inl (Public_Risk_Refused (ro_id r))
        else case load_methods (ro_id r) (ro_methods r) [] of
          Inl e \<Rightarrow> Inl e
        | Inr ms \<Rightarrow> Inr (r\<lparr>ro_risk := risk, ro_methods := ms\<rparr>))"

fun load_routes :: "nat \<Rightarrow> route list \<Rightarrow> policy_error + route list" where
  "load_routes n [] = Inr []"
| "load_routes n (r # rs) =
     (case load_route n r of
        Inl e \<Rightarrow> Inl e
      | Inr r' \<Rightarrow> (case load_routes (Suc n) rs of Inl e \<Rightarrow> Inl e | Inr rs' \<Rightarrow> Inr (r' # rs')))"

definition load_policy :: "route list \<Rightarrow> policy_error + route list" where
  "load_policy rs = load_routes 0 rs"

section \<open>Matching\<close>

definition path_matches :: "string \<Rightarrow> string \<Rightarrow> bool" where
  "path_matches pattern0 path0 =
     (let pattern = trim_suffix pattern0 ''/''; path = trim_suffix path0 ''/'' in
      if has_suffix pattern ''/**'' then
        (let prefix = trim_suffix pattern ''/**'' in path = prefix \<or> has_prefix path (prefix @ ''/''))
      else if has_suffix pattern ''/*'' then
        (let prefix = trim_suffix pattern ''/*'' in path = prefix \<or> has_prefix path (prefix @ ''/''))
      else pattern = path)"

definition specificity :: "string \<Rightarrow> nat" where
  "specificity pattern =
     (if has_suffix pattern ''/**'' then length (trim_suffix pattern ''/**'')
      else if has_suffix pattern ''/*'' then length (trim_suffix pattern ''/*'')
      else length pattern + 10)"

definition route_matches :: "string \<Rightarrow> string \<Rightarrow> route \<Rightarrow> bool" where
  "route_matches path m r \<longleftrightarrow> path_matches (ro_path r) path \<and> (ro_methods r = [] \<or> m \<in> set (ro_methods r))"

fun best_route :: "string \<Rightarrow> string \<Rightarrow> route list \<Rightarrow> route option \<Rightarrow> route option" where
  "best_route path m [] best = best"
| "best_route path m (r # rs) best =
     (if \<not> route_matches path m r then best_route path m rs best
      else case best of
        None \<Rightarrow> best_route path m rs (Some r)
      | Some b \<Rightarrow> best_route path m rs (if specificity (ro_path b) < specificity (ro_path r) then Some r else best))"

text \<open>\<open>Match\<close>; \<open>Public\<close> and \<open>RequireAuth\<close> of its result are the route's \<open>Auth\<close>.\<close>

definition match_policy :: "route list \<Rightarrow> string \<Rightarrow> string \<Rightarrow> route option" where
  "match_policy rs path m = best_route path (to_upper m) rs None"

section \<open>Permissions\<close>

definition has_permission :: "string list \<Rightarrow> string \<Rightarrow> bool" where
  "has_permission perms code \<longleftrightarrow> ''superadmin'' \<in> set perms \<or> code \<in> set perms"

definition has_any :: "string list \<Rightarrow> string list \<Rightarrow> bool" where
  "has_any perms codes \<longleftrightarrow> ''superadmin'' \<in> set perms \<or> (\<exists>c\<in>set codes. c \<in> set perms)"

lemma has_any_iff: "has_any perms codes \<longleftrightarrow> ''superadmin'' \<in> set perms \<or> (\<exists>c\<in>set codes. has_permission perms c)"
  by (auto simp: has_any_def has_permission_def)

section \<open>What a loaded policy guarantees\<close>

lemma load_methods_ok:
  "load_methods i ms seen = Inr out \<Longrightarrow> distinct seen \<Longrightarrow> (\<forall>m\<in>set seen. valid_method m) \<Longrightarrow>
     out = rev seen @ map (\<lambda>m. to_upper (trim_space m)) ms \<and> distinct out \<and> (\<forall>m\<in>set out. valid_method m)"
proof (induction i ms seen rule: load_methods.induct)
  case (2 i raw ms seen)
  let ?m = "to_upper (trim_space raw)"
  have ok: "valid_method ?m" "?m \<notin> set seen" and rest: "load_methods i ms (?m # seen) = Inr out"
    using "2.prems"(1) by (auto simp: Let_def split: if_splits)
  have IH: "out = rev (?m # seen) @ map (\<lambda>m. to_upper (trim_space m)) ms \<and> distinct out \<and> (\<forall>m\<in>set out. valid_method m)"
    by (rule "2.IH" [OF refl _ _ rest]) (use ok "2.prems"(2,3) in simp_all)
  then have "out = rev seen @ map (\<lambda>m. to_upper (trim_space m)) (raw # ms)" by simp
  with IH show ?case by blast
qed auto

definition route_ok :: "route \<Rightarrow> bool" where
  "route_ok r \<longleftrightarrow> \<not> blank (ro_id r) \<and> has_prefix (ro_path r) ''/'' \<and>
     (if ro_auth r then ro_risk r \<in> {''low'', ''medium'', ''high''} else ro_risk r = ''public'' \<and> ro_perms r = []) \<and>
     distinct (ro_methods r) \<and> (\<forall>m\<in>set (ro_methods r). valid_method m)"

definition loads_as :: "route \<Rightarrow> route \<Rightarrow> bool" where
  "loads_as r r' \<longleftrightarrow> r' = r\<lparr>ro_risk := (if ro_risk r = [] then default_risk (ro_auth r) else ro_risk r),
     ro_methods := map (\<lambda>m. to_upper (trim_space m)) (ro_methods r)\<rparr>"

lemma load_route_ok:
  assumes "load_route n r = Inr r'"
  shows "loads_as r r' \<and> route_ok r'"
proof -
  define risk where "risk = (if ro_risk r = [] then default_risk (ro_auth r) else ro_risk r)"
  obtain ms where ms: "load_methods (ro_id r) (ro_methods r) [] = Inr ms" and r': "r' = r\<lparr>ro_risk := risk, ro_methods := ms\<rparr>"
    and guards: "\<not> blank (ro_id r)" "has_prefix (ro_path r) ''/''" "ro_auth r \<or> ro_perms r = []" "valid_risk risk"
      "ro_auth r \<or> risk = ''public''" "\<not> (ro_auth r \<and> risk = ''public'')"
    using assms unfolding load_route_def risk_def [symmetric] Let_def blank_def
    by (auto split: if_splits sum.splits)
  note m = load_methods_ok [OF ms]
  have "ro_auth r \<Longrightarrow> risk \<in> {''low'', ''medium'', ''high''}" using guards(4,6) by (auto simp: valid_risk_def)
  then show ?thesis using m guards unfolding r' route_ok_def loads_as_def risk_def [symmetric] by auto
qed

lemma load_routes_ok: "load_routes n rs = Inr rs' \<Longrightarrow> list_all2 (\<lambda>r r'. loads_as r r' \<and> route_ok r') rs rs'"
proof (induction n rs arbitrary: rs' rule: load_routes.induct)
  case (2 n r rs)
  then show ?case using load_route_ok by (fastforce split: sum.splits)
qed simp

text \<open>C31. A policy that loads is closed: its routes are the file's routes with the risk filled in and the methods normalised;
  a public route asks for no permission and has public risk, every other route has low, medium or high risk, paths
  start at the root, and methods are known and distinct.\<close>

theorem loaded_policy_closed:
  assumes "load_policy rs = Inr rs'"
  shows "list_all2 loads_as rs rs' \<and> (\<forall>r\<in>set rs'. route_ok r)"
proof -
  have "list_all2 (\<lambda>r r'. loads_as r r' \<and> route_ok r') rs rs'" using load_routes_ok assms by (simp add: load_policy_def)
  then show ?thesis by (induction rule: list_all2_induct) auto
qed

definition demo_routes :: "route list" where
  "demo_routes =
     [\<lparr>ro_id = ''ledger'', ro_path = ''/api/finance/**'', ro_methods = [], ro_auth = True, ro_risk = [], ro_perms = [''fin.read'']\<rparr>,
      \<lparr>ro_id = ''post'', ro_path = ''/api/finance/postings'', ro_methods = ['' post ''], ro_auth = True, ro_risk = ''high'',
        ro_perms = [''fin.post'']\<rparr>,
      \<lparr>ro_id = ''ping'', ro_path = ''/api/ping'', ro_methods = [''GET''], ro_auth = False, ro_risk = [], ro_perms = []\<rparr>]"

definition demo_policy :: "route list" where
  "demo_policy = (case load_policy demo_routes of Inl _ \<Rightarrow> [] | Inr rs \<Rightarrow> rs)"

lemma demo_loads: "load_policy demo_routes = Inr demo_policy"
  by code_simp

theorem loaded_policy_closed_witness:
  "list_all route_ok demo_policy \<and> map ro_risk demo_policy = [''medium'', ''high'', ''public'']"
proof -
  have "map ro_risk demo_policy = [''medium'', ''high'', ''public'']" by code_simp
  then show ?thesis using loaded_policy_closed [OF demo_loads] by (simp only: list_all_iff) blast
qed

section \<open>The route chosen\<close>

lemma best_route_result:
  "best_route path m rs best = res \<Longrightarrow>
     (case res of
        None \<Rightarrow> best = None \<and> (\<forall>r\<in>set rs. \<not> route_matches path m r)
      | Some b \<Rightarrow> (best = Some b \<or> b \<in> set rs \<and> route_matches path m b) \<and>
          (\<forall>r\<in>set rs. route_matches path m r \<longrightarrow> specificity (ro_path r) \<le> specificity (ro_path b)) \<and>
          (\<forall>b0. best = Some b0 \<longrightarrow> specificity (ro_path b0) \<le> specificity (ro_path b)))"
proof (induction path m rs best arbitrary: res rule: best_route.induct)
  case (2 path m r rs best)
  show ?case
  proof (cases "route_matches path m r")
    case False
    then show ?thesis using 2 by (auto split: option.splits)
  next
    case True
    show ?thesis
    proof (cases best)
      case None
      then show ?thesis using "2.IH"(2) [of res] "2.prems" True by (auto split: option.splits)
    next
      case (Some b)
      then show ?thesis using "2.IH"(3) [of b res] "2.prems" True by (auto split: option.splits if_splits)
    qed
  qed
qed (auto split: option.splits)

text \<open>A request gets the most specific route: when a route is found, it matches the path and the method and no matching
  route is more specific; and none is found exactly when no route matches, so an unlisted request is refused.\<close>

theorem match_most_specific:
  "(match_policy rs path m = None \<longleftrightarrow> (\<forall>r\<in>set rs. \<not> route_matches path (to_upper m) r)) \<and>
   (\<forall>b. match_policy rs path m = Some b \<longrightarrow> b \<in> set rs \<and> route_matches path (to_upper m) b \<and>
      (\<forall>r\<in>set rs. route_matches path (to_upper m) r \<longrightarrow> specificity (ro_path r) \<le> specificity (ro_path b)))"
proof -
  note res = best_route_result [OF refl, where path = path and m = "to_upper m" and rs = rs and best = None]
  show ?thesis
  proof (cases "match_policy rs path m")
    case None
    then show ?thesis using res by (simp add: match_policy_def)
  next
    case (Some b)
    then show ?thesis using res by (auto simp: match_policy_def)
  qed
qed

theorem match_most_specific_witness:
  "\<exists>b. match_policy demo_policy ''/api/finance/postings/'' ''post'' = Some b \<and> ro_id b = ''post'' \<and>
     list_all (\<lambda>r. specificity (ro_path r) \<le> specificity (ro_path b))
       (filter (route_matches ''/api/finance/postings/'' (to_upper ''post'')) demo_policy)"
proof -
  have "map_option ro_id (match_policy demo_policy ''/api/finance/postings/'' ''post'') = Some ''post''" by code_simp
  then obtain b where "match_policy demo_policy ''/api/finance/postings/'' ''post'' = Some b" "ro_id b = ''post''" by auto
  then show ?thesis using match_most_specific [of demo_policy "''/api/finance/postings/''" "''post''"]
    by (simp only: list_all_iff set_filter mem_Collect_eq) blast
qed

text \<open>
  A literal route beats every wildcard route that matches the same path, as long as the wildcard
  pattern does not end in a slash.
\<close>

lemma wildcard_shorter:
  assumes "path_matches w path" "has_suffix w ''/**'' \<or> has_suffix w ''/*''"
  shows "specificity w \<le> length (trim_suffix path ''/'')"
proof -
  have no_slash: "\<not> has_suffix w ''/''" using assms(2) by (auto simp: has_suffix_iff)
  then have w: "trim_suffix w ''/'' = w" by (rule trim_suffix_none)
  have len: "length prefix \<le> length p" if "p = prefix \<or> has_prefix p (prefix @ ''/'')" for p prefix :: string
    using that by (auto simp: has_prefix_iff)
  show ?thesis
  proof (cases "has_suffix w ''/**''")
    case True
    then show ?thesis
      using assms(1) len [of "trim_suffix path ''/''" "trim_suffix w ''/**''"]
      unfolding path_matches_def specificity_def Let_def w by (simp only: if_True)
  next
    case False
    then have "has_suffix w ''/*''" using assms(2) by simp
    then show ?thesis
      using False assms(1) len [of "trim_suffix path ''/''" "trim_suffix w ''/*''"]
      unfolding path_matches_def specificity_def Let_def w by (simp only: if_True if_False)
  qed
qed

lemma literal_beats_wildcard:
  assumes "match_policy rs path m = Some b" "r \<in> set rs" "route_matches path (to_upper m) r"
    and "trim_suffix (ro_path r) ''/'' = trim_suffix path ''/''" "\<not> has_suffix (ro_path r) ''/**''" "\<not> has_suffix (ro_path r) ''/*''"
  shows "\<not> (has_suffix (ro_path b) ''/**'' \<or> has_suffix (ro_path b) ''/*'')"
proof
  assume wild: "has_suffix (ro_path b) ''/**'' \<or> has_suffix (ro_path b) ''/*''"
  note res = best_route_result [OF refl, where path = path and m = "to_upper m" and rs = rs and best = None, folded match_policy_def, unfolded assms(1) option.case]
  have "path_matches (ro_path b) path" using res by (simp add: route_matches_def)
  then have "specificity (ro_path b) \<le> length (trim_suffix path ''/'')" using wild by (rule wildcard_shorter)
  also have "\<dots> \<le> length (ro_path r)" unfolding assms(4) [symmetric] by (rule trim_suffix_length)
  also have "\<dots> < specificity (ro_path r)" using assms(5,6) by (simp add: specificity_def)
  finally show False using res assms(2,3) by force
qed

text \<open>A wildcard pattern with a slash at its end counts as literal, and beats the literal route.\<close>

lemma trailing_slash_wildcard_wins:
  "map_option ro_id (match_policy
     [\<lparr>ro_id = ''exact'', ro_path = ''/a/b'', ro_methods = [], ro_auth = True, ro_risk = ''high'', ro_perms = [''x'']\<rparr>,
      \<lparr>ro_id = ''wild'', ro_path = ''/a/**/'', ro_methods = [], ro_auth = False, ro_risk = ''public'', ro_perms = []\<rparr>]
     ''/a/b'' ''GET'') = Some ''wild''"
  by code_simp

end
