(* ===== verification/Gateway_Proxy.thy ===== *)
theory Gateway_Proxy
  imports Gateway_Session Route_Policy
begin

text \<open>
  The two gates of the gateway: the proxy of the browser (apps/auth-gateway/internal/handler/proxy.go)
  and the check that Traefik asks for (auth_handler.go). A result is a refusal or the request that
  goes upstream; the upstream's answer, the renewed cookie, logging and the activity report are left
  out. Header names are canonical, as Go's server makes them.
\<close>

section \<open>Requests\<close>

type_synonym headers = "string \<Rightarrow> string list"

definition header :: "headers \<Rightarrow> string \<Rightarrow> string" where
  "header h key = (case h key of [] \<Rightarrow> [] | v # _ \<Rightarrow> v)"

definition set_header :: "string \<Rightarrow> string \<Rightarrow> headers \<Rightarrow> headers" where
  "set_header key value h = h(key := [value])"

record gw_request =
  rq_path :: string
  rq_method :: string
  rq_query :: string
  rq_headers :: headers
  rq_cookie :: string

text \<open>
  A refusal has the status, the code and whether the cookie is cleared; a request that passes has
  its target and its headers.
\<close>

datatype gw_result = Denied int string bool | Forwarded string headers

text \<open>
  Outside: building a request for a target, issuing the token of a service, and the correlation ids
  of the request.
\<close>

record gw_outside =
  go_target_ok :: "string \<Rightarrow> bool"
  go_issue :: "string \<Rightarrow> string option"
  go_request_id :: string
  go_trace_id :: string

fun upstream_base :: "(string \<times> string) list \<Rightarrow> string \<Rightarrow> string" where
  "upstream_base [] path = []"
| "upstream_base ((prefix, url) # us) path =
     (if has_prefix path prefix \<and> trim_space url \<noteq> [] then url else upstream_base us path)"

definition context_headers :: "string list" where
  "context_headers =
     [''X-User-Id'', ''X-Actor-User-Id'', ''X-Target-User-Id'', ''X-User-Subject'', ''X-Username'', ''X-User-Email'', ''X-Nickname'',
      ''X-Tenant-Id'', ''X-Org-Id'', ''X-User-Org-Ids'', ''X-Roles'', ''X-Permissions'', ''X-Global-Roles'', ''X-Global-Permissions'',
      ''X-Global-Admin'', ''X-User-Group-Ids'', ''X-Session-Id'', ''X-Auth-Version'', ''X-Auth-Time'', ''X-Auth-Risk'',
      ''X-Auth-Checked'', ''X-User-Timezone'']"

definition strip_context :: "headers \<Rightarrow> headers" where
  "strip_context h = (\<lambda>key. if key \<in> set context_headers then [] else h key)"

fun join_comma :: "string list \<Rightarrow> string" where
  "join_comma [] = []"
| "join_comma [x] = x"
| "join_comma (x # xs) = x @ '','' @ join_comma xs"

definition dec_int :: "int \<Rightarrow> string" where
  "dec_int n = (if n < 0 then CHR ''-'' # dec_str (nat (- n)) else dec_str (nat n))"

definition set_when :: "bool \<Rightarrow> string \<Rightarrow> string \<Rightarrow> headers \<Rightarrow> headers" where
  "set_when c key value h = (if c then set_header key value h else h)"

section \<open>The proxy\<close>

definition outgoing_headers :: "gw_outside \<Rightarrow> gw_request \<Rightarrow> string option \<Rightarrow> headers" where
  "outgoing_headers out r service_token =
     (let h = set_header ''X-Request-Id'' (go_request_id out) (rq_headers r);
          h = (case service_token of None \<Rightarrow> h | Some t \<Rightarrow> set_header ''X-Service-Auth'' t h);
          h = set_when (go_trace_id out \<noteq> []) ''X-Trace-Id'' (go_trace_id out) h
      in strip_context h)"

definition active_org :: "gw_request \<Rightarrow> string" where
  "active_org r = trim_space (header (rq_headers r) ''X-Org-Id'')"

definition identity_headers :: "session \<Rightarrow> user_info \<Rightarrow> string \<Rightarrow> string \<Rightarrow> headers \<Rightarrow> headers" where
  "identity_headers s u org risk h =
     (let h = set_header ''Authorization'' (''Bearer '' @ ss_access s) h;
          h = set_header ''X-User-Id'' (ui_user_id u) h;
          h = set_header ''X-Actor-User-Id'' (ui_user_id u) h;
          h = set_header ''X-User-Subject'' (ui_subject u) h;
          h = set_header ''X-Username'' (pf_username (ui_profile u)) h;
          h = set_header ''X-User-Email'' (pf_email (ui_profile u)) h;
          h = set_header ''X-Nickname'' (pf_nickname (ui_profile u)) h;
          h = set_header ''X-Tenant-Id'' (ui_tenant u) h;
          h = set_when (ui_timezone u \<noteq> []) ''X-User-Timezone'' (ui_timezone u) h;
          h = set_when (elems (ui_org_ids u) \<noteq> []) ''X-User-Org-Ids'' (join_comma (elems (ui_org_ids u))) h;
          h = set_when (elems (ui_group_ids u) \<noteq> []) ''X-User-Group-Ids'' (join_comma (elems (ui_group_ids u))) h;
          h = set_when (org \<noteq> []) ''X-Org-Id'' org h;
          h = set_header ''X-Roles'' (join_comma (elems (ui_roles u))) h;
          h = set_header ''X-Permissions'' (join_comma (elems (ui_perms u))) h;
          h = set_header ''X-Global-Roles'' (join_comma (elems (ui_global_roles u))) h;
          h = set_header ''X-Global-Permissions'' (join_comma (elems (ui_global_perms u))) h;
          h = set_when (ui_global_admin u) ''X-Global-Admin'' ''true'' h;
          h = set_header ''X-Auth-Version'' (dec_int (ui_auth_version u)) h;
          h = (case ss_auth_time s of None \<Rightarrow> h | Some t \<Rightarrow> set_header ''X-Auth-Time'' (dec_int (t div 1000000000)) h);
          h = set_when (ss_iam_session s \<noteq> []) ''X-Session-Id'' (ss_iam_session s) h;
          h = set_header ''X-Auth-Risk'' risk h
      in set_header ''X-Auth-Checked'' ''true'' h)"

definition permitted :: "user_info \<Rightarrow> route \<Rightarrow> bool" where
  "permitted u route \<longleftrightarrow> ro_perms route = [] \<or> ui_global_admin u \<or> has_any (elems (ui_perms u)) (ro_perms route)"

text \<open>A session that the store holds: the part of the proxy after it was found.\<close>

definition proxy_session ::
  "gw_config \<Rightarrow> iam_client option \<Rightarrow> int \<Rightarrow> gw_request \<Rightarrow> route \<Rightarrow> string \<Rightarrow> headers \<Rightarrow> gw_state \<Rightarrow> session \<Rightarrow> gw_state \<times> gw_result" where
  "proxy_session cfg iam now r route target h st s =
     (if \<not> recent_auth_ok cfg now s (ro_risk route) then (st, Denied 403 ''recent_auth_required'' False)
      else case ensure_session_user cfg iam now st s (ro_risk route = ''high'') of
        (st1, s1, False) \<Rightarrow>
          if ro_auth route then (st1, Denied 401 ''user_context_unavailable'' True) else (st1, Forwarded target h)
      | (st1, s1, True) \<Rightarrow>
        (case maybe_renew_session cfg now st1 s1 of
           (st2, s2) \<Rightarrow>
             (case ss_user s2 of
                None \<Rightarrow> (st2, Denied 500 ''no user'' False)
              | Some u \<Rightarrow>
                if \<not> permitted u route then (st2, Denied 403 ''insufficient_permissions'' False)
                else if active_org r \<noteq> [] \<and> active_org r \<notin> trim_space ` set (elems (ui_org_ids u)) then
                  (st2, Denied 403 ''organization_forbidden'' False)
                else (st2, Forwarded target (identity_headers s2 u (active_org r) (ro_risk route) h)))))"

definition service_audience :: "string \<Rightarrow> string" where
  "service_audience path =
     (if has_prefix path ''/api/ai/'' \<or> has_prefix path ''/api/rag/'' then ''ai-service'' else [])"

definition proxy ::
  "gw_config \<Rightarrow> (string \<times> string) list \<Rightarrow> gw_outside \<Rightarrow> route list option \<Rightarrow> iam_client option \<Rightarrow> int \<Rightarrow> gw_state \<Rightarrow> gw_request \<Rightarrow>
   gw_state \<times> gw_result" where
  "proxy cfg upstreams out policy iam now st r =
     (case policy of
        None \<Rightarrow> (st, Denied 503 ''policy_unavailable'' False)
      | Some rules \<Rightarrow>
        (case match_policy rules (rq_path r) (rq_method r) of
           None \<Rightarrow> (st, Denied 404 ''route_not_found'' False)
         | Some route \<Rightarrow>
           let base = upstream_base upstreams (rq_path r);
               target = base @ rq_path r @ (if rq_query r = [] then [] else ''?'' @ rq_query r);
               audience = service_audience (rq_path r)
           in
           if trim_space base = [] then (st, Denied 503 ''upstream_not_configured'' False)
           else if \<not> go_target_ok out target then (st, Denied 502 ''proxy_request_invalid'' False)
           else if audience \<noteq> [] \<and> go_issue out audience = None then (st, Denied 502 ''ai_runtime_identity_unavailable'' False)
           else
             let h = outgoing_headers out r (if audience = [] then None else go_issue out audience) in
             (case session_of st (rq_cookie r) now of
                None \<Rightarrow>
                  if ro_auth route then (st, Denied 401 ''not_authenticated'' True) else (st, Forwarded target h)
              | Some s \<Rightarrow> proxy_session cfg iam now r route target h st s)))"

section \<open>The check\<close>

text \<open>Outside: the path of a forwarded URI, and the subject of a valid bearer token.\<close>

record check_outside =
  co_path :: "string \<Rightarrow> string option"
  co_subject :: "string \<Rightarrow> string option"

definition extract_bearer :: "string \<Rightarrow> string" where
  "extract_bearer value =
     (if has_prefix value ''Bearer '' then trim_space (drop (length ''Bearer '') value) else [])"

datatype check_result = Unauthorized string | Forbidden | Allowed "(string \<times> iam_user) option"

definition check_context ::
  "int \<Rightarrow> int \<Rightarrow> iam_client \<Rightarrow> (string \<rightharpoonup> iam_user \<times> int) option \<Rightarrow> string \<Rightarrow> string \<Rightarrow>
   (string \<rightharpoonup> iam_user \<times> int) option \<times> iam_user option" where
  "check_context ttl now iam cache subject risk =
     (let (cache1, hit) = (case cache of
            Some c \<Rightarrow> if risk \<noteq> ''high'' then map_prod Some id (cache_get c subject now) else (Some c, None)
          | None \<Rightarrow> (None, None));
          remember = (\<lambda>uc. map_option (\<lambda>c. if risk \<noteq> ''high'' then cache_set ttl now uc subject c else c) cache1)
      in
      case hit of
        Some uc \<Rightarrow> (cache1, Some uc)
      | None \<Rightarrow>
        (case ic_by_subject iam subject of
           Inr uc \<Rightarrow> (remember uc, Some uc)
         | Inl _ \<Rightarrow>
           (case ic_by_id iam subject [] of
              Inr uc \<Rightarrow> (remember uc, Some uc)
            | Inl _ \<Rightarrow> (cache1, None))))"

definition check ::
  "int \<Rightarrow> check_outside \<Rightarrow> route list \<Rightarrow> iam_client \<Rightarrow> int \<Rightarrow> (string \<rightharpoonup> iam_user \<times> int) option \<Rightarrow> gw_request \<Rightarrow>
   (string \<rightharpoonup> iam_user \<times> int) option \<times> check_result" where
  "check ttl out rules iam now cache r =
     (let uri = header (rq_headers r) ''X-Forwarded-Uri'';
          forwarded = header (rq_headers r) ''X-Forwarded-Method'';
          m = (if forwarded = [] then rq_method r else forwarded);
          path = (if uri = [] then Some (rq_path r)
            else (case co_path out uri of None \<Rightarrow> None | Some p \<Rightarrow> if has_prefix p ''/'' then Some p else None))
      in
      case path of
        None \<Rightarrow> (cache, Unauthorized ''invalid forwarded uri'')
      | Some p \<Rightarrow>
        (case match_policy rules p m of
           None \<Rightarrow> (cache, Unauthorized ''route not allowed'')
         | Some route \<Rightarrow>
           if \<not> ro_auth route then (cache, Allowed None)
           else
             let raw = extract_bearer (header (rq_headers r) ''Authorization'') in
             if raw = [] then (cache, Unauthorized ''missing authorization'')
             else (case co_subject out raw of
               None \<Rightarrow> (cache, Unauthorized ''invalid token'')
             | Some subject \<Rightarrow>
               (case check_context ttl now iam cache subject (ro_risk route) of
                  (cache1, None) \<Rightarrow> (cache1, Unauthorized ''user context unavailable'')
                | (cache1, Some uc) \<Rightarrow>
                  if permitted (iu_info uc) route then (cache1, Allowed (Some (ro_risk route, uc))) else (cache1, Forbidden)))))"

end
