(* ===== verification/Gateway_Theorems.thy ===== *)
theory Gateway_Theorems
  imports Gateway_Proxy
begin

text \<open>
  The main results on the gateway: what a request needs to pass, what identity it carries, and where
  sessions do not do what the code says.
\<close>

section \<open>A user that is kept fresh\<close>

lemma ensure_user: "ensure_session_user cfg iam now st s force = (st1, s1, True) \<Longrightarrow> ss_user s1 \<noteq> None"
  by (auto simp: ensure_session_user_def user_complete_def Let_def split: if_splits option.splits prod.splits resolved.splits)

lemma renew_user [simp]: "maybe_renew_session cfg now st s = (st', s') \<Longrightarrow> ss_user s' = ss_user s"
  by (auto simp: maybe_renew_session_def Let_def split: if_splits)

lemma first_answer_in: "first_answer rs = Some uc \<Longrightarrow> Inr uc \<in> set rs"
  by (induction rs rule: first_answer.induct) auto

lemma resolve_fresh:
  assumes "resolve_session_user cfg (Some iam) now st user False = (st1, previous, Resolved u)"
  shows "\<exists>uc fb. Inr uc \<in> set (iam_lookups iam fb) \<and> \<not> user_revoked uc \<and> u = user_from_iam uc fb"
  using assms
  by (auto simp: resolve_session_user_def resolve_uncached_def Let_def dest!: first_answer_in
      split: option.splits if_splits prod.splits)

text \<open>A forced check passes only on what IAM answers, for an account that is not disabled.\<close>

lemma forced_check:
  assumes "ensure_session_user cfg iam now st s True = (st1, s1, True)"
  shows "\<exists>client uc fb. iam = Some client \<and> Inr uc \<in> set (iam_lookups client fb) \<and> \<not> user_revoked uc \<and>
    ss_user s1 = Some (user_from_iam uc fb)"
proof (cases iam)
  case None
  then show ?thesis using assms by (simp add: ensure_session_user_def refresh_due_def resolve_session_user_def Let_def)
next
  case (Some client)
  obtain st0 previous res where r: "resolve_session_user cfg (Some client) now st (ss_user s) False = (st0, previous, res)"
    by (metis prod_cases3)
  obtain u where "res = Resolved u" "ss_user s1 = Some u"
    using assms r Some by (auto simp: ensure_session_user_def refresh_due_def Let_def split: resolved.splits if_splits)
  then show ?thesis using resolve_fresh [of cfg client now st "ss_user s" st0 previous u] r Some by blast
qed

section \<open>What passes the proxy\<close>

text \<open>A request that passes on a protected route, with all that it met on the way.\<close>

lemma proxy_passed:
  assumes "proxy cfg upstreams out (Some rules) iam now st r = (st', Forwarded target h)"
    and "match_policy rules (rq_path r) (rq_method r) = Some route" "ro_auth route"
  shows "\<exists>s st1 s1 st2 s2 u h0. session_of st (rq_cookie r) now = Some s \<and> recent_auth_ok cfg now s (ro_risk route) \<and>
    ensure_session_user cfg iam now st s (ro_risk route = ''high'') = (st1, s1, True) \<and>
    maybe_renew_session cfg now st1 s1 = (st2, s2) \<and> ss_user s1 = Some u \<and> ss_user s2 = Some u \<and> permitted u route \<and>
    h = identity_headers s2 u (active_org r) (ro_risk route) h0"
proof -
  obtain s h0 t0 where s: "session_of st (rq_cookie r) now = Some s"
    and p: "proxy_session cfg iam now r route t0 h0 st s = (st', Forwarded target h)"
    using assms unfolding proxy_def Let_def by (auto split: if_splits option.splits)
  obtain st1 s1 where e: "ensure_session_user cfg iam now st s (ro_risk route = ''high'') = (st1, s1, True)"
    and ok: "recent_auth_ok cfg now s (ro_risk route)"
    and rest: "\<exists>st2 s2 u. maybe_renew_session cfg now st1 s1 = (st2, s2) \<and> ss_user s2 = Some u \<and> permitted u route \<and>
      h = identity_headers s2 u (active_org r) (ro_risk route) h0"
    using p assms(3) by (auto simp: proxy_session_def split: if_splits prod.splits bool.splits option.splits)
  then show ?thesis using s renew_user by metis
qed

lemma permitted_iff:
  "permitted u route \<longleftrightarrow> (ro_perms route = [] \<or> ui_global_admin u \<or> ''superadmin'' \<in> set (elems (ui_perms u)) \<or>
     (\<exists>c\<in>set (ro_perms route). c \<in> set (elems (ui_perms u))))"
  unfolding permitted_def has_any_def by (rule refl)

text \<open>C32. A request on a protected route reaches a service only for a live session with a recent enough login, a
  resolved user, and one of the route's permissions (or the superadmin permission or the global administrator); on a
  high-risk route that user is what IAM answered for this very request, for an account that is not disabled.\<close>

theorem proxy_needs_permission:
  assumes "proxy cfg upstreams out (Some rules) iam now st r = (st', Forwarded target h)"
    and "match_policy rules (rq_path r) (rq_method r) = Some route" "ro_auth route"
  shows "\<exists>s st1 s1 u. session_of st (rq_cookie r) now = Some s \<and> recent_auth_ok cfg now s (ro_risk route) \<and>
    ensure_session_user cfg iam now st s (ro_risk route = ''high'') = (st1, s1, True) \<and> ss_user s1 = Some u \<and>
    (ro_perms route = [] \<or> ui_global_admin u \<or> ''superadmin'' \<in> set (elems (ui_perms u)) \<or>
      (\<exists>c\<in>set (ro_perms route). c \<in> set (elems (ui_perms u)))) \<and>
    (ro_risk route = ''high'' \<longrightarrow>
      (\<exists>client uc fb. iam = Some client \<and> Inr uc \<in> set (iam_lookups client fb) \<and> \<not> user_revoked uc \<and> u = user_from_iam uc fb))"
proof -
  obtain s st1 s1 u where *: "session_of st (rq_cookie r) now = Some s" "recent_auth_ok cfg now s (ro_risk route)"
    "ensure_session_user cfg iam now st s (ro_risk route = ''high'') = (st1, s1, True)" "ss_user s1 = Some u" "permitted u route"
    using proxy_passed [OF assms] by blast
  have "\<exists>client uc fb. iam = Some client \<and> Inr uc \<in> set (iam_lookups client fb) \<and> \<not> user_revoked uc \<and> u = user_from_iam uc fb"
    if "ro_risk route = ''high''"
    using forced_check [of cfg iam now st s st1 s1] * that by auto
  then have "\<exists>s st1 s1 u. session_of st (rq_cookie r) now = Some s \<and> recent_auth_ok cfg now s (ro_risk route) \<and>
    ensure_session_user cfg iam now st s (ro_risk route = ''high'') = (st1, s1, True) \<and> ss_user s1 = Some u \<and>
    permitted u route \<and> (ro_risk route = ''high'' \<longrightarrow>
      (\<exists>client uc fb. iam = Some client \<and> Inr uc \<in> set (iam_lookups client fb) \<and> \<not> user_revoked uc \<and> u = user_from_iam uc fb))"
    using * by blast
  then show ?thesis unfolding permitted_iff by blast
qed

section \<open>The identity a request carries\<close>

definition agree :: "string \<Rightarrow> headers \<Rightarrow> headers \<Rightarrow> bool" where
  "agree key h h' \<longleftrightarrow> h key = h' key"

lemma agree_set: "agree key h h' \<Longrightarrow> agree key (set_header k v h) (set_header k v h')"
  by (simp add: agree_def set_header_def)

lemma agree_when: "agree key h h' \<Longrightarrow> agree key (set_when c k v h) (set_when c k v h')"
  by (simp add: set_when_def agree_set)

lemma agree_option:
  "agree key h h' \<Longrightarrow> agree key (case t of None \<Rightarrow> h | Some t \<Rightarrow> set_header k (f t) h) (case t of None \<Rightarrow> h' | Some t \<Rightarrow> set_header k (f t) h')"
  by (simp add: agree_set split: option.split)

lemma identity_agree: "agree key h h' \<Longrightarrow> agree key (identity_headers s u org risk h) (identity_headers s u org risk h')"
  unfolding identity_headers_def Let_def by (intro agree_set agree_when agree_option)

lemma outgoing_stripped: "key \<in> set context_headers \<Longrightarrow> outgoing_headers out r token key = []"
  by (simp add: outgoing_headers_def strip_context_def Let_def)

text \<open>C33. No identity of the client's passes: each of the 22 identity headers of a request that reaches a service is absent or
  what the gateway sets from the session's resolved user, and the organisation is one that user belongs to, whatever
  headers the client sent.\<close>

theorem client_identity_never_passes:
  assumes "proxy cfg upstreams out policy iam now st r = (st', Forwarded target h)"
  shows "(\<forall>key\<in>set context_headers. h key = []) \<or>
    (\<exists>s u org risk. ss_user s = Some u \<and> (org = [] \<or> org \<in> trim_space ` set (elems (ui_org_ids u))) \<and>
      (\<exists>s0 st1 s1 force. session_of st (rq_cookie r) now = Some s0 \<and>
        ensure_session_user cfg iam now st s0 force = (st1, s1, True) \<and> ss_user s1 = Some u) \<and>
      (\<forall>key\<in>set context_headers. h key = identity_headers s u org risk (\<lambda>_. []) key))"
proof -
  obtain token where cases: "h = outgoing_headers out r token \<or>
      (\<exists>s route t0. session_of st (rq_cookie r) now = Some s \<and>
        proxy_session cfg iam now r route t0 (outgoing_headers out r token) st s = (st', Forwarded target h))"
    using assms unfolding proxy_def Let_def by (auto split: if_splits option.splits)
  then show ?thesis
  proof
    assume "h = outgoing_headers out r token"
    then show ?thesis by (simp add: outgoing_stripped)
  next
    assume "\<exists>s route t0. session_of st (rq_cookie r) now = Some s \<and>
        proxy_session cfg iam now r route t0 (outgoing_headers out r token) st s = (st', Forwarded target h)"
    then obtain s route t0 where s: "session_of st (rq_cookie r) now = Some s"
      and p: "proxy_session cfg iam now r route t0 (outgoing_headers out r token) st s = (st', Forwarded target h)" by blast
    consider (plain) "h = outgoing_headers out r token"
      | (user) st1 s1 st2 s2 u where
          "ensure_session_user cfg iam now st s (ro_risk route = ''high'') = (st1, s1, True)"
          "maybe_renew_session cfg now st1 s1 = (st2, s2)" "ss_user s2 = Some u"
          "active_org r = [] \<or> active_org r \<in> trim_space ` set (elems (ui_org_ids u))"
          "h = identity_headers s2 u (active_org r) (ro_risk route) (outgoing_headers out r token)"
      using p by (auto simp: proxy_session_def split: if_splits prod.splits bool.splits option.splits)
    then show ?thesis
    proof cases
      case plain
      then show ?thesis by (simp add: outgoing_stripped)
    next
      case user
      have "h key = identity_headers s2 u (active_org r) (ro_risk route) (\<lambda>_. []) key" if "key \<in> set context_headers" for key
        using identity_agree [of key "outgoing_headers out r token" "\<lambda>_. []" s2 u "active_org r" "ro_risk route"]
          outgoing_stripped [OF that, of out r token] user(5) by (simp add: agree_def)
      moreover have "ss_user s1 = Some u" using renew_user [OF user(2)] user(3) by simp
      ultimately show ?thesis using s user(1,3,4) by blast
    qed
  qed
qed

section \<open>The example\<close>

text \<open>A user of two tenants, with a session in Redis, asking for the high-risk route of the example policy.\<close>

definition demo_user :: user_info where
  "demo_user = empty_user\<lparr>ui_user_id := ''u1'', ui_subject := ''s1'', ui_tenant := ''T1'', ui_active_tenant := ''T1'',
     ui_memberships := Some [\<lparr>mb_tenant = ''T1'', mb_code = ''T1'', mb_name = ''T1'', mb_tenant_status = ''ACTIVE'',
       mb_status = ''ACTIVE'', mb_default = True\<rparr>],
     ui_org_ids := Some [''O1''], ui_group_ids := Some [''G1''], ui_perms := Some [''fin.post''], ui_caps_loaded := True,
     ui_auth_version := 3, ui_timezone := ''Asia/Ho_Chi_Minh''\<rparr>"

definition demo_iam :: iam_client where
  "demo_iam = \<lparr>ic_by_subject = (\<lambda>_. Inr \<lparr>iu_info = demo_user, iu_status = ''ACTIVE''\<rparr>),
     ic_by_id = (\<lambda>_ t. Inr \<lparr>iu_info = demo_user\<lparr>ui_tenant := (if t = [] then ''T1'' else t)\<rparr>, iu_status = ''ACTIVE''\<rparr>)\<rparr>"

definition down_iam :: iam_client where
  "down_iam = \<lparr>ic_by_subject = (\<lambda>_. Inl Iam_Unavailable), ic_by_id = (\<lambda>_ _. Inl Iam_Unavailable)\<rparr>"

definition demo_config :: gw_config where
  "demo_config = \<lparr>gc_session_ttl = 86400, gc_check_interval = 60, gc_recent_window = 300, gc_cache_ttl = 60\<rparr>"

definition demo_session :: session where
  "demo_session = \<lparr>ss_id = ''sid1'', ss_access = ''tok'', ss_refresh = ''ref'', ss_expires = Some (seconds 90000),
     ss_user = Some demo_user, ss_created = Some (seconds 1000), ss_auth_time = Some (seconds 1000), ss_iam_session = ''is1'',
     ss_last_check = Some (seconds 1000), ss_device = [], ss_device_name = [], ss_device_type = [], ss_ip = []\<rparr>"

definition gateway_demo_state :: gw_state where
  "gateway_demo_state = \<lparr>gs_store = redis_update redis_new demo_session (seconds 80000) (seconds 1000), gs_cache = Some Map.empty\<rparr>"

definition gateway_demo_request :: gw_request where
  "gateway_demo_request = \<lparr>rq_path = ''/api/finance/postings'', rq_method = ''POST'', rq_query = [],
     rq_headers = (\<lambda>k. if k = ''X-Global-Admin'' \<or> k = ''X-Tenant-Id'' then [''true''] else if k = ''X-Org-Id'' then [''O1''] else []),
     rq_cookie = ''sid1''\<rparr>"

definition demo_outside :: gw_outside where
  "demo_outside = \<lparr>go_target_ok = (\<lambda>_. True), go_issue = (\<lambda>_. None), go_request_id = ''r1'', go_trace_id = []\<rparr>"

definition demo_proxy :: "gw_state \<times> gw_result" where
  "demo_proxy = proxy demo_config [(''/api/finance'', ''http://fin'')] demo_outside (Some demo_policy) (Some demo_iam) (seconds 1200)
     gateway_demo_state gateway_demo_request"

definition demo_headers :: headers where
  "demo_headers = (case snd demo_proxy of Forwarded _ h \<Rightarrow> h | _ \<Rightarrow> (\<lambda>_. []))"

definition demo_high :: route where
  "demo_high = demo_policy ! 1"

lemma demo_forwarded:
  "proxy demo_config [(''/api/finance'', ''http://fin'')] demo_outside (Some demo_policy) (Some demo_iam) (seconds 1200)
     gateway_demo_state gateway_demo_request = (fst demo_proxy, Forwarded ''http://fin/api/finance/postings'' demo_headers)"
proof -
  have "case snd demo_proxy of Forwarded t _ \<Rightarrow> t = ''http://fin/api/finance/postings'' | _ \<Rightarrow> False" by code_simp
  then have "snd demo_proxy = Forwarded ''http://fin/api/finance/postings'' demo_headers"
    by (simp add: demo_headers_def split: gw_result.splits)
  then show ?thesis unfolding demo_proxy_def by (metis prod.collapse)
qed

lemma demo_route:
  "match_policy demo_policy (rq_path gateway_demo_request) (rq_method gateway_demo_request) = Some demo_high"
  "ro_auth demo_high" "ro_risk demo_high = ''high''" "ro_perms demo_high = [''fin.post'']"
  by code_simp+

theorem proxy_needs_permission_witness:
  "\<exists>s u uc fb. session_of gateway_demo_state ''sid1'' (seconds 1200) = Some s \<and> permitted u demo_high \<and> \<not> user_revoked uc \<and>
     u = user_from_iam uc fb"
proof -
  have "rq_cookie gateway_demo_request = ''sid1''" by (simp add: gateway_demo_request_def)
  then show ?thesis
    using proxy_needs_permission [OF demo_forwarded demo_route(1,2), folded permitted_iff] demo_route(3) by auto
qed

theorem client_identity_never_passes_witness:
  "demo_headers ''X-Tenant-Id'' = [''T1''] \<and>
   (\<exists>s u org risk. ss_user s = Some u \<and> demo_headers ''X-Global-Admin'' = identity_headers s u org risk (\<lambda>_. []) ''X-Global-Admin'')"
proof -
  have sent: "demo_headers ''X-Tenant-Id'' = [''T1'']" by code_simp
  have ctx: "''X-Tenant-Id'' \<in> set context_headers" "''X-Global-Admin'' \<in> set context_headers" by code_simp+
  have "\<not> (\<forall>key\<in>set context_headers. demo_headers key = [])" using sent ctx(1) by force
  then show ?thesis using client_identity_never_passes [OF demo_forwarded] sent ctx(2) by blast
qed

section \<open>The tenant\<close>

lemma identity_tenant: "identity_headers s u org risk h ''X-Tenant-Id'' = [ui_tenant u]"
  by (simp add: identity_headers_def Let_def set_header_def set_when_def split: option.split)

text \<open>C34. A switched tenant is forgotten on the requests that matter most: a high-risk route reloads the user without naming
  the tenant of the session, so when IAM then answers the default tenant, the request carries the default
  tenant, whichever tenant the user had switched to.\<close>

theorem switched_tenant_forgotten:
  assumes "proxy cfg upstreams out (Some rules) (Some client) now st r = (st', Forwarded target h)"
    and "match_policy rules (rq_path r) (rq_method r) = Some route" "ro_auth route" "ro_risk route = ''high''"
    and "\<forall>x uc. ic_by_subject client x = Inr uc \<longrightarrow> ui_tenant (iu_info uc) = default_tenant"
    and "\<forall>i uc. ic_by_id client i [] = Inr uc \<longrightarrow> ui_tenant (iu_info uc) = default_tenant"
  shows "h ''X-Tenant-Id'' = [default_tenant]"
proof -
  obtain s st1 s1 s2 u h0 where e: "ensure_session_user cfg (Some client) now st s True = (st1, s1, True)" "ss_user s1 = Some u"
    and h: "h = identity_headers s2 u (active_org r) (ro_risk route) h0"
    using proxy_passed [OF assms(1-3)] assms(4) by auto
  obtain uc fb where uc: "Inr uc \<in> set (iam_lookups client fb)" "u = user_from_iam uc fb"
    using forced_check [OF e(1)] e(2) by auto
  have "ui_tenant (iu_info uc) = default_tenant"
    using uc(1) assms(5,6) unfolding iam_lookups_def by (auto split: if_splits dest: sym)
  then show ?thesis using h uc(2) by (simp add: identity_tenant user_from_iam_def Let_def)
qed

definition demo_switched :: "gw_state \<times> (int + user_info)" where
  "demo_switched = switch_tenant (Some demo_iam) (seconds 1100) gateway_demo_state ''sid1'' ''T2''"

definition demo_switched_proxy :: "gw_state \<times> gw_result" where
  "demo_switched_proxy = proxy demo_config [(''/api/finance'', ''http://fin'')] demo_outside (Some demo_policy) (Some demo_iam)
     (seconds 1200) (fst demo_switched) gateway_demo_request"

theorem switched_tenant_forgotten_witness:
  "map_option ui_tenant (Option.bind (session_of (fst demo_switched) ''sid1'' (seconds 1200)) ss_user) = Some ''T2'' \<and>
   (\<exists>st' target h. demo_switched_proxy = (st', Forwarded target h) \<and> h ''X-Tenant-Id'' = [''T1''])"
proof -
  have kept: "map_option ui_tenant (Option.bind (session_of (fst demo_switched) ''sid1'' (seconds 1200)) ss_user) = Some ''T2''"
    by code_simp
  have "case snd demo_switched_proxy of Forwarded _ _ \<Rightarrow> True | _ \<Rightarrow> False" by code_simp
  then obtain st' target h where p: "demo_switched_proxy = (st', Forwarded target h)"
    by (metis gw_result.exhaust gw_result.simps(5) prod.collapse)
  have "\<forall>x uc. ic_by_subject demo_iam x = Inr uc \<longrightarrow> ui_tenant (iu_info uc) = ''T1''"
    "\<forall>i uc. ic_by_id demo_iam i [] = Inr uc \<longrightarrow> ui_tenant (iu_info uc) = ''T1''"
    by (auto simp: demo_iam_def demo_user_def)
  then have "h ''X-Tenant-Id'' = [''T1'']"
    using switched_tenant_forgotten [OF p [unfolded demo_switched_proxy_def] demo_route(1-3)] by blast
  then show ?thesis using kept p by blast
qed

section \<open>Sessions that come back and sessions that are lost\<close>

text \<open>C35. A logout can be undone by a request that was under way: the request read the session before, and writing it
  back afterwards (a refreshed user or a slid expiry) stores it again, so the cookie works until the session's expiry.\<close>

theorem logout_undone:
  assumes "session_of st sid now = Some s" "ss_id s = sid" "ss_expires s = Some expires" "now'' < expires" "t < expires"
  shows "session_of (logout now' st sid) sid t = None \<and>
    session_of (update_session (logout now' st sid) s now'') sid t = Some (json_session s)"
proof -
  have sid: "sid \<noteq> []" using assms(1) by (auto simp: session_of_def)
  have t: "t < now'' + (expires - now'')" using assms(5) by simp
  have "redis_get (redis_update (redis_delete (gs_store st) (ss_id s) now') s (expires - now'') now'') (ss_id s) t =
      Some (json_session s)"
    by (rule redis.write_back_revives) (use sid assms(2) t in simp_all)
  then show ?thesis
    using sid assms(2-4) redis.deleted_gone [of "gs_store st" sid now' t]
    by (simp add: session_of_def logout_def update_session_def)
qed

theorem logout_undone_witness:
  "session_of (logout (seconds 1300) gateway_demo_state ''sid1'') ''sid1'' (seconds 1500) = None \<and>
   session_of (update_session (logout (seconds 1300) gateway_demo_state ''sid1'') (json_session demo_session) (seconds 1400)) ''sid1''
     (seconds 1500) \<noteq> None"
proof -
  let ?s = "json_session demo_session"
  have read: "session_of gateway_demo_state ''sid1'' (seconds 1200) = Some ?s"
    by (simp add: session_of_def gateway_demo_state_def redis_get_def redis_update_def demo_session_def seconds_def)
  have fields: "ss_id ?s = ''sid1''" "ss_expires ?s = Some (seconds 90000)" by (simp_all add: json_session_def demo_session_def)
  have times: "seconds 1400 < seconds 90000" "seconds 1500 < seconds 90000" by (simp_all add: seconds_def)
  note T = logout_undone [OF read fields times, of "seconds 1300"]
  show ?thesis using T by (simp only: option.distinct not_False_eq_True simp_thms)
qed

text \<open>An outage of IAM logs out users without groups: when a scheduled check is due and no lookup answers, a session is
  served on exactly when its user counts as complete, and a user that IAM answered with an empty list of groups never
  does, since the copy of an empty list is nil.\<close>

theorem outage_drops_users_without_groups:
  assumes "\<forall>x. ic_by_subject client x = Inl Iam_Unavailable" "\<forall>i t. ic_by_id client i t = Inl Iam_Unavailable"
    and "refresh_due now (ss_last_check s) (check_interval cfg) False" "ss_user s = Some u"
  shows "snd (snd (ensure_session_user cfg (Some client) now st s False)) = user_complete (Some (with_subject_id u)) \<and>
    (\<forall>uc fb. u = user_from_iam uc fb \<and> elems (ui_group_ids (iu_info uc)) = [] \<longrightarrow>
      \<not> snd (snd (ensure_session_user cfg (Some client) now st s False)))"
proof -
  have "first_answer rs = None" if "\<forall>a\<in>set rs. a = Inl Iam_Unavailable" for rs
    using that by (induction rs rule: first_answer.induct) auto
  then have none: "first_answer (iam_lookups client v) = None" for v
    using assms(1,2) by (auto simp: iam_lookups_def)
  have "\<exists>st1 res. resolve_session_user cfg (Some client) now st (Some u) False = (st1, Some (with_subject_id u), res) \<and> res = Unresolved"
  proof -
    have "\<not> (iam_lookups client v \<noteq> [] \<and> (\<forall>a\<in>set (iam_lookups client v). a = Inl User_Not_Found))" for v
      using assms(1,2) by (auto simp: iam_lookups_def)
    then show ?thesis
      by (cases "gs_cache st") (simp_all add: resolve_session_user_def resolve_uncached_def none Let_def del: not_all)
  qed
  then have served: "snd (snd (ensure_session_user cfg (Some client) now st s False)) = user_complete (Some (with_subject_id u))"
    using assms(3,4) by (auto simp: ensure_session_user_def Let_def)
  have "\<not> user_complete (Some (with_subject_id u))" if "u = user_from_iam uc fb" "elems (ui_group_ids (iu_info uc)) = []" for uc fb
    using that by (simp add: user_complete_def with_subject_id_def user_from_iam_def append_nil_def Let_def)
  then show ?thesis using served by blast
qed

definition lone_session :: session where
  "lone_session = demo_session\<lparr>ss_user := Some (user_from_iam \<lparr>iu_info = demo_user\<lparr>ui_group_ids := Some []\<rparr>, iu_status = ''ACTIVE''\<rparr> empty_user)\<rparr>"

theorem outage_drops_users_without_groups_witness:
  "snd (snd (ensure_session_user demo_config (Some down_iam) (seconds 1200) gateway_demo_state demo_session False)) \<and>
   \<not> snd (snd (ensure_session_user demo_config (Some down_iam) (seconds 1200) gateway_demo_state lone_session False))"
proof -
  have down: "\<forall>x. ic_by_subject down_iam x = Inl Iam_Unavailable" "\<forall>i t. ic_by_id down_iam i t = Inl Iam_Unavailable"
    by (simp_all add: down_iam_def)
  have due: "refresh_due (seconds 1200) (ss_last_check demo_session) (check_interval demo_config) False"
    "refresh_due (seconds 1200) (ss_last_check lone_session) (check_interval demo_config) False" by code_simp+
  have users: "ss_user demo_session = Some demo_user"
    "ss_user lone_session = Some (user_from_iam \<lparr>iu_info = demo_user\<lparr>ui_group_ids := Some []\<rparr>, iu_status = ''ACTIVE''\<rparr> empty_user)"
    by (simp_all add: demo_session_def lone_session_def)
  have "user_complete (Some (with_subject_id demo_user))" by code_simp
  then show ?thesis
    using outage_drops_users_without_groups [OF down due(1) users(1), of gateway_demo_state]
      outage_drops_users_without_groups [OF down due(2) users(2), of gateway_demo_state]
    by (auto simp: elems_def)
qed

section \<open>Smaller findings\<close>

text \<open>
  The index of a user's sessions expires with the session written last: another session of the user
  that lives longer is then neither listed nor revoked.
\<close>

lemma redis_index_forgets:
  assumes "ss_id s \<noteq> []" "session_user_id s = uid" "uid \<noteq> []" "now + ttl \<le> t"
  shows "snd (redis_list_by_user (redis_update st s ttl now) uid t) = {}"
    and "sid \<noteq> ss_id s \<Longrightarrow> redis_get (fst (redis_revoke_by_user (redis_update st s ttl now) uid t)) sid t = redis_get st sid t"
proof -
  have none: "redis_smembers (redis_update st s ttl now) uid t = {}"
    using assms by (simp add: redis_update_def redis_put_def redis_smembers_def redis_expire_def redis_index_def Let_def)
  then show "snd (redis_list_by_user (redis_update st s ttl now) uid t) = {}"
    by (simp add: redis_list_by_user_def Let_def)
  have "redis_get (fst (redis_revoke_by_user (redis_update st s ttl now) uid t)) sid t = redis_get (redis_update st s ttl now) sid t"
    by (rule redis_get_cong) (simp add: redis_revoke_by_user_def none Let_def)
  also assume "sid \<noteq> ss_id s"
  then have "redis_get (redis_update st s ttl now) sid t = redis_get st sid t" by (rule redis.update_other)
  finally show "redis_get (fst (redis_revoke_by_user (redis_update st s ttl now) uid t)) sid t = redis_get st sid t" .
qed

text \<open>A session read from Redis has lost the user's time zone, and the header that forwards it is not set.\<close>

lemma timezone_lost:
  assumes "t < now + ttl" "ss_id s \<noteq> []" "redis_get (redis_update st s ttl now) (ss_id s) t = Some s'" "ss_user s' = Some u"
  shows "ui_timezone u = []" and "identity_headers s' u org risk (\<lambda>_. []) ''X-User-Timezone'' = []"
proof -
  have "s' = json_session s" using redis.get_updated [OF assms(2,1)] assms(3) by simp
  then show tz: "ui_timezone u = []" using assms(4) by (auto simp: json_session_def)
  show "identity_headers s' u org risk (\<lambda>_. []) ''X-User-Timezone'' = []"
    by (simp add: identity_headers_def Let_def set_header_def set_when_def tz split: option.split)
qed

text \<open>The check of Traefik lets a disabled account pass, which the proxy refuses.\<close>

lemma check_ignores_disabled:
  "let iam = \<lparr>ic_by_subject = (\<lambda>_. Inr \<lparr>iu_info = demo_user, iu_status = ''DISABLED''\<rparr>), ic_by_id = (\<lambda>_ _. Inl Iam_Unavailable)\<rparr>;
       req = gateway_demo_request\<lparr>rq_headers := (\<lambda>k. if k = ''Authorization'' then [''Bearer x''] else [])\<rparr>;
       out = \<lparr>co_path = Some, co_subject = (\<lambda>_. Some ''s1'')\<rparr>
   in (case snd (check 60 out demo_policy iam (seconds 1200) None req) of Allowed (Some _) \<Rightarrow> True | _ \<Rightarrow> False) \<and>
      (case snd (proxy demo_config [(''/api/finance'', ''http://fin'')] demo_outside (Some demo_policy) (Some iam) (seconds 1200)
        gateway_demo_state gateway_demo_request) of Denied status code _ \<Rightarrow> (status, code) = (401, ''user_context_unavailable'') | _ \<Rightarrow> False)"
  by code_simp

end
