(* ===== verification/Spec2Isabelle.thy ===== *)
theory Spec2Isabelle
  imports Posting_Theorems Loan_Config Loan_Schedule Loan_Facts Loan_Batch_Facts Loan_Pending Deposit_Accounts
    Deposit_Ibm_Theorems Gateway_Theorems
begin

text \<open>
  A model of the money core of the Arda back end (Go services over PostgreSQL) and of the gate in front
  of it: the general ledger of the finance service, the interest and schedule rules, the contracts,
  drawdowns, receipts and batches of the loan service, the accounts, interest and interbank contracts
  of the deposit service, the route policy, sessions and proxy of the gateway, and the shared libraries
  for dates, money and posting cards.

  Parts of the program and how they interact. The services are separate processes, each with a
  database of its own. The finance service (apps/finance-service) keeps the journal and the
  balances; the loan service (apps/loan-service) computes interest, schedules, limits and provisions,
  holds the amount of a drawdown against the limit of its contract while it is decided, and books what
  was settled on the agreement; batches reach the workflow service through a queue of the database;
  the deposit service (apps/deposit-service) accrues interest every day, stages payouts, and posts
  both in finance under a deterministic key. Approvals run in the workflow service, which calls back
  with a decision. Requests of the browser come through the gateway (apps/auth-gateway), which matches
  the route, resolves the user of the session in IAM and sends the request on with the identity of
  that user. Amounts are int64 minor units, rates and interest are decimals, dates are ISO
  texts.

  Theories and the code they model:

    Prelude: results, int64 arithmetic with wrap-around, maps and lists, shared by all.
    Go_Date: calendar dates and their ISO spelling (time.Time, time.Parse, Format) and the month
      arithmetic of src/libs/go/arda-time/arda.go.
    Decimal: the interface of the decimal library as a locale, with its interpretation on exact
      division and rounding half away from zero.
    Money: src/libs/go/arda-money/money.go.
    Balance, Journal, Posting_Policy, Posting: the finance service, balance_math.go, the tables of
      posting_repo.go, balance_repo.go and closing_repo.go, the policies, and posting_service.go
      (reserve, post, release, reverse); Ledger, Posting_Safety and Posting_Theorems hold the
      results on it.
    Loan_Interest, Loan_Config: interest.go and interest_config.go of the loan domain.
    Loan_Status: status.go, the five status machines. Loan_Rules: the contract, limit and provision
      rules. Loan_Schedule: repayment_schedule.go.
    Loan_Db: the rows of the loan service and the statements of contract_exposure_repo.go,
      disbursement_repo.go, agreement_repo.go and outbox.go; the state is the record loan_db, one list of
      rows per table of a tenant. Loan_Contracts: contract_service.go, approval_limits.go and
      CreateAgreement. Loan_Drawdown: disbursement_service.go. Loan_Receipts: collection_service.go,
      batch_collection_service.go and their statements. Loan_Batches and Loan_Batch_Run: the
      batch_disbursement files of the service and the repository and disbursement_submission_repo.go
      (drafts and submission; check, decision, settlement and queue). Loan_Adjustments:
      adjustment_service.go and adjustment_repo.go, with the list of kinds of arda-grpc/client/loan. Loan_Runs makes the calls one
      datatype. Loan_Exposure, Loan_Calls, Loan_Limits, Loan_Queue_Limits, Loan_Books,
      Loan_Conservation and Loan_Pending hold the invariants, call by call; Loan_Settling, Loan_Facts and
      Loan_Batch_Facts what single calls answer.
    Deposit_Interest: interest/calculator.go of the deposit service.
    Deposit_Db: the rows and the statements of repository/deposit_repo.go; the state is the record
      deposit_db, one list of rows per table of a tenant. Deposit_Accrual: accrual_cumulative.go and
      RunDaily of interest_service.go; Deposit_Ops: SubmitInterest, CheckInterestOp and
      ResolveInterestOp; Deposit_Rates: SubmitRate, CheckRateRequest and ResolveRateRequest with the table
      of rates. Deposit_Accrual_Safety, Deposit_Rerun, Deposit_Ops_Safety and
      Deposit_Theorems hold the results.
    Posting_Card: src/libs/go/arda-grpc/client/finance/postingrules.go, the lines of a posting from
      the accounting card of its document type. Deposit_Settlement: settlement_service.go and
      additional_deposit_service.go on the same state; Deposit_Principal and Deposit_Accounts hold the
      results.
    Deposit_Ibm: ibm_service.go, ibm_borrow_service.go and their statements, on the record ibm_db;
      Deposit_Ibm_Theorems holds the results.
    Route_Policy: policy/policy.go of the gateway and permission/check.go of arda-auth. Session_Store:
      session/session.go and session/redis.go, two providers of one locale of laws. Gateway_Session:
      session_resolve.go, user_context_cache.go and the handlers for tenant, step-up and logout.
      Gateway_Proxy: proxy.go and auth_handler.go. Gateway_Theorems holds the results.

  What the lemmas show:

    Ledger: in every state that any calls reach, entries of several currencies included, debits equal
      credits per currency, the counters are non-negative and are the totals of the journal unless an
      entry of mixed currencies was reversed, a key has one entry, entries are never rewritten, a
      reservation can be released without a trace and posted as if it had been posted directly.
    Interest calculators (loan and deposit): agreement with counting day by day; errors exactly where
      a rate is missing; rounding; the configuration in force and that a valid one is accepted.
    Loan rules: approval comes before posting and every case can close, over guarded histories; the
      schedule is complete and adds up; limits and provisions are exact.
    Loan calls: over every run from empty tables no contract has more in use than its amount (given that
      no batch sum wraps, no revision goes below what is in use and no write-off or recovery is negative,
      which the service does not check; negative_recovery_breaks_limit shows what the last one costs), and what is pending on an agreement is
      what was registered less what was completed; a drawdown is granted exactly when it fits, and a
      refusal gives back what it held; which settlements answer success without settling, and which can
      never succeed.
    Deposit interest: windows chain, a run catches up to the unit, a rerun adds nothing, the retry
      loop ends; every call is a sequence of repository transactions, and any interleaving of these,
      cut short anywhere, conserves the interest owed but for the operations whose status a rejection
      overwrote after they had taken their amount, which a run lists; a stale approval of a rate takes
      effect.
    Deposit accounts: the principal is what went into an account, a settled account is final, a
      settlement pays out exactly the account; the lines of a posting are its legs with the accounts
      of the card.
    Interbank: which approvals take effect and which are lost between finance and the contract.
    Gateway: a loaded policy is closed, the most specific route is found, a protected route needs a
      live session and the permission, and no identity of the client's passes; both stores keep the
      laws of a session store.
    Divergences found: overflowing balance sums, mixed-currency reversals, month ends, provisions in
      whole major units, the default rate hiding the product's own, the approval that cannot be
      retried, the racing rejection, the stale rate, the negative recovery, the day accrued twice, accounts that never accrue, placements that
      never activate, movements lost after posting, drawdowns and batches that a version guard keeps from
      being settled, the check that counts its own rows, batches of receipts that cannot be created,
      tenants forgotten and logouts undone.

  Parameters and hypotheses. Decimal division and rounding are parameters with the documented laws of
  the library (a quotient within half a unit of the last place; values on the grid unchanged), and
  their interpretation is exact. Finance and the workflow service, seen from the deposit service, are
  functions that answer or fail, without any assumption; so is the workflow service seen from the loan
  service, whose answers are part of each call, and IAM, seen from the gateway. How the
  database reads a text as a date or a UUID is a parameter; the only laws assumed of it are that the
  text of a UUID is read as itself and is made of hexadecimal digits, hyphens and braces. A repository call that fails for reasons of
  the connection is not a branch of the model, except where the code reacts to it; the interleaving
  theorem covers a process that stops between two transactions.

  Bounds and fuel. Minor units are integers with the wrap-around of int64 written out (add64, sub64);
  database arithmetic fails outside of int64. The only loop without a structural measure completes
  stranded accrual rows: its fuel is one more than the number of rows, and pending_loop_ends shows
  that it is never used up on well-formed rows. The rejection of an operation reads and writes the
  status in two statements, of which the second has no guard: it is a step at any status in the
  interleaving theorems, and reject_race shows what that costs.

  Not modelled: tenants (the state is that of one tenant), time stamps and audit columns, message
  texts of errors, the generated row ids (here positions); the finance cases, closing, cash and
  statement services; the accrual runs, provisioning runs and collateral of the loan service, and the
  rates and repayment plans that an adjustment writes; the widths of text columns and the cast of a
  generated id to a UUID, except where a theorem is about it; deposit product requests and reports; login, OAuth and device flows of the gateway;
  workflow, IAM, AI, master data, notification and the other services; document numbers; transport,
  configuration and infrastructure libraries. Most of these are row maintenance or calls to systems
  outside of the repository (the process engine, the identity servers, the language models); the
  manifest lists each with its reason.
\<close>

end
